(* ===== verification/Prelude.thy ===== *)
theory Prelude
  imports Complex_Main "HOL-Library.List_Lexorder" "HOL-Library.Char_ord"
begin

text \<open>
  Shared vocabulary of the development: the pieces of Python's built-in behaviour the gateway
  uses (string tests, decimal rendering, slices from the end, stable sorting, \<open>min\<close> with a key),
  numbers extended with \<open>float('inf')\<close>, and the generic list and map lemmas the component
  theories rest on.

  Conventions. Python \<open>int\<close> is \<^typ>\<open>int\<close>; Python \<open>float\<close> is \<^typ>\<open>rat\<close>, so arithmetic is exact
  and IEEE rounding is not modelled; a \<open>datetime\<close> is its POSIX timestamp in microseconds (the
  resolution of the class), an \<^typ>\<open>int\<close>; \<open>time.time()\<close> and \<open>time.monotonic()\<close> are seconds,
  a \<^typ>\<open>rat\<close>. A Python \<open>str\<close> is a \<^typ>\<open>string\<close>, one \<^typ>\<open>char\<close> per code point below 256.
\<close>

named_theorems gw_defs \<open>definitions the component proofs unfold together\<close>
named_theorems gw_inv \<open>preservation lemmas of the component invariants\<close>

section \<open>Python strings\<close>

text \<open>The characters \<open>str.strip()\<close> removes, among code points below 256.\<close>

definition py_space :: "char \<Rightarrow> bool" where
  "py_space c \<longleftrightarrow> (let n = (of_char c :: nat) in
     (9 \<le> n \<and> n \<le> 13) \<or> (28 \<le> n \<and> n \<le> 32) \<or> n = 133 \<or> n = 160)"

definition py_strip :: "string \<Rightarrow> string" where
  "py_strip s = rev (dropWhile py_space (rev (dropWhile py_space s)))"

text \<open>\<open>not s.strip()\<close>.\<close>

definition blank :: "string \<Rightarrow> bool" where
  "blank s \<longleftrightarrow> list_all py_space s"

lemma blank_Nil [simp]: "blank []"
  by (simp add: blank_def)

lemma blank_iff_strip: "blank s \<longleftrightarrow> py_strip s = []"
proof -
  have "dropWhile py_space s = [] \<longleftrightarrow> list_all py_space s"
    by (simp add: list_all_iff)
  moreover have "py_strip s = [] \<longleftrightarrow> dropWhile py_space s = []"
  proof
    assume "py_strip s = []"
    then have all: "\<forall>x\<in>set (dropWhile py_space s). py_space x"
      by (simp add: py_strip_def)
    show "dropWhile py_space s = []"
    proof (rule ccontr)
      assume ne: "dropWhile py_space s \<noteq> []"
      then have "\<not> py_space (hd (dropWhile py_space s))" by (rule hd_dropWhile)
      with all ne show False by simp
    qed
  next
    assume "dropWhile py_space s = []"
    then show "py_strip s = []" by (auto simp: py_strip_def dest: set_dropWhileD)
  qed
  ultimately show ?thesis by (simp add: blank_def)
qed

text \<open>\<open>s.upper()\<close> on ASCII letters, \<open>s.startswith(p)\<close>, \<open>s.endswith(p)\<close> and \<open>p in s\<close>.\<close>

definition upper_char :: "char \<Rightarrow> char" where
  "upper_char c = (let n = (of_char c :: nat) in if 97 \<le> n \<and> n \<le> 122 then char_of (n - 32) else c)"

definition upper :: "string \<Rightarrow> string" where
  "upper s = map upper_char s"

definition starts_with :: "string \<Rightarrow> string \<Rightarrow> bool" where
  "starts_with p s \<longleftrightarrow> take (length p) s = p"

definition ends_with :: "string \<Rightarrow> string \<Rightarrow> bool" where
  "ends_with p s \<longleftrightarrow> starts_with (rev p) (rev s)"

fun contains_text :: "string \<Rightarrow> string \<Rightarrow> bool" where
  "contains_text p [] \<longleftrightarrow> p = []"
| "contains_text p (c # s) \<longleftrightarrow> starts_with p (c # s) \<or> contains_text p s"

lemma starts_with_append [simp]: "starts_with p (p @ s)"
  by (simp add: starts_with_def)

lemma starts_withD: "starts_with p s \<Longrightarrow> \<exists>u. s = p @ u"
  unfolding starts_with_def by (metis append_take_drop_id)

text \<open>\<open>s.rpartition(c)\<close>: the text before and after the last \<open>c\<close>, \<open>None\<close> when there is none.\<close>

definition rpartition :: "char \<Rightarrow> string \<Rightarrow> (string \<times> string) option" where
  "rpartition c s =
     (if c \<in> set s
      then Some (rev (tl (dropWhile (\<lambda>x. x \<noteq> c) (rev s))), rev (takeWhile (\<lambda>x. x \<noteq> c) (rev s)))
      else None)"

text \<open>\<open>s.split(c)\<close>.\<close>

fun split_on :: "char \<Rightarrow> string \<Rightarrow> string list" where
  "split_on c [] = [[]]"
| "split_on c (x # s) = (if x = c then [] # split_on c s
     else (case split_on c s of [] \<Rightarrow> [[x]] | p # ps \<Rightarrow> (x # p) # ps))"

text \<open>Truthiness of an optional string: neither \<open>None\<close> nor empty.\<close>

definition truthy :: "string option \<Rightarrow> bool" where
  "truthy s \<longleftrightarrow> (case s of None \<Rightarrow> False | Some t \<Rightarrow> t \<noteq> [])"

lemma truthy_simps [simp]: "\<not> truthy None" "truthy (Some t) \<longleftrightarrow> t \<noteq> []"
  by (simp_all add: truthy_def)

text \<open>\<open>str(n)\<close> of a natural number, and its inverse.\<close>

definition digit_char :: "nat \<Rightarrow> char" where
  "digit_char d = char_of (48 + d)"

fun show_nat :: "nat \<Rightarrow> string" where
  "show_nat n = (if n < 10 then [digit_char n] else show_nat (n div 10) @ [digit_char (n mod 10)])"

declare show_nat.simps [simp del]

definition read_nat :: "string \<Rightarrow> nat" where
  "read_nat s = foldl (\<lambda>acc c. 10 * acc + (of_char c - 48)) 0 s"

definition show_int :: "int \<Rightarrow> string" where
  "show_int i = (if i < 0 then CHR ''-'' # show_nat (nat (- i)) else show_nat (nat i))"

lemma of_digit_char: "d < 10 \<Longrightarrow> (of_char (digit_char d) :: nat) = 48 + d"
  by (simp add: digit_char_def of_char_of)

lemma read_show_nat: "read_nat (show_nat n) = n"
proof (induction n rule: show_nat.induct)
  case (1 n)
  show ?case
  proof (cases "n < 10")
    case True
    then show ?thesis by (simp add: show_nat.simps [of n] read_nat_def of_digit_char)
  next
    case False
    with "1.IH" have "read_nat (show_nat (n div 10)) = n div 10" by simp
    with False show ?thesis
      by (simp add: show_nat.simps [of n] read_nat_def of_digit_char)
  qed
qed

lemma show_nat_inject [simp]: "show_nat m = show_nat n \<longleftrightarrow> m = n"
  by (metis read_show_nat)

lemma show_nat_nonempty [simp]: "show_nat n \<noteq> []"
  by (subst show_nat.simps) simp

lemma show_nat_digits: "c \<in> set (show_nat n) \<Longrightarrow> 48 \<le> (of_char c :: nat) \<and> (of_char c :: nat) < 58"
proof (induction n rule: show_nat.induct)
  case (1 n)
  then show ?case
    by (cases "n < 10") (auto simp: show_nat.simps [of n] of_digit_char)
qed

lemma colon_not_digit: "CHR '':'' \<notin> set (show_nat n)"
  using show_nat_digits [of "CHR '':''" n] by auto

text \<open>
  A decimal length followed by a colon is self-delimiting: the separator cannot occur in the
  digits, so the length and the rest are determined by the text.
\<close>

lemma split_at_char:
  assumes "c \<notin> set a" "c \<notin> set b" "a @ c # x = b @ c # y"
  shows "a = b \<and> x = y"
  using assms
proof (induction a arbitrary: b)
  case Nil
  then show ?case by (cases b) auto
next
  case (Cons d a)
  then show ?case by (cases b) auto
qed

lemmas split_at_colon = split_at_char [of "CHR '':''"]

lemma length_prefixed_inject:
  assumes "show_nat (length s) @ CHR '':'' # s @ CHR '':'' # x
         = show_nat (length t) @ CHR '':'' # t @ CHR '':'' # y"
  shows "s = t \<and> x = y"
proof -
  from split_at_colon [OF colon_not_digit colon_not_digit assms]
  have "length s = length t" and "s @ CHR '':'' # x = t @ CHR '':'' # y" by auto
  then show ?thesis by simp
qed

lemma length_suffix_inject:
  assumes "show_nat (length s) @ CHR '':'' # s = show_nat (length t) @ CHR '':'' # t"
  shows "s = t"
  using split_at_colon [OF colon_not_digit colon_not_digit assms] by simp

text \<open>\<open>','.join(xs)\<close>.\<close>

fun join :: "string \<Rightarrow> string list \<Rightarrow> string" where
  "join sep [] = []"
| "join sep [x] = x"
| "join sep (x # y # ys) = x @ sep @ join sep (y # ys)"

section \<open>Slices and searches\<close>

text \<open>\<open>xs[-n:]\<close>. For \<open>n = 0\<close> Python reads \<open>xs[-0:] = xs[0:]\<close>: the whole list.\<close>

definition slice_last :: "int \<Rightarrow> 'a list \<Rightarrow> 'a list" where
  "slice_last n xs = (if 0 < n then drop (length xs - nat n) xs else drop (nat (- n)) xs)"

lemma length_slice_last: "0 < n \<Longrightarrow> length (slice_last n xs) = min (nat n) (length xs)"
  by (simp add: slice_last_def)

lemma slice_last_suffix: "\<exists>ys. xs = ys @ slice_last n xs"
  unfolding slice_last_def by (metis append_take_drop_id)

lemma set_slice_last: "set (slice_last n xs) \<subseteq> set xs"
  by (simp add: slice_last_def set_drop_subset)

lemma find_Some_set: "find P xs = Some x \<Longrightarrow> x \<in> set xs \<and> P x"
  by (induction xs) (auto split: if_splits)

lemma find_None_all: "find P xs = None \<longleftrightarrow> (\<forall>x\<in>set xs. \<not> P x)"
  by (induction xs) auto

lemma find_cong_set: "(\<And>x. x \<in> set xs \<Longrightarrow> P x = Q x) \<Longrightarrow> find P xs = find Q xs"
  by (induction xs) auto

text \<open>\<open>min(xs, key=f)\<close> on a non-empty list: the first element with the least key.\<close>

lemma arg_min_list_first:
  "xs \<noteq> [] \<Longrightarrow> arg_min_list f xs \<in> set xs \<and> (\<forall>x\<in>set xs. f (arg_min_list f xs) \<le> f x)"
proof (induction xs rule: induct_list012)
  case (3 x y zs)
  then have IH: "arg_min_list f (y # zs) \<in> set (y # zs)"
    "\<forall>z\<in>set (y # zs). f (arg_min_list f (y # zs)) \<le> f z" by auto
  show ?case
  proof (cases "f x \<le> f (arg_min_list f (y # zs))")
    case True
    have "f x \<le> f z" if "z \<in> set (y # zs)" for z
      using True IH(2) that by (blast intro: order_trans)
    then show ?thesis using True by (simp add: Let_def)
  next
    case False
    then show ?thesis using IH by (auto simp: Let_def)
  qed
qed simp_all

lemmas arg_min_list_member = arg_min_list_first [THEN conjunct1]
lemmas arg_min_list_least = arg_min_list_first [THEN conjunct2, rule_format]

section \<open>Numbers with positive infinity\<close>

text \<open>The range of the sort keys that use \<open>float('inf')\<close> for "no figure".\<close>

datatype ext_num = Fin rat | Inf

instantiation ext_num :: linorder
begin
fun less_eq_ext_num :: "ext_num \<Rightarrow> ext_num \<Rightarrow> bool" where
  "less_eq_ext_num _ Inf = True"
| "less_eq_ext_num Inf (Fin _) = False"
| "less_eq_ext_num (Fin a) (Fin b) = (a \<le> b)"
definition less_ext_num :: "ext_num \<Rightarrow> ext_num \<Rightarrow> bool" where
  "less_ext_num a b \<longleftrightarrow> a \<le> b \<and> \<not> b \<le> (a :: ext_num)"
instance
proof
  fix x y z :: ext_num
  show "x < y \<longleftrightarrow> x \<le> y \<and> \<not> y \<le> x" by (rule less_ext_num_def)
  show "x \<le> x" by (cases x) auto
  show "x \<le> y \<Longrightarrow> y \<le> z \<Longrightarrow> x \<le> z" by (cases x; cases y; cases z) auto
  show "x \<le> y \<Longrightarrow> y \<le> x \<Longrightarrow> x = y" by (cases x; cases y) auto
  show "x \<le> y \<or> y \<le> x" by (cases x; cases y) auto
qed
end

lemma Inf_top [simp]: "Inf \<le> x \<longleftrightarrow> x = (Inf :: ext_num)"
  by (cases x) auto

section \<open>Optional limits\<close>

text \<open>\<open>b if a is None else min(a, b)\<close>, the combination every limit of the gateway uses.\<close>

definition opt_min :: "'a :: linorder option \<Rightarrow> 'a option \<Rightarrow> 'a option" where
  "opt_min a b = (case b of None \<Rightarrow> a
     | Some y \<Rightarrow> (case a of None \<Rightarrow> Some y | Some x \<Rightarrow> Some (min x y)))"

text \<open>\<open>within_limit v l\<close>: the value respects the limit, an absent limit allowing everything.\<close>

definition within_limit :: "'a :: linorder \<Rightarrow> 'a option \<Rightarrow> bool" where
  "within_limit v l \<longleftrightarrow> (case l of None \<Rightarrow> True | Some b \<Rightarrow> v \<le> b)"

lemma opt_min_simps [simp]:
  "opt_min a None = a"
  "opt_min None b = b"
  "opt_min (Some x) (Some y) = Some (min x y)"
  by (simp_all add: opt_min_def split: option.splits)

lemma opt_min_assoc: "opt_min (opt_min a b) c = opt_min a (opt_min b c)"
  by (cases a; cases b; cases c) (simp_all add: min.assoc)

lemma opt_min_commute: "opt_min a b = opt_min b a"
  by (cases a; cases b) (simp_all add: min.commute)

lemma within_limit_simps [simp]: "within_limit v None" "within_limit v (Some b) \<longleftrightarrow> v \<le> b"
  by (simp_all add: within_limit_def)

lemma within_limit_opt_min: "within_limit v (opt_min a b) \<longleftrightarrow> within_limit v a \<and> within_limit v b"
  by (cases a; cases b) auto

section \<open>Dictionaries\<close>

text \<open>\<open>d.get(k, default)\<close>.\<close>

definition get_or :: "('k \<rightharpoonup> 'v) \<Rightarrow> 'k \<Rightarrow> 'v \<Rightarrow> 'v" where
  "get_or m k d = (case m k of None \<Rightarrow> d | Some v \<Rightarrow> v)"

lemma get_or_upd [simp]: "get_or (m(k \<mapsto> v)) k' d = (if k' = k then v else get_or m k' d)"
  by (simp add: get_or_def)

lemma get_or_del [simp]: "get_or (m(k := None)) k' d = (if k' = k then d else get_or m k' d)"
  by (simp add: get_or_def)

lemma get_or_empty [simp]: "get_or Map.empty k d = d"
  by (simp add: get_or_def)

lemma get_or_Some [simp]: "m k = Some v \<Longrightarrow> get_or m k d = v"
  by (simp add: get_or_def)

lemma get_or_None [simp]: "m k = None \<Longrightarrow> get_or m k d = d"
  by (simp add: get_or_def)

end
