(* ===== verification/Health.thy ===== *)
theory Health
  imports Prelude
begin

text \<open>
  The provider health tracker, \<open>src/gateway/health_tracker.py\<close>: cooldown expiries and latency
  records per provider. The two dictionaries are the record \<open>tracker\<close>; every method is a
  function from the clock reading (\<open>time.time()\<close>, a parameter) and the tracker to its result and
  the updated tracker. The lemmas show when a provider counts as healthy, that a query only
  drops expired entries, and that the latency store stays bounded and averages within its data.
\<close>

section \<open>State and operations\<close>

record tracker =
  unhealthy :: "string \<rightharpoonup> rat"
  latencies :: "string \<rightharpoonup> (rat \<times> rat) list"

definition new_tracker :: tracker where
  "new_tracker = \<lparr>unhealthy = Map.empty, latencies = Map.empty\<rparr>"

definition mark_unhealthy :: "rat \<Rightarrow> string \<Rightarrow> int \<Rightarrow> tracker \<Rightarrow> tracker" where
  "mark_unhealthy now provider cooldown_seconds t =
     t\<lparr>unhealthy := (unhealthy t)(provider \<mapsto> now + of_int cooldown_seconds)\<rparr>"

definition is_healthy :: "rat \<Rightarrow> string \<Rightarrow> tracker \<Rightarrow> bool \<times> tracker" where
  "is_healthy now provider t =
     (case unhealthy t provider of
        None \<Rightarrow> (True, t)
      | Some expiry \<Rightarrow>
          if expiry \<le> now then (True, t\<lparr>unhealthy := (unhealthy t)(provider := None)\<rparr>)
          else (False, t))"

definition MAX_LATENCY_RECORDS :: int where
  "MAX_LATENCY_RECORDS = 1000"

definition record_latency :: "rat \<Rightarrow> string \<Rightarrow> rat \<Rightarrow> tracker \<Rightarrow> tracker" where
  "record_latency now provider latency_ms t =
     (let records = get_or (latencies t) provider [] @ [(now, latency_ms)];
          kept = (if MAX_LATENCY_RECORDS < int (length records)
                  then slice_last (MAX_LATENCY_RECORDS div 2) records else records)
      in t\<lparr>latencies := (latencies t)(provider \<mapsto> kept)\<rparr>)"

definition get_average_latency :: "rat \<Rightarrow> string \<Rightarrow> int \<Rightarrow> tracker \<Rightarrow> ext_num" where
  "get_average_latency now provider window_seconds t =
     (let records = get_or (latencies t) provider [] in
      if records = [] then Inf
      else let cutoff = now - of_int window_seconds;
               in_window = [lat. (ts, lat) \<leftarrow> records, cutoff \<le> ts]
           in if in_window = [] then Inf
              else Fin (sum_list in_window / of_nat (length in_window)))"

section \<open>Health\<close>

text \<open>What \<open>is_healthy\<close> answers, without its clean-up.\<close>

definition healthy_at :: "rat \<Rightarrow> tracker \<Rightarrow> string \<Rightarrow> bool" where
  "healthy_at now t provider \<longleftrightarrow>
     (case unhealthy t provider of None \<Rightarrow> True | Some expiry \<Rightarrow> expiry \<le> now)"

lemma is_healthy_value: "fst (is_healthy now p t) = healthy_at now t p"
  by (simp add: is_healthy_def healthy_at_def split: option.splits)

text \<open>The clean-up is invisible at the same or a later time.\<close>

lemma is_healthy_cleanup:
  "now \<le> later \<Longrightarrow> healthy_at later (snd (is_healthy now p t)) q = healthy_at later t q"
  by (auto simp: is_healthy_def healthy_at_def split: option.splits)

lemma is_healthy_latencies [simp]: "latencies (snd (is_healthy now p t)) = latencies t"
  by (simp add: is_healthy_def split: option.splits)

lemma healthy_at_mark:
  "healthy_at later (mark_unhealthy now p c t) q
     = (if q = p then now + of_int c \<le> later else healthy_at later t q)"
  by (simp add: mark_unhealthy_def healthy_at_def)

lemma healthy_at_new [simp]: "healthy_at now new_tracker p"
  by (simp add: healthy_at_def new_tracker_def)

text \<open>\<open>[p for p in providers if health_tracker.is_healthy(p.provider)]\<close>, at one clock reading.\<close>

fun filter_healthy :: "rat \<Rightarrow> ('m \<Rightarrow> string) \<Rightarrow> 'm list \<Rightarrow> tracker \<Rightarrow> 'm list \<times> tracker" where
  "filter_healthy now prov [] t = ([], t)"
| "filter_healthy now prov (m # ms) t =
     (let (ok, t1) = is_healthy now (prov m) t; (rest, t2) = filter_healthy now prov ms t1
      in (if ok then m # rest else rest, t2))"

lemma filter_healthy_value:
  "fst (filter_healthy now prov ms t) = filter (\<lambda>m. healthy_at now t (prov m)) ms"
proof (induction ms arbitrary: t)
  case (Cons m ms)
  show ?case
    using Cons [of "snd (is_healthy now (prov m) t)"] is_healthy_value [of now "prov m" t]
    by (auto simp: Let_def is_healthy_cleanup split: prod.splits)
qed simp

lemma filter_healthy_cleanup:
  "now \<le> later \<Longrightarrow>
     healthy_at later (snd (filter_healthy now prov ms t)) q = healthy_at later t q"
proof (induction ms arbitrary: t)
  case (Cons m ms)
  show ?case
    using Cons.IH [of "snd (is_healthy now (prov m) t)", OF Cons.prems]
      is_healthy_cleanup [OF Cons.prems, of "prov m" t q]
    by (auto simp: Let_def split: prod.splits)
qed simp

lemma filter_healthy_latencies: "latencies (snd (filter_healthy now prov ms t)) = latencies t"
proof (induction ms arbitrary: t)
  case (Cons m ms)
  show ?case
    using Cons.IH [of "snd (is_healthy now (prov m) t)"] is_healthy_latencies [of now "prov m" t]
    by (auto simp: Let_def split: prod.splits)
qed simp

section \<open>Latency records\<close>

text \<open>The store never holds more than the maximum per provider.\<close>

definition latency_bounded :: "tracker \<Rightarrow> bool" where
  "latency_bounded t \<longleftrightarrow>
     (\<forall>p. int (length (get_or (latencies t) p [])) \<le> MAX_LATENCY_RECORDS)"

lemma latency_bounded_record [gw_inv]:
  "latency_bounded t \<Longrightarrow> latency_bounded (record_latency now p l t)"
  by (auto simp: latency_bounded_def record_latency_def Let_def MAX_LATENCY_RECORDS_def
      length_slice_last)

lemma latency_bounded_new [gw_inv]: "latency_bounded new_tracker"
  by (simp add: latency_bounded_def new_tracker_def MAX_LATENCY_RECORDS_def)

lemma latency_bounded_mark [gw_inv]:
  "latency_bounded t \<Longrightarrow> latency_bounded (mark_unhealthy now p c t)"
  by (simp add: latency_bounded_def mark_unhealthy_def)

lemma latency_bounded_query [gw_inv]:
  "latency_bounded t \<Longrightarrow> latency_bounded (snd (is_healthy now p t))"
  by (simp add: latency_bounded_def)

text \<open>The newest observation survives the trimming.\<close>

lemma record_latency_newest:
  "last (get_or (latencies (record_latency now p l t)) p []) = (now, l)"
  by (simp add: record_latency_def Let_def MAX_LATENCY_RECORDS_def slice_last_def)

text \<open>A mean lies between the bounds of its data.\<close>

lemma mean_bounds:
  fixes xs :: "rat list"
  assumes "xs \<noteq> []" and "\<And>x. x \<in> set xs \<Longrightarrow> lo \<le> x \<and> x \<le> hi"
  shows "lo \<le> sum_list xs / of_nat (length xs) \<and> sum_list xs / of_nat (length xs) \<le> hi"
proof -
  have "of_nat (length xs) * lo \<le> sum_list xs \<and> sum_list xs \<le> of_nat (length xs) * hi"
    using assms(2)
  proof (induction xs)
    case (Cons a xs)
    then have "of_nat (length xs) * lo \<le> sum_list xs" "sum_list xs \<le> of_nat (length xs) * hi"
      "lo \<le> a" "a \<le> hi" by auto
    then show ?case by (simp add: algebra_simps)
  qed simp
  moreover have "0 < (of_nat (length xs) :: rat)" using assms(1) by simp
  ultimately show ?thesis by (simp add: pos_le_divide_eq pos_divide_le_eq mult.commute)
qed

end
