(* ===== verification/Strategies.thy ===== *)
theory Strategies
  imports Health
begin

text \<open>
  Provider selection, \<open>src/gateway/routing.py\<close>: the round-robin, weighted, least-latency and
  cost-optimised strategies over the provider mappings of \<open>src/gateway/models.py\<close>, and the
  provider-level \<open>select\<close> of the smart strategy (\<open>src/gateway/smart_routing.py\<close>).

  The interface \<open>routing_strategy\<close> states what the router relies on: \<open>select\<close> answers
  \<open>NoHealthyProviderError\<close> exactly when no mapping is healthy and otherwise a healthy mapping
  of its argument. Every strategy is an interpretation. \<open>select\<close> is synchronous, so one clock
  reading stands for the readings it makes.
\<close>

section \<open>Pricing and mappings\<close>

text \<open>A rate as it may arrive from configuration: a finite number, one of the non-finite floats,
  or a \<open>bool\<close> (which Python counts as an \<open>int\<close> and \<open>is_billable\<close> rejects).\<close>

datatype rate = Rate rat | NonFinite | BoolRate bool

record token_pricing =
  prompt_token_cost :: rate
  completion_token_cost :: rate
  cached_token_cost :: "rate option"
  cache_creation_token_cost :: "rate option"
  image_token_cost :: "rate option"
  reasoning_token_cost :: "rate option"
  per_request_cost :: rate

definition finite_nonneg :: "rate \<Rightarrow> bool" where
  "finite_nonneg r \<longleftrightarrow> (case r of Rate x \<Rightarrow> 0 \<le> x | NonFinite \<Rightarrow> False | BoolRate b \<Rightarrow> False)"

definition positive_rate :: "rate \<Rightarrow> bool" where
  "positive_rate r \<longleftrightarrow> (case r of Rate x \<Rightarrow> 0 < x | NonFinite \<Rightarrow> False | BoolRate b \<Rightarrow> b)"

definition configured_rates :: "token_pricing \<Rightarrow> rate list" where
  "configured_rates p = List.map_filter id
     [Some (prompt_token_cost p), Some (completion_token_cost p), cached_token_cost p,
      cache_creation_token_cost p, image_token_cost p, reasoning_token_cost p,
      Some (per_request_cost p)]"

definition is_billable :: "token_pricing \<Rightarrow> bool" where
  "is_billable p \<longleftrightarrow> (let configured = configured_rates p in
     configured \<noteq> [] \<and> list_all finite_nonneg configured \<and> list_ex positive_rate configured)"

text \<open>The number a rate carries; only ever read of billable pricing.\<close>

definition rate_value :: "rate \<Rightarrow> rat" where
  "rate_value r = (case r of Rate x \<Rightarrow> x | NonFinite \<Rightarrow> 0 | BoolRate b \<Rightarrow> of_bool b)"

record mapping =
  provider :: string
  model_id :: string
  weight :: rat
  fallback_order :: int
  pricing :: "token_pricing option"

lemma configured_rates_mem:
  "prompt_token_cost p \<in> set (configured_rates p)"
  "completion_token_cost p \<in> set (configured_rates p)"
  "per_request_cost p \<in> set (configured_rates p)"
  by (simp_all add: configured_rates_def List.map_filter_def)

lemma is_billable_rates:
  assumes "is_billable p"
  shows "0 \<le> rate_value (prompt_token_cost p)" "0 \<le> rate_value (completion_token_cost p)"
proof -
  have "finite_nonneg (prompt_token_cost p)" "finite_nonneg (completion_token_cost p)"
    using assms configured_rates_mem [of p] by (auto simp: is_billable_def Let_def list_all_iff)
  then show "0 \<le> rate_value (prompt_token_cost p)" "0 \<le> rate_value (completion_token_cost p)"
    by (auto simp: finite_nonneg_def rate_value_def split: rate.splits)
qed

text \<open>All-zero placeholder rates are not pricing.\<close>

lemma placeholder_not_billable:
  assumes "\<And>r. r \<in> set (configured_rates p) \<Longrightarrow> r = Rate 0"
  shows "\<not> is_billable p"
proof
  assume "is_billable p"
  then obtain r where "r \<in> set (configured_rates p)" "positive_rate r"
    by (auto simp: is_billable_def Let_def list_ex_iff)
  with assms [of r] show False by (simp add: positive_rate_def)
qed

section \<open>The strategies\<close>

datatype select_error = NoHealthyProvider | ValueError

subsection \<open>Round robin\<close>

type_synonym cursors = "string \<rightharpoonup> nat"

definition provider_key :: "mapping list \<Rightarrow> string" where
  "provider_key ms = join '','' (sort [provider p @ '':'' @ model_id p. p \<leftarrow> ms])"

definition round_robin_select ::
  "rat \<Rightarrow> mapping list \<Rightarrow> cursors \<Rightarrow> tracker \<Rightarrow> (select_error + mapping) \<times> cursors \<times> tracker" where
  "round_robin_select now ms indices t =
     (let (healthy, t1) = filter_healthy now provider ms t in
      if healthy = [] then (Inl NoHealthyProvider, indices, t1)
      else let key = provider_key ms; index = get_or indices key 0
           in (Inr (healthy ! (index mod length healthy)), indices(key \<mapsto> index + 1), t1))"

subsection \<open>Weighted\<close>

text \<open>
  \<open>random.choices(xs, weights=ws, k=1)[0]\<close> of the standard library: accumulate the weights, fail
  when the total is not positive, and bisect at \<open>random() * total\<close>. The draw \<open>u\<close> is a parameter.
\<close>

fun accumulate :: "rat \<Rightarrow> rat list \<Rightarrow> rat list" where
  "accumulate s [] = []"
| "accumulate s (w # ws) = (s + w) # accumulate (s + w) ws"

function bisect_right :: "rat list \<Rightarrow> rat \<Rightarrow> nat \<Rightarrow> nat \<Rightarrow> nat" where
  "bisect_right a x lo hi =
     (if lo < hi then
        let mid = (lo + hi) div 2
        in if x < a ! mid then bisect_right a x lo mid else bisect_right a x (mid + 1) hi
      else lo)"
  by pat_completeness auto
termination
  by (relation "measure (\<lambda>(a, x, lo, hi). hi - lo)") auto

declare bisect_right.simps [simp del]

definition choices1 :: "rat \<Rightarrow> 'a list \<Rightarrow> rat list \<Rightarrow> select_error + 'a" where
  "choices1 u xs ws =
     (let cum = accumulate 0 ws; total = last cum in
      if total \<le> 0 then Inl ValueError
      else Inr (xs ! bisect_right cum (u * total) 0 (length xs - 1)))"

definition weighted_select ::
  "rat \<Rightarrow> rat \<Rightarrow> mapping list \<Rightarrow> tracker \<Rightarrow> (select_error + mapping) \<times> tracker" where
  "weighted_select u now ms t =
     (let (healthy, t1) = filter_healthy now provider ms t in
      if healthy = [] then (Inl NoHealthyProvider, t1)
      else (choices1 u healthy (map weight healthy), t1))"

subsection \<open>Least latency, cheapest, first healthy\<close>

definition least_latency_select ::
  "int \<Rightarrow> rat \<Rightarrow> mapping list \<Rightarrow> tracker \<Rightarrow> (select_error + mapping) \<times> tracker" where
  "least_latency_select window_seconds now ms t =
     (let (healthy, t1) = filter_healthy now provider ms t in
      if healthy = [] then (Inl NoHealthyProvider, t1)
      else (Inr (arg_min_list (\<lambda>p. get_average_latency now (provider p) window_seconds t1)
                   healthy), t1))"

type_synonym pricing_config = "string \<rightharpoonup> (string \<rightharpoonup> token_pricing)"

definition lookup_pricing :: "pricing_config \<Rightarrow> mapping \<Rightarrow> token_pricing option" where
  "lookup_pricing cfg p = get_or cfg (provider p) Map.empty (model_id p)"

definition cost_key :: "pricing_config \<Rightarrow> mapping \<Rightarrow> ext_num" where
  "cost_key cfg p =
     (let pr = (case pricing p of
                  None \<Rightarrow> lookup_pricing cfg p
                | Some q \<Rightarrow> if is_billable q then Some q else lookup_pricing cfg p)
      in case pr of
           None \<Rightarrow> Inf
         | Some q \<Rightarrow> if is_billable q
                    then Fin (rate_value (prompt_token_cost q) + rate_value (completion_token_cost q))
                    else Inf)"

definition cost_optimized_select ::
  "pricing_config \<Rightarrow> rat \<Rightarrow> mapping list \<Rightarrow> tracker \<Rightarrow> (select_error + mapping) \<times> tracker" where
  "cost_optimized_select cfg now ms t =
     (let (healthy, t1) = filter_healthy now provider ms t in
      if healthy = [] then (Inl NoHealthyProvider, t1)
      else (Inr (arg_min_list (cost_key cfg) healthy), t1))"

definition smart_select ::
  "rat \<Rightarrow> mapping list \<Rightarrow> tracker \<Rightarrow> (select_error + mapping) \<times> tracker" where
  "smart_select now ms t =
     (let (healthy, t1) = filter_healthy now provider ms t in
      if healthy = [] then (Inl NoHealthyProvider, t1) else (Inr (hd healthy), t1))"

section \<open>Bisection and the weighted draw\<close>

lemma bisect_right_spec:
  assumes "\<And>i j. i \<le> j \<Longrightarrow> j < length a \<Longrightarrow> a ! i \<le> a ! j" and "lo \<le> hi" and "hi \<le> length a"
  shows "lo \<le> bisect_right a x lo hi \<and> bisect_right a x lo hi \<le> hi
    \<and> (\<forall>i. lo \<le> i \<longrightarrow> i < bisect_right a x lo hi \<longrightarrow> a ! i \<le> x)
    \<and> (\<forall>i. bisect_right a x lo hi \<le> i \<longrightarrow> i < hi \<longrightarrow> x < a ! i)"
  using assms
proof (induction a x lo hi rule: bisect_right.induct)
  case (1 a x lo hi)
  let ?mid = "(lo + hi) div 2"
  show ?case
  proof (cases "lo < hi")
    case False
    then have "bisect_right a x lo hi = lo" by (simp add: bisect_right.simps [of a x lo hi])
    with False "1.prems" show ?thesis by simp
  next
    case lt: True
    then have mid: "lo \<le> ?mid" "?mid < hi" "?mid < length a" using "1.prems"(3) by auto
    show ?thesis
    proof (cases "x < a ! ?mid")
      case True
      have IH: "lo \<le> bisect_right a x lo ?mid \<and> bisect_right a x lo ?mid \<le> ?mid
          \<and> (\<forall>i. lo \<le> i \<longrightarrow> i < bisect_right a x lo ?mid \<longrightarrow> a ! i \<le> x)
          \<and> (\<forall>i. bisect_right a x lo ?mid \<le> i \<longrightarrow> i < ?mid \<longrightarrow> x < a ! i)"
        using "1.IH"(1) [OF lt refl True "1.prems"(1)] mid "1.prems"(3) by simp
      have up: "x < a ! i" if "?mid \<le> i" "i < hi" for i
        using True "1.prems"(1) [of ?mid i] "1.prems"(3) that by simp
      from lt True have "bisect_right a x lo hi = bisect_right a x lo ?mid"
        by (simp add: bisect_right.simps [of a x lo hi] Let_def)
      moreover have "x < a ! i" if "bisect_right a x lo ?mid \<le> i" "i < hi" for i
        using IH up that by (cases "i < ?mid") auto
      ultimately show ?thesis using IH mid by auto
    next
      case False
      have IH: "?mid + 1 \<le> bisect_right a x (?mid + 1) hi \<and> bisect_right a x (?mid + 1) hi \<le> hi
          \<and> (\<forall>i. ?mid + 1 \<le> i \<longrightarrow> i < bisect_right a x (?mid + 1) hi \<longrightarrow> a ! i \<le> x)
          \<and> (\<forall>i. bisect_right a x (?mid + 1) hi \<le> i \<longrightarrow> i < hi \<longrightarrow> x < a ! i)"
        using "1.IH"(2) [OF lt refl False "1.prems"(1)] mid "1.prems"(3) by simp
      have down: "a ! i \<le> x" if "i \<le> ?mid" for i
        using False "1.prems"(1) [of i ?mid] mid that by (meson le_less_trans not_le order_trans)
      from lt False have "bisect_right a x lo hi = bisect_right a x (?mid + 1) hi"
        by (simp add: bisect_right.simps [of a x lo hi] Let_def)
      moreover have "a ! i \<le> x" if "i < bisect_right a x (?mid + 1) hi" for i
        using IH down that by (cases "i \<le> ?mid") auto
      ultimately show ?thesis using IH mid by auto
    qed
  qed
qed

lemma length_accumulate [simp]: "length (accumulate s ws) = length ws"
  by (induction ws arbitrary: s) auto

lemma nth_accumulate: "i < length ws \<Longrightarrow> accumulate s ws ! i = s + sum_list (take (Suc i) ws)"
proof (induction ws arbitrary: s i)
  case (Cons w ws)
  then show ?case by (cases i) (auto simp: add.assoc)
qed simp

lemma last_accumulate: "ws \<noteq> [] \<Longrightarrow> last (accumulate 0 ws) = sum_list ws"
proof -
  assume "ws \<noteq> []"
  then have "accumulate 0 ws \<noteq> []" using length_accumulate [of 0 ws] by fastforce
  then have "last (accumulate 0 ws) = accumulate 0 ws ! (length ws - 1)"
    by (simp add: last_conv_nth)
  with \<open>ws \<noteq> []\<close> show ?thesis by (simp add: nth_accumulate)
qed

lemma sum_take_mono:
  fixes ws :: "rat list"
  assumes "\<And>w. w \<in> set ws \<Longrightarrow> 0 \<le> w" and "i \<le> j"
  shows "sum_list (take i ws) \<le> sum_list (take j ws)"
proof -
  have "take j ws = take i ws @ take (j - i) (drop i ws)"
    using assms(2) by (metis le_add_diff_inverse take_add)
  moreover have "0 \<le> sum_list (take (j - i) (drop i ws))"
    by (rule sum_list_nonneg) (metis assms(1) in_set_dropD in_set_takeD)
  ultimately show ?thesis by simp
qed

lemma accumulate_mono:
  assumes "\<And>w. w \<in> set ws \<Longrightarrow> 0 \<le> w" and "i \<le> j" "j < length ws"
  shows "accumulate 0 ws ! i \<le> accumulate 0 ws ! j"
  using assms by (simp add: nth_accumulate sum_take_mono)

text \<open>
  The weighted draw lands in the interval of the chosen element: the weights before it sum to at
  most \<open>u * total\<close>, the weights up to and including it to more.
\<close>

lemma choices1_interval:
  assumes nonneg: "\<And>w. w \<in> set ws \<Longrightarrow> 0 \<le> w" and total: "0 < sum_list ws"
    and u: "0 \<le> u" "u < 1" and len: "length xs = length ws"
  obtains i where "choices1 u xs ws = Inr (xs ! i)" "i < length xs"
    "sum_list (take i ws) \<le> u * sum_list ws" "u * sum_list ws < sum_list (take (Suc i) ws)"
proof -
  let ?c = "accumulate 0 ws" and ?x = "u * sum_list ws"
  have ne: "ws \<noteq> []" using total by auto
  then have l: "0 < length ws" by simp
  define i where "i = bisect_right ?c ?x 0 (length ws - 1)"
  have spec: "i \<le> length ws - 1" "\<forall>j. j < i \<longrightarrow> ?c ! j \<le> ?x"
    "\<forall>j. i \<le> j \<longrightarrow> j < length ws - 1 \<longrightarrow> ?x < ?c ! j"
    using bisect_right_spec [of ?c 0 "length ws - 1" ?x] accumulate_mono [OF nonneg]
    by (auto simp: i_def)
  have "choices1 u xs ws = Inr (xs ! i)"
    using total ne len by (simp add: choices1_def Let_def last_accumulate i_def)
  moreover have "i < length xs" using spec(1) l len by linarith
  moreover have "sum_list (take i ws) \<le> ?x"
  proof (cases i)
    case 0
    then show ?thesis using total u(1) by simp
  next
    case (Suc k)
    then have "?c ! k \<le> ?x" using spec(2) by simp
    moreover have "k < length ws" using Suc spec(1) l by linarith
    ultimately show ?thesis using Suc by (simp add: nth_accumulate)
  qed
  moreover have "?x < sum_list (take (Suc i) ws)"
  proof (cases "i < length ws - 1")
    case True
    then have "?x < ?c ! i" using spec(3) by simp
    with True show ?thesis by (simp add: nth_accumulate)
  next
    case False
    then have "Suc i = length ws" using spec(1) l by linarith
    moreover have "?x < 1 * sum_list ws" using u(2) total by (rule mult_strict_right_mono)
    ultimately show ?thesis by simp
  qed
  ultimately show ?thesis by (rule that)
qed

text \<open>A zero weight is never drawn.\<close>

lemma choices1_positive_weight:
  assumes "\<And>m. m \<in> set ms \<Longrightarrow> 0 \<le> weight m" and "0 < sum_list (map weight ms)"
    and "0 \<le> u" "u < 1"
  shows "\<exists>m. choices1 u ms (map weight ms) = Inr m \<and> m \<in> set ms \<and> 0 < weight m"
proof -
  obtain i where i: "choices1 u ms (map weight ms) = Inr (ms ! i)" "i < length ms"
    "sum_list (take i (map weight ms)) \<le> u * sum_list (map weight ms)"
    "u * sum_list (map weight ms) < sum_list (take (Suc i) (map weight ms))"
    using choices1_interval [of "map weight ms" u ms] assms by auto
  from i(2) have "sum_list (take (Suc i) (map weight ms))
      = sum_list (take i (map weight ms)) + weight (ms ! i)"
    by (simp add: take_Suc_conv_app_nth)
  with i have "0 < weight (ms ! i)" by linarith
  with i show ?thesis by auto
qed

lemma choices1_member:
  "ms \<noteq> [] \<Longrightarrow> length ws = length ms \<Longrightarrow> choices1 u ms ws = Inr m \<Longrightarrow> m \<in> set ms"
proof -
  assume a: "ms \<noteq> []" "length ws = length ms" "choices1 u ms ws = Inr m"
  have "bisect_right c x lo hi \<le> max lo hi" for c x lo hi
  proof (induction c x lo hi rule: bisect_right.induct)
    case (1 c x lo hi)
    then show ?case
      by (cases "lo < hi") (fastforce simp: bisect_right.simps [of c x lo hi] Let_def)+
  qed
  from this [of "accumulate 0 ws" "u * last (accumulate 0 ws)" 0 "length ms - 1"]
  have "bisect_right (accumulate 0 ws) (u * last (accumulate 0 ws)) 0 (length ms - 1) < length ms"
    using a(1) by (cases ms) auto
  then show ?thesis using a(3) by (auto simp: choices1_def Let_def split: if_splits)
qed

section \<open>The interface of a strategy\<close>

text \<open>
  What the router relies on. \<open>select now ms s t\<close> also threads the strategy's own state \<open>s\<close> and the
  health tracker \<open>t\<close>, whose expired entries the health queries drop.
\<close>

locale routing_strategy =
  fixes select :: "rat \<Rightarrow> mapping list \<Rightarrow> 's \<Rightarrow> tracker \<Rightarrow> (select_error + mapping) \<times> 's \<times> tracker"
  assumes select_none: "fst (select now ms s t) = Inl NoHealthyProvider
      \<longleftrightarrow> (\<forall>m\<in>set ms. \<not> healthy_at now t (provider m))"
    and select_member: "fst (select now ms s t) = Inr m
      \<Longrightarrow> m \<in> set ms \<and> healthy_at now t (provider m)"
    and select_tracker: "now \<le> later
      \<Longrightarrow> healthy_at later (snd (snd (select now ms s t))) q = healthy_at later t q"
    and select_latencies: "latencies (snd (snd (select now ms s t))) = latencies t"
begin

lemma select_outcome:
  "fst (select now ms s t) = Inl NoHealthyProvider
   \<or> fst (select now ms s t) = Inl ValueError
   \<or> (\<exists>m\<in>set ms. fst (select now ms s t) = Inr m \<and> healthy_at now t (provider m))"
proof (cases "fst (select now ms s t)")
  case (Inl e)
  then show ?thesis by (cases e) auto
next
  case (Inr m)
  then show ?thesis using select_member by blast
qed

lemma select_empty: "fst (select now [] s t) = Inl NoHealthyProvider"
  by (simp add: select_none)

lemma select_none_again:
  assumes "fst (select now ms s t) = Inl NoHealthyProvider"
  shows "fst (select now ms s' (snd (snd (select now ms s t)))) = Inl NoHealthyProvider"
  using assms by (simp add: select_none select_tracker)

end

lemmas select_filter_simps = filter_healthy_value filter_healthy_cleanup filter_healthy_latencies

lemma filter_healthy_pair:
  "filter_healthy now prov ms t
     = (filter (\<lambda>m. healthy_at now t (prov m)) ms, snd (filter_healthy now prov ms t))"
  by (metis filter_healthy_value prod.collapse)

lemma arg_min_filter:
  "filter P ms \<noteq> [] \<Longrightarrow> arg_min_list f (filter P ms) \<in> set ms \<and> P (arg_min_list f (filter P ms))"
  using arg_min_list_member [of "filter P ms" f] by simp

lemma nth_mod_filter:
  "filter P ms \<noteq> [] \<Longrightarrow> filter P ms ! (i mod length (filter P ms)) \<in> set ms
     \<and> P (filter P ms ! (i mod length (filter P ms)))"
proof -
  assume "filter P ms \<noteq> []"
  then have "i mod length (filter P ms) < length (filter P ms)" by simp
  then show ?thesis using nth_mem by force
qed

text \<open>Strategies without a state of their own, seen through the interface.\<close>

definition stateless ::
  "(rat \<Rightarrow> mapping list \<Rightarrow> tracker \<Rightarrow> (select_error + mapping) \<times> tracker)
   \<Rightarrow> rat \<Rightarrow> mapping list \<Rightarrow> unit \<Rightarrow> tracker \<Rightarrow> (select_error + mapping) \<times> unit \<times> tracker" where
  "stateless f now ms u t = (let (r, t1) = f now ms t in (r, (), t1))"

interpretation round_robin: routing_strategy round_robin_select
proof
  fix now later :: rat and ms :: "mapping list" and s t m q
  note pair = filter_healthy_pair [of now provider ms t]
  show "fst (round_robin_select now ms s t) = Inl NoHealthyProvider
      \<longleftrightarrow> (\<forall>m\<in>set ms. \<not> healthy_at now t (provider m))"
    by (subst round_robin_select_def, subst pair) (auto simp: Let_def filter_empty_conv)
  show "fst (round_robin_select now ms s t) = Inr m
      \<Longrightarrow> m \<in> set ms \<and> healthy_at now t (provider m)"
    using nth_mod_filter [of "\<lambda>m. healthy_at now t (provider m)" ms]
    by (subst (asm) round_robin_select_def, subst (asm) pair) (auto simp: Let_def split: if_splits)
  show "now \<le> later
      \<Longrightarrow> healthy_at later (snd (snd (round_robin_select now ms s t))) q = healthy_at later t q"
    by (subst round_robin_select_def, subst pair) (simp add: Let_def filter_healthy_cleanup)
  show "latencies (snd (snd (round_robin_select now ms s t))) = latencies t"
    by (subst round_robin_select_def, subst pair) (simp add: Let_def filter_healthy_latencies)
qed

interpretation weighted: routing_strategy "stateless (weighted_select u)"
proof
  fix now later :: rat and ms :: "mapping list" and s t m q
  note pair = filter_healthy_pair [of now provider ms t]
  let ?h = "filter (\<lambda>m. healthy_at now t (provider m)) ms"
  have not_none: "choices1 u xs ws \<noteq> Inl NoHealthyProvider" for xs :: "mapping list" and ws
    by (simp add: choices1_def Let_def)
  show "fst (stateless (weighted_select u) now ms s t) = Inl NoHealthyProvider
      \<longleftrightarrow> (\<forall>m\<in>set ms. \<not> healthy_at now t (provider m))"
    unfolding stateless_def weighted_select_def
    by (subst pair) (auto simp: Let_def filter_empty_conv not_none)
  show "fst (stateless (weighted_select u) now ms s t) = Inr m
      \<Longrightarrow> m \<in> set ms \<and> healthy_at now t (provider m)"
    unfolding stateless_def weighted_select_def using choices1_member [of ?h "map weight ?h" u m]
    by (subst (asm) pair) (auto simp: Let_def split: if_splits)
  show "now \<le> later \<Longrightarrow> healthy_at later
      (snd (snd (stateless (weighted_select u) now ms s t))) q = healthy_at later t q"
    unfolding stateless_def weighted_select_def
    by (subst pair) (simp add: Let_def filter_healthy_cleanup)
  show "latencies (snd (snd (stateless (weighted_select u) now ms s t))) = latencies t"
    unfolding stateless_def weighted_select_def
    by (subst pair) (simp add: Let_def filter_healthy_latencies)
qed

text \<open>The remaining strategies choose from the healthy mappings by a total function.\<close>

lemma picking_strategy:
  assumes pick: "\<And>now t xs. xs \<noteq> [] \<Longrightarrow> pick now t xs \<in> set xs"
    and f: "\<And>now ms t. f now ms t = (let (healthy, t1) = filter_healthy now provider ms t in
      if healthy = [] then (Inl NoHealthyProvider, t1) else (Inr (pick now t1 healthy), t1))"
  shows "routing_strategy (stateless f)"
proof
  fix now later :: rat and ms :: "mapping list" and s t m q
  note pair = filter_healthy_pair [of now provider ms t]
  let ?h = "filter (\<lambda>m. healthy_at now t (provider m)) ms"
  show "fst (stateless f now ms s t) = Inl NoHealthyProvider
      \<longleftrightarrow> (\<forall>m\<in>set ms. \<not> healthy_at now t (provider m))"
    unfolding stateless_def f by (subst pair) (auto simp: Let_def filter_empty_conv)
  show "fst (stateless f now ms s t) = Inr m \<Longrightarrow> m \<in> set ms \<and> healthy_at now t (provider m)"
    unfolding stateless_def f
    using pick [of ?h now "snd (filter_healthy now provider ms t)"]
    by (subst (asm) pair) (auto simp: Let_def split: if_splits)
  show "now \<le> later \<Longrightarrow> healthy_at later (snd (snd (stateless f now ms s t))) q = healthy_at later t q"
    unfolding stateless_def f by (subst pair) (simp add: Let_def filter_healthy_cleanup)
  show "latencies (snd (snd (stateless f now ms s t))) = latencies t"
    unfolding stateless_def f by (subst pair) (simp add: Let_def filter_healthy_latencies)
qed

interpretation least_latency: routing_strategy "stateless (least_latency_select w)"
  by (rule picking_strategy [OF _ least_latency_select_def]) (rule arg_min_list_member)

interpretation cost_optimized: routing_strategy "stateless (cost_optimized_select cfg)"
  by (rule picking_strategy [OF _ cost_optimized_select_def]) (rule arg_min_list_member)

interpretation smart: routing_strategy "stateless smart_select"
  by (rule picking_strategy [OF _ smart_select_def]) simp

section \<open>Fairness\<close>

text \<open>\<open>n\<close> selections in a row, at one clock reading.\<close>

fun rr_run ::
  "rat \<Rightarrow> mapping list \<Rightarrow> nat \<Rightarrow> cursors \<Rightarrow> tracker \<Rightarrow> (select_error + mapping) list" where
  "rr_run now ms 0 cs t = []"
| "rr_run now ms (Suc n) cs t =
     (let (x, cs1, t1) = round_robin_select now ms cs t in x # rr_run now ms n cs1 t1)"

lemma round_robin_value:
  assumes "filter (\<lambda>m. healthy_at now t (provider m)) ms \<noteq> []" (is "?h \<noteq> []")
  shows "round_robin_select now ms cs t
    = (Inr (?h ! (get_or cs (provider_key ms) 0 mod length ?h)),
       cs(provider_key ms \<mapsto> get_or cs (provider_key ms) 0 + 1), snd (filter_healthy now provider ms t))"
  using assms by (subst round_robin_select_def, subst filter_healthy_pair) (simp add: Let_def)

lemma length_rr_run [simp]: "length (rr_run now ms n cs t) = n"
  by (induction n arbitrary: cs t) (simp_all split: prod.splits)

lemma rr_run_nth:
  assumes "filter (\<lambda>m. healthy_at now t (provider m)) ms \<noteq> []" and "k < n"
  shows "rr_run now ms n cs t ! k
    = Inr (filter (\<lambda>m. healthy_at now t (provider m)) ms
        ! ((get_or cs (provider_key ms) 0 + k) mod length (filter (\<lambda>m. healthy_at now t (provider m)) ms)))"
  using assms
proof (induction n arbitrary: k cs t)
  case (Suc n)
  let ?t1 = "snd (filter_healthy now provider ms t)"
  have same: "filter (\<lambda>m. healthy_at now ?t1 (provider m)) ms
      = filter (\<lambda>m. healthy_at now t (provider m)) ms"
    by (simp add: filter_healthy_cleanup)
  show ?case
  proof (cases k)
    case 0
    then show ?thesis using Suc.prems(1) by (simp add: round_robin_value)
  next
    case (Suc j)
    with Suc.prems Suc.IH [of ?t1 j] same show ?thesis by (simp add: round_robin_value)
  qed
qed simp

text \<open>over a fixed set of healthy mappings, one round of round-robin selections visits every healthy
  mapping exactly once, in mapping order, starting where the cursor of this provider group stands.\<close>

theorem round_robin_fair:
  assumes "filter (\<lambda>m. healthy_at now t (provider m)) ms \<noteq> []"
  shows "rr_run now ms (length (filter (\<lambda>m. healthy_at now t (provider m)) ms)) cs t
    = map Inr (rotate (get_or cs (provider_key ms) 0) (filter (\<lambda>m. healthy_at now t (provider m)) ms))"
  by (rule nth_equalityI) (simp_all add: rr_run_nth [OF assms] nth_rotate)

text \<open>Example data shared by the witnesses.\<close>

definition demo_mapping :: "string \<Rightarrow> int \<Rightarrow> mapping" where
  "demo_mapping p i = \<lparr>provider = p, model_id = p @ ''-1'', weight = 1, fallback_order = i, pricing = None\<rparr>"

lemma round_robin_fair_witness:
  "rr_run 0 [demo_mapping ''a'' 0, demo_mapping ''b'' 1, demo_mapping ''c'' 2] 2
      [provider_key [demo_mapping ''a'' 0, demo_mapping ''b'' 1, demo_mapping ''c'' 2] \<mapsto> 3]
      (mark_unhealthy 0 ''b'' 60 new_tracker)
    = [Inr (demo_mapping ''c'' 2), Inr (demo_mapping ''a'' 0)]"
proof -
  let ?ms = "[demo_mapping ''a'' 0, demo_mapping ''b'' 1, demo_mapping ''c'' 2]"
  let ?t = "mark_unhealthy 0 ''b'' 60 new_tracker"
  have h: "filter (\<lambda>m. healthy_at 0 ?t (provider m)) ?ms = [demo_mapping ''a'' 0, demo_mapping ''c'' 2]"
    by (simp add: healthy_at_mark demo_mapping_def)
  then have "filter (\<lambda>m. healthy_at 0 ?t (provider m)) ?ms \<noteq> []" by simp
  from round_robin_fair [OF this, of "[provider_key ?ms \<mapsto> 3]", unfolded h]
  have "rr_run 0 ?ms (length [demo_mapping ''a'' 0, demo_mapping ''c'' 2]) [provider_key ?ms \<mapsto> 3] ?t
      = map Inr (rotate 3 [demo_mapping ''a'' 0, demo_mapping ''c'' 2])" by simp
  moreover have "length [demo_mapping ''a'' 0, demo_mapping ''c'' 2] = 2" by simp
  moreover have "map Inr (rotate 3 [demo_mapping ''a'' 0, demo_mapping ''c'' 2])
      = [Inr (demo_mapping ''c'' 2), (Inr (demo_mapping ''a'' 0) :: select_error + mapping)]"
    by (simp add: rotate_def eval_nat_numeral)
  ultimately show ?thesis by metis
qed

text \<open>weighted routing draws a healthy mapping exactly in proportion to its weight: of the draws in
  \<open>[0, 1)\<close>, those from the cumulative weight before it up to the cumulative weight including it,
  as fractions of the total, select it; a mapping of weight zero is selected by none.\<close>

theorem weighted_share:
  assumes "h = filter (\<lambda>m. healthy_at now t (provider m)) ms"
    and "\<And>m. m \<in> set h \<Longrightarrow> 0 \<le> weight m" and "i < length h" and "0 \<le> u" "u < 1"
    and "sum_list (take i (map weight h)) \<le> u * sum_list (map weight h)"
    and "u * sum_list (map weight h) < sum_list (take (Suc i) (map weight h))"
  shows "fst (weighted_select u now ms t) = Inr (h ! i) \<and> 0 < weight (h ! i)"
proof -
  let ?w = "map weight h" and ?x = "u * sum_list (map weight h)"
  have nonneg: "w \<in> set ?w \<Longrightarrow> 0 \<le> w" for w using assms(2) by auto
  have step: "sum_list (take (Suc i) ?w) = sum_list (take i ?w) + weight (h ! i)"
    using assms(3) by (simp add: take_Suc_conv_app_nth)
  have total: "0 < sum_list ?w"
  proof (rule ccontr)
    assume "\<not> 0 < sum_list ?w"
    moreover have "0 \<le> sum_list ?w" using nonneg by (rule sum_list_nonneg)
    ultimately have "sum_list ?w = 0" by simp
    with assms(7) sum_take_mono [of ?w "Suc i" "length ?w", OF nonneg] assms(3) show False by simp
  qed
  obtain j where j: "choices1 u h ?w = Inr (h ! j)" "j < length h"
    "sum_list (take j ?w) \<le> ?x" "?x < sum_list (take (Suc j) ?w)"
    using choices1_interval [OF nonneg total assms(4,5), of h] by auto
  have "i = j"
  proof (rule ccontr)
    assume "i \<noteq> j"
    then consider "Suc i \<le> j" | "Suc j \<le> i" by linarith
    then show False
      using sum_take_mono [of ?w "Suc i" j, OF nonneg] sum_take_mono [of ?w "Suc j" i, OF nonneg]
        assms(6,7) j(3,4) by cases auto
  qed
  moreover have "h \<noteq> []" using assms(3) by auto
  ultimately have "fst (weighted_select u now ms t) = Inr (h ! i)"
    using j(1) by (subst weighted_select_def, subst filter_healthy_pair) (simp add: Let_def flip: assms(1))
  with step assms(6,7) show ?thesis by simp
qed

lemma weighted_share_witness:
  "fst (weighted_select (3/4) 0 [demo_mapping ''a'' 0, (demo_mapping ''b'' 1)\<lparr>weight := 3\<rparr>] new_tracker)
     = Inr ((demo_mapping ''b'' 1)\<lparr>weight := 3\<rparr>)"
proof -
  let ?ms = "[demo_mapping ''a'' 0, (demo_mapping ''b'' 1)\<lparr>weight := 3\<rparr>]"
  have "fst (weighted_select (3/4) 0 ?ms new_tracker) = Inr (?ms ! 1) \<and> 0 < weight (?ms ! 1)"
    by (rule weighted_share) (auto simp: demo_mapping_def)
  then show ?thesis by simp
qed

end
