(* ===== verification/Messages.thy ===== *)
theory Messages
  imports Prelude
begin

text \<open>
  JSON values and the chat messages of \<open>src/gateway/models.py\<close>. A Python value decoded from JSON is
  a \<open>json\<close>; an object is an association list in insertion order whose keys are distinct when
  it comes from a \<open>dict\<close>. \<open>JNonFinite\<close> stands for the float values \<open>json.dumps\<close> refuses with
  \<open>allow_nan=False\<close>, and \<open>JOther\<close> for a Python object that is not JSON serialisable.
\<close>

datatype json =
    JNull
  | JBool bool
  | JInt int
  | JFloat rat
  | JNonFinite
  | JStr string
  | JList "json list"
  | JObj "(string \<times> json) list"
  | JOther

text \<open>\<open>d.get(k)\<close> of an object.\<close>

definition jget :: "(string \<times> json) list \<Rightarrow> string \<Rightarrow> json" where
  "jget kvs k = (case map_of kvs k of None \<Rightarrow> JNull | Some v \<Rightarrow> v)"

text \<open>Python truthiness of a decoded value.\<close>

fun jtruthy :: "json \<Rightarrow> bool" where
  "jtruthy JNull = False"
| "jtruthy (JBool b) = b"
| "jtruthy (JInt i) = (i \<noteq> 0)"
| "jtruthy (JFloat r) = (r \<noteq> 0)"
| "jtruthy JNonFinite = True"
| "jtruthy (JStr s) = (s \<noteq> [])"
| "jtruthy (JList xs) = (xs \<noteq> [])"
| "jtruthy (JObj kvs) = (kvs \<noteq> [])"
| "jtruthy JOther = True"

text \<open>The \<open>isinstance\<close> tests. A \<open>bool\<close> is an \<open>int\<close> in Python.\<close>

definition is_str :: "json \<Rightarrow> bool" where
  "is_str j \<longleftrightarrow> (case j of JStr s \<Rightarrow> True | _ \<Rightarrow> False)"

definition is_list :: "json \<Rightarrow> bool" where
  "is_list j \<longleftrightarrow> (case j of JList xs \<Rightarrow> True | _ \<Rightarrow> False)"

definition is_obj :: "json \<Rightarrow> bool" where
  "is_obj j \<longleftrightarrow> (case j of JObj kvs \<Rightarrow> True | _ \<Rightarrow> False)"

definition is_bool :: "json \<Rightarrow> bool" where
  "is_bool j \<longleftrightarrow> (case j of JBool b \<Rightarrow> True | _ \<Rightarrow> False)"

text \<open>\<open>isinstance(v, str) and v.strip()\<close>.\<close>

definition nonblank_str :: "json \<Rightarrow> bool" where
  "nonblank_str j \<longleftrightarrow> (case j of JStr s \<Rightarrow> \<not> blank s | _ \<Rightarrow> False)"

text \<open>
  The dataclass \<open>ChatCompletionRequest\<close> twice: \<open>raw_request\<close> as the validator receives it, with
  whatever JSON values the payload held, and \<open>chat_request\<close> with the field types it declares.
\<close>

record raw_request =
  raw_messages :: json
  raw_model :: json
  raw_temperature :: json
  raw_max_tokens :: json
  raw_top_p :: json
  raw_stop :: json
  raw_stream :: json
  raw_system :: json
  raw_tools :: json
  raw_tool_choice :: json

record chat_request =
  cr_messages :: "json list"
  cr_model :: string
  cr_temperature :: "rat option"
  cr_max_tokens :: "int option"
  cr_top_p :: "rat option"
  cr_stop :: "string list option"
  cr_stream :: bool
  cr_system :: "string option"
  cr_tools :: "json list option"
  cr_tool_choice :: "json option"

record token_usage =
  tu_prompt :: int
  tu_completion :: int
  tu_total :: int
  tu_cached :: int
  tu_cache_creation :: int

record chat_response =
  rsp_id :: string
  rsp_choices :: "json list"
  rsp_usage :: token_usage
  rsp_model :: string
  rsp_provider :: string
  rsp_warnings :: "string list"
  rsp_provider_model :: "string option"

end
