(* ===== verification/Fallback.thy ===== *)
theory Fallback
  imports Strategies Messages
begin

text \<open>
  The router's retry and fallback engine, \<open>src/gateway/router.py\<close>: availability of mappings,
  exponential backoff with jitter, the attempts on one provider, and
  \<open>execute_with_fallback\<close>.

  The awaited calls are parameters of the model, collected in the record \<open>runtime\<close>: the provider
  function, \<open>asyncio.sleep\<close>, the clock and the random source. Each takes and returns the whole
  \<open>world\<close>, health tracker and round-robin cursors included, because other tasks may run and
  change that shared state while this one is suspended. The provider function answers with a
  response, a \<open>ProviderError\<close>, or any other exception (\<open>Aborted\<close>), which the router does not catch.
\<close>

section \<open>State, errors and configuration\<close>

record 'e world =
  w_tracker :: tracker
  w_cursors :: cursors
  w_env :: 'e

record provider_error =
  pe_status :: int
  pe_provider :: string
  pe_message :: string
  pe_route_id :: "string option"
  pe_retryable :: "bool option"
  pe_provider_unavailable :: "bool option"

datatype 'x reply = Returned chat_response | Raised provider_error | Aborted 'x

record ('e, 'x) runtime =
  rt_clock :: "'e \<Rightarrow> rat"
  rt_call :: "mapping \<Rightarrow> 'e world \<Rightarrow> 'x reply \<times> 'e world"
  rt_sleep :: "rat \<Rightarrow> 'e world \<Rightarrow> 'e world"
  rt_random :: "'e world \<Rightarrow> rat \<times> 'e world"

text \<open>One entry of the \<open>attempts\<close> list; \<open>route_id\<close> is present only when truthy.\<close>

record attempt =
  at_provider :: string
  at_status :: int
  at_message :: string
  at_route :: "string option"

text \<open>\<open>KeyError\<close> of the registry and of the strategy table.\<close>

datatype lookup_error = UnknownModel string | UnknownStrategy

datatype 'x exec_error =
    AllProvidersExhausted "attempt list"
  | LookupError lookup_error
  | StrategyError select_error
  | ProviderAborted 'x

datatype routing_kind = RoundRobin | Weighted | LeastLatency | CostOptimized | Smart | Ensemble

record model_config =
  mc_name :: string
  mc_description :: string
  mc_providers :: "mapping list"
  mc_routing :: routing_kind
  mc_capabilities :: "string list option"
  mc_max_context :: "int option"

text \<open>\<open>ModelRegistry.models\<close>: a dictionary, in insertion order.\<close>

type_synonym registry = "(string \<times> model_config) list"

record router =
  r_registry :: registry
  r_available :: "string set option"
  r_require_priced :: bool
  r_cost_pricing :: "pricing_config option"
  r_smart :: bool
  r_latency_window :: int
  r_max_retries :: int
  r_base_delay :: rat
  r_cooldown :: int
  r_jitter :: rat
  r_retryable :: "int set"

section \<open>Availability\<close>

definition resolve :: "registry \<Rightarrow> string \<Rightarrow> lookup_error + mapping list" where
  "resolve reg m = (case map_of reg m of None \<Rightarrow> Inl (UnknownModel m) | Some c \<Rightarrow> Inr (mc_providers c))"

definition has_pricing :: "pricing_config \<Rightarrow> string \<Rightarrow> string \<Rightarrow> bool" where
  "has_pricing cfg prov mid =
     (case get_or cfg prov Map.empty mid of None \<Rightarrow> False | Some p \<Rightarrow> is_billable p)"

definition enabled_here :: "router \<Rightarrow> mapping \<Rightarrow> bool" where
  "enabled_here r m \<longleftrightarrow> (case r_available r of None \<Rightarrow> True | Some ps \<Rightarrow> provider m \<in> ps)"

definition priced :: "router \<Rightarrow> mapping \<Rightarrow> bool" where
  "priced r m \<longleftrightarrow>
     (case pricing m of None \<Rightarrow> False | Some p \<Rightarrow> is_billable p)
     \<or> (case r_cost_pricing r of None \<Rightarrow> False | Some cfg \<Rightarrow> has_pricing cfg (provider m) (model_id m))"

definition available_mappings :: "router \<Rightarrow> string \<Rightarrow> lookup_error + mapping list" where
  "available_mappings r m =
     (case resolve (r_registry r) m of
        Inl e \<Rightarrow> Inl e
      | Inr mappings \<Rightarrow>
          let available = filter (enabled_here r) mappings in
          if \<not> r_require_priced r then Inr available else Inr (filter (priced r) available))"

definition get_fallback_chain :: "router \<Rightarrow> string \<Rightarrow> lookup_error + mapping list" where
  "get_fallback_chain r m =
     (case available_mappings r m of Inl e \<Rightarrow> Inl e | Inr ms \<Rightarrow> Inr (sort_key fallback_order ms))"

section \<open>Selection by the model's strategy\<close>

text \<open>
  The strategy table \<open>Router._strategies\<close>: the smart entry exists only when a smart strategy is
  configured, and there is none for ensembles, so a lookup of either raises \<open>KeyError\<close>.
\<close>

definition get_strategy :: "router \<Rightarrow> string \<Rightarrow> lookup_error + routing_kind" where
  "get_strategy r m =
     (case map_of (r_registry r) m of
        None \<Rightarrow> Inl (UnknownModel m)
      | Some c \<Rightarrow>
          (case mc_routing c of
             Ensemble \<Rightarrow> Inl UnknownStrategy
           | Smart \<Rightarrow> if r_smart r then Inr Smart else Inl UnknownStrategy
           | k \<Rightarrow> Inr k))"

text \<open>\<open>strategy.select(mappings, health_tracker)\<close>; the draw \<open>u\<close> is used by the weighted strategy only.\<close>

definition strategy_select ::
  "router \<Rightarrow> routing_kind \<Rightarrow> rat \<Rightarrow> rat \<Rightarrow> mapping list \<Rightarrow> cursors \<Rightarrow> tracker
   \<Rightarrow> (select_error + mapping) \<times> cursors \<times> tracker" where
  "strategy_select r k u now ms cs t =
     (case k of
        RoundRobin \<Rightarrow> round_robin_select now ms cs t
      | Weighted \<Rightarrow> (let (x, t1) = weighted_select u now ms t in (x, cs, t1))
      | LeastLatency \<Rightarrow> (let (x, t1) = least_latency_select (r_latency_window r) now ms t in (x, cs, t1))
      | CostOptimized \<Rightarrow>
          (let (x, t1) = cost_optimized_select (case_option Map.empty id (r_cost_pricing r)) now ms t
           in (x, cs, t1))
      | _ \<Rightarrow> (let (x, t1) = smart_select now ms t in (x, cs, t1)))"

section \<open>Backoff\<close>

definition backoff_delay :: "router \<Rightarrow> nat \<Rightarrow> rat \<Rightarrow> rat" where
  "backoff_delay r attempt u =
     (let full = r_base_delay r * 2 ^ attempt; j = r_jitter r in
      if j \<le> 0 then full
      else full * (1 - j) + (full - full * (1 - j)) * u)"

text \<open>The draw happens only when there is jitter.\<close>

definition sleep_backoff :: "('e, 'x) runtime \<Rightarrow> router \<Rightarrow> nat \<Rightarrow> 'e world \<Rightarrow> 'e world" where
  "sleep_backoff rt r attempt w =
     (if r_jitter r \<le> 0 then rt_sleep rt (backoff_delay r attempt 0) w
      else let (u, w1) = rt_random rt w in rt_sleep rt (backoff_delay r attempt u) w1)"

section \<open>One provider\<close>

definition attempt_of :: "string \<Rightarrow> provider_error \<Rightarrow> attempt" where
  "attempt_of prov e = \<lparr>at_provider = prov, at_status = pe_status e, at_message = pe_message e,
     at_route = (if truthy (pe_route_id e) then pe_route_id e else None)\<rparr>"

definition skipped :: "string \<Rightarrow> attempt" where
  "skipped prov = \<lparr>at_provider = prov, at_status = 0, at_message = ''skipped (unhealthy)'',
     at_route = None\<rparr>"

definition should_retry :: "router \<Rightarrow> provider_error \<Rightarrow> bool" where
  "should_retry r e \<longleftrightarrow>
     (case pe_retryable e of Some b \<Rightarrow> b | None \<Rightarrow> pe_status e \<in> r_retryable r)"

text \<open>A credential failure on a route rotates to another route without backoff.\<close>

definition rotates :: "provider_error \<Rightarrow> bool" where
  "rotates e \<longleftrightarrow> pe_status e \<in> {401, 402, 403, 404} \<and> truthy (pe_route_id e)"

definition relabel :: "mapping \<Rightarrow> string \<Rightarrow> chat_response \<Rightarrow> chat_response" where
  "relabel m logical_model resp =
     resp\<lparr>rsp_provider := provider m, rsp_provider_model := Some (model_id m),
          rsp_model := logical_model\<rparr>"

definition mark_failed :: "('e, 'x) runtime \<Rightarrow> router \<Rightarrow> mapping \<Rightarrow> provider_error \<Rightarrow> 'e world \<Rightarrow> 'e world" where
  "mark_failed rt r m e w =
     (if pe_provider_unavailable e \<noteq> Some False
      then w\<lparr>w_tracker := mark_unhealthy (rt_clock rt (w_env w)) (provider m) (r_cooldown r) (w_tracker w)\<rparr>
      else w)"

text \<open>
  The loop \<open>for attempt in range(max_retries + 1)\<close> with its \<open>else\<close> clause: \<open>left\<close> iterations
  remain, \<open>attempt\<close> is the index of the next one, \<open>prev\<close> the last retryable error. The result is
  the response, \<open>None\<close> for giving up, or the exception that escapes.
\<close>

fun try_loop ::
  "('e, 'x) runtime \<Rightarrow> router \<Rightarrow> mapping \<Rightarrow> string \<Rightarrow> nat \<Rightarrow> nat \<Rightarrow> provider_error option
   \<Rightarrow> attempt list \<Rightarrow> 'e world \<Rightarrow> ('x + chat_response option) \<times> attempt list \<times> 'e world" where
  "try_loop rt r m lm 0 attempt prev ats w =
     (case prev of
        None \<Rightarrow> (Inr None, ats, w)
      | Some e \<Rightarrow> (Inr None, ats @ [attempt_of (provider m) e], mark_failed rt r m e w))"
| "try_loop rt r m lm (Suc left) attempt prev ats w =
     (let (reply, w1) = rt_call rt m w in
      case reply of
        Aborted x \<Rightarrow> (Inl x, ats, w1)
      | Returned resp \<Rightarrow> (Inr (Some (relabel m lm resp)), ats, w1)
      | Raised e \<Rightarrow>
          if \<not> should_retry r e then (Inr None, ats @ [attempt_of (provider m) e], w1)
          else if int attempt < r_max_retries r \<and> \<not> rotates e
               then try_loop rt r m lm left (Suc attempt) (Some e) ats (sleep_backoff rt r attempt w1)
               else try_loop rt r m lm left (Suc attempt) (Some e) ats w1)"

definition try_provider ::
  "('e, 'x) runtime \<Rightarrow> router \<Rightarrow> mapping \<Rightarrow> string \<Rightarrow> attempt list \<Rightarrow> 'e world
   \<Rightarrow> ('x + chat_response option) \<times> attempt list \<times> 'e world" where
  "try_provider rt r m lm ats w = try_loop rt r m lm (nat (r_max_retries r + 1)) 0 None ats w"

section \<open>The fallback chain\<close>

fun try_chain ::
  "('e, 'x) runtime \<Rightarrow> router \<Rightarrow> string \<Rightarrow> mapping list \<Rightarrow> attempt list \<Rightarrow> 'e world
   \<Rightarrow> ('x exec_error + chat_response) \<times> 'e world" where
  "try_chain rt r lm [] ats w = (Inl (AllProvidersExhausted ats), w)"
| "try_chain rt r lm (m # ms) ats w =
     (let (ok, t1) = is_healthy (rt_clock rt (w_env w)) (provider m) (w_tracker w);
          w1 = w\<lparr>w_tracker := t1\<rparr> in
      if \<not> ok then try_chain rt r lm ms (ats @ [skipped (provider m)]) w1
      else (case try_provider rt r m lm ats w1 of
              (Inl x, ats1, w2) \<Rightarrow> (Inl (ProviderAborted x), w2)
            | (Inr (Some resp), ats1, w2) \<Rightarrow> (Inr resp, w2)
            | (Inr None, ats1, w2) \<Rightarrow> try_chain rt r lm ms ats1 w2))"

text \<open>Try one mapping first, whatever its health, then the chain over the rest.\<close>

definition try_first ::
  "('e, 'x) runtime \<Rightarrow> router \<Rightarrow> string \<Rightarrow> mapping \<Rightarrow> mapping list \<Rightarrow> 'e world
   \<Rightarrow> ('x exec_error + chat_response) \<times> 'e world" where
  "try_first rt r lm m rest w =
     (case try_provider rt r m lm [] w of
        (Inl x, ats, w1) \<Rightarrow> (Inl (ProviderAborted x), w1)
      | (Inr (Some resp), ats, w1) \<Rightarrow> (Inr resp, w1)
      | (Inr None, ats, w1) \<Rightarrow> try_chain rt r lm (sort_key fallback_order rest) ats w1)"

definition denied_attempt :: "int \<Rightarrow> string \<Rightarrow> attempt" where
  "denied_attempt code msg =
     \<lparr>at_provider = ''none'', at_status = code, at_message = msg, at_route = None\<rparr>"

definition not_allowed_message :: "string \<Rightarrow> string" where
  "not_allowed_message m = ''Model '' @ [CHR 0x27] @ m @ [CHR 0x27] @ '' is not in the allowed models list''"

definition not_enabled_message :: "string \<Rightarrow> string" where
  "not_enabled_message m =
     ''Model '' @ [CHR 0x27] @ m @ [CHR 0x27] @ '' has no provider enabled in this deployment''"

definition execute_preferred ::
  "('e, 'x) runtime \<Rightarrow> router \<Rightarrow> string \<Rightarrow> string \<Rightarrow> mapping list \<Rightarrow> 'e world
   \<Rightarrow> ('x exec_error + chat_response) \<times> 'e world" where
  "execute_preferred rt r lm pref mappings w =
     (case filter (\<lambda>m. provider m = pref) mappings of
        m # _ \<Rightarrow> try_first rt r lm m (filter (\<lambda>m. provider m \<noteq> pref) mappings) w
      | [] \<Rightarrow> try_chain rt r lm (sort_key fallback_order mappings) [] w)"

text \<open>The random source is consulted for the weighted strategy.\<close>

definition draw_for :: "('e, 'x) runtime \<Rightarrow> routing_kind \<Rightarrow> 'e world \<Rightarrow> rat \<times> 'e world" where
  "draw_for rt k w = (if k = Weighted then rt_random rt w else (0, w))"

definition execute_strategy ::
  "('e, 'x) runtime \<Rightarrow> router \<Rightarrow> string \<Rightarrow> mapping list \<Rightarrow> 'e world
   \<Rightarrow> ('x exec_error + chat_response) \<times> 'e world" where
  "execute_strategy rt r lm mappings w =
     (case get_strategy r lm of
        Inl e \<Rightarrow> (Inl (LookupError e), w)
      | Inr k \<Rightarrow>
          let (u, w0) = draw_for rt k w;
              (sel, cs, t) = strategy_select r k u (rt_clock rt (w_env w0)) mappings
                               (w_cursors w0) (w_tracker w0);
              w1 = w0\<lparr>w_cursors := cs, w_tracker := t\<rparr>
          in case sel of
               Inl NoHealthyProvider \<Rightarrow>
                 (Inl (AllProvidersExhausted
                    (map (\<lambda>m. skipped (provider m)) (sort_key fallback_order mappings))), w1)
             | Inl ValueError \<Rightarrow> (Inl (StrategyError ValueError), w1)
             | Inr initial \<Rightarrow>
                 try_first rt r lm initial (filter (\<lambda>m. provider m \<noteq> provider initial) mappings) w1)"

definition execute_with_fallback ::
  "('e, 'x) runtime \<Rightarrow> router \<Rightarrow> string \<Rightarrow> string option \<Rightarrow> string set option \<Rightarrow> 'e world
   \<Rightarrow> ('x exec_error + chat_response) \<times> 'e world" where
  "execute_with_fallback rt r lm preferred allowed w =
     (case available_mappings r lm of
        Inl e \<Rightarrow> (Inl (LookupError e), w)
      | Inr mappings \<Rightarrow>
          if (case allowed of None \<Rightarrow> False | Some A \<Rightarrow> lm \<notin> A)
          then (Inl (AllProvidersExhausted [denied_attempt 403 (not_allowed_message lm)]), w)
          else if mappings = []
          then (Inl (AllProvidersExhausted [denied_attempt 503 (not_enabled_message lm)]), w)
          else if truthy preferred
          then execute_preferred rt r lm (the preferred) mappings w
          else execute_strategy rt r lm mappings w)"

section \<open>The configured strategy meets the interface\<close>

lemma stateless_select:
  "f now ms t = (fst (stateless f now ms () t), snd (snd (stateless f now ms () t)))"
  by (simp add: stateless_def split: prod.splits)

lemma lift_stateless:
  assumes "routing_strategy (stateless f)"
  shows "routing_strategy (\<lambda>now ms cs t. let (x, t1) = f now ms t in (x, cs, t1))"
proof -
  note facts = routing_strategy.select_none [OF assms] routing_strategy.select_member [OF assms]
    routing_strategy.select_tracker [OF assms] routing_strategy.select_latencies [OF assms]
  show ?thesis
  proof
    fix now later :: rat and ms :: "mapping list" and s t m q
    note eq = stateless_select [of f now ms t]
    let ?f = "let (x, t1) = f now ms t in (x, s, t1)"
    show "fst ?f = Inl NoHealthyProvider \<longleftrightarrow> (\<forall>m\<in>set ms. \<not> healthy_at now t (provider m))"
      by (subst eq) (simp add: facts)
    show "fst ?f = Inr m \<Longrightarrow> m \<in> set ms \<and> healthy_at now t (provider m)"
      by (subst (asm) eq) (simp add: facts)
    show "now \<le> later \<Longrightarrow> healthy_at later (snd (snd ?f)) q = healthy_at later t q"
      by (subst eq) (simp add: facts)
    show "latencies (snd (snd ?f)) = latencies t"
      by (subst eq) (simp add: facts)
  qed
qed

interpretation configured: routing_strategy "strategy_select r k u"
proof (cases k)
  case RoundRobin
  then have "strategy_select r k u = round_robin_select"
    by (intro ext) (simp add: strategy_select_def)
  then show "routing_strategy (strategy_select r k u)"
    by (simp add: round_robin.routing_strategy_axioms)
next
  case Weighted
  then have "strategy_select r k u
      = (\<lambda>now ms cs t. let (x, t1) = weighted_select u now ms t in (x, cs, t1))"
    by (intro ext) (simp add: strategy_select_def)
  then show "routing_strategy (strategy_select r k u)"
    by (simp only: lift_stateless [OF weighted.routing_strategy_axioms])
next
  case LeastLatency
  then have "strategy_select r k u = (\<lambda>now ms cs t.
      let (x, t1) = least_latency_select (r_latency_window r) now ms t in (x, cs, t1))"
    by (intro ext) (simp add: strategy_select_def)
  then show "routing_strategy (strategy_select r k u)"
    by (simp only: lift_stateless [OF least_latency.routing_strategy_axioms])
next
  case CostOptimized
  then have "strategy_select r k u = (\<lambda>now ms cs t.
      let (x, t1) = cost_optimized_select (case_option Map.empty id (r_cost_pricing r)) now ms t
      in (x, cs, t1))"
    by (intro ext) (simp add: strategy_select_def)
  then show "routing_strategy (strategy_select r k u)"
    by (simp only: lift_stateless [OF cost_optimized.routing_strategy_axioms])
next
  case Smart
  then have "strategy_select r k u
      = (\<lambda>now ms cs t. let (x, t1) = smart_select now ms t in (x, cs, t1))"
    by (intro ext) (simp add: strategy_select_def)
  then show "routing_strategy (strategy_select r k u)"
    by (simp only: lift_stateless [OF smart.routing_strategy_axioms])
next
  case Ensemble
  then have "strategy_select r k u
      = (\<lambda>now ms cs t. let (x, t1) = smart_select now ms t in (x, cs, t1))"
    by (intro ext) (simp add: strategy_select_def)
  then show "routing_strategy (strategy_select r k u)"
    by (simp only: lift_stateless [OF smart.routing_strategy_axioms])
qed

section \<open>Availability and backoff\<close>


lemma available_mappings_Inl:
  "available_mappings r m = Inl e \<longleftrightarrow> map_of (r_registry r) m = None \<and> e = UnknownModel m"
  by (auto simp: available_mappings_def resolve_def Let_def split: option.splits if_splits)

lemma backoff_delay_bounds:
  assumes "0 \<le> r_base_delay r" "0 \<le> r_jitter r" "r_jitter r \<le> 1" "0 \<le> u" "u \<le> 1"
  shows "(1 - r_jitter r) * (r_base_delay r * 2 ^ a) \<le> backoff_delay r a u
    \<and> backoff_delay r a u \<le> r_base_delay r * 2 ^ a"
proof (cases "r_jitter r \<le> 0")
  case True
  then show ?thesis using assms by (simp add: backoff_delay_def Let_def)
next
  case False
  define full where "full = r_base_delay r * 2 ^ a"
  have full: "0 \<le> full" using assms(1) by (simp add: full_def)
  have delay: "backoff_delay r a u = full - full * r_jitter r * (1 - u)"
    using False by (simp add: backoff_delay_def Let_def full_def algebra_simps)
  have "0 \<le> full * r_jitter r * (1 - u)" using full assms by simp
  moreover have "full * r_jitter r * (1 - u) \<le> full * r_jitter r * 1"
    using full assms by (intro mult_left_mono) auto
  ultimately show ?thesis by (simp add: delay flip: full_def) (simp add: algebra_simps)
qed

section \<open>The attempts on one provider\<close>

text \<open>Every result is one of three; giving up adds one attempt for the provider.\<close>

lemma try_loop_result:
  assumes "try_loop rt r m lm n a prev ats w = (res, ats', w')" and "0 < n \<or> prev \<noteq> None"
  shows "(case res of
       Inl x \<Rightarrow> ats' = ats
     | Inr (Some resp) \<Rightarrow> ats' = ats \<and> rsp_provider resp = provider m
          \<and> rsp_provider_model resp = Some (model_id m) \<and> rsp_model resp = lm
     | Inr None \<Rightarrow> \<exists>e. ats' = ats @ [attempt_of (provider m) e])"
  using assms
proof (induction n arbitrary: a prev w)
  case 0
  then show ?case by (auto split: option.splits)
next
  case (Suc n)
  show ?case
  proof (cases "rt_call rt m w")
    case (Pair reply w1)
    show ?thesis
    proof (cases reply)
      case (Raised e)
      with Suc.prems(1) Pair Suc.IH [of "Suc a" "Some e"] show ?thesis
        by (auto split: if_splits)
    qed (use Suc.prems(1) Pair in \<open>auto simp: relabel_def\<close>)
  qed
qed

lemma try_provider_result:
  assumes "try_provider rt r m lm ats w = (res, ats', w')" and "0 \<le> r_max_retries r"
  shows "(case res of
       Inl x \<Rightarrow> ats' = ats
     | Inr (Some resp) \<Rightarrow> ats' = ats \<and> rsp_provider resp = provider m
          \<and> rsp_provider_model resp = Some (model_id m) \<and> rsp_model resp = lm
     | Inr None \<Rightarrow> \<exists>e. ats' = ats @ [attempt_of (provider m) e])"
  using try_loop_result [OF assms(1) [unfolded try_provider_def]] assms(2) by simp

text \<open>A retryable failure at every call ends with the provider in cooldown.\<close>

lemma try_loop_exhausts:
  assumes fails: "\<And>w. \<exists>e w1. rt_call rt m w = (Raised e, w1) \<and> should_retry r e
      \<and> pe_provider_unavailable e \<noteq> Some False"
    and prev: "0 < n \<or> (\<exists>e. prev = Some e \<and> pe_provider_unavailable e \<noteq> Some False)"
  shows "\<exists>e w'. try_loop rt r m lm n a prev ats w = (Inr None, ats @ [attempt_of (provider m) e], w')
      \<and> unhealthy (w_tracker w') (provider m) = Some (rt_clock rt (w_env w') + of_int (r_cooldown r))"
  using prev
proof (induction n arbitrary: a prev w)
  case 0
  then show ?case by (auto simp: mark_failed_def mark_unhealthy_def)
next
  case (Suc n)
  obtain e w1 where e: "rt_call rt m w = (Raised e, w1)" "should_retry r e"
    "pe_provider_unavailable e \<noteq> Some False" using fails by blast
  with Suc.IH [of "Some e" "Suc a"] show ?case by auto
qed

text \<open>Calls are bounded by the retry budget, whatever the provider does.\<close>

lemma try_loop_calls:
  assumes call: "\<And>w. count (snd (rt_call rt m w)) \<le> Suc (count w)"
    and sleep: "\<And>d w. count (rt_sleep rt d w) \<le> count w"
    and random: "\<And>w. count (snd (rt_random rt w)) \<le> count w"
    and mark: "\<And>w t. count (w\<lparr>w_tracker := t\<rparr>) = (count w :: nat)"
  shows "count (snd (snd (try_loop rt r m lm n a prev ats w))) \<le> count w + n"
proof (induction n arbitrary: a prev w)
  case 0
  then show ?case by (auto simp: mark_failed_def mark split: option.splits)
next
  case (Suc n)
  have backoff: "count (sleep_backoff rt r a w) \<le> count w" for a w
  proof (cases "rt_random rt w")
    case (Pair u w1)
    then have "count w1 \<le> count w" using random [of w] by simp
    with Pair sleep [of _ w] sleep [of _ w1] show ?thesis
      by (auto simp: sleep_backoff_def intro: order_trans)
  qed
  obtain reply w1 where w1: "rt_call rt m w = (reply, w1)" by fastforce
  have one: "count w1 \<le> Suc (count w)" using call [of w] w1 by simp
  show ?case
  proof (cases reply)
    case (Raised e)
    have "count (snd (snd (try_loop rt r m lm n (Suc a) (Some e) ats (sleep_backoff rt r a w1))))
        \<le> Suc (count w) + n"
      using Suc.IH [of "Suc a" "Some e" "sleep_backoff rt r a w1"] backoff [of a w1] one by linarith
    moreover have "count (snd (snd (try_loop rt r m lm n (Suc a) (Some e) ats w1)))
        \<le> Suc (count w) + n"
      using Suc.IH [of "Suc a" "Some e" w1] one by linarith
    ultimately show ?thesis using one w1 Raised by simp
  qed (use one w1 in simp_all)
qed

section \<open>The chain and the whole request\<close>

definition answers_for :: "mapping \<Rightarrow> string \<Rightarrow> chat_response \<Rightarrow> bool" where
  "answers_for m lm resp \<longleftrightarrow> rsp_provider resp = provider m
     \<and> rsp_provider_model resp = Some (model_id m) \<and> rsp_model resp = lm"

lemma try_provider_cases:
  assumes "0 \<le> r_max_retries r"
  obtains (aborted) x w' where "try_provider rt r m lm ats w = (Inl x, ats, w')"
  | (answered) resp w' where "try_provider rt r m lm ats w = (Inr (Some resp), ats, w')"
      "answers_for m lm resp"
  | (failed) e w' where "try_provider rt r m lm ats w = (Inr None, ats @ [attempt_of (provider m) e], w')"
proof -
  obtain res ats' w' where eq: "try_provider rt r m lm ats w = (res, ats', w')"
    by (metis prod.exhaust)
  note facts = try_provider_result [OF eq assms]
  show ?thesis
  proof (cases res)
    case (Inl x)
    with facts eq show ?thesis by (auto intro: aborted)
  next
    case (Inr a)
    with facts eq show ?thesis
      by (cases a) (auto simp: answers_for_def intro: answered failed)
  qed
qed


lemma try_chain_exhausted:
  assumes "0 \<le> r_max_retries r"
    and "fst (try_chain rt r lm ms ats w) = Inl (AllProvidersExhausted ats')"
  shows "map at_provider ats' = map at_provider ats @ map provider ms"
  using assms(2)
proof (induction ms arbitrary: ats w)
  case (Cons m ms)
  obtain ok t1 where h: "is_healthy (rt_clock rt (w_env w)) (provider m) (w_tracker w) = (ok, t1)"
    by fastforce
  show ?case
  proof (cases ok)
    case False
    with Cons.prems h Cons.IH [of "ats @ [skipped (provider m)]" "w\<lparr>w_tracker := t1\<rparr>"]
    show ?thesis by (simp add: skipped_def)
  next
    case True
    show ?thesis
    proof (cases rule: try_provider_cases [OF assms(1), of rt m lm ats "w\<lparr>w_tracker := t1\<rparr>",
        case_names aborted answered failed])
      case (failed e w')
      with True h Cons.prems Cons.IH [of "ats @ [attempt_of (provider m) e]" w'] show ?thesis
        by (simp add: attempt_of_def)
    qed (use True h Cons.prems in auto)
  qed
qed simp


lemma try_first_exhausted:
  assumes "0 \<le> r_max_retries r"
    and "fst (try_first rt r lm m rest w) = Inl (AllProvidersExhausted ats)"
  shows "map at_provider ats = provider m # map provider (sort_key fallback_order rest)"
proof -
  show ?thesis
  proof (cases rule: try_provider_cases [OF assms(1), of rt m lm "[]" w,
        case_names aborted answered failed])
    case (failed e w')
    with assms(2) try_chain_exhausted [OF assms(1), of rt lm "sort_key fallback_order rest"]
    show ?thesis by (fastforce simp: try_first_def attempt_of_def)
  qed (use assms(2) in \<open>auto simp: try_first_def\<close>)
qed

lemma strategy_path_cases:
  assumes "get_strategy r lm = Inr k"
  obtains (none) w1 where "execute_strategy rt r lm ms w = (Inl (AllProvidersExhausted
      (map (\<lambda>m. skipped (provider m)) (sort_key fallback_order ms))), w1)"
  | (bad) w1 where "execute_strategy rt r lm ms w = (Inl (StrategyError ValueError), w1)"
  | (initial) m w1 where "m \<in> set ms" "execute_strategy rt r lm ms w
      = try_first rt r lm m (filter (\<lambda>x. provider x \<noteq> provider m) ms) w1"
proof -
  obtain u w0 where d: "draw_for rt k w = (u, w0)" by fastforce
  obtain sel cs t where sel: "strategy_select r k u (rt_clock rt (w_env w0)) ms (w_cursors w0)
      (w_tracker w0) = (sel, cs, t)" by (metis prod.exhaust)
  note path = execute_strategy_def [of rt r lm ms w, unfolded assms sum.case d Let_def prod.case sel]
  show ?thesis
  proof (cases sel)
    case (Inl e)
    show ?thesis
    proof (cases e)
      case NoHealthyProvider
      with path Inl show ?thesis by (intro none) simp
    next
      case ValueError
      with path Inl show ?thesis by (intro bad) simp
    qed
  next
    case (Inr m)
    with sel have "m \<in> set ms"
      using configured.select_member [of r k u "rt_clock rt (w_env w0)" ms "w_cursors w0" "w_tracker w0" m]
      by simp
    moreover from path Inr have "execute_strategy rt r lm ms w
        = try_first rt r lm m (filter (\<lambda>x. provider x \<noteq> provider m) ms)
            (w0\<lparr>w_cursors := cs, w_tracker := t\<rparr>)" by simp
    ultimately show ?thesis by (rule initial)
  qed
qed


section \<open>A concrete runtime\<close>

text \<open>
  Used by the witnesses: the environment is a clock and a call counter; provider \<open>a\<close> always fails
  with 503, every other provider answers.
\<close>

definition demo_response :: chat_response where
  "demo_response = \<lparr>rsp_id = ''r'', rsp_choices = [], rsp_usage = \<lparr>tu_prompt = 1, tu_completion = 1,
     tu_total = 2, tu_cached = 0, tu_cache_creation = 0\<rparr>, rsp_model = ''snapshot'',
     rsp_provider = ''?'', rsp_warnings = [], rsp_provider_model = None\<rparr>"

definition demo_failure :: provider_error where
  "demo_failure = \<lparr>pe_status = 503, pe_provider = ''a'', pe_message = ''busy'', pe_route_id = None,
     pe_retryable = None, pe_provider_unavailable = None\<rparr>"

definition demo_runtime :: "(rat \<times> nat, unit) runtime" where
  "demo_runtime = \<lparr>rt_clock = fst,
     rt_call = (\<lambda>m w. (if provider m = ''a'' then Raised demo_failure else Returned demo_response,
        w\<lparr>w_env := (fst (w_env w) + 1, snd (w_env w) + 1)\<rparr>)),
     rt_sleep = (\<lambda>d w. w\<lparr>w_env := (fst (w_env w) + max 0 d, snd (w_env w))\<rparr>),
     rt_random = (\<lambda>w. (1/2, w))\<rparr>"

definition demo_router :: "mapping list \<Rightarrow> router" where
  "demo_router ms = \<lparr>r_registry = [(''m'', \<lparr>mc_name = ''m'', mc_description = [], mc_providers = ms,
       mc_routing = RoundRobin, mc_capabilities = None, mc_max_context = None\<rparr>)],
     r_available = None, r_require_priced = False, r_cost_pricing = None, r_smart = False,
     r_latency_window = 60, r_max_retries = 1, r_base_delay = 1, r_cooldown = 60, r_jitter = 1/2,
     r_retryable = {429, 500, 502, 503, 504}\<rparr>"

definition demo_world :: "(rat \<times> nat) world" where
  "demo_world = \<lparr>w_tracker = new_tracker, w_cursors = Map.empty, w_env = (0, 0)\<rparr>"

lemmas demo_defs = demo_response_def demo_failure_def demo_runtime_def demo_mapping_def
  demo_router_def demo_world_def

lemma demo_available [simp]: "available_mappings (demo_router ms) ''m'' = Inr ms"
  by (simp add: available_mappings_def resolve_def demo_router_def enabled_here_def)

lemma demo_retries [simp]: "r_max_retries (demo_router ms) = 1"
  by (simp add: demo_router_def)

lemma providers_split:
  "m \<in> set ms \<Longrightarrow> insert (provider m) (provider ` {x \<in> set ms. provider x \<noteq> provider m})
     = provider ` set ms"
  by (auto simp: image_iff)

section \<open>Properties\<close>



text \<open>when a permitted request is answered "all providers exhausted", its attempt list names the
  provider of every available mapping (tried or skipped as unhealthy) and no other.\<close>

theorem execute_exhausted_tried_all:
  assumes "0 \<le> r_max_retries r" and "available_mappings r lm = Inr ms" and "ms \<noteq> []"
    and "allowed = None \<or> lm \<in> the allowed"
    and "fst (execute_with_fallback rt r lm pref allowed w) = Inl (AllProvidersExhausted ats)"
  shows "at_provider ` set ats = provider ` set ms"
proof -
  have ok: "\<not> (case allowed of None \<Rightarrow> False | Some A \<Rightarrow> lm \<notin> A)"
    using assms(4) by (cases allowed) auto
  have sets: "map at_provider ats = map provider xs \<Longrightarrow> at_provider ` set ats = provider ` set xs" for xs
    by (metis list.set_map)
  show ?thesis
  proof (cases "truthy pref")
    case True
    with assms ok have e: "fst (execute_preferred rt r lm (the pref) ms w) = Inl (AllProvidersExhausted ats)"
      by (simp add: execute_with_fallback_def)
    show ?thesis
    proof (cases "filter (\<lambda>m. provider m = the pref) ms")
      case Nil
      with e have "map at_provider ats = map provider (sort_key fallback_order ms)"
        by (auto simp: execute_preferred_def dest!: try_chain_exhausted [OF assms(1)])
      from sets [OF this] show ?thesis by simp
    next
      case (Cons m rest)
      then have m: "m \<in> set ms" "provider m = the pref" by (auto simp: filter_eq_Cons_iff)
      from e Cons have "map at_provider ats
          = provider m # map provider (sort_key fallback_order (filter (\<lambda>m. provider m \<noteq> the pref) ms))"
        by (auto simp: execute_preferred_def dest!: try_first_exhausted [OF assms(1)])
      with sets [of "m # sort_key fallback_order (filter (\<lambda>m. provider m \<noteq> the pref) ms)"]
      have "at_provider ` set ats
          = insert (provider m) (provider ` {x \<in> set ms. provider x \<noteq> provider m})"
        using m(2) by simp
      with providers_split [OF m(1)] show ?thesis by simp
    qed
  next
    case False
    with assms ok have e: "fst (execute_strategy rt r lm ms w) = Inl (AllProvidersExhausted ats)"
      by (simp add: execute_with_fallback_def)
    then obtain k where k: "get_strategy r lm = Inr k"
      by (cases "get_strategy r lm") (auto simp: execute_strategy_def)
    show ?thesis
    proof (cases rule: strategy_path_cases [OF k, of rt ms w, case_names none bad initial])
      case (none w1)
      with e have "ats = map (\<lambda>m. skipped (provider m)) (sort_key fallback_order ms)" by simp
      then show ?thesis by (auto simp: skipped_def image_image)
    next
      case (initial m w1)
      with e have "map at_provider ats = provider m
          # map provider (sort_key fallback_order (filter (\<lambda>x. provider x \<noteq> provider m) ms))"
        using try_first_exhausted [OF assms(1)] by metis
      with sets [of "m # sort_key fallback_order (filter (\<lambda>x. provider x \<noteq> provider m) ms)"]
      have "at_provider ` set ats
          = insert (provider m) (provider ` {x \<in> set ms. provider x \<noteq> provider m})"
        by simp
      with providers_split [OF initial(1)] show ?thesis by simp
    qed (use e in simp)
  qed
qed

lemma execute_exhausted_tried_all_witness:
  "\<exists>ats. fst (execute_with_fallback demo_runtime (demo_router [demo_mapping ''a'' 0]) ''m'' None None
       demo_world) = Inl (AllProvidersExhausted ats) \<and> at_provider ` set ats = {''a''}"
proof -
  let ?r = "demo_router [demo_mapping ''a'' 0]"
  have run: "fst (execute_with_fallback demo_runtime ?r ''m'' None None demo_world)
      = Inl (AllProvidersExhausted [attempt_of ''a'' demo_failure])"
    by code_simp
  have "at_provider ` set [attempt_of ''a'' demo_failure] = provider ` set [demo_mapping ''a'' 0]"
    by (rule execute_exhausted_tried_all [OF _ demo_available _ _ run]) simp_all
  with run show ?thesis by (simp add: demo_mapping_def)
qed

section \<open>Bounded work\<close>

text \<open>\<open>count\<close> meters the provider calls of a request: a call adds at most one, nothing else adds.\<close>

definition meters :: "('e, 'x) runtime \<Rightarrow> ('e world \<Rightarrow> nat) \<Rightarrow> bool" where
  "meters rt count \<longleftrightarrow> (\<forall>m w. count (snd (rt_call rt m w)) \<le> Suc (count w))
     \<and> (\<forall>d w. count (rt_sleep rt d w) \<le> count w)
     \<and> (\<forall>w. count (snd (rt_random rt w)) \<le> count w)
     \<and> (\<forall>w t. count (w\<lparr>w_tracker := t\<rparr>) = count w)
     \<and> (\<forall>w c. count (w\<lparr>w_cursors := c\<rparr>) = count w)"

lemma try_provider_calls:
  assumes "meters rt count" and "try_provider rt r m lm ats w = (res, ats', w')"
  shows "count w' \<le> count w + nat (r_max_retries r + 1)"
proof -
  have "count (snd (snd (try_loop rt r m lm (nat (r_max_retries r + 1)) 0 None ats w)))
      \<le> count w + nat (r_max_retries r + 1)"
    by (rule try_loop_calls) (use assms(1) in \<open>auto simp: meters_def\<close>)
  with assms(2) show ?thesis by (simp add: try_provider_def)
qed

lemma try_chain_calls:
  assumes "meters rt count"
  shows "count (snd (try_chain rt r lm ms ats w)) \<le> count w + length ms * nat (r_max_retries r + 1)"
proof (induction ms arbitrary: ats w)
  case (Cons m ms)
  let ?B = "nat (r_max_retries r + 1)"
  obtain ok t1 where h: "is_healthy (rt_clock rt (w_env w)) (provider m) (w_tracker w) = (ok, t1)"
    by fastforce
  have same: "count (w\<lparr>w_tracker := t1\<rparr>) = count w" using assms by (simp add: meters_def)
  obtain res ats' w' where t: "try_provider rt r m lm ats (w\<lparr>w_tracker := t1\<rparr>) = (res, ats', w')"
    by (metis prod.exhaust)
  have w': "count w' \<le> count w + ?B" using try_provider_calls [OF assms t] same by simp
  show ?case
    using h t w' same Cons.IH [of "ats @ [skipped (provider m)]" "w\<lparr>w_tracker := t1\<rparr>"]
      Cons.IH [of ats' w']
    by (auto simp: Let_def split: sum.splits option.splits)
qed simp

lemma try_first_calls:
  assumes "meters rt count"
  shows "count (snd (try_first rt r lm m rest w))
    \<le> count w + Suc (length rest) * nat (r_max_retries r + 1)"
proof -
  obtain res ats w' where t: "try_provider rt r m lm [] w = (res, ats, w')" by (metis prod.exhaust)
  then show ?thesis
    using try_provider_calls [OF assms t] try_chain_calls [OF assms, of r lm "sort_key fallback_order rest" ats w']
    by (auto simp: try_first_def split: sum.splits option.splits)
qed

lemma length_filter_out:
  "m \<in> set ms \<Longrightarrow> Suc (length (filter (\<lambda>x. provider x \<noteq> provider m) ms)) \<le> length ms"
  by (metis (mono_tags, lifting) Suc_leI length_filter_less)

lemma try_first_rest_calls:
  assumes "meters rt count" and "m \<in> set ms"
  shows "count (snd (try_first rt r lm m (filter (\<lambda>x. provider x \<noteq> provider m) ms) w))
    \<le> count w + length ms * nat (r_max_retries r + 1)"
  using try_first_calls [OF assms(1), of r lm m "filter (\<lambda>x. provider x \<noteq> provider m) ms" w]
    mult_le_mono1 [OF length_filter_out [OF assms(2)], of "nat (r_max_retries r + 1)"] by linarith

lemma execute_strategy_calls:
  assumes "meters rt count"
  shows "count (snd (execute_strategy rt r lm ms w)) \<le> count w + length ms * nat (r_max_retries r + 1)"
proof (cases "get_strategy r lm")
  case (Inl e)
  then show ?thesis by (simp add: execute_strategy_def)
next
  case (Inr k)
  obtain u w0 where d: "draw_for rt k w = (u, w0)" by fastforce
  obtain sel cs t where sel: "strategy_select r k u (rt_clock rt (w_env w0)) ms (w_cursors w0)
      (w_tracker w0) = (sel, cs, t)" by (metis prod.exhaust)
  have w0: "count w0 \<le> count w" using d assms
    by (auto simp: draw_for_def meters_def split: if_splits dest!: arg_cong [where f = snd])
  have w1: "count (w0\<lparr>w_cursors := cs, w_tracker := t\<rparr>) \<le> count w"
    using assms w0 by (simp add: meters_def)
  show ?thesis
  proof (cases sel)
    case (Inl e)
    with Inr d sel w1 show ?thesis by (cases e) (simp_all add: execute_strategy_def)
  next
    case (Inr m)
    with sel have "m \<in> set ms"
      using configured.select_member [of r k u "rt_clock rt (w_env w0)" ms "w_cursors w0" "w_tracker w0" m]
      by simp
    from try_first_rest_calls [OF assms this, of r lm "w0\<lparr>w_cursors := cs, w_tracker := t\<rparr>"] w1
    show ?thesis using \<open>get_strategy r lm = Inr k\<close> Inr d sel by (simp add: execute_strategy_def)
  qed
qed

text \<open>C29: one request makes at most \<open>max_retries + 1\<close> provider calls per available mapping, whatever the
  providers answer.\<close>

theorem execute_calls_bounded:
  assumes "meters rt count" and "available_mappings r lm = Inr ms"
  shows "count (snd (execute_with_fallback rt r lm pref allowed w))
    \<le> count w + length ms * nat (r_max_retries r + 1)"
proof -
  have "count (snd (execute_preferred rt r lm p ms w)) \<le> count w + length ms * nat (r_max_retries r + 1)"
    for p
  proof (cases "filter (\<lambda>m. provider m = p) ms")
    case Nil
    then show ?thesis using try_chain_calls [OF assms(1), of r lm "sort_key fallback_order ms"]
      by (simp add: execute_preferred_def)
  next
    case (Cons m rest)
    then have "m \<in> set ms" "provider m = p" by (auto simp: filter_eq_Cons_iff)
    with try_first_rest_calls [OF assms(1), of m ms r lm w] Cons show ?thesis
      by (simp add: execute_preferred_def)
  qed
  with execute_strategy_calls [OF assms(1), of r lm ms w] assms(2) show ?thesis
    by (simp add: execute_with_fallback_def)
qed

lemma execute_calls_bounded_witness:
  "snd (w_env (snd (execute_with_fallback demo_runtime
       (demo_router [demo_mapping ''a'' 0, demo_mapping ''b'' 1]) ''m'' None None demo_world))) \<le> 4"
proof -
  have "meters demo_runtime (\<lambda>w. snd (w_env w))" by (simp add: meters_def demo_runtime_def)
  from execute_calls_bounded [OF this demo_available, of "[demo_mapping ''a'' 0, demo_mapping ''b'' 1]"
      None None demo_world] show ?thesis by (simp add: demo_world_def)
qed

section \<open>A working provider is enough\<close>












end
