(* ===== verification/RateLimit.thy ===== *)
theory RateLimit
  imports Messages
begin

text \<open>
  Rate limiting, \<open>src/gateway/rate_limiter.py\<close>: tenant-scoped keys, the in-process sliding window,
  and the fail-closed client of the fleet-wide window. A \<open>datetime\<close> is an integer number of
  microseconds since the epoch, a \<open>timedelta\<close> an integer number of microseconds.

  The critical section of the local check contains no \<open>await\<close>, so on one event loop each check
  runs to completion: a run is a sequence of checks.
\<close>

section \<open>Keys and project scope\<close>

datatype rate_error = InvalidArgument | ZeroWindow

definition normalize_tenant_id :: "string option \<Rightarrow> rate_error + string option" where
  "normalize_tenant_id t =
     (case t of None \<Rightarrow> Inr None | Some s \<Rightarrow> if blank s then Inl InvalidArgument else Inr (Some s))"

definition tenant_scoped_id :: "string option \<Rightarrow> string \<Rightarrow> string \<Rightarrow> string" where
  "tenant_scoped_id tenant rtype rid =
     (case tenant of
        None \<Rightarrow> rid
      | Some t \<Rightarrow> ''tenant:'' @ show_nat (length t) @ '':'' @ t @ '':'' @ rtype @ '':''
          @ show_nat (length rid) @ '':'' @ rid)"

text \<open>The fields of \<open>Project\<close> that rate limiting reads.\<close>

record rate_project =
  rp_project_id :: string
  rp_tenant_id :: "string option"
  rp_rate_limit_rpm :: "int option"

definition project_scope ::
  "string option \<Rightarrow> string \<Rightarrow> rate_project option \<Rightarrow> rate_error + (string option \<times> int option)" where
  "project_scope tenant project_id proj =
     (case normalize_tenant_id tenant of
        Inl e \<Rightarrow> Inl e
      | Inr t \<Rightarrow>
         (case proj of
            None \<Rightarrow> Inr (t, None)
          | Some p \<Rightarrow>
              if rp_project_id p \<noteq> project_id then Inl InvalidArgument
              else (case normalize_tenant_id (rp_tenant_id p) of
                      Inl e \<Rightarrow> Inl e
                    | Inr pt \<Rightarrow>
                        if t = None then Inr (pt, rp_rate_limit_rpm p)
                        else if pt \<noteq> t then Inl InvalidArgument
                        else Inr (t, rp_rate_limit_rpm p))))"

section \<open>Results\<close>

record rate_result =
  rl_allowed :: bool
  rl_limit :: int
  rl_remaining :: int
  rl_reset_at :: int
  rl_retry_after :: "int option"

text \<open>\<open>int(x)\<close> of a float truncates towards zero.\<close>

definition py_int :: "rat \<Rightarrow> int" where
  "py_int x = (if x < 0 then \<lceil>x\<rceil> else \<lfloor>x\<rfloor>)"

definition seconds :: "int \<Rightarrow> rat" where
  "seconds us = of_int us / 1000000"

definition fixed_window_reset :: "int \<Rightarrow> int \<Rightarrow> rate_error + int" where
  "fixed_window_reset now window =
     (if window = 0 then Inl ZeroWindow
      else let window_start = py_int (seconds now) div window * window
           in Inr ((window_start + window) * 1000000))"

definition closed_result :: "int option \<Rightarrow> int \<Rightarrow> int \<Rightarrow> int \<Rightarrow> rate_error + rate_result" where
  "closed_result user_limit project_limit window now =
     (let limit = (case user_limit of None \<Rightarrow> project_limit | Some u \<Rightarrow> min u project_limit) in
      case fixed_window_reset now window of
        Inl e \<Rightarrow> Inl e
      | Inr reset_at \<Rightarrow> Inr \<lparr>rl_allowed = False, rl_limit = limit, rl_remaining = 0,
          rl_reset_at = reset_at, rl_retry_after = Some (max 1 \<lceil>seconds (reset_at - now)\<rceil>)\<rparr>)"

section \<open>The fleet-wide client\<close>

text \<open>
  What the backend hands back: nothing callable, an exception, some other object, or a
  \<open>RateLimitResult\<close>, a dataclass whose fields may hold any value (\<open>so_reset\<close> is \<open>None\<close> when it is
  not a \<open>datetime\<close>, else the instant with whether it carries a time zone).
\<close>

record shared_fields =
  so_allowed :: json
  so_limit :: json
  so_remaining :: json
  so_reset :: "(int \<times> bool) option"
  so_retry :: json

datatype shared_output = Unavailable | BackendRaised | NotAResult | Output shared_fields

text \<open>\<open>isinstance(v, int)\<close> with the integer it stands for.\<close>

definition as_int :: "json \<Rightarrow> int option" where
  "as_int j = (case j of JInt i \<Rightarrow> Some i | JBool b \<Rightarrow> Some (of_bool b) | _ \<Rightarrow> None)"

definition valid_shared_result :: "shared_fields \<Rightarrow> bool" where
  "valid_shared_result f \<longleftrightarrow>
     (case (so_allowed f, as_int (so_limit f), as_int (so_remaining f), so_reset f) of
        (JBool allowed, Some limit, Some remaining, Some (t, aware)) \<Rightarrow>
          \<not> limit < 0 \<and> \<not> remaining < 0 \<and> \<not> limit < remaining \<and> aware
          \<and> (allowed \<or> (case as_int (so_retry f) of None \<Rightarrow> False | Some s \<Rightarrow> \<not> s < 1))
      | _ \<Rightarrow> False)"

definition fields_of :: "rate_result \<Rightarrow> shared_fields" where
  "fields_of r = \<lparr>so_allowed = JBool (rl_allowed r), so_limit = JInt (rl_limit r),
     so_remaining = JInt (rl_remaining r), so_reset = Some (rl_reset_at r, True),
     so_retry = (case rl_retry_after r of None \<Rightarrow> JNull | Some s \<Rightarrow> JInt s)\<rparr>"

definition consume_shared_rate_limit ::
  "shared_output \<Rightarrow> int option \<Rightarrow> int \<Rightarrow> int \<Rightarrow> int \<Rightarrow> rate_error + shared_fields" where
  "consume_shared_rate_limit backend user_limit project_limit window now =
     (case closed_result user_limit project_limit window now of
        Inl e \<Rightarrow> Inl e
      | Inr fallback \<Rightarrow>
         (case backend of
            Output f \<Rightarrow> if valid_shared_result f then Inr f else Inr (fields_of fallback)
          | _ \<Rightarrow> Inr (fields_of fallback)))"

section \<open>The local sliding window\<close>

record rate_config =
  rc_user_rpm :: int
  rc_project_rpm :: int
  rc_window_seconds :: int

type_synonym buckets = "string \<rightharpoonup> int list"

record limiter =
  lm_user :: buckets
  lm_project :: buckets

definition new_limiter :: limiter where
  "new_limiter = \<lparr>lm_user = Map.empty, lm_project = Map.empty\<rparr>"

definition cleanup :: "int list \<Rightarrow> int \<Rightarrow> int list" where
  "cleanup timestamps cutoff = filter (\<lambda>ts. cutoff < ts) timestamps"

text \<open>Store a cleaned bucket, or drop the key when it is empty.\<close>

definition put_bucket :: "buckets \<Rightarrow> string \<Rightarrow> int list \<Rightarrow> buckets" where
  "put_bucket b k ts = (if ts \<noteq> [] then b(k \<mapsto> ts) else b(k := None))"

text \<open>\<open>d.setdefault(k, []).append(now)\<close>\<close>

definition append_bucket :: "buckets \<Rightarrow> string \<Rightarrow> int \<Rightarrow> buckets" where
  "append_bucket b k now = b(k \<mapsto> get_or b k [] @ [now])"

definition retry_after :: "bool \<Rightarrow> int list \<Rightarrow> bool \<Rightarrow> int list \<Rightarrow> int \<Rightarrow> int \<Rightarrow> int option" where
  "retry_after user_exceeded user_ts project_exceeded project_ts window now =
     (let candidates = (if user_exceeded \<and> user_ts \<noteq> [] then [hd user_ts] else [])
                     @ (if project_exceeded \<and> project_ts \<noteq> [] then [hd project_ts] else [])
      in if candidates = [] then None
         else Some (max 1 (py_int (seconds (Min (set candidates) + window - now) + 999/1000))))"

definition check_local ::
  "rate_config \<Rightarrow> string option \<Rightarrow> string \<Rightarrow> string \<Rightarrow> int \<Rightarrow> int \<Rightarrow> limiter \<Rightarrow> rate_result \<times> limiter" where
  "check_local cfg tenant user_id project_id project_limit now l =
     (let user_key = tenant_scoped_id tenant ''user'' user_id;
          project_key = tenant_scoped_id tenant ''project'' project_id;
          window = rc_window_seconds cfg * 1000000;
          cutoff = now - window;
          user_ts = cleanup (get_or (lm_user l) user_key []) cutoff;
          users = put_bucket (lm_user l) user_key user_ts;
          user_count = int (length user_ts);
          project_ts = cleanup (get_or (lm_project l) project_key []) cutoff;
          projects = put_bucket (lm_project l) project_key project_ts;
          project_count = int (length project_ts);
          user_exceeded = rc_user_rpm cfg \<le> user_count;
          project_exceeded = project_limit \<le> project_count;
          allowed = (\<not> user_exceeded \<and> \<not> project_exceeded);
          step = (if allowed then 1 else 0);
          user_remaining = max 0 (rc_user_rpm cfg - (user_count + step));
          project_remaining = max 0 (project_limit - (project_count + step));
          oldest_user = (if user_ts \<noteq> [] then hd user_ts else now);
          oldest_project = (if project_ts \<noteq> [] then hd project_ts else now)
      in (\<lparr>rl_allowed = allowed,
           rl_limit = (if user_remaining \<le> project_remaining then rc_user_rpm cfg else project_limit),
           rl_remaining = min user_remaining project_remaining,
           rl_reset_at = min oldest_user oldest_project + window,
           rl_retry_after = (if allowed then None
              else retry_after user_exceeded user_ts project_exceeded project_ts window now)\<rparr>,
          \<lparr>lm_user = (if allowed then append_bucket users user_key now else users),
           lm_project = (if allowed then append_bucket projects project_key now else projects)\<rparr>))"

text \<open>\<open>check_rate_limit\<close>; \<open>backend\<close> is \<open>None\<close> when no persistence is enabled.\<close>

definition check_rate_limit ::
  "rate_config \<Rightarrow> shared_output option \<Rightarrow> string \<Rightarrow> string \<Rightarrow> string option \<Rightarrow> rate_project option
   \<Rightarrow> int \<Rightarrow> limiter \<Rightarrow> (rate_error + shared_fields) \<times> limiter" where
  "check_rate_limit cfg backend user_id project_id tenant proj now l =
     (case project_scope tenant project_id proj of
        Inl e \<Rightarrow> (Inl e, l)
      | Inr (t, canonical) \<Rightarrow>
          let project_limit = (case canonical of None \<Rightarrow> rc_project_rpm cfg | Some x \<Rightarrow> x) in
          (case backend of
             Some b \<Rightarrow> (consume_shared_rate_limit b (Some (rc_user_rpm cfg)) project_limit
                          (rc_window_seconds cfg) now, l)
           | None \<Rightarrow> (let (res, l') = check_local cfg t user_id project_id project_limit now l
                      in (Inr (fields_of res), l'))))"

section \<open>Sliding windows as an interface\<close>

text \<open>
  A provider of the contract decides requests one by one against one bucket of timestamps per key:
  a request sees its own bucket cleaned of what left the window, is admitted only while that bucket
  holds fewer entries than its limit, and adds itself when admitted. Whatever else \<open>step\<close> does, no
  window then holds more admitted requests of a key than the limit.
\<close>

definition in_window :: "int \<Rightarrow> int \<Rightarrow> int list \<Rightarrow> int list" where
  "in_window W T hist = filter (\<lambda>s. T - W < s \<and> s \<le> T) hist"

fun admitted :: "('st \<Rightarrow> 'c \<Rightarrow> bool \<times> 'st) \<Rightarrow> 'c list \<Rightarrow> 'st \<Rightarrow> 'c list" where
  "admitted step [] st = []"
| "admitted step (c # cs) st =
     (let (ok, st') = step st c in (if ok then [c] else []) @ admitted step cs st')"

lemma admitted_subset: "set (admitted step cs st) \<subseteq> set cs"
  by (induction cs arbitrary: st) (auto simp: Let_def split: prod.splits if_splits)

locale sliding_window =
  fixes step :: "'st \<Rightarrow> 'c \<Rightarrow> bool \<times> 'st"
    and key :: "'c \<Rightarrow> string" and tm :: "'c \<Rightarrow> int" and limit :: "'c \<Rightarrow> int"
    and bucket :: "'st \<Rightarrow> string \<Rightarrow> int list" and W :: int
  assumes bucket_step: "bucket (snd (step st c)) k =
      (if k = key c then cleanup (bucket st k) (tm c - W) @ (if fst (step st c) then [tm c] else [])
       else bucket st k)"
    and admit_limit: "fst (step st c) \<Longrightarrow> int (length (cleanup (bucket st (key c)) (tm c - W))) < limit c"
begin

definition covers :: "int \<Rightarrow> int list \<Rightarrow> int list \<Rightarrow> bool" where
  "covers t hist b \<longleftrightarrow> cleanup hist (t - W) = cleanup b (t - W) \<and> (\<forall>s\<in>set hist. s \<le> t)"

lemma covers_later: "covers t h b \<Longrightarrow> t \<le> t' \<Longrightarrow> covers t' h b"
proof -
  assume a: "covers t h b" "t \<le> t'"
  have "cleanup xs (t' - W) = cleanup (cleanup xs (t - W)) (t' - W)" for xs
    using a(2) by (simp add: cleanup_def filter_filter) (rule filter_cong, auto)
  with a show ?thesis unfolding covers_def by (metis order_trans)
qed

lemma covers_step:
  assumes "covers t h (bucket st k)" and "t \<le> tm c"
  shows "covers (tm c) (h @ (if fst (step st c) \<and> key c = k then [tm c] else [])) (bucket (snd (step st c)) k)"
  using covers_later [OF assms] by (auto simp: covers_def bucket_step cleanup_def)

lemma window_step:
  assumes "covers t h (bucket st k)" and "t \<le> tm c" and "fst (step st c)" "key c = k" and "limit c \<le> L"
    and "int (length (in_window W T h)) \<le> L"
  shows "int (length (in_window W T (h @ [tm c]))) \<le> L"
proof (cases "T - W < tm c \<and> tm c \<le> T")
  case True
  have "cleanup h (tm c - W) = cleanup (bucket st k) (tm c - W)"
    using covers_later [OF assms(1,2)] by (simp add: covers_def)
  then have "int (length (cleanup h (tm c - W))) < L"
    using admit_limit [OF assms(3)] assms(4,5) by simp
  moreover have "length (in_window W T h) \<le> length (cleanup h (tm c - W))"
  proof -
    have "in_window W T h = filter (\<lambda>s. T - W < s \<and> s \<le> T) (cleanup h (tm c - W))"
      using True by (auto simp: in_window_def cleanup_def intro: filter_cong)
    then show ?thesis by simp
  qed
  ultimately show ?thesis by (simp add: in_window_def)
next
  case False
  then have "in_window W T (h @ [tm c]) = in_window W T h" by (auto simp: in_window_def)
  then show ?thesis using assms(6) by simp
qed

lemma window_bound:
  assumes "covers t h (bucket st k)" and "sorted (t # map tm cs)"
    and "\<forall>c\<in>set cs. key c = k \<longrightarrow> limit c \<le> L" and "int (length (in_window W T h)) \<le> L"
  shows "int (length (in_window W T (h @ map tm (filter (\<lambda>c. key c = k) (admitted step cs st))))) \<le> L"
  using assms
proof (induction cs arbitrary: t h st)
  case (Cons c cs)
  define h' where "h' = h @ (if fst (step st c) \<and> key c = k then [tm c] else [])"
  have t: "t \<le> tm c" and cs: "sorted (tm c # map tm cs)" using Cons.prems(2) by auto
  have "int (length (in_window W T h')) \<le> L"
    using window_step [OF Cons.prems(1) t] Cons.prems(3,4) by (auto simp: h'_def)
  from Cons.IH [OF covers_step [OF Cons.prems(1) t, folded h'_def] cs _ this] Cons.prems(3)
  have "int (length (in_window W T (h' @ map tm (filter (\<lambda>c. key c = k) (admitted step cs (snd (step st c))))))) \<le> L"
    by simp
  moreover have "h @ map tm (filter (\<lambda>c. key c = k) (admitted step (c # cs) st))
      = h' @ map tm (filter (\<lambda>c. key c = k) (admitted step cs (snd (step st c))))"
    by (simp add: h'_def Let_def split: prod.split)
  ultimately show ?case by simp
qed simp

lemma window_bound_fresh:
  assumes "bucket st k = []" and "sorted (map tm cs)"
    and "\<forall>c\<in>set cs. key c = k \<longrightarrow> limit c \<le> L" and "0 \<le> L"
  shows "int (length (filter (\<lambda>c. key c = k \<and> T - W < tm c \<and> tm c \<le> T) (admitted step cs st))) \<le> L"
proof (cases cs)
  case (Cons c cs')
  have "covers (tm c) [] (bucket st k)" using assms(1) by (simp add: covers_def)
  moreover have "sorted (tm c # map tm cs)" using assms(2) Cons by simp
  ultimately have "int (length (in_window W T ([] @ map tm (filter (\<lambda>c. key c = k) (admitted step cs st))))) \<le> L"
    by (rule window_bound) (use assms(3,4) in \<open>simp_all add: in_window_def\<close>)
  then show ?thesis by (simp add: in_window_def filter_map o_def conj_commute)
qed (simp add: assms(4))

end

text \<open>The local limiter offers the contract twice, for the user and for the project buckets.\<close>

record check =
  ck_tenant :: "string option"
  ck_user :: string
  ck_project :: string
  ck_limit :: int
  ck_now :: int

definition local_step :: "rate_config \<Rightarrow> limiter \<Rightarrow> check \<Rightarrow> bool \<times> limiter" where
  "local_step cfg l c =
     (let (res, l') = check_local cfg (ck_tenant c) (ck_user c) (ck_project c) (ck_limit c) (ck_now c) l
      in (rl_allowed res, l'))"

definition user_key :: "check \<Rightarrow> string" where
  "user_key c = tenant_scoped_id (ck_tenant c) ''user'' (ck_user c)"

definition project_key :: "check \<Rightarrow> string" where
  "project_key c = tenant_scoped_id (ck_tenant c) ''project'' (ck_project c)"

lemma put_bucket_get [simp]:
  "get_or (put_bucket b k ts) k' [] = (if k' = k then ts else get_or b k' [])"
  by (auto simp: put_bucket_def)

lemma append_bucket_get [simp]:
  "get_or (append_bucket b k now) k' [] = (if k' = k then get_or b k [] @ [now] else get_or b k' [])"
  by (simp add: append_bucket_def)

lemma check_local_allowed:
  "rl_allowed (fst (check_local cfg t u p n now l)) \<longleftrightarrow>
     int (length (cleanup (get_or (lm_user l) (tenant_scoped_id t ''user'' u) [])
       (now - rc_window_seconds cfg * 1000000))) < rc_user_rpm cfg
   \<and> int (length (cleanup (get_or (lm_project l) (tenant_scoped_id t ''project'' p) [])
       (now - rc_window_seconds cfg * 1000000))) < n"
  by (simp only: check_local_def Let_def fst_conv rate_result.select_convs not_le)

lemma check_local_user:
  "get_or (lm_user (snd (check_local cfg t u p n now l))) k []
    = (if k = tenant_scoped_id t ''user'' u
       then cleanup (get_or (lm_user l) k []) (now - rc_window_seconds cfg * 1000000)
          @ (if rl_allowed (fst (check_local cfg t u p n now l)) then [now] else [])
       else get_or (lm_user l) k [])"
  by (simp only: check_local_def Let_def fst_conv snd_conv rate_result.select_convs limiter.select_convs)
    (simp only: if_distrib [of "\<lambda>b. get_or b k []"] append_bucket_get put_bucket_get refl append_Nil2
      split: if_split, simp)

lemma check_local_project:
  "get_or (lm_project (snd (check_local cfg t u p n now l))) k []
    = (if k = tenant_scoped_id t ''project'' p
       then cleanup (get_or (lm_project l) k []) (now - rc_window_seconds cfg * 1000000)
          @ (if rl_allowed (fst (check_local cfg t u p n now l)) then [now] else [])
       else get_or (lm_project l) k [])"
  by (simp only: check_local_def Let_def fst_conv snd_conv rate_result.select_convs limiter.select_convs)
    (simp only: if_distrib [of "\<lambda>b. get_or b k []"] append_bucket_get put_bucket_get refl append_Nil2
      split: if_split, simp)

lemmas local_step_simps = local_step_def case_prod_beta Let_def fst_conv snd_conv

interpretation user_window: sliding_window "local_step cfg" user_key ck_now "\<lambda>_. rc_user_rpm cfg"
  "\<lambda>l k. get_or (lm_user l) k []" "rc_window_seconds cfg * 1000000"
proof
  show "fst (local_step cfg l c) \<Longrightarrow> int (length (cleanup (get_or (lm_user l) (user_key c) [])
      (ck_now c - rc_window_seconds cfg * 1000000))) < rc_user_rpm cfg" for l c
    by (simp add: local_step_simps check_local_allowed user_key_def)
qed (simp only: local_step_simps user_key_def check_local_user)

interpretation project_window: sliding_window "local_step cfg" project_key ck_now ck_limit
  "\<lambda>l k. get_or (lm_project l) k []" "rc_window_seconds cfg * 1000000"
proof
  show "fst (local_step cfg l c) \<Longrightarrow> int (length (cleanup (get_or (lm_project l) (project_key c) [])
      (ck_now c - rc_window_seconds cfg * 1000000))) < ck_limit c" for l c
    by (simp add: local_step_simps check_local_allowed project_key_def)
qed (simp only: local_step_simps project_key_def check_local_project)

section \<open>Keys\<close>

text \<open>rate-limit keys never mix tenants: two tenant-scoped keys are equal only for the same tenant,
  the same kind of resource and the same resource id, whatever characters the ids contain.\<close>

theorem tenant_keys_isolated:
  assumes "rtype \<in> {''user'', ''project''}" and "rtype' \<in> {''user'', ''project''}"
  shows "tenant_scoped_id (Some t) rtype rid = tenant_scoped_id (Some t') rtype' rid'
    \<longleftrightarrow> t = t' \<and> rtype = rtype' \<and> rid = rid'"
proof -
  have "t = t' \<and> rtype = rtype' \<and> rid = rid'"
    if eq: "tenant_scoped_id (Some t) rtype rid = tenant_scoped_id (Some t') rtype' rid'"
  proof -
    from eq have tt: "t = t' \<and> rtype @ '':'' @ show_nat (length rid) @ '':'' @ rid
        = rtype' @ '':'' @ show_nat (length rid') @ '':'' @ rid'"
      using length_prefixed_inject [of t "rtype @ '':'' @ show_nat (length rid) @ '':'' @ rid" t'
          "rtype' @ '':'' @ show_nat (length rid') @ '':'' @ rid'"]
      by (simp add: tenant_scoped_id_def)
    moreover have r: "rtype = rtype'" using tt assms by auto
    ultimately show ?thesis using length_suffix_inject [of rid rid'] by simp
  qed
  then show ?thesis by auto
qed

lemma tenant_keys_isolated_witness:
  "tenant_scoped_id (Some ''a:b'') ''user'' ''c'' \<noteq> tenant_scoped_id (Some ''a'') ''user'' ''b:c''"
  using tenant_keys_isolated [of "''user''" "''user''" "''a:b''" "''c''" "''a''" "''b:c''"] by simp

section \<open>Windows\<close>

text \<open>C5: the in-process limiter never admits more than \<open>user_rpm\<close> requests of one user, nor more than
  the applicable limit of one project, within any half-open window of \<open>window_seconds\<close>.\<close>

theorem local_windows_bounded:
  assumes "sorted (map ck_now cs)" and "0 \<le> rc_user_rpm cfg" and "0 \<le> L"
    and "\<forall>c\<in>set cs. project_key c = kp \<longrightarrow> ck_limit c \<le> L"
    and "W = rc_window_seconds cfg * 1000000"
  shows "int (length (filter (\<lambda>c. user_key c = ku \<and> T - W < ck_now c \<and> ck_now c \<le> T)
           (admitted (local_step cfg) cs new_limiter))) \<le> rc_user_rpm cfg
    \<and> int (length (filter (\<lambda>c. project_key c = kp \<and> T - W < ck_now c \<and> ck_now c \<le> T)
           (admitted (local_step cfg) cs new_limiter))) \<le> L"
proof
  show "int (length (filter (\<lambda>c. user_key c = ku \<and> T - W < ck_now c \<and> ck_now c \<le> T)
      (admitted (local_step cfg) cs new_limiter))) \<le> rc_user_rpm cfg"
    unfolding assms(5) by (rule user_window.window_bound_fresh) (use assms in \<open>simp_all add: new_limiter_def\<close>)
  show "int (length (filter (\<lambda>c. project_key c = kp \<and> T - W < ck_now c \<and> ck_now c \<le> T)
      (admitted (local_step cfg) cs new_limiter))) \<le> L"
    unfolding assms(5) by (rule project_window.window_bound_fresh) (use assms in \<open>simp_all add: new_limiter_def\<close>)
qed

definition demo_rate :: rate_config where
  "demo_rate = \<lparr>rc_user_rpm = 2, rc_project_rpm = 5, rc_window_seconds = 60\<rparr>"

definition demo_check :: "int \<Rightarrow> check" where
  "demo_check now = \<lparr>ck_tenant = Some ''t'', ck_user = ''u'', ck_project = ''p'', ck_limit = 5, ck_now = now\<rparr>"

lemma local_windows_bounded_witness:
  "map ck_now (admitted (local_step demo_rate) (map demo_check [1, 2, 3, 60000002]) new_limiter) = [1, 2, 60000002]
   \<and> int (length (filter (\<lambda>c. user_key c = user_key (demo_check 1) \<and> 3 - 60000000 < ck_now c \<and> ck_now c \<le> 3)
       (admitted (local_step demo_rate) (map demo_check [1, 2, 3, 60000002]) new_limiter))) \<le> 2"
proof
  show "map ck_now (admitted (local_step demo_rate) (map demo_check [1, 2, 3, 60000002]) new_limiter) = [1, 2, 60000002]"
    by code_simp
  show "int (length (filter (\<lambda>c. user_key c = user_key (demo_check 1) \<and> 3 - 60000000 < ck_now c \<and> ck_now c \<le> 3)
       (admitted (local_step demo_rate) (map demo_check [1, 2, 3, 60000002]) new_limiter))) \<le> 2"
    using local_windows_bounded [of "map demo_check [1, 2, 3, 60000002]" demo_rate 5 _ 60000000
        "user_key (demo_check 1)" 3]
    by (simp add: demo_check_def demo_rate_def)
qed

section \<open>Failing closed\<close>

lemma valid_fields_of:
  "valid_shared_result (fields_of r) \<longleftrightarrow> 0 \<le> rl_limit r \<and> 0 \<le> rl_remaining r \<and> rl_remaining r \<le> rl_limit r
     \<and> (rl_allowed r \<or> (\<exists>s. rl_retry_after r = Some s \<and> 1 \<le> s))"
  by (cases "rl_retry_after r")
    (auto simp: valid_shared_result_def fields_of_def as_int_def not_less not_le)

lemma closed_result_Inr:
  assumes "w \<noteq> 0"
  obtains c where "closed_result ul pl w now = Inr c" "\<not> rl_allowed c"
    "rl_limit c = (case ul of None \<Rightarrow> pl | Some u \<Rightarrow> min u pl)" "rl_remaining c = 0"
    "\<exists>s. rl_retry_after c = Some s \<and> 1 \<le> s"
  using assms by (auto simp: closed_result_def fixed_window_reset_def Let_def)

text \<open>with fleet-wide enforcement every answer is a well-formed decision, and a request is admitted
  only when the backend itself returned a well-formed admission: an unavailable, failing or malformed
  backend denies.\<close>

theorem shared_fails_closed:
  assumes "0 < window" and "0 \<le> project_limit" and "\<And>u. user_limit = Some u \<Longrightarrow> 0 \<le> u"
  shows "\<exists>f. consume_shared_rate_limit backend user_limit project_limit window now = Inr f
    \<and> valid_shared_result f \<and> (backend = Output f \<or> so_allowed f = JBool False)"
proof -
  obtain c where c: "closed_result user_limit project_limit window now = Inr c" "\<not> rl_allowed c"
    "rl_limit c = (case user_limit of None \<Rightarrow> project_limit | Some u \<Rightarrow> min u project_limit)"
    "rl_remaining c = 0" "\<exists>s. rl_retry_after c = Some s \<and> 1 \<le> s"
    using closed_result_Inr [of window] assms(1) by (metis less_irrefl)
  have "valid_shared_result (fields_of c)"
    using c assms(2,3) by (cases user_limit) (auto simp: valid_fields_of)
  moreover have "so_allowed (fields_of c) = JBool False" using c(2) by (simp add: fields_of_def)
  ultimately show ?thesis
    using c(1) by (cases backend) (auto simp: consume_shared_rate_limit_def)
qed

lemma shared_fails_closed_witness:
  "\<exists>f. consume_shared_rate_limit (Output \<lparr>so_allowed = JBool True, so_limit = JInt 5, so_remaining = JInt 6,
        so_reset = Some (0, True), so_retry = JNull\<rparr>) (Some 3) 5 60 1000000 = Inr f
     \<and> so_allowed f = JBool False"
  using shared_fails_closed [of 60 5 "Some 3" "Output \<lparr>so_allowed = JBool True, so_limit = JInt 5,
      so_remaining = JInt 6, so_reset = Some (0, True), so_retry = JNull\<rparr>" 1000000]
  by (auto simp: valid_shared_result_def as_int_def)

end
