(* ===== verification/SharedWindow.thy ===== *)
theory SharedWindow
  imports RateLimit
begin

text \<open>
  The fleet-wide fixed window, \<open>consume_rate_limit_window\<close> of \<open>src/gateway/persistence.py\<close>: one
  DynamoDB transaction increments every applicable counter or none, then the counters are read back.

  The table is a map from counter keys to counts. The code keys an item by the SHA-256 digest of the
  JSON list of namespace, tenant, resource type and resource id and by the window start; the model
  uses the tuple itself, which is the digest taken as injective. \<open>window_io\<close> holds what the service
  and the other gateway instances do around the call.
\<close>

section \<open>Counters\<close>

type_synonym counter_key = "string \<times> string option \<times> string \<times> string \<times> int"

type_synonym counters = "counter_key \<rightharpoonup> int"

definition rate_limit_counter_key ::
  "string \<Rightarrow> string option \<Rightarrow> string \<Rightarrow> string \<Rightarrow> int \<Rightarrow> counter_key" where
  "rate_limit_counter_key namespace tenant rtype rid window_start
     = (namespace, tenant, rtype, rid, window_start)"

text \<open>One conditional update: \<open>attribute_not_exists(#count) OR #count < :limit\<close>, then \<open>ADD #count 1\<close>.\<close>

definition below_limit :: "counters \<Rightarrow> counter_key \<times> int \<Rightarrow> bool" where
  "below_limit st op = (case st (fst op) of None \<Rightarrow> True | Some n \<Rightarrow> n < snd op)"

definition bump :: "counter_key \<times> int \<Rightarrow> counters \<Rightarrow> counters" where
  "bump op st = st(fst op \<mapsto> get_or st (fst op) 0 + 1)"

definition transact :: "(counter_key \<times> int) list \<Rightarrow> counters \<Rightarrow> bool \<times> counters" where
  "transact ops st = (if list_all (below_limit st) ops then (True, fold bump ops st) else (False, st))"

section \<open>One request\<close>

record window_request =
  wr_namespace :: string
  wr_tenant :: "string option"
  wr_user :: "string option"
  wr_project :: string
  wr_user_limit :: "int option"
  wr_project_limit :: int
  wr_window :: int
  wr_now :: int
  wr_aware :: bool

text \<open>
  \<open>io_fault\<close> is an exception of the transaction call other than a failed condition, with whether
  the service had applied the transaction; \<open>io_others\<close> is what other instances write between the
  transaction and the reads.
\<close>

record window_io =
  io_enabled :: bool
  io_client :: bool
  io_fault :: "bool option"
  io_others :: "counters \<Rightarrow> counters"
  io_read_fails :: bool

definition valid_window_request :: "window_request \<Rightarrow> bool" where
  "valid_window_request r \<longleftrightarrow>
     \<not> (blank (wr_namespace r) \<or> blank (wr_project r) \<or> wr_project_limit r < 1 \<or> wr_window r < 1
        \<or> (case wr_user_limit r of None \<Rightarrow> False | Some u \<Rightarrow> u < 1 \<or> \<not> truthy (wr_user r))
        \<or> \<not> wr_aware r)
     \<and> (case wr_tenant r of None \<Rightarrow> True | Some t \<Rightarrow> \<not> blank t)"

definition window_start :: "window_request \<Rightarrow> int" where
  "window_start r = py_int (seconds (wr_now r)) div wr_window r * wr_window r"

definition window_counters :: "window_request \<Rightarrow> (counter_key \<times> int) list" where
  "window_counters r =
     (let key = (\<lambda>rtype rid. rate_limit_counter_key (wr_namespace r) (wr_tenant r) rtype rid (window_start r))
      in (case (wr_user_limit r, wr_user r) of
            (Some u, Some uid) \<Rightarrow> [(key ''user'' uid, u)]
          | _ \<Rightarrow> [])
         @ [(key ''project'' (wr_project r), wr_project_limit r)])"

definition window_result :: "window_request \<Rightarrow> bool \<Rightarrow> int list \<Rightarrow> rate_result" where
  "window_result r allowed counts =
     (let limits = map snd (window_counters r);
          remaining_by_counter = map (\<lambda>(l, n). max 0 (l - n)) (zip limits counts);
          i = arg_min_list (\<lambda>i. remaining_by_counter ! i) [0..<length limits];
          reset_at = (window_start r + wr_window r) * 1000000
      in \<lparr>rl_allowed = allowed, rl_limit = limits ! i, rl_remaining = remaining_by_counter ! i,
          rl_reset_at = reset_at,
          rl_retry_after = (if allowed then None
             else Some (max 1 (py_int (seconds (reset_at - wr_now r) + 999999/1000000))))\<rparr>)"

text \<open>The result with the table left behind; \<open>None\<close> means enforcement was unavailable.\<close>

definition consume_rate_limit_window ::
  "window_io \<Rightarrow> window_request \<Rightarrow> counters \<Rightarrow> (rate_error + rate_result option) \<times> counters" where
  "consume_rate_limit_window io r st =
     (if \<not> valid_window_request r then (Inl InvalidArgument, st)
      else if \<not> io_enabled io \<or> \<not> io_client io then (Inr None, st)
      else case io_fault io of
        Some applied \<Rightarrow> (Inr None, if applied then snd (transact (window_counters r) st) else st)
      | None \<Rightarrow>
          (let (allowed, st1) = transact (window_counters r) st;
               st2 = io_others io st1;
               counts = map (\<lambda>(k, _). get_or st2 k 0) (window_counters r)
           in (if io_read_fails io then Inr None else Inr (Some (window_result r allowed counts)), st2)))"

section \<open>The transaction\<close>

lemma window_counters_distinct: "distinct (map fst (window_counters r))"
  by (auto simp: window_counters_def rate_limit_counter_key_def Let_def split: option.splits)

lemma fold_bump:
  "distinct (map fst ops) \<Longrightarrow>
     get_or (fold bump ops st) k 0 = get_or st k 0 + (if k \<in> fst ` set ops then 1 else 0)"
  by (induction ops arbitrary: st) (auto simp: bump_def)

lemma transact_counts:
  "distinct (map fst ops) \<Longrightarrow> get_or (snd (transact ops st)) k 0
     = get_or st k 0 + (if fst (transact ops st) \<and> k \<in> fst ` set ops then 1 else 0)"
  by (simp add: transact_def fold_bump)

lemma transact_admits:
  "fst (transact ops st) \<Longrightarrow> (k, l) \<in> set ops \<Longrightarrow> get_or st k 0 < l \<or> st k = None"
  by (auto simp: transact_def list_all_iff below_limit_def get_or_def split: if_splits option.splits)

lemma window_limits_positive:
  "valid_window_request r \<Longrightarrow> (k, l) \<in> set (window_counters r) \<Longrightarrow> 1 \<le> l"
  by (auto simp: valid_window_request_def window_counters_def Let_def split: option.splits)

section \<open>Fixed windows as an interface\<close>

text \<open>
  A provider counts, per key, at least one for every request it grants, never lowers a count, and
  grants only below the request's limit for the key. No run then grants more than the limit.
\<close>

locale window_counter =
  fixes step :: "'st \<Rightarrow> 'c \<Rightarrow> bool \<times> 'st" and uses :: "'c \<Rightarrow> ('k \<times> int) list"
    and count :: "'st \<Rightarrow> 'k \<Rightarrow> int" and ok :: "'c \<Rightarrow> bool"
  assumes grant: "ok c \<Longrightarrow> fst (step st c) \<Longrightarrow> (k, l) \<in> set (uses c)
      \<Longrightarrow> count st k < l \<and> count st k + 1 \<le> count (snd (step st c)) k"
    and mono: "ok c \<Longrightarrow> count st k \<le> count (snd (step st c)) k"
begin

lemma granted_bound:
  assumes "list_all ok cs" and "\<forall>c\<in>set cs. \<forall>l. (k, l) \<in> set (uses c) \<longrightarrow> l \<le> L"
  shows "int (length (filter (\<lambda>c. k \<in> fst ` set (uses c)) (admitted step cs st))) \<le> max 0 (L - count st k)"
  using assms
proof (induction cs arbitrary: st)
  case (Cons c cs)
  let ?rest = "int (length (filter (\<lambda>c. k \<in> fst ` set (uses c)) (admitted step cs (snd (step st c)))))"
  have ok: "ok c" and rest: "?rest \<le> max 0 (L - count (snd (step st c)) k)"
    using Cons.prems Cons.IH [of "snd (step st c)"] by auto
  show ?case
  proof (cases "fst (step st c) \<and> k \<in> fst ` set (uses c)")
    case True
    then obtain l where l: "(k, l) \<in> set (uses c)" "l \<le> L" using Cons.prems(2) by fastforce
    from grant [OF ok conjunct1 [OF True] l(1)] l(2) rest [unfolded max_def] True show ?thesis
      by (simp add: Let_def case_prod_beta split: if_splits)
  next
    case False
    then show ?thesis using rest mono [OF ok, of st k] by (auto simp: Let_def case_prod_beta)
  qed
qed simp

end

definition fleet_step :: "counters \<Rightarrow> window_io \<times> window_request \<Rightarrow> bool \<times> counters" where
  "fleet_step st c =
     (let (res, st') = consume_rate_limit_window (fst c) (snd c) st
      in ((case res of Inr (Some x) \<Rightarrow> rl_allowed x | _ \<Rightarrow> False), st'))"

text \<open>Other instances only ever add to counters (the window's items expire after its end).\<close>

definition fair_others :: "window_io \<Rightarrow> bool" where
  "fair_others io \<longleftrightarrow> (\<forall>st k. get_or st k 0 \<le> get_or (io_others io st) k 0)"

lemma fleet_step_grant:
  "fst (fleet_step st (io, r)) \<Longrightarrow> valid_window_request r \<and> io_fault io = None
     \<and> fst (transact (window_counters r) st)
     \<and> snd (fleet_step st (io, r)) = io_others io (snd (transact (window_counters r) st))"
  by (auto simp: fleet_step_def consume_rate_limit_window_def window_result_def Let_def
      split: prod.splits if_splits option.splits)

lemma fleet_step_store:
  "snd (fleet_step st (io, r)) \<in> {st, snd (transact (window_counters r) st),
      io_others io (snd (transact (window_counters r) st))}"
  by (auto simp: fleet_step_def consume_rate_limit_window_def Let_def split: prod.splits option.splits)

interpretation fleet: window_counter fleet_step "\<lambda>c. window_counters (snd c)" "\<lambda>st k. get_or st k 0"
  "\<lambda>c. fair_others (fst c)"
proof
  fix c :: "window_io \<times> window_request" and st k l
  obtain io r where c: "c = (io, r)" by fastforce
  assume fair: "fair_others (fst c)"
  note counts = transact_counts [OF window_counters_distinct, of r st k]
  have up: "get_or st k 0 \<le> get_or (snd (transact (window_counters r) st)) k 0"
    using counts by simp
  moreover have "get_or (snd (transact (window_counters r) st)) k 0
      \<le> get_or (io_others io (snd (transact (window_counters r) st))) k 0"
    using fair unfolding c fair_others_def fst_conv by blast
  ultimately show "get_or st k 0 \<le> get_or (snd (fleet_step st c)) k 0"
    using fleet_step_store [of st io r] unfolding c by force
  assume g: "fst (fleet_step st c)" and k: "(k, l) \<in> set (window_counters (snd c))"
  note f = fleet_step_grant [OF g [unfolded c]]
  have "get_or st k 0 < l"
    using transact_admits [of "window_counters r" st k l] window_limits_positive [of r k l] f k
    by (auto simp: c)
  moreover have "get_or (snd (transact (window_counters r) st)) k 0 = get_or st k 0 + 1"
    using counts f k by (force simp: c)
  moreover have "get_or (snd (transact (window_counters r) st)) k 0 \<le> get_or (snd (fleet_step st c)) k 0"
    using f fair unfolding c fair_others_def fst_conv by (metis (no_types, lifting))
  ultimately show "get_or st k 0 < l \<and> get_or st k 0 + 1 \<le> get_or (snd (fleet_step st c)) k 0"
    by simp
qed

section \<open>Properties\<close>

text \<open>C15: across every gateway instance, whatever the order of their requests, the failures of the
  service and the interference between a transaction and its reads, a counter of a fixed window never
  grants more requests than its limit.\<close>

theorem fleet_window_bounded:
  assumes "list_all (\<lambda>c. fair_others (fst c)) cs"
    and "\<forall>c\<in>set cs. \<forall>l. (k, l) \<in> set (window_counters (snd c)) \<longrightarrow> l \<le> L" and "0 \<le> L"
  shows "int (length (filter (\<lambda>c. k \<in> fst ` set (window_counters (snd c)))
      (admitted fleet_step cs Map.empty))) \<le> L"
  using fleet.granted_bound [OF assms(1,2), of Map.empty] assms(3) by simp

definition demo_io :: window_io where
  "demo_io = \<lparr>io_enabled = True, io_client = True, io_fault = None, io_others = id, io_read_fails = False\<rparr>"

definition demo_window_request :: "int \<Rightarrow> window_request" where
  "demo_window_request l = \<lparr>wr_namespace = ''gateway'', wr_tenant = Some ''t'', wr_user = Some ''u'',
     wr_project = ''p'', wr_user_limit = Some l, wr_project_limit = 5, wr_window = 60,
     wr_now = 61000000, wr_aware = True\<rparr>"

lemma fleet_window_bounded_witness:
  "length (admitted fleet_step (replicate 3 (demo_io, demo_window_request 2)) Map.empty) = 2
   \<and> int (length (filter (\<lambda>c. (''gateway'', Some ''t'', ''user'', ''u'', 60) \<in> fst ` set (window_counters (snd c)))
      (admitted fleet_step (replicate 3 (demo_io, demo_window_request 2)) Map.empty))) \<le> 2"
proof
  show "length (admitted fleet_step (replicate 3 (demo_io, demo_window_request 2)) Map.empty) = 2"
    by code_simp
  have counters: "window_counters (demo_window_request 2)
      = [((''gateway'', Some ''t'', ''user'', ''u'', 60), 2), ((''gateway'', Some ''t'', ''project'', ''p'', 60), 5)]"
    by code_simp
  show "int (length (filter (\<lambda>c. (''gateway'', Some ''t'', ''user'', ''u'', 60) \<in> fst ` set (window_counters (snd c)))
      (admitted fleet_step (replicate 3 (demo_io, demo_window_request 2)) Map.empty))) \<le> 2"
    by (rule fleet_window_bounded) (auto simp: counters list_all_iff fair_others_def demo_io_def)
qed

lemma py_int_less: "py_int x < n \<Longrightarrow> x < of_int n"
  by (auto simp: py_int_def split: if_splits) linarith+

lemma window_resets_later:
  assumes "1 \<le> wr_window r"
  shows "wr_now r < (window_start r + wr_window r) * 1000000"
proof -
  have "py_int (seconds (wr_now r)) < window_start r + wr_window r"
    using assms pos_mod_bound [of "wr_window r" "py_int (seconds (wr_now r))"]
      div_mult_mod_eq [of "py_int (seconds (wr_now r))" "wr_window r"]
    unfolding window_start_def by linarith
  then have "seconds (wr_now r) < of_int (window_start r + wr_window r)" by (rule py_int_less)
  then have "(of_int (wr_now r) :: rat) < of_int ((window_start r + wr_window r) * 1000000)"
    by (simp add: seconds_def field_simps)
  then show ?thesis by (simp only: of_int_less_iff)
qed

lemma window_result_valid:
  assumes "valid_window_request r" and "\<And>n. n \<in> set counts \<Longrightarrow> 0 \<le> n"
    and "length counts = length (window_counters r)"
  shows "valid_shared_result (fields_of (window_result r allowed counts))"
proof -
  let ?limits = "map snd (window_counters r)"
  let ?rem = "map (\<lambda>(l, n). max 0 (l - n)) (zip ?limits counts)"
  define i where "i = arg_min_list (\<lambda>i. ?rem ! i) [0..<length ?limits]"
  have "[0..<length ?limits] \<noteq> []" by (simp add: window_counters_def Let_def)
  from arg_min_list_member [OF this] have i: "i < length (window_counters r)" by (simp add: i_def)
  have lim: "1 \<le> ?limits ! i" using window_limits_positive [OF assms(1)] i
    by (metis (no_types, lifting) nth_map nth_mem prod.collapse)
  have "0 \<le> counts ! i" using assms(2,3) i by simp
  with lim i assms(3) have "0 \<le> ?rem ! i" "?rem ! i \<le> ?limits ! i" by auto
  moreover have "rl_limit (window_result r allowed counts) = ?limits ! i"
    "rl_remaining (window_result r allowed counts) = ?rem ! i"
    "rl_retry_after (window_result r allowed counts) = None \<longleftrightarrow> allowed"
    "rl_allowed (window_result r allowed counts) = allowed"
    by (simp_all add: window_result_def Let_def i_def)
  moreover have "\<exists>s. rl_retry_after (window_result r False counts) = Some s \<and> 1 \<le> s"
    by (simp add: window_result_def Let_def)
  ultimately show ?thesis using lim by (cases allowed) (auto simp: valid_fields_of)
qed

text \<open>the fleet-wide operation is all or nothing: without interference it either admits and adds one to
  every applicable counter and to no other, or changes no counter; and what it returns is a decision
  the client accepts, resetting strictly in the future.\<close>

theorem window_atomic_and_valid:
  assumes "consume_rate_limit_window io r st = (Inr (Some res), st')" and "io_others io = id"
    and "\<And>k. 0 \<le> get_or st k 0"
  shows "valid_shared_result (fields_of res) \<and> wr_now r < rl_reset_at res
    \<and> (\<forall>k. get_or st' k 0 = get_or st k 0
          + (if rl_allowed res \<and> k \<in> fst ` set (window_counters r) then 1 else 0))"
proof -
  obtain allowed st1 where t: "transact (window_counters r) st = (allowed, st1)" by fastforce
  let ?counts = "map (\<lambda>(k, _). get_or st1 k 0) (window_counters r)"
  have v: "valid_window_request r" and res: "res = window_result r allowed ?counts" and st': "st' = st1"
    using assms(1,2) t
    by (auto simp: consume_rate_limit_window_def Let_def split: if_splits option.splits prod.splits)
  have counts: "get_or st1 k 0 = get_or st k 0 + (if allowed \<and> k \<in> fst ` set (window_counters r) then 1 else 0)"
    for k using transact_counts [OF window_counters_distinct, of r st k] t by simp
  have "valid_shared_result (fields_of res)"
    unfolding res by (rule window_result_valid [OF v]) (use counts assms(3) in auto)
  moreover have "wr_now r < rl_reset_at res"
    using window_resets_later [of r] v by (simp add: res window_result_def Let_def valid_window_request_def)
  moreover have "rl_allowed res = allowed" by (simp add: res window_result_def Let_def)
  ultimately show ?thesis using counts st' by simp
qed

lemma window_atomic_and_valid_witness:
  "\<exists>res st'. consume_rate_limit_window demo_io (demo_window_request 2) Map.empty = (Inr (Some res), st')
     \<and> rl_allowed res \<and> get_or st' (''gateway'', Some ''t'', ''user'', ''u'', 60) 0 = 1"
proof -
  let ?run = "consume_rate_limit_window demo_io (demo_window_request 2) Map.empty"
  have "case fst ?run of Inr (Some res) \<Rightarrow> rl_allowed res | _ \<Rightarrow> False" by code_simp
  then obtain res st' where run: "?run = (Inr (Some res), st')" and "rl_allowed res"
    by (cases ?run) (auto split: sum.splits option.splits)
  moreover have "(''gateway'', Some ''t'', ''user'', ''u'', 60) \<in> fst ` set (window_counters (demo_window_request 2))"
    by code_simp
  ultimately show ?thesis using window_atomic_and_valid [OF run] by (simp add: demo_io_def)
qed

end
