(* ===== verification/PolicyTree.thy ===== *)
theory PolicyTree
  imports RateLimit "HOL-Library.AList"
begin

text \<open>
  Hierarchical policy resolution, \<open>src/gateway/auth/policy_hierarchy.py\<close>: the walk from a node to its
  root, the merge of limits, the per-namespace cache, revision polling and conditional writes.

  A namespace (a \<open>dict\<close> of nodes) is an association list. The entries of a node's \<open>limits\<close> are read
  with \<open>dict.get\<close>, so each is an optional field; their types are those the admin routes validate.
\<close>

section \<open>Nodes and policies\<close>

record node_limits =
  nl_rate_limit_rpm :: "int option"
  nl_budget_limit :: "rat option"
  nl_max_tokens :: "int option"
  nl_allowed_models :: "string list option"
  nl_allowed_providers :: "string list option"
  nl_pii_redaction_enabled :: "bool option"
  nl_pii_redact_types :: "string list option"
  nl_pii_reinject :: "bool option"
  nl_pii_ner_enabled :: "bool option"
  nl_pii_ner_types :: "string list option"

record policy_node =
  pn_id :: string
  pn_type :: string
  pn_parent :: "string option"
  pn_display_name :: string
  pn_limits :: node_limits
  pn_created_at :: int

type_synonym nodes = "(string \<times> policy_node) list"

record resolved_policy =
  po_rate_limit_rpm :: "int option"
  po_budget_limit :: "rat option"
  po_allowed_models :: "string list option"
  po_max_tokens :: "int option"
  po_allowed_providers :: "string list option"
  po_pii_redaction_enabled :: bool
  po_pii_redact_types :: "string list option"
  po_pii_reinject :: bool
  po_pii_ner_enabled :: bool
  po_pii_ner_types :: "string list option"

definition default_policy :: resolved_policy where
  "default_policy = \<lparr>po_rate_limit_rpm = None, po_budget_limit = None, po_allowed_models = None,
     po_max_tokens = None, po_allowed_providers = None, po_pii_redaction_enabled = False,
     po_pii_redact_types = None, po_pii_reinject = True, po_pii_ner_enabled = False,
     po_pii_ner_types = None\<rparr>"

section \<open>Merging\<close>

definition merge_list :: "string list option \<Rightarrow> string list option \<Rightarrow> string list option" where
  "merge_list cur nd =
     (case nd of None \<Rightarrow> cur
      | Some ys \<Rightarrow> (case cur of None \<Rightarrow> Some ys | Some xs \<Rightarrow> Some (filter (\<lambda>x. x \<in> set ys) xs)))"

definition merge_union :: "string list option \<Rightarrow> string list option \<Rightarrow> string list option" where
  "merge_union cur nd =
     (case nd of None \<Rightarrow> cur
      | Some ys \<Rightarrow> (case cur of None \<Rightarrow> Some ys | Some xs \<Rightarrow> Some (sort (remdups (xs @ ys)))))"

definition merge :: "resolved_policy \<Rightarrow> policy_node \<Rightarrow> resolved_policy" where
  "merge cur node =
     (let l = pn_limits node in
      \<lparr>po_rate_limit_rpm = opt_min (po_rate_limit_rpm cur) (nl_rate_limit_rpm l),
       po_budget_limit = opt_min (po_budget_limit cur) (nl_budget_limit l),
       po_allowed_models = merge_list (po_allowed_models cur) (nl_allowed_models l),
       po_max_tokens = opt_min (po_max_tokens cur) (nl_max_tokens l),
       po_allowed_providers = merge_list (po_allowed_providers cur) (nl_allowed_providers l),
       po_pii_redaction_enabled = (po_pii_redaction_enabled cur \<or> nl_pii_redaction_enabled l = Some True),
       po_pii_redact_types = merge_union (po_pii_redact_types cur) (nl_pii_redact_types l),
       po_pii_reinject = (po_pii_reinject cur \<and> nl_pii_reinject l \<noteq> Some False),
       po_pii_ner_enabled = (po_pii_ner_enabled cur \<or> nl_pii_ner_enabled l = Some True),
       po_pii_ner_types = merge_union (po_pii_ner_types cur) (nl_pii_ner_types l)\<rparr>)"

definition resolve_ancestry :: "policy_node list \<Rightarrow> resolved_policy" where
  "resolve_ancestry ancestry = foldl merge default_policy ancestry"

definition with_project_rate_limit :: "resolved_policy \<Rightarrow> int option \<Rightarrow> resolved_policy" where
  "with_project_rate_limit policy project_rate_limit =
     (case project_rate_limit of
        None \<Rightarrow> policy
      | Some n \<Rightarrow> policy\<lparr>po_rate_limit_rpm :=
          (case po_rate_limit_rpm policy of None \<Rightarrow> Some n | Some x \<Rightarrow> Some (min x n))\<rparr>)"

section \<open>The walk to the root\<close>

text \<open>
  The loop of \<open>_ancestry_from_nodes\<close>, leaf first: \<open>current\<close> is the next id, \<open>visited\<close> the ids seen.
  Every round that continues has found a new key of the namespace.
\<close>

function walk :: "nodes \<Rightarrow> string option \<Rightarrow> string list \<Rightarrow> policy_node list" where
  "walk ns current visited =
     (case current of
        None \<Rightarrow> []
      | Some cur \<Rightarrow>
          if cur = [] \<or> cur \<in> set visited then []
          else (case map_of ns cur of
                  None \<Rightarrow> []
                | Some node \<Rightarrow> node # walk ns (pn_parent node) (cur # visited)))"
  by pat_completeness auto

lemma unvisited_decreases:
  assumes "map_of ns cur = Some node" and "cur \<notin> set visited"
  shows "length (filter (\<lambda>(k, _). k \<notin> set (cur # visited)) ns) < length (filter (\<lambda>(k, _). k \<notin> set visited) ns)"
proof -
  have "(cur, node) \<in> set (filter (\<lambda>(k, _). k \<notin> set visited) ns)"
    using assms map_of_SomeD by fastforce
  moreover have "filter (\<lambda>(k, _). k \<notin> set (cur # visited)) ns
      = filter (\<lambda>(k, _). k \<noteq> cur) (filter (\<lambda>(k, _). k \<notin> set visited) ns)"
    by (auto simp: intro: filter_cong)
  ultimately show ?thesis
    using length_filter_less [of "(cur, node)" "filter (\<lambda>(k, _). k \<notin> set visited) ns" "\<lambda>(k, _). k \<noteq> cur"]
    by simp
qed

termination walk
  by (relation "measure (\<lambda>(ns, current, visited). length (filter (\<lambda>(k, _). k \<notin> set visited) ns))")
    (simp, simp only: in_measure prod.case, rule unvisited_decreases, auto)

declare walk.simps [simp del]

definition start_node :: "nodes \<Rightarrow> string \<Rightarrow> string option \<Rightarrow> string" where
  "start_node ns node_id environment =
     (case environment of
        None \<Rightarrow> node_id
      | Some e \<Rightarrow> if e \<noteq> [] \<and> map_of ns (node_id @ '':'' @ e) \<noteq> None then node_id @ '':'' @ e else node_id)"

definition ancestry_from_nodes :: "nodes \<Rightarrow> string \<Rightarrow> string option \<Rightarrow> policy_node list" where
  "ancestry_from_nodes ns node_id environment
     = rev (walk ns (Some (start_node ns node_id environment)) [])"

section \<open>Validation of a new node\<close>

datatype limit_field = RateLimitRpm | BudgetLimit | MaxTokens | AllowedModels

definition exceeds :: "'a :: linorder option \<Rightarrow> 'a option \<Rightarrow> bool" where
  "exceeds parent nd \<longleftrightarrow> (case (parent, nd) of (Some p, Some n) \<Rightarrow> p < n | _ \<Rightarrow> False)"

text \<open>The fields whose value violates the parent's limit; the code pairs each with a message.\<close>

definition validate_node_limits :: "policy_node \<Rightarrow> nodes \<Rightarrow> limit_field list" where
  "validate_node_limits node ns =
     (case pn_parent node of
        None \<Rightarrow> []
      | Some pid \<Rightarrow>
         (case map_of ns pid of
            None \<Rightarrow> []
          | Some parent \<Rightarrow>
              let p = pn_limits parent; n = pn_limits node in
                (if exceeds (nl_rate_limit_rpm p) (nl_rate_limit_rpm n) then [RateLimitRpm] else [])
              @ (if exceeds (nl_budget_limit p) (nl_budget_limit n) then [BudgetLimit] else [])
              @ (if exceeds (nl_max_tokens p) (nl_max_tokens n) then [MaxTokens] else [])
              @ (case (nl_allowed_models p, nl_allowed_models n) of
                   (Some pm, Some nm) \<Rightarrow> if \<not> set nm \<subseteq> set pm then [AllowedModels] else []
                 | _ \<Rightarrow> [])))"

section \<open>The resolver\<close>

text \<open>
  \<open>ps_tasks\<close> is \<open>_tenant_refresh_tasks\<close>: for the refresh in flight of a tenant, what its task read when
  it started (generation, whether the tenant was loaded, its revision).
\<close>

type_synonym cache_key = "string option \<times> string \<times> string"

record resolver =
  ps_cache :: "cache_key \<rightharpoonup> resolved_policy \<times> rat"
  ps_cache_ttl :: int
  ps_nodes :: nodes
  ps_tenant_nodes :: "string \<rightharpoonup> nodes"
  ps_legacy_loaded :: bool
  ps_loaded :: "string set"
  ps_revisions :: "string \<rightharpoonup> int"
  ps_last_check :: "string \<rightharpoonup> rat"
  ps_tasks :: "string \<rightharpoonup> int \<times> bool \<times> int option"
  ps_generations :: "string \<rightharpoonup> int"
  ps_poll_interval :: rat

definition new_resolver :: "int \<Rightarrow> resolver" where
  "new_resolver ttl = \<lparr>ps_cache = Map.empty, ps_cache_ttl = ttl, ps_nodes = [], ps_tenant_nodes = Map.empty,
     ps_legacy_loaded = False, ps_loaded = {}, ps_revisions = Map.empty, ps_last_check = Map.empty,
     ps_tasks = Map.empty, ps_generations = Map.empty, ps_poll_interval = 5\<rparr>"

datatype policy_error = PolicyValueError | LimitViolation "limit_field list" | StoreUnavailable | StoreRaised | WriteConflict

text \<open>\<open>{node.node_id: node for node in nodes}\<close>\<close>

definition node_dict :: "policy_node list \<Rightarrow> nodes" where
  "node_dict ns = fold (\<lambda>n al. AList.update (pn_id n) n al) ns []"

definition invalidate_cache_for :: "string option \<Rightarrow> resolver \<Rightarrow> resolver" where
  "invalidate_cache_for t r = r\<lparr>ps_cache := (\<lambda>key. if fst key \<noteq> t then ps_cache r key else None)\<rparr>"

definition namespace :: "resolver \<Rightarrow> string option \<Rightarrow> nodes" where
  "namespace r t = (case t of None \<Rightarrow> ps_nodes r | Some x \<Rightarrow> get_or (ps_tenant_nodes r) x [])"

definition load_legacy :: "policy_node list \<Rightarrow> resolver \<Rightarrow> resolver" where
  "load_legacy ns r = invalidate_cache_for None (r\<lparr>ps_nodes := node_dict ns, ps_legacy_loaded := True\<rparr>)"

section \<open>Refreshing a tenant\<close>

text \<open>
  The persistence layer as the resolver sees it: each method may be absent (\<open>None\<close>), raise
  (\<open>Fails\<close>) or answer. \<open>st_snapshot\<close> gives \<open>None\<close> for a malformed snapshot, \<open>st_load\<close> for a failed load.
\<close>

datatype 'a answer = Fails | Gives 'a

record policy_store =
  st_enabled :: bool
  st_revision :: "json answer option"
  st_snapshot :: "(policy_node list \<times> json) option answer option"
  st_load :: "policy_node list option answer option"
  st_revision_again :: "json answer option"

definition validate_revision :: "json \<Rightarrow> int option" where
  "validate_revision j = (case j of JInt v \<Rightarrow> if v < 0 then None else Some v | _ \<Rightarrow> None)"

definition load_tenant_snapshot :: "policy_store \<Rightarrow> int \<Rightarrow> (policy_node list \<times> int) option" where
  "load_tenant_snapshot st known =
     (case st_snapshot st of
        Some Fails \<Rightarrow> None
      | Some (Gives None) \<Rightarrow> None
      | Some (Gives (Some (ns, j))) \<Rightarrow> map_option (Pair ns) (validate_revision j)
      | None \<Rightarrow>
         (case st_load st of
            None \<Rightarrow> if st_enabled st then None else Some ([], known)
          | Some Fails \<Rightarrow> None
          | Some (Gives None) \<Rightarrow> None
          | Some (Gives (Some ns)) \<Rightarrow>
              (case st_revision_again st of
                 None \<Rightarrow> Some (ns, known)
               | Some Fails \<Rightarrow> None
               | Some (Gives j) \<Rightarrow> map_option (Pair ns) (validate_revision j))))"

datatype refresh = Retain | Unchanged | Unavailable | Adopt "policy_node list" int

definition plan_refresh :: "policy_store \<Rightarrow> bool \<Rightarrow> int option \<Rightarrow> int \<Rightarrow> refresh" where
  "plan_refresh st initially_loaded known fallback =
     (let snapshot = load_tenant_snapshot st fallback;
          adopt_from = (\<lambda>observed. case snapshot of None \<Rightarrow> Retain
             | Some (ns, rv) \<Rightarrow> if rv < observed then Retain else Adopt ns rv)
      in if \<not> initially_loaded then (case snapshot of None \<Rightarrow> Unavailable | Some (ns, rv) \<Rightarrow> Adopt ns rv)
         else (case known of
                 None \<Rightarrow> Retain
               | Some k \<Rightarrow>
                  (case st_revision st of
                     None \<Rightarrow> adopt_from k
                   | Some Fails \<Rightarrow> Retain
                   | Some (Gives j) \<Rightarrow>
                      (case validate_revision j of
                         None \<Rightarrow> Retain
                       | Some v \<Rightarrow> if v < k then Retain else if v = k then Unchanged else adopt_from v))))"

definition begin_refresh :: "string \<Rightarrow> resolver \<Rightarrow> resolver" where
  "begin_refresh t r =
     (if ps_tasks r t \<noteq> None then r
      else r\<lparr>ps_tasks := (ps_tasks r)(t \<mapsto> (get_or (ps_generations r) t 0, t \<in> ps_loaded r, ps_revisions r t))\<rparr>)"

definition adopt :: "string \<Rightarrow> policy_node list \<Rightarrow> int \<Rightarrow> rat \<Rightarrow> resolver \<Rightarrow> resolver" where
  "adopt t ns rv now r = invalidate_cache_for (Some t)
     (r\<lparr>ps_tenant_nodes := (ps_tenant_nodes r)(t \<mapsto> node_dict ns),
        ps_revisions := (ps_revisions r)(t \<mapsto> rv),
        ps_loaded := insert t (ps_loaded r),
        ps_last_check := (ps_last_check r)(t \<mapsto> now)\<rparr>)"

text \<open>The end of the task: it leaves \<open>ps_tasks\<close>, and a snapshot is adopted unless the generation moved.\<close>

definition finish_refresh ::
  "string \<Rightarrow> policy_store \<Rightarrow> rat \<Rightarrow> resolver \<Rightarrow> (policy_error + unit) \<times> resolver" where
  "finish_refresh t st now r =
     (case ps_tasks r t of
        None \<Rightarrow> (Inr (), r)
      | Some (generation, initially_loaded, known) \<Rightarrow>
          let r1 = r\<lparr>ps_tasks := (ps_tasks r)(t := None)\<rparr> in
          (case plan_refresh st initially_loaded known (get_or (ps_revisions r) t 0) of
             Retain \<Rightarrow> (Inr (), r1)
           | Unavailable \<Rightarrow> (Inl StoreUnavailable, r1)
           | Unchanged \<Rightarrow> (Inr (), r1\<lparr>ps_last_check := (ps_last_check r1)(t \<mapsto> now)\<rparr>)
           | Adopt ns rv \<Rightarrow>
               if generation \<noteq> get_or (ps_generations r) t 0 then (Inr (), r1)
               else (Inr (), adopt t ns rv now r1)))"

definition tenant_fresh :: "string \<Rightarrow> rat \<Rightarrow> resolver \<Rightarrow> bool" where
  "tenant_fresh t now r \<longleftrightarrow> t \<in> ps_loaded r
     \<and> (case ps_last_check r t of None \<Rightarrow> False | Some lc \<Rightarrow> now - lc < ps_poll_interval r)"

section \<open>Reading a policy\<close>

text \<open>The synchronous part of \<open>resolve\<close>, after the namespace has been refreshed.\<close>

definition resolve_policy ::
  "string option \<Rightarrow> string \<Rightarrow> string option \<Rightarrow> int option \<Rightarrow> rat \<Rightarrow> resolver \<Rightarrow> resolved_policy \<times> resolver" where
  "resolve_policy t project_id environment project_rate_limit now r =
     (let cache_key = (t, project_id, (case environment of None \<Rightarrow> [] | Some e \<Rightarrow> e));
          compute = (let policy = resolve_ancestry (ancestry_from_nodes (namespace r t) project_id environment)
                     in (with_project_rate_limit policy project_rate_limit,
                         r\<lparr>ps_cache := (ps_cache r)(cache_key \<mapsto> (policy, now))\<rparr>))
      in case ps_cache r cache_key of
           None \<Rightarrow> compute
         | Some (policy, ts) \<Rightarrow>
             if now - ts < of_int (ps_cache_ttl r) then (with_project_rate_limit policy project_rate_limit, r)
             else compute)"

section \<open>Writing a node\<close>

definition set_legacy_node :: "policy_node \<Rightarrow> bool \<Rightarrow> resolver \<Rightarrow> (policy_error + int) \<times> resolver" where
  "set_legacy_node node saved r =
     (let violations = validate_node_limits node (ps_nodes r) in
      if violations \<noteq> [] then (Inl (LimitViolation violations), r)
      else if \<not> saved then (Inl StoreRaised, r)
      else (Inr 0, invalidate_cache_for None
              (r\<lparr>ps_nodes := AList.update (pn_id node) node (ps_nodes r), ps_legacy_loaded := True\<rparr>)))"

text \<open>Before the save: the expected revision and \<open>create_only\<close> passed to the store.\<close>

definition set_node_check ::
  "string \<Rightarrow> policy_node \<Rightarrow> bool option \<Rightarrow> resolver \<Rightarrow> (policy_error + int \<times> bool) \<times> resolver" where
  "set_node_check t node create_only r =
     (let scoped = namespace r (Some t);
          violations = validate_node_limits node scoped;
          node_exists = (map_of scoped (pn_id node) \<noteq> None);
          expected = get_or (ps_revisions r) t 0
      in if violations \<noteq> [] then (Inl (LimitViolation violations), r)
         else case create_only of
                None \<Rightarrow> (Inr (expected, \<not> node_exists), r)
              | Some c \<Rightarrow> if c = node_exists
                          then (Inl WriteConflict, r\<lparr>ps_last_check := (ps_last_check r)(t := None)\<rparr>)
                          else (Inr (expected, c), r))"

datatype save_answer = NoSaver | SaveConflict | SaveFails | Saved json | SavedPlain bool

definition saved_revision :: "bool \<Rightarrow> int \<Rightarrow> save_answer \<Rightarrow> policy_error + int" where
  "saved_revision enabled expected a =
     (case a of
        NoSaver \<Rightarrow> if enabled then Inl StoreUnavailable else Inr (expected + 1)
      | SaveConflict \<Rightarrow> Inl WriteConflict
      | SaveFails \<Rightarrow> Inl StoreUnavailable
      | Saved j \<Rightarrow> (case validate_revision j of None \<Rightarrow> Inl StoreUnavailable
                   | Some v \<Rightarrow> if v \<noteq> expected + 1 then Inl StoreUnavailable else Inr v)
      | SavedPlain ok \<Rightarrow> if enabled \<and> \<not> ok then Inl StoreUnavailable else Inr (expected + 1))"

text \<open>After the save, on whatever the state has become.\<close>

definition set_node_commit :: "string \<Rightarrow> policy_node \<Rightarrow> int \<Rightarrow> rat \<Rightarrow> resolver \<Rightarrow> resolver" where
  "set_node_commit t node revision now r = invalidate_cache_for (Some t)
     (r\<lparr>ps_tenant_nodes := (ps_tenant_nodes r)(t \<mapsto> AList.update (pn_id node) node (namespace r (Some t))),
        ps_revisions := (ps_revisions r)(t \<mapsto> revision),
        ps_generations := (ps_generations r)(t \<mapsto> get_or (ps_generations r) t 0 + 1),
        ps_loaded := insert t (ps_loaded r),
        ps_last_check := (ps_last_check r)(t \<mapsto> now)\<rparr>)"

definition set_node_finish ::
  "string \<Rightarrow> policy_node \<Rightarrow> bool \<Rightarrow> int \<Rightarrow> save_answer \<Rightarrow> rat \<Rightarrow> resolver \<Rightarrow> (policy_error + int) \<times> resolver" where
  "set_node_finish t node enabled expected a now r =
     (case saved_revision enabled expected a of
        Inl e \<Rightarrow> (Inl e, if a = SaveConflict then r\<lparr>ps_last_check := (ps_last_check r)(t := None)\<rparr> else r)
      | Inr revision \<Rightarrow> (Inr revision, set_node_commit t node revision now r))"

section \<open>What a merged policy means\<close>

definition allowed_by :: "string list option \<Rightarrow> string \<Rightarrow> bool" where
  "allowed_by l x \<longleftrightarrow> (case l of None \<Rightarrow> True | Some xs \<Rightarrow> x \<in> set xs)"

definition required_by :: "string list option \<Rightarrow> string \<Rightarrow> bool" where
  "required_by l x \<longleftrightarrow> (case l of None \<Rightarrow> False | Some xs \<Rightarrow> x \<in> set xs)"

lemma by_None [simp]: "allowed_by None x" "\<not> required_by None x"
  by (simp_all add: allowed_by_def required_by_def)

lemma allowed_by_merge: "allowed_by (merge_list a b) x \<longleftrightarrow> allowed_by a x \<and> allowed_by b x"
  by (cases a; cases b) (auto simp: allowed_by_def merge_list_def)

lemma required_by_merge: "required_by (merge_union a b) x \<longleftrightarrow> required_by a x \<or> required_by b x"
  by (cases a; cases b) (auto simp: required_by_def merge_union_def)

lemmas merge_simps = merge_def Let_def within_limit_opt_min allowed_by_merge required_by_merge

lemma foldl_merge:
  "within_limit v (po_rate_limit_rpm (foldl merge p anc))
     \<longleftrightarrow> within_limit v (po_rate_limit_rpm p) \<and> list_all (\<lambda>n. within_limit v (nl_rate_limit_rpm (pn_limits n))) anc"
  "within_limit b (po_budget_limit (foldl merge p anc))
     \<longleftrightarrow> within_limit b (po_budget_limit p) \<and> list_all (\<lambda>n. within_limit b (nl_budget_limit (pn_limits n))) anc"
  "within_limit v (po_max_tokens (foldl merge p anc))
     \<longleftrightarrow> within_limit v (po_max_tokens p) \<and> list_all (\<lambda>n. within_limit v (nl_max_tokens (pn_limits n))) anc"
  "allowed_by (po_allowed_models (foldl merge p anc)) x
     \<longleftrightarrow> allowed_by (po_allowed_models p) x \<and> list_all (\<lambda>n. allowed_by (nl_allowed_models (pn_limits n)) x) anc"
  "allowed_by (po_allowed_providers (foldl merge p anc)) x
     \<longleftrightarrow> allowed_by (po_allowed_providers p) x \<and> list_all (\<lambda>n. allowed_by (nl_allowed_providers (pn_limits n)) x) anc"
  "po_pii_redaction_enabled (foldl merge p anc)
     \<longleftrightarrow> po_pii_redaction_enabled p \<or> list_ex (\<lambda>n. nl_pii_redaction_enabled (pn_limits n) = Some True) anc"
  "required_by (po_pii_redact_types (foldl merge p anc)) x
     \<longleftrightarrow> required_by (po_pii_redact_types p) x \<or> list_ex (\<lambda>n. required_by (nl_pii_redact_types (pn_limits n)) x) anc"
  "po_pii_reinject (foldl merge p anc)
     \<longleftrightarrow> po_pii_reinject p \<and> list_all (\<lambda>n. nl_pii_reinject (pn_limits n) \<noteq> Some False) anc"
  "po_pii_ner_enabled (foldl merge p anc)
     \<longleftrightarrow> po_pii_ner_enabled p \<or> list_ex (\<lambda>n. nl_pii_ner_enabled (pn_limits n) = Some True) anc"
  "required_by (po_pii_ner_types (foldl merge p anc)) x
     \<longleftrightarrow> required_by (po_pii_ner_types p) x \<or> list_ex (\<lambda>n. required_by (nl_pii_ner_types (pn_limits n)) x) anc"
  by (induction anc arbitrary: p) (simp_all add: merge_simps conj_assoc disj_assoc)

lemma default_policy_simps [simp]:
  "po_rate_limit_rpm default_policy = None" "po_budget_limit default_policy = None"
  "po_allowed_models default_policy = None" "po_max_tokens default_policy = None"
  "po_allowed_providers default_policy = None" "\<not> po_pii_redaction_enabled default_policy"
  "po_pii_redact_types default_policy = None" "po_pii_reinject default_policy"
  "\<not> po_pii_ner_enabled default_policy" "po_pii_ner_types default_policy = None"
  by (simp_all add: default_policy_def)

text \<open>the effective policy is exactly the conjunction of its ancestry: a rate, budget or token value is
  within it when it is within every node that sets the limit, a model or provider is allowed when every
  node that lists some allows it, a PII category is required when some node requires it, redaction
  and entity detection are on when some node turns them on, and re-injection survives only when no
  node turns it off.\<close>

theorem resolve_ancestry_exact:
  "(within_limit v (po_rate_limit_rpm (resolve_ancestry anc))
      \<longleftrightarrow> list_all (\<lambda>n. within_limit v (nl_rate_limit_rpm (pn_limits n))) anc)
   \<and> (within_limit b (po_budget_limit (resolve_ancestry anc))
      \<longleftrightarrow> list_all (\<lambda>n. within_limit b (nl_budget_limit (pn_limits n))) anc)
   \<and> (within_limit v (po_max_tokens (resolve_ancestry anc))
      \<longleftrightarrow> list_all (\<lambda>n. within_limit v (nl_max_tokens (pn_limits n))) anc)
   \<and> (allowed_by (po_allowed_models (resolve_ancestry anc)) x
      \<longleftrightarrow> list_all (\<lambda>n. allowed_by (nl_allowed_models (pn_limits n)) x) anc)
   \<and> (allowed_by (po_allowed_providers (resolve_ancestry anc)) x
      \<longleftrightarrow> list_all (\<lambda>n. allowed_by (nl_allowed_providers (pn_limits n)) x) anc)
   \<and> (po_pii_redaction_enabled (resolve_ancestry anc)
      \<longleftrightarrow> list_ex (\<lambda>n. nl_pii_redaction_enabled (pn_limits n) = Some True) anc)
   \<and> (required_by (po_pii_redact_types (resolve_ancestry anc)) x
      \<longleftrightarrow> list_ex (\<lambda>n. required_by (nl_pii_redact_types (pn_limits n)) x) anc)
   \<and> (po_pii_reinject (resolve_ancestry anc)
      \<longleftrightarrow> list_all (\<lambda>n. nl_pii_reinject (pn_limits n) \<noteq> Some False) anc)
   \<and> (po_pii_ner_enabled (resolve_ancestry anc)
      \<longleftrightarrow> list_ex (\<lambda>n. nl_pii_ner_enabled (pn_limits n) = Some True) anc)
   \<and> (required_by (po_pii_ner_types (resolve_ancestry anc)) x
      \<longleftrightarrow> list_ex (\<lambda>n. required_by (nl_pii_ner_types (pn_limits n)) x) anc)"
  by (simp add: resolve_ancestry_def foldl_merge default_policy_simps)

section \<open>Narrowing\<close>

definition limit_narrows :: "'a :: linorder option \<Rightarrow> 'a option \<Rightarrow> bool" where
  "limit_narrows q p \<longleftrightarrow>
     (case p of None \<Rightarrow> True | Some b \<Rightarrow> (case q of None \<Rightarrow> False | Some a \<Rightarrow> a \<le> b))"

definition list_narrows :: "string list option \<Rightarrow> string list option \<Rightarrow> bool" where
  "list_narrows q p \<longleftrightarrow>
     (case p of None \<Rightarrow> True | Some xs \<Rightarrow> (case q of None \<Rightarrow> False | Some ys \<Rightarrow> list_all (\<lambda>y. y \<in> set xs) ys))"

text \<open>\<open>narrower q p\<close>: policy \<open>q\<close> permits nothing that \<open>p\<close> forbids.\<close>

definition narrower :: "resolved_policy \<Rightarrow> resolved_policy \<Rightarrow> bool" where
  "narrower q p \<longleftrightarrow> limit_narrows (po_rate_limit_rpm q) (po_rate_limit_rpm p)
     \<and> limit_narrows (po_budget_limit q) (po_budget_limit p)
     \<and> limit_narrows (po_max_tokens q) (po_max_tokens p)
     \<and> list_narrows (po_allowed_models q) (po_allowed_models p)
     \<and> list_narrows (po_allowed_providers q) (po_allowed_providers p)
     \<and> (po_pii_redaction_enabled p \<longrightarrow> po_pii_redaction_enabled q)
     \<and> (po_pii_reinject q \<longrightarrow> po_pii_reinject p)
     \<and> (po_pii_ner_enabled p \<longrightarrow> po_pii_ner_enabled q)
     \<and> (\<forall>x. required_by (po_pii_redact_types p) x \<longrightarrow> required_by (po_pii_redact_types q) x)
     \<and> (\<forall>x. required_by (po_pii_ner_types p) x \<longrightarrow> required_by (po_pii_ner_types q) x)"

lemma limit_narrowsI:
  fixes q :: "'a :: linordered_idom option"
  assumes "\<And>v. within_limit v q \<Longrightarrow> within_limit v p"
  shows "limit_narrows q p"
proof (cases p)
  case (Some b)
  show ?thesis
  proof (cases q)
    case None
    with assms [of "b + 1"] Some show ?thesis by (simp add: less_le_not_le [symmetric])
  next
    case (Some a)
    with assms [of a] \<open>p = Some b\<close> show ?thesis by (simp add: limit_narrows_def)
  qed
qed (simp add: limit_narrows_def)

lemma merge_list_None: "merge_list a b = None \<longleftrightarrow> a = None \<and> b = None"
  by (cases a; cases b) (auto simp: merge_list_def)

lemma foldl_merge_unlisted:
  "po_allowed_models (foldl merge p anc) = None
     \<longleftrightarrow> po_allowed_models p = None \<and> list_all (\<lambda>n. nl_allowed_models (pn_limits n) = None) anc"
  "po_allowed_providers (foldl merge p anc) = None
     \<longleftrightarrow> po_allowed_providers p = None \<and> list_all (\<lambda>n. nl_allowed_providers (pn_limits n) = None) anc"
  by (induction anc arbitrary: p) (simp_all add: merge_def Let_def merge_list_None conj_assoc)

lemma list_narrowsI:
  assumes "\<And>x. allowed_by q x \<Longrightarrow> allowed_by p x" and "q = None \<Longrightarrow> p = None"
  shows "list_narrows q p"
  using assms by (cases p; cases q) (auto simp: list_narrows_def allowed_by_def list_all_iff)

lemma narrower_superset:
  assumes "set a \<subseteq> set b"
  shows "narrower (resolve_ancestry b) (resolve_ancestry a)"
proof -
  have all: "list_all P b \<Longrightarrow> list_all P a" and ex: "list_ex P a \<Longrightarrow> list_ex P b" for P
    using assms by (auto simp: list_all_iff list_ex_iff)
  note facts = foldl_merge foldl_merge_unlisted
  show ?thesis
    unfolding narrower_def resolve_ancestry_def
    by (intro conjI limit_narrowsI list_narrowsI allI impI)
      (auto simp: facts intro: all ex)
qed

section \<open>The walk\<close>

lemma walk_step:
  "cur \<noteq> [] \<Longrightarrow> cur \<notin> set vis \<Longrightarrow> map_of ns cur = Some node
    \<Longrightarrow> walk ns (Some cur) vis = node # walk ns (pn_parent node) (cur # vis)"
  by (subst walk.simps) simp

lemma walk_cases:
  obtains (stop) "walk ns current vis = []"
      "\<forall>cur. current = Some cur \<longrightarrow> cur = [] \<or> cur \<in> set vis \<or> map_of ns cur = None"
  | (step) cur node where "current = Some cur" "cur \<noteq> []" "cur \<notin> set vis" "map_of ns cur = Some node"
      "walk ns current vis = node # walk ns (pn_parent node) (cur # vis)"
proof (cases current)
  case None
  then show ?thesis by (intro stop) (simp_all add: walk.simps [of ns None])
next
  case (Some cur)
  show ?thesis
  proof (cases "cur = [] \<or> cur \<in> set vis \<or> map_of ns cur = None")
    case True
    with Some show ?thesis by (intro stop) (auto simp: walk.simps [of ns "Some cur"])
  next
    case False
    with Some show ?thesis by (auto intro: step walk_step)
  qed
qed

text \<open>The nodes walked are closed under parents, and no smaller closed set contains the first one.\<close>

lemma walk_closed:
  assumes "x \<in> set (walk ns current vis)" "pn_parent x = Some q" "q \<noteq> []" "map_of ns q = Some y"
  shows "q \<in> set vis \<or> y \<in> set (walk ns current vis)"
  using assms
proof (induction ns current vis rule: walk.induct)
  case (1 ns current vis)
  from walk_cases [of ns current vis] show ?case
  proof cases
    case (step cur node)
    then have ne: "\<not> (cur = [] \<or> cur \<in> set vis)" by simp
    have rest: "q \<in> set (cur # vis) \<or> y \<in> set (walk ns (pn_parent node) (cur # vis))"
    proof (cases "x = node")
      case True
      with "1.prems" show ?thesis
        by (cases "q \<in> set (cur # vis)") (simp_all add: walk_step [of q "cur # vis" ns y])
    next
      case False
      with "1.prems" step(5) have "x \<in> set (walk ns (pn_parent node) (cur # vis))" by simp
      from "1.IH" [OF step(1) ne step(4) this "1.prems"(2-4)] show ?thesis .
    qed
    show ?thesis
    proof (cases "q = cur")
      case True
      with "1.prems"(4) step(4,5) show ?thesis by simp
    qed (use rest step(5) in auto)
  qed (use 1 in simp)
qed

lemma walk_least:
  assumes "\<And>cur y. current = Some cur \<Longrightarrow> cur \<noteq> [] \<Longrightarrow> map_of ns cur = Some y \<Longrightarrow> y \<in> S"
    and "\<And>x q y. x \<in> S \<Longrightarrow> pn_parent x = Some q \<Longrightarrow> q \<noteq> [] \<Longrightarrow> map_of ns q = Some y \<Longrightarrow> y \<in> S"
  shows "set (walk ns current vis) \<subseteq> S"
  using assms
proof (induction ns current vis rule: walk.induct)
  case (1 ns current vis)
  from walk_cases [of ns current vis] show ?case
  proof cases
    case (step cur node)
    then have ne: "\<not> (cur = [] \<or> cur \<in> set vis)" by simp
    have "node \<in> S" using "1.prems"(1) step(1,2,4) .
    moreover have "set (walk ns (pn_parent node) (cur # vis)) \<subseteq> S"
      by (rule "1.IH" [OF step(1) ne step(4)]) (use \<open>node \<in> S\<close> "1.prems"(2) in blast)+
    ultimately show ?thesis using step(5) by simp
  qed simp
qed

lemma parent_walk_subset:
  assumes "c \<noteq> []" "map_of ns c = Some node" "pn_parent node = Some p" "p \<noteq> []"
  shows "set (walk ns (Some p) []) \<subseteq> set (walk ns (Some c) [])"
proof (rule walk_least)
  have node: "node \<in> set (walk ns (Some c) [])" using walk_step [of c "[]" ns node] assms by simp
  show "y \<in> set (walk ns (Some c) [])" if "Some p = Some cur" "map_of ns cur = Some y" for cur y
    using walk_closed [OF node assms(3,4), of y] that by simp
  show "y \<in> set (walk ns (Some c) [])"
    if "x \<in> set (walk ns (Some c) [])" "pn_parent x = Some q" "q \<noteq> []" "map_of ns q = Some y" for x q y
    using walk_closed [OF that] by simp
qed

text \<open>C4: a child never exceeds its parent: in any namespace, cyclic parent links included, the effective
  policy of a node permits nothing that the effective policy of its parent forbids.\<close>

theorem child_never_exceeds_parent:
  assumes "child \<noteq> []" "map_of ns child = Some node" "pn_parent node = Some parent" "parent \<noteq> []"
  shows "narrower (resolve_ancestry (ancestry_from_nodes ns child None))
                  (resolve_ancestry (ancestry_from_nodes ns parent None))"
  by (rule narrower_superset)
    (use parent_walk_subset [OF assms] in \<open>simp add: ancestry_from_nodes_def start_node_def\<close>)

definition no_limits :: node_limits where
  "no_limits = \<lparr>nl_rate_limit_rpm = None, nl_budget_limit = None, nl_max_tokens = None,
     nl_allowed_models = None, nl_allowed_providers = None, nl_pii_redaction_enabled = None,
     nl_pii_redact_types = None, nl_pii_reinject = None, nl_pii_ner_enabled = None, nl_pii_ner_types = None\<rparr>"

definition demo_node :: "string \<Rightarrow> string option \<Rightarrow> int option \<Rightarrow> policy_node" where
  "demo_node i p rpm = \<lparr>pn_id = i, pn_type = ''project'', pn_parent = p, pn_display_name = i,
     pn_limits = no_limits\<lparr>nl_rate_limit_rpm := rpm\<rparr>, pn_created_at = 0\<rparr>"

lemma child_never_exceeds_parent_witness:
  "narrower
     (resolve_ancestry (ancestry_from_nodes
        (node_dict [demo_node ''org'' None (Some 60), demo_node ''p'' (Some ''org'') (Some 600)]) ''p'' None))
     (resolve_ancestry (ancestry_from_nodes
        (node_dict [demo_node ''org'' None (Some 60), demo_node ''p'' (Some ''org'') (Some 600)]) ''org'' None))"
  by (rule child_never_exceeds_parent [of _ _ "demo_node ''p'' (Some ''org'') (Some 600)"])
    (simp_all add: node_dict_def demo_node_def)

definition follows :: "nodes \<Rightarrow> policy_node \<Rightarrow> policy_node \<Rightarrow> bool" where
  "follows ns a b \<longleftrightarrow> (case pn_parent a of None \<Rightarrow> False | Some q \<Rightarrow> map_of ns q = Some b)"

lemma walk_chain:
  assumes "\<forall>(k, n)\<in>set ns. pn_id n = k"
  shows "distinct (map pn_id (walk ns current vis)) \<and> pn_id ` set (walk ns current vis) \<inter> set vis = {}
    \<and> successively (follows ns) (walk ns current vis)
    \<and> (walk ns current vis \<noteq> [] \<longrightarrow> (\<exists>k. current = Some k \<and> map_of ns k = Some (hd (walk ns current vis))))
    \<and> (walk ns current vis \<noteq> [] \<longrightarrow> (\<forall>q. pn_parent (last (walk ns current vis)) = Some q
        \<longrightarrow> q = [] \<or> map_of ns q = None \<or> q \<in> pn_id ` set (walk ns current vis) \<union> set vis))"
  using assms
proof (induction ns current vis rule: walk.induct)
  case (1 ns current vis)
  from walk_cases [of ns current vis] show ?case
  proof cases
    case (step cur node)
    then have ne: "\<not> (cur = [] \<or> cur \<in> set vis)" by simp
    let ?rest = "walk ns (pn_parent node) (cur # vis)"
    note IH = "1.IH" [OF step(1) ne step(4) "1.prems"]
    have id: "pn_id node = cur" using "1.prems" map_of_SomeD [OF step(4)] by auto
    have succ: "successively (follows ns) (node # ?rest)"
      using IH by (cases ?rest) (auto simp: follows_def)
    show ?thesis
    proof (cases "?rest = []")
      case True
      have "q = [] \<or> map_of ns q = None \<or> q \<in> set (cur # vis)" if "pn_parent node = Some q" for q
        using True that walk_step [of q "cur # vis" ns] by (cases "map_of ns q") auto
      then show ?thesis using True id step by simp
    qed (use IH id step succ in auto)
  qed simp
qed

text \<open>the ancestry is the parent chain, root first: leaf first, it starts with the node looked up,
  each node is followed by the node its parent id names, ids never repeat, and it ends only at a node
  whose parent is absent, unknown or already on the path.\<close>

theorem ancestry_is_parent_chain:
  assumes "\<forall>(k, n)\<in>set ns. pn_id n = k"
    and "c = rev (ancestry_from_nodes ns node_id environment)" and "s = start_node ns node_id environment"
  shows "distinct (map pn_id c)
    \<and> (c = [] \<longleftrightarrow> s = [] \<or> map_of ns s = None)
    \<and> (c \<noteq> [] \<longrightarrow> map_of ns s = Some (hd c))
    \<and> successively (follows ns) c
    \<and> (c \<noteq> [] \<longrightarrow> (\<forall>q. pn_parent (last c) = Some q \<longrightarrow> q = [] \<or> map_of ns q = None \<or> q \<in> pn_id ` set c))"
proof -
  have c: "c = walk ns (Some s) []" using assms(2,3) by (simp add: ancestry_from_nodes_def)
  have "c = [] \<longleftrightarrow> s = [] \<or> map_of ns s = None"
    by (cases "map_of ns s") (auto simp: c walk.simps [of ns "Some s"])
  with walk_chain [OF assms(1), of "Some s" "[]", folded c] show ?thesis by auto
qed

lemma ancestry_is_parent_chain_witness:
  "map pn_id (ancestry_from_nodes (node_dict [demo_node ''o'' (Some ''p:dev'') None,
      demo_node ''p:dev'' (Some ''p'') None, demo_node ''p'' (Some ''o'') None]) ''p'' (Some ''dev''))
    = [''o'', ''p'', ''p:dev'']
   \<and> distinct (map pn_id (rev (ancestry_from_nodes (node_dict [demo_node ''o'' (Some ''p:dev'') None,
      demo_node ''p:dev'' (Some ''p'') None, demo_node ''p'' (Some ''o'') None]) ''p'' (Some ''dev''))))"
proof
  let ?ns = "node_dict [demo_node ''o'' (Some ''p:dev'') None,
      demo_node ''p:dev'' (Some ''p'') None, demo_node ''p'' (Some ''o'') None]"
  show "map pn_id (ancestry_from_nodes ?ns ''p'' (Some ''dev'')) = [''o'', ''p'', ''p:dev'']"
    by code_simp
  have "\<forall>(k, n)\<in>set ?ns. pn_id n = k" by (simp add: node_dict_def demo_node_def)
  from ancestry_is_parent_chain [OF this refl refl, of "''p''" "Some ''dev''"]
  show "distinct (map pn_id (rev (ancestry_from_nodes ?ns ''p'' (Some ''dev''))))" by blast
qed

end
