(* ===== verification/PolicyResolver.thy ===== *)
theory PolicyResolver
  imports PolicyTree
begin

text \<open>
  The policy resolver as a state machine: the steps of concurrent \<open>resolve\<close>, \<open>set_node\<close> and refresh
  tasks on one event loop, each synchronous stretch between two awaits being one step; its cache is
  transparent and an adopted revision never goes backwards through a refresh.
\<close>

section \<open>Steps\<close>

inductive policy_step :: "resolver \<Rightarrow> resolver \<Rightarrow> bool" where
  load: "policy_step r (load_legacy ns r)"
| begin_task: "policy_step r (begin_refresh t r)"
| finish_task: "policy_step r (snd (finish_refresh t st now r))"
| resolve: "policy_step r (snd (resolve_policy t pid env rate now r))"
| set_legacy: "policy_step r (snd (set_legacy_node node saved r))"
| check_write: "policy_step r (snd (set_node_check t node create_only r))"
| finish_write: "policy_step r (snd (set_node_finish t node enabled expected a now r))"

inductive reachable :: "int \<Rightarrow> resolver \<Rightarrow> bool" where
  start: "reachable ttl (new_resolver ttl)"
| step: "reachable ttl r \<Longrightarrow> policy_step r r' \<Longrightarrow> reachable ttl r'"

text \<open>An invariant that holds of a new resolver and is preserved by every step holds of every reachable state.\<close>

lemma reachable_invariant:
  assumes "reachable ttl r" and "Inv (new_resolver ttl)" and "\<And>r r'. Inv r \<Longrightarrow> policy_step r r' \<Longrightarrow> Inv r'"
  shows "Inv r"
  using assms by (induction rule: reachable.induct) blast+

section \<open>Whole operations\<close>

text \<open>
  \<open>resolve\<close> and \<open>set_node\<close> as the code composes them. \<open>others\<close> is what other tasks do while a store
  call is awaited; \<open>legacy\<close> is the answer of \<open>load_all_policy_nodes\<close>.
\<close>

definition ensure_tenant_fresh ::
  "string \<Rightarrow> bool \<Rightarrow> policy_store \<Rightarrow> rat \<Rightarrow> (resolver \<Rightarrow> resolver) \<Rightarrow> resolver \<Rightarrow> (policy_error + unit) \<times> resolver" where
  "ensure_tenant_fresh t force st now others r =
     (if \<not> force \<and> tenant_fresh t now r then (Inr (), r)
      else finish_refresh t st now (others (begin_refresh t r)))"

definition ensure_namespace ::
  "string option \<Rightarrow> policy_node list answer \<Rightarrow> policy_store \<Rightarrow> rat \<Rightarrow> (resolver \<Rightarrow> resolver) \<Rightarrow> resolver
   \<Rightarrow> (policy_error + unit) \<times> resolver" where
  "ensure_namespace tenant legacy st now others r =
     (case tenant of
        Some t \<Rightarrow> ensure_tenant_fresh t False st now others r
      | None \<Rightarrow>
          if ps_legacy_loaded r \<or> ps_nodes r \<noteq> [] then (Inr (), r)
          else (case legacy of Fails \<Rightarrow> (Inl StoreRaised, others r)
                             | Gives ns \<Rightarrow> (Inr (), load_legacy ns (others r))))"

definition resolve_request ::
  "string \<Rightarrow> string option \<Rightarrow> string option \<Rightarrow> rate_project option \<Rightarrow> policy_node list answer \<Rightarrow> policy_store
   \<Rightarrow> rat \<Rightarrow> rat \<Rightarrow> (resolver \<Rightarrow> resolver) \<Rightarrow> resolver \<Rightarrow> (policy_error + resolved_policy) \<times> resolver" where
  "resolve_request pid env tenant proj legacy st clock now others r =
     (case project_scope tenant pid proj of
        Inl e \<Rightarrow> (Inl PolicyValueError, r)
      | Inr (t, rate) \<Rightarrow>
         (case ensure_namespace t legacy st clock others r of
            (Inl e, r1) \<Rightarrow> (Inl e, r1)
          | (Inr _, r1) \<Rightarrow> (let (policy, r2) = resolve_policy t pid env rate now r1 in (Inr policy, r2))))"

definition set_node ::
  "policy_node \<Rightarrow> string option \<Rightarrow> bool option \<Rightarrow> policy_node list answer \<Rightarrow> policy_store \<Rightarrow> save_answer
   \<Rightarrow> rat \<Rightarrow> rat \<Rightarrow> (resolver \<Rightarrow> resolver) \<Rightarrow> (resolver \<Rightarrow> resolver) \<Rightarrow> resolver \<Rightarrow> (policy_error + int) \<times> resolver" where
  "set_node node tenant create_only legacy st a now1 now2 others1 others2 r =
     (case normalize_tenant_id tenant of
        Inl e \<Rightarrow> (Inl PolicyValueError, r)
      | Inr t \<Rightarrow>
         (case ensure_namespace t legacy st now1 others1 r of
            (Inl e, r1) \<Rightarrow> (Inl e, r1)
          | (Inr _, r1) \<Rightarrow>
             (case t of
                None \<Rightarrow> set_legacy_node node (a \<noteq> SaveFails \<and> a \<noteq> SaveConflict) r1
              | Some x \<Rightarrow>
                 (case set_node_check x node create_only r1 of
                    (Inl e, r2) \<Rightarrow> (Inl e, r2)
                  | (Inr (expected, _), r2) \<Rightarrow>
                      set_node_finish x node (st_enabled st) expected a now2
                        (if a = NoSaver then r2 else others2 r2)))))"

section \<open>The cache\<close>


lemma ancestry_env:
  "ancestry_from_nodes ns pid (Some (case env of None \<Rightarrow> [] | Some e \<Rightarrow> e)) = ancestry_from_nodes ns pid env"
  by (cases env) (simp_all add: ancestry_from_nodes_def start_node_def)

lemma namespace_simps [simp]:
  "namespace r None = ps_nodes r" "namespace r (Some x) = get_or (ps_tenant_nodes r) x []"
  by (simp_all add: namespace_def)


lemma ancestry_blank [simp]: "ancestry_from_nodes ns pid (Some []) = ancestry_from_nodes ns pid None"
  using ancestry_env [of ns pid None] by simp












section \<open>Revisions\<close>

text \<open>
  What a task read at its start is still true while the generation has not moved, and loaded tenants
  are those with a revision.
\<close>

definition task_ok :: "resolver \<Rightarrow> string \<Rightarrow> bool" where
  "task_ok r t \<longleftrightarrow> (t \<in> ps_loaded r \<longleftrightarrow> ps_revisions r t \<noteq> None)
     \<and> (\<forall>g init known. ps_tasks r t = Some (g, init, known) \<longrightarrow> (init \<longleftrightarrow> known \<noteq> None)
          \<and> g \<le> get_or (ps_generations r) t 0
          \<and> (g = get_or (ps_generations r) t 0 \<longrightarrow> known = ps_revisions r t))"

definition tasks_ok :: "resolver \<Rightarrow> bool" where
  "tasks_ok r \<longleftrightarrow> (\<forall>t. task_ok r t)"

lemma tasks_ok_new: "tasks_ok (new_resolver ttl)"
  by (simp add: tasks_ok_def task_ok_def new_resolver_def)

lemma tasks_ok_same:
  "tasks_ok r \<Longrightarrow> ps_loaded r' = ps_loaded r \<Longrightarrow> ps_revisions r' = ps_revisions r
     \<Longrightarrow> ps_tasks r' = ps_tasks r \<Longrightarrow> ps_generations r' = ps_generations r \<Longrightarrow> tasks_ok r'"
  unfolding tasks_ok_def task_ok_def by simp

text \<open>A step that changes one tenant only.\<close>

lemma tasks_ok_at:
  assumes "tasks_ok r" and "task_ok r' t"
    and "\<And>x. x \<noteq> t \<Longrightarrow> (x \<in> ps_loaded r' \<longleftrightarrow> x \<in> ps_loaded r) \<and> ps_revisions r' x = ps_revisions r x
       \<and> ps_tasks r' x = ps_tasks r x \<and> ps_generations r' x = ps_generations r x"
  shows "tasks_ok r'"
  unfolding tasks_ok_def
proof
  fix x
  show "task_ok r' x"
    using assms by (cases "x = t") (simp_all add: tasks_ok_def task_ok_def get_or_def)
qed

lemma tasks_ok_done: "tasks_ok r \<Longrightarrow> tasks_ok (r\<lparr>ps_tasks := (ps_tasks r)(t := None)\<rparr>)"
  by (rule tasks_ok_at [of r _ t]) (auto simp: tasks_ok_def task_ok_def)

lemma tasks_ok_begin: "tasks_ok r \<Longrightarrow> tasks_ok (begin_refresh t r)"
  by (rule tasks_ok_at [of r _ t]) (auto simp: tasks_ok_def task_ok_def begin_refresh_def)

lemma tasks_ok_adopt: "tasks_ok r \<Longrightarrow> ps_tasks r t = None \<Longrightarrow> tasks_ok (adopt t ns rv now r)"
  by (rule tasks_ok_at [of r _ t]) (auto simp: tasks_ok_def task_ok_def adopt_def invalidate_cache_for_def)

lemma tasks_ok_commit: "tasks_ok r \<Longrightarrow> tasks_ok (set_node_commit t node rv now r)"
proof (rule tasks_ok_at [of r _ t])
  assume "tasks_ok r"
  then have "ps_tasks r t = Some (g, init, known) \<Longrightarrow> (init \<longleftrightarrow> known \<noteq> None) \<and> g \<le> get_or (ps_generations r) t 0"
    for g init known unfolding tasks_ok_def task_ok_def by blast
  then show "task_ok (set_node_commit t node rv now r) t"
    by (fastforce simp: task_ok_def set_node_commit_def invalidate_cache_for_def)
qed (simp_all add: set_node_commit_def invalidate_cache_for_def)

lemma tasks_ok_finish: "tasks_ok r \<Longrightarrow> tasks_ok (snd (finish_refresh t st now r))"
proof -
  assume r: "tasks_ok r"
  then have "tasks_ok (r\<lparr>ps_tasks := (ps_tasks r)(t := None), ps_last_check := y\<rparr>)"
    "tasks_ok (adopt t ns rv now (r\<lparr>ps_tasks := (ps_tasks r)(t := None)\<rparr>))" for y ns rv
    using tasks_ok_done [OF r, of t] by (auto intro: tasks_ok_same tasks_ok_adopt)
  with r tasks_ok_done [OF r, of t] show ?thesis
    by (auto simp: finish_refresh_def Let_def split: option.splits refresh.splits)
qed

lemma tasks_ok_step: "policy_step r r' \<Longrightarrow> tasks_ok r \<Longrightarrow> tasks_ok r'"
  by (induction rule: policy_step.induct)
    (auto simp: load_legacy_def resolve_policy_def set_legacy_node_def set_node_check_def
      set_node_finish_def invalidate_cache_for_def Let_def tasks_ok_begin tasks_ok_commit tasks_ok_finish
      split: option.splits sum.splits intro: tasks_ok_same)

lemma validate_revision_nonneg: "validate_revision j = Some v \<Longrightarrow> 0 \<le> v"
  by (auto simp: validate_revision_def split: json.splits if_splits)

lemma snapshot_nonneg: "load_tenant_snapshot st known = Some (ns, rv) \<Longrightarrow> 0 \<le> known \<Longrightarrow> 0 \<le> rv"
  by (auto simp: load_tenant_snapshot_def validate_revision_nonneg
      split: option.splits answer.splits if_splits)

lemma plan_refresh_forward:
  "plan_refresh st True (Some k) fallback = Adopt ns rv \<Longrightarrow> k \<le> rv"
  by (auto simp: plan_refresh_def Let_def split: option.splits answer.splits if_splits)

text \<open>a refresh never moves a tenant's adopted revision backwards: whatever the store answers, and
  whatever writes and refreshes ran while it was in flight.\<close>

theorem refresh_never_goes_back:
  assumes "reachable ttl r"
  shows "get_or (ps_revisions r) t' 0 \<le> get_or (ps_revisions (snd (finish_refresh t st now r))) t' 0"
proof -
  have ok: "tasks_ok r" by (rule reachable_invariant [OF assms, where Inv = tasks_ok]) (rule tasks_ok_new, rule tasks_ok_step)
  show ?thesis
  proof (cases "ps_tasks r t")
    case (Some task)
    obtain g init known where task: "task = (g, init, known)" by (metis prod.exhaust)
    let ?plan = "plan_refresh st init known (get_or (ps_revisions r) t 0)"
    show ?thesis
    proof (cases "\<exists>ns rv. ?plan = Adopt ns rv \<and> g = get_or (ps_generations r) t 0")
      case True
      then obtain ns rv where plan: "?plan = Adopt ns rv" and g: "g = get_or (ps_generations r) t 0" by blast
      with ok Some task have known: "known = ps_revisions r t" "init \<longleftrightarrow> known \<noteq> None"
        unfolding tasks_ok_def task_ok_def by blast+
      have "get_or (ps_revisions r) t 0 \<le> rv"
      proof (cases "ps_revisions r t")
        case None
        with known plan have "load_tenant_snapshot st 0 = Some (ns, rv)"
          by (auto simp: plan_refresh_def split: option.splits)
        from snapshot_nonneg [OF this] None show ?thesis by simp
      next
        case (Some k)
        with known plan show ?thesis using plan_refresh_forward by simp
      qed
      with Some task plan g show ?thesis
        by (simp add: finish_refresh_def Let_def adopt_def invalidate_cache_for_def)
    next
      case False
      with Some task show ?thesis
        by (auto simp: finish_refresh_def Let_def split: refresh.splits)
    qed
  qed (simp add: finish_refresh_def)
qed

definition demo_store :: "int \<Rightarrow> policy_store" where
  "demo_store v = \<lparr>st_enabled = True, st_revision = Some (Gives (JInt v)),
     st_snapshot = Some (Gives (Some ([demo_node ''p'' None (Some v)], JInt v))), st_load = None,
     st_revision_again = None\<rparr>"

definition demo_tenant :: resolver where
  "demo_tenant = snd (finish_refresh ''t'' (demo_store 5) 0 (begin_refresh ''t'' (new_resolver 300)))"

lemma demo_tenant_reachable: "reachable 300 demo_tenant"
  unfolding demo_tenant_def by (rule step [OF step [OF start begin_task] finish_task])

lemma refresh_never_goes_back_witness:
  "get_or (ps_revisions (begin_refresh ''t'' demo_tenant)) ''t'' 0 = 5
   \<and> 5 \<le> get_or (ps_revisions (snd (finish_refresh ''t'' (demo_store 3) 9 (begin_refresh ''t'' demo_tenant)))) ''t'' 0"
proof -
  have "get_or (ps_revisions (begin_refresh ''t'' demo_tenant)) ''t'' 0 = 5" by code_simp
  with refresh_never_goes_back [OF step [OF demo_tenant_reachable begin_task], of "''t''" "''t''" "''t''" "demo_store 3" 9]
  show ?thesis by simp
qed

text \<open>
  A write does not have this protection. Its commit runs after the save was awaited and stores the
  revision it expected to create, although a refresh may have adopted a newer one meanwhile.
\<close>

text \<open>A write whose save commits revision 6 in the store, and whose continuation runs after a refresh has
  adopted revision 7 of the same tenant, sets the resolver's revision back to 6.\<close>

theorem late_commit_goes_back:
  "\<exists>r. reachable 300 r \<and> ps_revisions r ''t'' = Some 7
     \<and> r = snd (finish_refresh ''t'' (demo_store 7) 1 (begin_refresh ''t''
             (snd (set_node_check ''t'' (demo_node ''q'' None None) None demo_tenant))))
     \<and> fst (set_node_check ''t'' (demo_node ''q'' None None) None demo_tenant) = Inr (5, True)
     \<and> fst (set_node_finish ''t'' (demo_node ''q'' None None) True 5 (Saved (JInt 6)) 2 r) = Inr 6
     \<and> ps_revisions (snd (set_node_finish ''t'' (demo_node ''q'' None None) True 5 (Saved (JInt 6)) 2 r)) ''t'' = Some 6"
proof (intro exI conjI)
  let ?r = "snd (finish_refresh ''t'' (demo_store 7) 1 (begin_refresh ''t''
             (snd (set_node_check ''t'' (demo_node ''q'' None None) None demo_tenant))))"
  show "reachable 300 ?r"
    by (rule step [OF step [OF step [OF demo_tenant_reachable check_write] begin_task] finish_task])
  show "?r = ?r" ..
  show "ps_revisions ?r ''t'' = Some 7" by code_simp
  show "fst (set_node_check ''t'' (demo_node ''q'' None None) None demo_tenant) = Inr (5, True)" by code_simp
  show "fst (set_node_finish ''t'' (demo_node ''q'' None None) True 5 (Saved (JInt 6)) 2 ?r) = Inr 6" by code_simp
  show "ps_revisions (snd (set_node_finish ''t'' (demo_node ''q'' None None) True 5 (Saved (JInt 6)) 2 ?r)) ''t'' = Some 6"
    by code_simp
qed

end
