(* ===== verification/Quota.thy ===== *)
theory Quota
  imports PolicyTree
begin

text \<open>
  The quota enforcer, \<open>src/gateway/quota_enforcer.py\<close>: the checks of a resolved policy, the spend
  counters it keeps, budget reservations and budget alerts.

  The text of \<open>QuotaDecision.reason\<close> is not modelled. \<open>en_fired\<close> lists the alerts announced so far, in
  order; each registered callback receives every entry (callbacks are taken to return at once).
  Awaited calls of the persistence layer split an operation into the part before and the part
  after, which receives the answer.
\<close>

section \<open>Decisions, reservations, state\<close>

record reservation =
  re_request :: string
  re_counters :: "(string \<times> string \<times> rat) list"
  re_amount :: rat
  re_epochs :: "(string \<times> int) list"

record quota_decision =
  qd_allowed :: bool
  qd_limit_type :: string
  qd_limit_value :: "rat option"
  qd_current_value :: "rat option"
  qd_reservation :: "reservation option"
  qd_status :: int
  qd_error_code :: "string option"

definition allow :: quota_decision where
  "allow = \<lparr>qd_allowed = True, qd_limit_type = [], qd_limit_value = None, qd_current_value = None,
     qd_reservation = None, qd_status = 429, qd_error_code = None\<rparr>"

definition deny :: "string \<Rightarrow> rat option \<Rightarrow> rat option \<Rightarrow> quota_decision" where
  "deny ty limit current = allow\<lparr>qd_allowed := False, qd_limit_type := ty, qd_limit_value := limit,
     qd_current_value := current\<rparr>"

record alert =
  al_project :: string
  al_threshold :: rat
  al_spend :: rat
  al_limit :: rat
  al_tenant :: "string option"
  al_epoch :: int

record enforcer =
  en_windows :: buckets
  en_spend :: "string \<rightharpoonup> rat"
  en_epochs :: "string \<rightharpoonup> int"
  en_alerted :: "string \<rightharpoonup> rat set"
  en_callbacks :: bool
  en_fired :: "alert list"
  en_read_at :: "string \<rightharpoonup> rat"
  en_user_spend :: "string \<rightharpoonup> rat"
  en_reservations :: "string \<rightharpoonup> reservation \<times> bool"
  en_cleanup_at :: "string \<rightharpoonup> rat"

definition new_enforcer :: enforcer where
  "new_enforcer = \<lparr>en_windows = Map.empty, en_spend = Map.empty, en_epochs = Map.empty,
     en_alerted = Map.empty, en_callbacks = False, en_fired = [], en_read_at = Map.empty,
     en_user_spend = Map.empty, en_reservations = Map.empty, en_cleanup_at = Map.empty\<rparr>"

definition BUDGET_ALERT_THRESHOLDS :: "rat list" where
  "BUDGET_ALERT_THRESHOLDS = [8/10, 9/10, 1]"

definition SPEND_SCOPE :: string where "SPEND_SCOPE = ''quota''"

definition SPEND_REFRESH_SECONDS :: rat where "SPEND_REFRESH_SECONDS = 2"

definition RESERVATION_CLEANUP_SECONDS :: rat where "RESERVATION_CLEANUP_SECONDS = 60"

definition project_ident :: "string option \<Rightarrow> string \<Rightarrow> string" where
  "project_ident tenant pid = tenant_scoped_id tenant ''project'' pid"

definition user_ident :: "string option \<Rightarrow> string \<Rightarrow> rate_error + string" where
  "user_ident tenant uid =
     (if blank uid then Inl InvalidArgument else Inr (tenant_scoped_id tenant ''user'' uid))"

section \<open>Shared spend\<close>

definition adopt_shared_spend :: "string \<Rightarrow> rat \<Rightarrow> int \<Rightarrow> enforcer \<Rightarrow> enforcer" where
  "adopt_shared_spend scope_id tot epoch e =
     (let current_epoch = get_or (en_epochs e) scope_id 0 in
      if epoch < current_epoch then e
      else if current_epoch < epoch
      then e\<lparr>en_epochs := (en_epochs e)(scope_id \<mapsto> epoch), en_spend := (en_spend e)(scope_id \<mapsto> tot),
             en_alerted := (en_alerted e)(scope_id := None)\<rparr>
      else e\<lparr>en_spend := (en_spend e)(scope_id \<mapsto> max tot (get_or (en_spend e) scope_id 0))\<rparr>)"

text \<open>A tot read from the store, with its epoch when the store keeps one.\<close>

definition adopt_read :: "string \<Rightarrow> rat \<Rightarrow> int option \<Rightarrow> enforcer \<Rightarrow> enforcer" where
  "adopt_read scope_id tot epoch e =
     (case epoch of
        Some ep \<Rightarrow> adopt_shared_spend scope_id tot ep e
      | None \<Rightarrow> e\<lparr>en_spend := (en_spend e)(scope_id \<mapsto> max tot (get_or (en_spend e) scope_id 0))\<rparr>)"

text \<open>
  \<open>refresh_spend\<close>: whether it reads (stamping the read), and what it does with the answer.
\<close>

definition refresh_begin :: "string \<Rightarrow> rat \<Rightarrow> enforcer \<Rightarrow> bool \<times> enforcer" where
  "refresh_begin scope_id now e =
     (if now - get_or (en_read_at e) scope_id 0 < SPEND_REFRESH_SECONDS then (False, e)
      else (True, e\<lparr>en_read_at := (en_read_at e)(scope_id \<mapsto> now)\<rparr>))"

definition refresh_finish :: "string \<Rightarrow> (rat \<times> int option) option \<Rightarrow> enforcer \<Rightarrow> enforcer" where
  "refresh_finish scope_id shared e =
     (case shared of
        None \<Rightarrow> e
      | Some (tot, Some epoch) \<Rightarrow> adopt_shared_spend scope_id tot epoch e
      | Some (tot, None) \<Rightarrow>
          if get_or (en_spend e) scope_id 0 < tot then e\<lparr>en_spend := (en_spend e)(scope_id \<mapsto> tot)\<rparr> else e)"

text \<open>\<open>current_spend\<close> and \<open>adopt_fleet_spend\<close> store an epoch-less tot as it is.\<close>

definition adopt_fleet_total :: "string \<Rightarrow> (rat \<times> int option) option \<Rightarrow> enforcer \<Rightarrow> enforcer" where
  "adopt_fleet_total scope_id shared e =
     (case shared of
        None \<Rightarrow> e
      | Some (tot, Some epoch) \<Rightarrow> adopt_shared_spend scope_id tot epoch e
      | Some (tot, None) \<Rightarrow> e\<lparr>en_spend := (en_spend e)(scope_id \<mapsto> tot)\<rparr>)"

definition current_spend :: "string \<Rightarrow> (rat \<times> int option) option \<Rightarrow> enforcer \<Rightarrow> rat \<times> enforcer" where
  "current_spend scope_id shared e =
     (let e' = adopt_fleet_total scope_id shared e in
      (get_or (en_spend e') scope_id (case shared of None \<Rightarrow> 0 | Some (tot, _) \<Rightarrow> tot), e'))"

definition adopt_fleet_spend ::
  "string option \<Rightarrow> (string \<times> (rat \<times> int option) option) list \<Rightarrow> enforcer \<Rightarrow> enforcer" where
  "adopt_fleet_spend tenant answers e =
     fold (\<lambda>(pid, shared) e. adopt_fleet_total (project_ident tenant pid) shared e) answers e"

section \<open>Alerts\<close>

definition fire_budget_alerts ::
  "string \<Rightarrow> string \<Rightarrow> string option \<Rightarrow> rat list \<Rightarrow> rat \<Rightarrow> rat \<Rightarrow> int \<Rightarrow> enforcer \<Rightarrow> enforcer" where
  "fire_budget_alerts scope_id pid tenant thresholds spend limit epoch e =
     (let (alerted, fired) = fold (\<lambda>th (al, fi).
            if th \<in> al then (al, fi)
            else (insert th al, fi @ [\<lparr>al_project = pid, al_threshold = th, al_spend = spend,
                    al_limit = limit, al_tenant = tenant, al_epoch = epoch\<rparr>]))
          thresholds (get_or (en_alerted e) scope_id {}, en_fired e)
      in e\<lparr>en_alerted := (en_alerted e)(scope_id \<mapsto> alerted),
           en_fired := fired\<rparr>)"

section \<open>Policy checks\<close>

definition effective_rate_limit :: "resolved_policy \<Rightarrow> int option \<Rightarrow> int option" where
  "effective_rate_limit policy project_rate_limit = opt_min (po_rate_limit_rpm policy) project_rate_limit"

text \<open>\<open>check_rate_limit\<close>, with \<open>backend = None\<close> when persistence is disabled.\<close>

definition quota_check_rate_limit ::
  "string \<Rightarrow> resolved_policy \<Rightarrow> string option \<Rightarrow> rate_project option \<Rightarrow> shared_output option \<Rightarrow> int
   \<Rightarrow> enforcer \<Rightarrow> (rate_error + quota_decision) \<times> enforcer" where
  "quota_check_rate_limit pid policy tenant proj backend now e =
     (case project_scope tenant pid proj of
        Inl err \<Rightarrow> (Inl err, e)
      | Inr (t, project_rate_limit) \<Rightarrow>
         (case effective_rate_limit policy project_rate_limit of
            None \<Rightarrow> (Inr allow, e)
          | Some limit \<Rightarrow>
             (case backend of
                Some b \<Rightarrow>
                  (case consume_shared_rate_limit b None limit 60 now of
                     Inl err \<Rightarrow> (Inl err, e)
                   | Inr f \<Rightarrow> (Inr (if so_allowed f = JBool True then allow
                       else deny ''rate_limit_rpm'' (Some (of_int limit)) (Some (of_int limit))), e))
              | None \<Rightarrow>
                  let scope_id = project_ident t pid;
                      timestamps = cleanup (get_or (en_windows e) scope_id []) (now - 60 * 1000000)
                  in if limit \<le> int (length timestamps)
                     then (Inr (deny ''rate_limit_rpm'' (Some (of_int limit))
                                  (Some (of_nat (length timestamps)))), e)
                     else (Inr allow,
                           e\<lparr>en_windows := (en_windows e)(scope_id \<mapsto> timestamps @ [now])\<rparr>))))"

definition check_budget :: "string \<Rightarrow> rat \<Rightarrow> resolved_policy \<Rightarrow> string option \<Rightarrow> enforcer \<Rightarrow> rate_error + quota_decision" where
  "check_budget pid estimated_cost policy tenant e =
     (case po_budget_limit policy of
        None \<Rightarrow> Inr allow
      | Some limit \<Rightarrow>
         (case normalize_tenant_id tenant of
            Inl err \<Rightarrow> Inl err
          | Inr t \<Rightarrow>
              let current = get_or (en_spend e) (project_ident t pid) 0 in
              if limit < current + estimated_cost
              then Inr (deny ''budget_limit'' (Some limit) (Some current)) else Inr allow))"

definition check_max_tokens :: "int option \<Rightarrow> resolved_policy \<Rightarrow> quota_decision" where
  "check_max_tokens requested policy =
     (case (po_max_tokens policy, requested) of
        (Some limit, Some r) \<Rightarrow>
          if limit < r then deny ''max_tokens_per_request'' (Some (of_int limit)) (Some (of_int r)) else allow
      | _ \<Rightarrow> allow)"

definition check_model_allowed :: "string \<Rightarrow> resolved_policy \<Rightarrow> quota_decision" where
  "check_model_allowed m policy =
     (case po_allowed_models policy of
        None \<Rightarrow> allow
      | Some ms \<Rightarrow> if m \<notin> set ms then deny ''allowed_models'' None None else allow)"

definition check_provider_allowed :: "string \<Rightarrow> resolved_policy \<Rightarrow> quota_decision" where
  "check_provider_allowed p policy =
     (case po_allowed_providers policy of
        None \<Rightarrow> allow
      | Some ps \<Rightarrow> if p \<notin> set ps then deny ''allowed_providers'' None None else allow)"

definition cap_max_tokens :: "int \<Rightarrow> int option \<Rightarrow> resolved_policy \<Rightarrow> int option" where
  "cap_max_tokens default_max_tokens requested policy =
     (case po_max_tokens policy of
        None \<Rightarrow> requested
      | Some limit \<Rightarrow> (case requested of None \<Rightarrow> Some (min default_max_tokens limit)
                                        | Some r \<Rightarrow> Some (min r limit)))"

text \<open>
  \<open>enforce_all\<close>: the rate check, then the refresh of the spend figure when a budget is set, then the
  first failing check. \<open>shared\<close> is the answer of the refresh's read; \<open>clock = None\<close> means spend is not
  shared.
\<close>

definition refresh_for ::
  "string \<Rightarrow> resolved_policy \<Rightarrow> rat option \<Rightarrow> (rat \<times> int option) option \<Rightarrow> enforcer \<Rightarrow> enforcer" where
  "refresh_for scope_id policy clock shared e =
     (case (po_budget_limit policy, clock) of
        (Some _, Some now) \<Rightarrow>
          (let (reads, e') = refresh_begin scope_id now e
           in if reads then refresh_finish scope_id shared e' else e')
      | _ \<Rightarrow> e)"

definition run_checks ::
  "string \<Rightarrow> string \<Rightarrow> string option \<Rightarrow> int option \<Rightarrow> rat \<Rightarrow> resolved_policy \<Rightarrow> string option \<Rightarrow> enforcer
   \<Rightarrow> rate_error + quota_decision" where
  "run_checks pid m prov max_tokens estimated_cost policy t e =
     (case check_budget pid estimated_cost policy t e of
        Inl err \<Rightarrow> Inl err
      | Inr budget \<Rightarrow>
          let checks = [budget, check_max_tokens max_tokens policy, check_model_allowed m policy]
                @ (if truthy prov then [check_provider_allowed (the prov) policy] else [])
          in Inr (case find (\<lambda>d. \<not> qd_allowed d) checks of None \<Rightarrow> allow | Some d \<Rightarrow> d))"

definition enforce_all ::
  "string \<Rightarrow> string \<Rightarrow> string option \<Rightarrow> int option \<Rightarrow> rat \<Rightarrow> resolved_policy \<Rightarrow> string option
   \<Rightarrow> rate_project option \<Rightarrow> shared_output option \<Rightarrow> int \<Rightarrow> rat option \<Rightarrow> (rat \<times> int option) option
   \<Rightarrow> enforcer \<Rightarrow> (rate_error + quota_decision) \<times> enforcer" where
  "enforce_all pid m prov max_tokens estimated_cost policy tenant proj backend now clock shared e =
     (case project_scope tenant pid proj of
        Inl err \<Rightarrow> (Inl err, e)
      | Inr (t, _) \<Rightarrow>
         (case quota_check_rate_limit pid policy t proj backend now e of
            (Inl err, e1) \<Rightarrow> (Inl err, e1)
          | (Inr rate, e1) \<Rightarrow>
              if \<not> qd_allowed rate then (Inr rate, e1)
              else let e2 = refresh_for (project_ident t pid) policy clock shared e1
                   in (run_checks pid m prov max_tokens estimated_cost policy t e2, e2)))"

section \<open>Reserving a budget\<close>

definition budget_counters ::
  "bool \<Rightarrow> string \<Rightarrow> string \<Rightarrow> rat option \<Rightarrow> rat option \<Rightarrow> (string \<times> string \<times> rat) list" where
  "budget_counters shares pscope uscope plimit ulimit =
     (case plimit of None \<Rightarrow> []
      | Some l \<Rightarrow> (SPEND_SCOPE, pscope, l) # (if shares then [(''project'', pscope, l)] else []))
     @ (case ulimit of None \<Rightarrow> [] | Some l \<Rightarrow> [(''user'', uscope, l)])"

text \<open>The part common to both modes: a decision without a reservation, or the reservation to make.\<close>

datatype prepared = Decided quota_decision | ToReserve reservation string string

definition reserve_prepare ::
  "bool \<Rightarrow> string \<Rightarrow> string \<Rightarrow> string \<Rightarrow> rat \<Rightarrow> rat option \<Rightarrow> rat option \<Rightarrow> string option
   \<Rightarrow> rate_error + prepared" where
  "reserve_prepare shares request_id pid uid estimated plimit ulimit tenant =
     (case normalize_tenant_id tenant of
        Inl err \<Rightarrow> Inl err
      | Inr t \<Rightarrow>
          if plimit = None \<and> ulimit = None then Inr (Decided allow)
          else if estimated \<le> 0
          then Inr (Decided ((deny ''budget_estimate_unavailable'' None None)\<lparr>qd_status := 503\<rparr>))
          else (case user_ident t uid of
                  Inl err \<Rightarrow> Inl err
                | Inr uscope \<Rightarrow>
                    let pscope = project_ident t pid in
                    Inr (ToReserve \<lparr>re_request = request_id,
                           re_counters = budget_counters shares pscope uscope plimit ulimit,
                           re_amount = estimated, re_epochs = []\<rparr> pscope uscope)))"

definition allow_with :: "reservation \<Rightarrow> quota_decision" where
  "allow_with res = allow\<lparr>qd_reservation := Some res\<rparr>"

text \<open>The single-process path, under its lock.\<close>

definition counter_value :: "string \<Rightarrow> string \<Rightarrow> string \<Rightarrow> enforcer \<Rightarrow> rat" where
  "counter_value scope pscope uscope e =
     (if scope = ''user'' then get_or (en_user_spend e) uscope 0 else get_or (en_spend e) pscope 0)"

definition reserve_local ::
  "reservation \<Rightarrow> string \<Rightarrow> string \<Rightarrow> rat \<Rightarrow> rat \<Rightarrow> enforcer \<Rightarrow> quota_decision \<times> enforcer" where
  "reserve_local res pscope uscope project_current user_current e =
     (case en_reservations e (re_request res) of
        Some (prior, finalized) \<Rightarrow>
          (if prior \<noteq> res \<or> finalized then deny ''budget_request_replayed'' None None else allow_with res, e)
      | None \<Rightarrow>
          let e1 = e\<lparr>en_spend := (en_spend e)(pscope \<mapsto> max (get_or (en_spend e) pscope 0) project_current),
                     en_user_spend := (en_user_spend e)(uscope \<mapsto> max (get_or (en_user_spend e) uscope 0) user_current)\<rparr>
          in (case find (\<lambda>(scope, _, limit). limit < counter_value scope pscope uscope e1 + re_amount res)
                     (re_counters res) of
                Some (scope, _, limit) \<Rightarrow>
                  (deny (if scope = ''user'' then ''user_budget_limit'' else ''budget_limit'')
                     (Some limit) (Some (counter_value scope pscope uscope e1)), e1)
              | None \<Rightarrow>
                  let charge = (\<lambda>scope v. if \<exists>c\<in>set (re_counters res). fst c = scope then v + re_amount res else v)
                  in (allow_with res,
                      e1\<lparr>en_spend := (en_spend e1)(pscope \<mapsto> charge SPEND_SCOPE (get_or (en_spend e1) pscope 0)),
                         en_user_spend := (en_user_spend e1)(uscope \<mapsto> charge ''user'' (get_or (en_user_spend e1) uscope 0)),
                         en_reservations := (en_reservations e1)(re_request res \<mapsto> (res, False))\<rparr>)))"

text \<open>The durable path: expired reservations are released at most once a minute per primary counter.\<close>

definition primary_counter :: "(string \<times> string \<times> rat) list \<Rightarrow> string \<times> string" where
  "primary_counter counters = (let (s, i, _) = arg_min_list (\<lambda>(s, i, _). [s, i]) counters in (s, i))"

definition cleanup_due :: "reservation \<Rightarrow> rat \<Rightarrow> enforcer \<Rightarrow> (string \<times> string) option \<times> enforcer" where
  "cleanup_due res now e =
     (let (s, i) = primary_counter (re_counters res); key = s @ '':'' @ i in
      if RESERVATION_CLEANUP_SECONDS \<le> now - get_or (en_cleanup_at e) key 0
      then (Some (s, i), e\<lparr>en_cleanup_at := (en_cleanup_at e)(key \<mapsto> now)\<rparr>) else (None, e))"

record reserve_answer =
  ra_allowed :: bool
  ra_state :: string
  ra_denied_scope :: "string option"
  ra_totals :: "(string \<times> rat) list"
  ra_epochs :: "(string \<times> int) list"

definition adopt_answer ::
  "string \<Rightarrow> (string \<times> rat) list \<Rightarrow> (string \<times> int) list \<Rightarrow> enforcer \<Rightarrow> enforcer" where
  "adopt_answer pscope totals epochs e =
     (case map_of totals SPEND_SCOPE of
        None \<Rightarrow> e | Some tot \<Rightarrow> adopt_read pscope tot (map_of epochs SPEND_SCOPE) e)"

text \<open>\<open>None\<close>: the backend is unavailable (the method is absent or answered \<open>None\<close>).\<close>

definition reserve_shared ::
  "reservation \<Rightarrow> string \<Rightarrow> reserve_answer option \<Rightarrow> enforcer \<Rightarrow> quota_decision \<times> enforcer" where
  "reserve_shared res pscope answer e =
     (case answer of
        None \<Rightarrow> ((deny ''budget_backend_unavailable'' None None)\<lparr>qd_status := 503\<rparr>, e)
      | Some a \<Rightarrow>
          if \<not> ra_allowed a then
            let scope = (if truthy (ra_denied_scope a) then the (ra_denied_scope a) else SPEND_SCOPE);
                limit = map_option (snd \<circ> snd) (find (\<lambda>c. fst c = scope) (re_counters res));
                current = (case map_of (ra_totals a) scope of None \<Rightarrow> 0 | Some v \<Rightarrow> v)
            in ((deny (if scope = ''user'' then ''user_budget_limit'' else ''budget_limit'') limit (Some current))
                  \<lparr>qd_error_code := Some ''budget_exceeded''\<rparr>, e)
          else if ra_state a = ''finalized'' then (deny ''budget_request_replayed'' None None, e)
          else (allow_with (res\<lparr>re_epochs := sort_key fst (ra_epochs a)\<rparr>),
                adopt_answer pscope (ra_totals a) (ra_epochs a) e))"

section \<open>Finalizing a budget\<close>

definition thresholds_reached :: "rat \<Rightarrow> rat \<Rightarrow> rat list" where
  "thresholds_reached limit spend = filter (\<lambda>th. limit * th \<le> spend) BUDGET_ALERT_THRESHOLDS"

definition settle :: "rat \<Rightarrow> (string \<times> string \<times> rat) \<Rightarrow> enforcer \<Rightarrow> enforcer" where
  "settle delta c e =
     (let (scope, ident, _) = c in
      if scope = ''user''
      then e\<lparr>en_user_spend := (en_user_spend e)(ident \<mapsto> max 0 (get_or (en_user_spend e) ident 0 + delta))\<rparr>
      else e\<lparr>en_spend := (en_spend e)(ident \<mapsto> max 0 (get_or (en_spend e) ident 0 + delta))\<rparr>)"

definition finalize_local ::
  "reservation \<Rightarrow> rat \<Rightarrow> string option \<Rightarrow> string \<Rightarrow> enforcer \<Rightarrow> (string \<times> rat) list option \<times> enforcer" where
  "finalize_local res actual t pid e =
     (let pscope = project_ident t pid in
      case en_reservations e (re_request res) of
        None \<Rightarrow> (None, e)
      | Some (prior, finalized) \<Rightarrow>
          if prior \<noteq> res then (None, e)
          else if finalized then (Some [(SPEND_SCOPE, get_or (en_spend e) pscope 0)], e)
          else
            let e1 = fold (settle (actual - re_amount res)) (re_counters res) e;
                e2 = e1\<lparr>en_reservations := (en_reservations e1)(re_request res \<mapsto> (res, True))\<rparr>;
                totals = map (\<lambda>(scope, ident, _). (scope, counter_value scope ident ident e2)) (re_counters res)
            in (Some totals,
                case find (\<lambda>c. fst c = SPEND_SCOPE) (re_counters res) of
                  None \<Rightarrow> e2
                | Some (_, _, limit) \<Rightarrow>
                    if \<not> en_callbacks e2 then e2
                    else let current = (case map_of totals SPEND_SCOPE of None \<Rightarrow> 0 | Some v \<Rightarrow> v)
                         in fire_budget_alerts pscope pid t (thresholds_reached limit current) current limit
                              (get_or (en_epochs e2) pscope 0) e2))"

record finalize_answer =
  fa_totals :: "(string \<times> rat) list"
  fa_epochs :: "(string \<times> int) list"
  fa_crossed :: "rat list"

definition finalize_shared ::
  "reservation \<Rightarrow> string option \<Rightarrow> string \<Rightarrow> finalize_answer option \<Rightarrow> enforcer
   \<Rightarrow> (string \<times> rat) list option \<times> enforcer" where
  "finalize_shared res t pid answer e =
     (case answer of
        None \<Rightarrow> (None, e)
      | Some a \<Rightarrow>
          let pscope = project_ident t pid; e1 = adopt_answer pscope (fa_totals a) (fa_epochs a) e
          in (Some (fa_totals a),
              case find (\<lambda>c. fst c = SPEND_SCOPE) (re_counters res) of
                None \<Rightarrow> e1
              | Some (_, _, limit) \<Rightarrow>
                  if fa_crossed a = [] \<or> \<not> en_callbacks e1 then e1
                  else fire_budget_alerts pscope pid t (fa_crossed a)
                    (case map_of (fa_totals a) SPEND_SCOPE of None \<Rightarrow> 0 | Some v \<Rightarrow> v) limit
                    (case map_of (fa_epochs a) SPEND_SCOPE of
                       None \<Rightarrow> get_or (en_epochs e1) pscope 0 | Some ep \<Rightarrow> ep) e1))"

definition release_local :: "reservation \<Rightarrow> string option \<Rightarrow> string \<Rightarrow> enforcer \<Rightarrow> bool \<times> enforcer" where
  "release_local res t pid e = (let (totals, e') = finalize_local res 0 t pid e in (totals \<noteq> None, e'))"

section \<open>Recording and resetting spend\<close>

text \<open>\<open>answer\<close>: the total (and epoch) the shared counter returned for this cost, if it was written.\<close>

definition record_spend_figures ::
  "string \<Rightarrow> rat \<Rightarrow> (rat \<times> int option) option \<Rightarrow> enforcer \<Rightarrow> rat \<times> rat \<times> enforcer" where
  "record_spend_figures scope_id cost answer e =
     (case answer of
        None \<Rightarrow>
          let prev = get_or (en_spend e) scope_id 0
          in (prev, prev + cost, e\<lparr>en_spend := (en_spend e)(scope_id \<mapsto> prev + cost)\<rparr>)
      | Some (tot, None) \<Rightarrow>
          (tot - cost, tot, e\<lparr>en_spend := (en_spend e)(scope_id \<mapsto> max tot (get_or (en_spend e) scope_id 0))\<rparr>)
      | Some (tot, Some epoch) \<Rightarrow>
          let current_epoch = get_or (en_epochs e) scope_id 0 in
          if epoch < current_epoch
          then (get_or (en_spend e) scope_id 0, get_or (en_spend e) scope_id 0, e)
          else (tot - cost, tot, adopt_shared_spend scope_id tot epoch e))"

definition crossed_thresholds :: "rat \<Rightarrow> rat set \<Rightarrow> rat \<Rightarrow> rat \<Rightarrow> rat list" where
  "crossed_thresholds limit alerted prev new =
     filter (\<lambda>th. th \<notin> alerted \<and> prev < limit * th \<and> limit * th \<le> new) BUDGET_ALERT_THRESHOLDS"

definition record_spend ::
  "string option \<Rightarrow> string \<Rightarrow> rat \<Rightarrow> rat option \<Rightarrow> (rat \<times> int option) option \<Rightarrow> enforcer \<Rightarrow> enforcer" where
  "record_spend t pid cost budget_limit answer e =
     (let scope_id = project_ident t pid;
          (prev, new, e1) = record_spend_figures scope_id cost answer e
      in case budget_limit of
           None \<Rightarrow> e1
         | Some limit \<Rightarrow>
             if limit \<le> 0 \<or> \<not> en_callbacks e1 then e1
             else fire_budget_alerts scope_id pid t
                    (crossed_thresholds limit (get_or (en_alerted e1) scope_id {}) prev new)
                    new limit (get_or (en_epochs e1) scope_id 0) e1)"

definition clear_local :: "string \<Rightarrow> int option \<Rightarrow> enforcer \<Rightarrow> enforcer" where
  "clear_local scope_id epoch e =
     e\<lparr>en_spend := (en_spend e)(scope_id := None), en_alerted := (en_alerted e)(scope_id := None),
       en_read_at := (en_read_at e)(scope_id := None),
       en_epochs := (case epoch of None \<Rightarrow> en_epochs e | Some ep \<Rightarrow> (en_epochs e)(scope_id \<mapsto> ep))\<rparr>"

datatype reset_answer = NotShared | ResetMany "int option option" | ResetOne bool

definition reset_spend :: "string \<Rightarrow> reset_answer \<Rightarrow> enforcer \<Rightarrow> bool \<times> enforcer" where
  "reset_spend scope_id a e =
     (case a of
        NotShared \<Rightarrow> (True, clear_local scope_id (Some (get_or (en_epochs e) scope_id 0 + 1)) e)
      | ResetMany None \<Rightarrow> (False, clear_local scope_id None e)
      | ResetMany (Some epoch) \<Rightarrow> (True, clear_local scope_id epoch e)
      | ResetOne ok \<Rightarrow> (ok, clear_local scope_id None e))"

end
