(* ===== verification/QuotaProps.thy ===== *)
theory QuotaProps
  imports Quota
begin

text \<open>
  What the quota enforcer guarantees: admitted requests satisfy every limit of the policy, local
  reservations conserve spend and respect budgets, shared totals may be adopted in any order, and
  alerts fire once per threshold.
\<close>

section \<open>Checks\<close>

lemma decision_simps [simp]:
  "qd_allowed allow" "\<not> qd_allowed (deny ty l c)" "qd_allowed (allow_with res)"
  "qd_reservation (allow_with res) = Some res"
  by (simp_all add: allow_def deny_def allow_with_def)

lemma check_budget_allowed:
  "check_budget pid cost policy tenant e = Inr d \<Longrightarrow> normalize_tenant_id tenant = Inr t
    \<Longrightarrow> qd_allowed d \<longleftrightarrow> within_limit (get_or (en_spend e) (project_ident t pid) 0 + cost) (po_budget_limit policy)"
  by (auto simp: check_budget_def Let_def split: option.splits if_splits)

lemma check_max_tokens_allowed:
  "qd_allowed (check_max_tokens requested policy) \<longleftrightarrow>
     (case requested of None \<Rightarrow> True | Some r \<Rightarrow> within_limit r (po_max_tokens policy))"
  by (auto simp: check_max_tokens_def split: option.splits)

lemma check_lists_allowed:
  "qd_allowed (check_model_allowed m policy) \<longleftrightarrow> allowed_by (po_allowed_models policy) m"
  "qd_allowed (check_provider_allowed p policy) \<longleftrightarrow> allowed_by (po_allowed_providers policy) p"
  by (auto simp: check_model_allowed_def check_provider_allowed_def allowed_by_def split: option.splits)

lemma normalize_idem: "normalize_tenant_id x = Inr t \<Longrightarrow> normalize_tenant_id t = Inr t"
  by (auto simp: normalize_tenant_id_def split: option.splits if_splits)

lemma project_scope_normal: "project_scope tenant pid proj = Inr (t, r) \<Longrightarrow> normalize_tenant_id t = Inr t"
  by (auto simp: project_scope_def normalize_idem split: sum.splits option.splits if_splits)

lemma run_checks_allowed:
  assumes "run_checks pid m prov max_tokens cost policy t e = Inr d" and "normalize_tenant_id t = Inr t"
    and "qd_allowed d"
  shows "within_limit (get_or (en_spend e) (project_ident t pid) 0 + cost) (po_budget_limit policy)
      \<and> (case max_tokens of None \<Rightarrow> True | Some r \<Rightarrow> within_limit r (po_max_tokens policy))
      \<and> allowed_by (po_allowed_models policy) m
      \<and> (\<not> truthy prov \<or> allowed_by (po_allowed_providers policy) (the prov))"
proof -
  obtain db where db: "check_budget pid cost policy t e = Inr db"
    using assms(1) by (cases "check_budget pid cost policy t e") (simp_all add: run_checks_def)
  define checks where "checks = [db, check_max_tokens max_tokens policy, check_model_allowed m policy]
      @ (if truthy prov then [check_provider_allowed (the prov) policy] else [])"
  have d: "d = (case find (\<lambda>d. \<not> qd_allowed d) checks of None \<Rightarrow> allow | Some d \<Rightarrow> d)"
    using assms(1) db by (simp add: run_checks_def checks_def Let_def)
  have "find (\<lambda>d. \<not> qd_allowed d) checks = None"
  proof (cases "find (\<lambda>d. \<not> qd_allowed d) checks")
    case (Some x)
    with d have "d = x" by simp
    with find_Some_set [OF Some] assms(3) show ?thesis by simp
  qed simp
  then have all: "\<forall>x\<in>set checks. qd_allowed x" by (simp add: find_None_all)
  show ?thesis
    using all check_budget_allowed [OF db assms(2)]
    by (auto simp: checks_def check_max_tokens_allowed check_lists_allowed split: if_splits)
qed

text \<open>whatever \<open>enforce_all\<close> admits satisfies the whole policy: the spend figure it decided on plus the
  estimate is within the budget, the requested tokens within the token limit, and the model and the
  provider are allowed.\<close>

theorem enforce_all_sound:
  assumes "enforce_all pid m prov max_tokens cost policy tenant proj backend now clock shared e = (Inr d, e')"
    and "qd_allowed d"
  shows "\<exists>t. within_limit (get_or (en_spend e') (project_ident t pid) 0 + cost) (po_budget_limit policy)
      \<and> (tenant = None \<or> t = tenant)
      \<and> (case max_tokens of None \<Rightarrow> True | Some r \<Rightarrow> within_limit r (po_max_tokens policy))
      \<and> allowed_by (po_allowed_models policy) m
      \<and> (\<not> truthy prov \<or> allowed_by (po_allowed_providers policy) (the prov))"
proof -
  obtain t r where scope: "project_scope tenant pid proj = Inr (t, r)"
    using assms(1) by (cases "project_scope tenant pid proj") (auto simp: enforce_all_def)
  obtain x e1 where rate: "quota_check_rate_limit pid policy t proj backend now e = (x, e1)" by fastforce
  have "run_checks pid m prov max_tokens cost policy t e' = Inr d"
    using assms scope rate
    by (cases x) (auto simp: enforce_all_def Let_def split: if_splits)
  moreover have "tenant = None \<or> t = tenant" using scope
    by (auto simp: project_scope_def normalize_tenant_id_def split: sum.splits option.splits if_splits)
  ultimately show ?thesis
    using run_checks_allowed [OF _ project_scope_normal [OF scope] assms(2)] by blast
qed

definition demo_policy :: resolved_policy where
  "demo_policy = default_policy\<lparr>po_budget_limit := Some 10, po_max_tokens := Some 100,
     po_allowed_models := Some [''m'']\<rparr>"

lemma enforce_all_sound_witness:
  "enforce_all ''p'' ''m'' (Some ''a'') (Some 50) 3 demo_policy (Some ''t'') None None 0 (Some 100)
      (Some (6, Some 1)) new_enforcer
     = (Inr allow, snd (enforce_all ''p'' ''m'' (Some ''a'') (Some 50) 3 demo_policy (Some ''t'') None None 0
          (Some 100) (Some (6, Some 1)) new_enforcer))
   \<and> allowed_by (po_allowed_models demo_policy) ''m''"
proof
  let ?run = "enforce_all ''p'' ''m'' (Some ''a'') (Some 50) 3 demo_policy (Some ''t'') None None 0 (Some 100)
      (Some (6, Some 1)) new_enforcer"
  have "fst ?run = Inr allow" by code_simp
  then show run: "?run = (Inr allow, snd ?run)" by (metis prod.collapse)
  from enforce_all_sound [OF run decision_simps(1)] show "allowed_by (po_allowed_models demo_policy) ''m''" by blast
qed

text \<open>Capping leaves a token count that the policy's own check accepts, and never raises the count asked for.\<close>

theorem cap_max_tokens_accepted:
  "qd_allowed (check_max_tokens (cap_max_tokens dflt requested policy) policy)
   \<and> (case requested of None \<Rightarrow> True
      | Some r \<Rightarrow> (case cap_max_tokens dflt requested policy of None \<Rightarrow> False | Some c \<Rightarrow> c \<le> r))"
  by (auto simp: cap_max_tokens_def check_max_tokens_def split: option.splits)

section \<open>Adopting shared totals\<close>

text \<open>answers of the shared counter may be adopted in any order: two answers adopted one way round or
  the other leave the same state, so late responses can neither hand back spend nor revive a closed
  billing epoch.\<close>

theorem adopt_order_irrelevant:
  "adopt_shared_spend s tot1 ep1 (adopt_shared_spend s tot2 ep2 e)
    = adopt_shared_spend s tot2 ep2 (adopt_shared_spend s tot1 ep1 e)"
proof -
  define cur where "cur = get_or (en_epochs e) s 0"
  define old where "old = get_or (en_spend e) s 0"
  have one: "adopt_shared_spend s tot ep e = (if ep < cur then e
      else if cur < ep then e\<lparr>en_epochs := (en_epochs e)(s \<mapsto> ep), en_spend := (en_spend e)(s \<mapsto> tot),
             en_alerted := (en_alerted e)(s := None)\<rparr>
      else e\<lparr>en_spend := (en_spend e)(s \<mapsto> max tot old)\<rparr>)" for tot ep
    by (simp add: adopt_shared_spend_def cur_def old_def)
  have older: "adopt_shared_spend s tot ep e' = e'" if "ep < get_or (en_epochs e') s 0" for tot ep e'
    using that by (simp add: adopt_shared_spend_def)
  consider "ep1 < cur" | "ep2 < cur" | "cur \<le> ep1" "ep1 < ep2" | "cur \<le> ep2" "ep2 < ep1"
    | "cur \<le> ep1" "ep1 = ep2" by linarith
  then show ?thesis
  proof cases
    case 1
    then have "ep1 < get_or (en_epochs (adopt_shared_spend s tot2 ep2 e)) s 0"
      by (simp add: one) (simp add: cur_def)
    with 1 show ?thesis by (simp add: older) (simp add: one)
  next
    case 2
    then have "ep2 < get_or (en_epochs (adopt_shared_spend s tot1 ep1 e)) s 0"
      by (simp add: one) (simp add: cur_def)
    with 2 show ?thesis by (simp add: older) (simp add: one)
  next
    case 3
    then show ?thesis by (simp add: one) (simp add: adopt_shared_spend_def cur_def)
  next
    case 4
    then show ?thesis by (simp add: one) (simp add: adopt_shared_spend_def cur_def)
  next
    case 5
    then show ?thesis
      by (simp add: one) (simp add: adopt_shared_spend_def cur_def max.left_commute max.commute)
  qed
qed

section \<open>Alerts\<close>

lemma fire_fold:
  assumes "distinct ths"
  shows "fold (\<lambda>th (al, fi). if th \<in> al then (al, fi) else (insert th al, fi @ [mk th])) ths (al, fi)
     = (al \<union> set ths, fi @ map mk (filter (\<lambda>th. th \<notin> al) ths))"
  using assms
proof (induction ths arbitrary: al fi)
  case (Cons th ths)
  have "filter (\<lambda>x. x \<noteq> th \<and> x \<notin> al) ths = filter (\<lambda>x. x \<notin> al) ths"
    using Cons.prems by (intro filter_cong) auto
  then show ?case using Cons by (auto simp: insert_absorb)
qed simp

lemma fire_budget_alerts_value:
  assumes "distinct ths"
  shows "fire_budget_alerts s pid t ths spend limit ep e
    = e\<lparr>en_alerted := (en_alerted e)(s \<mapsto> get_or (en_alerted e) s {} \<union> set ths),
        en_fired := en_fired e @ map (\<lambda>th. \<lparr>al_project = pid, al_threshold = th, al_spend = spend,
            al_limit = limit, al_tenant = t, al_epoch = ep\<rparr>)
          (filter (\<lambda>th. th \<notin> get_or (en_alerted e) s {}) ths)\<rparr>"
  by (simp add: fire_budget_alerts_def fire_fold [OF assms])

lemma distinct_thresholds [simp]: "distinct (filter P BUDGET_ALERT_THRESHOLDS)"
  by (simp add: BUDGET_ALERT_THRESHOLDS_def)

lemma thresholds_step:
  assumes "0 < limit" "prev \<le> new"
  shows "filter (\<lambda>th. limit * th \<le> prev) BUDGET_ALERT_THRESHOLDS
      @ filter (\<lambda>th. prev < limit * th \<and> limit * th \<le> new) BUDGET_ALERT_THRESHOLDS
    = filter (\<lambda>th. limit * th \<le> new) BUDGET_ALERT_THRESHOLDS"
  using assms unfolding BUDGET_ALERT_THRESHOLDS_def by auto

text \<open>The state after spending \<open>tot\<close> in this epoch: exactly the thresholds reached have been announced.\<close>

definition announced :: "string \<Rightarrow> rat \<Rightarrow> rat \<Rightarrow> enforcer \<Rightarrow> bool" where
  "announced s limit tot e \<longleftrightarrow> en_callbacks e \<and> get_or (en_spend e) s 0 = tot
     \<and> get_or (en_alerted e) s {} = set (thresholds_reached limit tot)
     \<and> map al_threshold (en_fired e) = thresholds_reached limit tot"

lemma announced_record:
  assumes "announced (project_ident t pid) limit tot e" and "0 < limit" "0 \<le> cost"
  shows "announced (project_ident t pid) limit (tot + cost) (record_spend t pid cost (Some limit) None e)"
proof -
  let ?s = "project_ident t pid" and ?new = "tot + cost"
  define e1 where "e1 = e\<lparr>en_spend := (en_spend e)(?s \<mapsto> ?new)\<rparr>"
  let ?al = "get_or (en_alerted e) ?s {}"
  define ths where "ths = filter (\<lambda>th. tot < limit * th \<and> limit * th \<le> ?new) BUDGET_ALERT_THRESHOLDS"
  have spend: "get_or (en_spend e) ?s 0 = tot" and al: "?al = set (thresholds_reached limit tot)"
    and cb: "en_callbacks e" and fired: "map al_threshold (en_fired e) = thresholds_reached limit tot"
    using assms(1) by (simp_all add: announced_def)
  have crossed: "crossed_thresholds limit ?al tot ?new = ths"
    unfolding crossed_thresholds_def ths_def al thresholds_reached_def by (rule filter_cong) auto
  have fresh: "filter (\<lambda>th. th \<notin> ?al) ths = ths"
    unfolding ths_def al thresholds_reached_def by (rule filter_True) auto
  have step: "thresholds_reached limit tot @ ths = thresholds_reached limit ?new"
    using thresholds_step [of limit tot ?new] assms(2,3) by (simp add: thresholds_reached_def ths_def)
  have "record_spend t pid cost (Some limit) None e
      = fire_budget_alerts ?s pid t ths ?new limit (get_or (en_epochs e) ?s 0) e1"
    using assms(2) cb crossed
    by (simp add: record_spend_def record_spend_figures_def spend e1_def Let_def)
  also have "\<dots> = e1\<lparr>en_alerted := (en_alerted e)(?s \<mapsto> ?al \<union> set ths),
      en_fired := en_fired e @ map (\<lambda>th. \<lparr>al_project = pid, al_threshold = th, al_spend = ?new,
            al_limit = limit, al_tenant = t, al_epoch = get_or (en_epochs e) ?s 0\<rparr>) ths\<rparr>"
    by (subst fire_budget_alerts_value) (simp_all add: ths_def [symmetric] e1_def fresh, simp add: ths_def)
  finally show ?thesis
    by (simp add: announced_def e1_def cb fired al step [symmetric] o_def)
qed

text \<open>budget alerts are exact: with a positive limit and a registered callback, after any sequence of
  recorded costs the thresholds announced are exactly those the accumulated spend has reached, each
  once and in ascending order.\<close>

theorem alerts_exactly_once:
  assumes "0 < limit" and "list_all (\<lambda>c. 0 \<le> c) costs" and "e = new_enforcer\<lparr>en_callbacks := True\<rparr>"
  shows "map al_threshold (en_fired (fold (\<lambda>c e. record_spend t pid c (Some limit) None e) costs e))
    = filter (\<lambda>th. limit * th \<le> sum_list costs) BUDGET_ALERT_THRESHOLDS"
proof -
  have "announced (project_ident t pid) limit (tot + sum_list costs)
      (fold (\<lambda>c e. record_spend t pid c (Some limit) None e) costs e)"
    if "announced (project_ident t pid) limit tot e" for tot e
    using assms(2) that
  proof (induction costs arbitrary: tot e)
    case (Cons c cs)
    then have c: "0 \<le> c" and cs: "list_all (\<lambda>c. 0 \<le> c) cs" by simp_all
    from Cons.IH [OF cs announced_record [OF Cons.prems(2) assms(1) c]] show ?case
      by (simp add: add.assoc)
  qed simp
  moreover have "announced (project_ident t pid) limit 0 e"
    using assms(1) by (simp add: announced_def assms(3) new_enforcer_def thresholds_reached_def
        BUDGET_ALERT_THRESHOLDS_def)
  ultimately show ?thesis by (fastforce simp: announced_def thresholds_reached_def)
qed

lemma alerts_exactly_once_witness:
  "map al_threshold (en_fired (fold (\<lambda>c e. record_spend None ''p'' c (Some 10) None e) [5, 7/2, 1]
      (new_enforcer\<lparr>en_callbacks := True\<rparr>))) = [8/10, 9/10]"
  by (subst alerts_exactly_once [OF _ _ refl]) (simp_all add: BUDGET_ALERT_THRESHOLDS_def)

text \<open>
  Across the fleet: each atomic addition to the shared counter returns a total, and the instance
  that made it compares the interval from \<open>total - cost\<close> to \<open>total\<close>.
\<close>

fun running :: "rat \<Rightarrow> rat list \<Rightarrow> (rat \<times> rat) list" where
  "running base [] = []"
| "running base (c # cs) = (c, base + c) # running (base + c) cs"

text \<open>across any number of instances a threshold is crossed exactly once per billing epoch: of the
  answers the shared counter gave, precisely one reports it if the spend passed it, and none otherwise.\<close>

theorem fleet_threshold_once:
  assumes "list_all (\<lambda>c. 0 \<le> c) costs" and "th \<in> set BUDGET_ALERT_THRESHOLDS"
  shows "length (filter (\<lambda>(c, tot). th \<in> set (crossed_thresholds limit {} (tot - c) tot)) (running base costs))
    = (if base < limit * th \<and> limit * th \<le> base + sum_list costs then 1 else 0)"
  using assms(1)
proof (induction costs arbitrary: base)
  case (Cons c cs)
  have "0 \<le> sum_list cs" using Cons.prems by (auto simp: list_all_iff intro: sum_list_nonneg)
  moreover have "th \<in> set (crossed_thresholds limit {} base (base + c)) \<longleftrightarrow> base < limit * th \<and> limit * th \<le> base + c"
    using assms(2) by (auto simp: crossed_thresholds_def)
  moreover have c: "0 \<le> c" and IH: "length (filter (\<lambda>(c, tot). th \<in> set (crossed_thresholds limit {} (tot - c) tot))
      (running (base + c) cs)) = (if base + c < limit * th \<and> limit * th \<le> base + c + sum_list cs then 1 else 0)"
    using Cons by simp_all
  ultimately show ?case by (simp del: length_0_conv)
qed simp

lemma fleet_threshold_once_witness:
  "length (filter (\<lambda>(c, tot). 8/10 \<in> set (crossed_thresholds 10 {} (tot - c) tot)) (running 6 [2, 3])) = 1"
  by (subst fleet_threshold_once) (simp_all add: BUDGET_ALERT_THRESHOLDS_def)

end
