(* ===== verification/Service.thy ===== *)
theory Service
  imports Main
begin

text \<open>
  Calls to a shared store. Every service call is one atomic step. Before each of them other gateway instances
  may have run any number of steps, and the service may fail the call, a write with or without having applied
  it: a \<open>service_world\<close> is the store with the list of these events, consumed one per call. Components give
  the store and its transactions, prove that each transaction keeps a guarantee, and get triples about whole
  functions that hold under any interference that keeps the guarantee too.
\<close>

section \<open>Calls\<close>

text \<open>
  What happens around one service call: the steps of other instances before it, and whether the call
  succeeds, is lost before it takes effect, or takes effect and then reports an error.
\<close>

datatype fault = Fine | Lost | Applied

record 's service_world =
  wd_store :: 's
  wd_env :: "(('s \<Rightarrow> 's) \<times> fault) list"

type_synonym ('s, 'a) service = "'s service_world \<Rightarrow> 'a option \<times> 's service_world"

text \<open>\<open>None\<close> is an exception that leaves the surrounding function.\<close>

definition return_io :: "'a \<Rightarrow> ('s, 'a) service" where
  "return_io x w = (Some x, w)"

definition fail_io :: "('s, 'a) service" where
  "fail_io w = (None, w)"

definition bind_io :: "('s, 'a) service \<Rightarrow> ('a \<Rightarrow> ('s, 'b) service) \<Rightarrow> ('s, 'b) service" where
  "bind_io m f w = (case m w of (None, w') \<Rightarrow> (None, w') | (Some x, w') \<Rightarrow> f x w')"

definition arrive :: "'s service_world \<Rightarrow> fault \<times> 's service_world" where
  "arrive w = (case wd_env w of [] \<Rightarrow> (Fine, w)
     | (others, flt) # es \<Rightarrow> (flt, \<lparr>wd_store = others (wd_store w), wd_env = es\<rparr>))"

definition get_io :: "('s \<Rightarrow> 'a) \<Rightarrow> ('s, 'a) service" where
  "get_io f w = (case arrive w of (flt, w') \<Rightarrow> (if flt = Fine then Some (f (wd_store w')) else None, w'))"

datatype 'e outcome = Done | Rejected 'e | Broken

definition write_io :: "('s \<Rightarrow> 'e + 's) \<Rightarrow> ('s, 'e outcome) service" where
  "write_io txn w = (case arrive w of (flt, w') \<Rightarrow>
     (case txn (wd_store w') of
        Inl e \<Rightarrow> (Some (if flt = Fine then Rejected e else Broken), w')
      | Inr st \<Rightarrow> (case flt of
            Fine \<Rightarrow> (Some Done, w'\<lparr>wd_store := st\<rparr>)
          | Lost \<Rightarrow> (Some Broken, w')
          | Applied \<Rightarrow> (Some Broken, w'\<lparr>wd_store := st\<rparr>))))"

text \<open>A write that answers with what it left, \<open>ReturnValues\<close> of an update: \<open>Inl\<close> when it was not applied or not answered.\<close>

definition write_new_io :: "('s \<Rightarrow> 'e + 's) \<Rightarrow> ('s \<Rightarrow> 'a) \<Rightarrow> ('s, 'e outcome + 'a) service" where
  "write_new_io txn f w = (case write_io txn w of
     (Some Done, w') \<Rightarrow> (Some (Inr (f (wd_store w'))), w')
   | (Some out, w') \<Rightarrow> (Some (Inl out), w')
   | (None, w') \<Rightarrow> (None, w'))"

text \<open>\<open>try: ... except Exception\<close>: the exception becomes the answer \<open>None\<close>.\<close>

definition try_io :: "('s, 'a) service \<Rightarrow> ('s, 'a option) service" where
  "try_io m w = (case m w of (r, w') \<Rightarrow> (Some r, w'))"

text \<open>A world in which nothing else happens: a function runs as on a store of its own.\<close>

definition quiet :: "'s \<Rightarrow> 's service_world" where
  "quiet st = \<lparr>wd_store = st, wd_env = []\<rparr>"

lemma quiet_store [simp]: "wd_store (quiet st) = st"
  by (simp add: quiet_def)

lemma quiet_get: "get_io f (quiet st) = (Some (f st), quiet st)"
  by (simp add: get_io_def arrive_def quiet_def)

lemma quiet_write:
  "txn st = Inr st' \<Longrightarrow> write_io txn (quiet st) = (Some Done, quiet st')"
  "txn st = Inl d \<Longrightarrow> write_io txn (quiet st) = (Some (Rejected d), quiet st)"
  by (simp_all add: write_io_def arrive_def quiet_def)

lemma quiet_write_new: "txn st = Inr st' \<Longrightarrow> write_new_io txn f (quiet st) = (Some (Inr (f st')), quiet st')"
  by (simp add: write_new_io_def quiet_write)

lemma bind_known: "m w = (Some x, w') \<Longrightarrow> bind_io m f w = f x w'"
  by (simp add: bind_io_def)

lemma try_known: "m w = (r, w') \<Longrightarrow> try_io m w = (Some r, w')"
  by (simp add: try_io_def)

section \<open>Triples\<close>

text \<open>
  \<open>ok\<close> is the invariant of the store, \<open>G\<close> what one step may do to it, \<open>F\<close> what a later state keeps of an
  earlier one.
\<close>

definition good_env :: "('s \<Rightarrow> bool) \<Rightarrow> ('s \<Rightarrow> 's \<Rightarrow> bool) \<Rightarrow> (('s \<Rightarrow> 's) \<times> fault) list \<Rightarrow> bool" where
  "good_env ok G es \<longleftrightarrow> (\<forall>f flt st. (f, flt) \<in> set es \<and> ok st \<longrightarrow> G st (f st))"

definition good_service :: "('s \<Rightarrow> bool) \<Rightarrow> ('s \<Rightarrow> 's \<Rightarrow> bool) \<Rightarrow> 's service_world \<Rightarrow> bool" where
  "good_service ok G w \<longleftrightarrow> ok (wd_store w) \<and> good_env ok G (wd_env w)"

definition service_triple ::
  "('s \<Rightarrow> bool) \<Rightarrow> ('s \<Rightarrow> 's \<Rightarrow> bool) \<Rightarrow> ('s \<Rightarrow> bool) \<Rightarrow> ('s, 'a) service \<Rightarrow> ('a \<Rightarrow> 's \<Rightarrow> bool) \<Rightarrow> bool" where
  "service_triple ok G P m Q \<longleftrightarrow> (\<forall>w r w'. good_service ok G w \<and> P (wd_store w) \<and> m w = (r, w')
      \<longrightarrow> good_service ok G w' \<and> G (wd_store w) (wd_store w') \<and> (\<forall>x. r = Some x \<longrightarrow> Q x (wd_store w')))"

definition stable_under :: "('s \<Rightarrow> 's \<Rightarrow> bool) \<Rightarrow> ('s \<Rightarrow> bool) \<Rightarrow> bool" where
  "stable_under F P \<longleftrightarrow> (\<forall>st st'. P st \<and> F st st' \<longrightarrow> P st')"

lemma tripleI:
  assumes "\<And>w r w'. good_service ok G w \<Longrightarrow> P (wd_store w) \<Longrightarrow> m w = (r, w') \<Longrightarrow>
     good_service ok G w' \<and> G (wd_store w) (wd_store w') \<and> (\<forall>x. r = Some x \<longrightarrow> Q x (wd_store w'))"
  shows "service_triple ok G P m Q"
  unfolding service_triple_def using assms by blast

lemma tripleD:
  assumes "service_triple ok G P m Q" "good_service ok G w" "P (wd_store w)" "m w = (r, w')"
  shows "good_service ok G w'" "G (wd_store w) (wd_store w')" "r = Some x \<Longrightarrow> Q x (wd_store w')"
  using assms unfolding service_triple_def by blast+

lemma triple_weaken:
  assumes "service_triple ok G P m Q" "\<And>st. ok st \<Longrightarrow> P' st \<Longrightarrow> P st"
    "\<And>x st. ok st \<Longrightarrow> Q x st \<Longrightarrow> Q' x st"
  shows "service_triple ok G P' m Q'"
  using assms unfolding service_triple_def good_service_def by blast

lemma stable_conj: "stable_under F P \<Longrightarrow> stable_under F Q \<Longrightarrow> stable_under F (\<lambda>st. P st \<and> Q st)"
  unfolding stable_under_def by blast

lemma stable_True: "stable_under F (\<lambda>_. True)"
  by (simp add: stable_under_def)

text \<open>
  Without failures: other instances still run between the calls, but every call of this instance succeeds. The
  postcondition speaks of the answer, \<open>None\<close> being an exception that the function itself raises.
\<close>

definition calm :: "'s service_world \<Rightarrow> bool" where
  "calm w \<longleftrightarrow> (\<forall>e \<in> set (wd_env w). snd e = Fine)"

definition service_calm ::
  "('s \<Rightarrow> bool) \<Rightarrow> ('s \<Rightarrow> 's \<Rightarrow> bool) \<Rightarrow> ('s \<Rightarrow> bool) \<Rightarrow> ('s, 'a) service \<Rightarrow> ('a option \<Rightarrow> 's \<Rightarrow> bool) \<Rightarrow> bool" where
  "service_calm ok G P m Q \<longleftrightarrow> (\<forall>w r w'. good_service ok G w \<and> calm w \<and> P (wd_store w) \<and> m w = (r, w')
      \<longrightarrow> good_service ok G w' \<and> calm w' \<and> G (wd_store w) (wd_store w') \<and> Q r (wd_store w'))"

lemma calmI:
  assumes "\<And>w r w'. good_service ok G w \<Longrightarrow> calm w \<Longrightarrow> P (wd_store w) \<Longrightarrow> m w = (r, w') \<Longrightarrow>
     good_service ok G w' \<and> calm w' \<and> G (wd_store w) (wd_store w') \<and> Q r (wd_store w')"
  shows "service_calm ok G P m Q"
  unfolding service_calm_def using assms by blast

lemma calmD:
  assumes "service_calm ok G P m Q" "good_service ok G w" "calm w" "P (wd_store w)" "m w = (r, w')"
  shows "good_service ok G w'" "calm w'" "G (wd_store w) (wd_store w')" "Q r (wd_store w')"
  using assms unfolding service_calm_def by blast+

lemma calm_weaken:
  assumes "service_calm ok G P m Q" "\<And>st. ok st \<Longrightarrow> P' st \<Longrightarrow> P st"
    "\<And>r st. ok st \<Longrightarrow> Q r st \<Longrightarrow> Q' r st"
  shows "service_calm ok G P' m Q'"
  using assms unfolding service_calm_def good_service_def by blast

lemma calm_arrive: "calm w \<Longrightarrow> arrive w = (flt, w') \<Longrightarrow> flt = Fine \<and> calm w'"
  by (auto simp: calm_def arrive_def split: list.splits prod.splits)

locale service_guarantee =
  fixes ok :: "'s \<Rightarrow> bool" and F G :: "'s \<Rightarrow> 's \<Rightarrow> bool"
  assumes refl: "ok st \<Longrightarrow> G st st"
    and trans: "ok a \<Longrightarrow> G a b \<Longrightarrow> G b c \<Longrightarrow> G a c"
    and follows: "ok st \<Longrightarrow> G st st' \<Longrightarrow> F st st'"
    and follows_wf: "F st st' \<Longrightarrow> ok st'"
begin

lemma stableD: "stable_under F P \<Longrightarrow> P st \<Longrightarrow> ok st \<Longrightarrow> G st st' \<Longrightarrow> P st'"
  unfolding stable_under_def using follows by blast

lemma arrive_good:
  assumes "good_service ok G w" "arrive w = (flt, w')"
  shows "good_service ok G w'" "G (wd_store w) (wd_store w')"
proof -
  have ok: "ok (wd_store w)" using assms(1) by (simp add: good_service_def)
  show "G (wd_store w) (wd_store w')"
  proof (cases "wd_env w")
    case Nil
    with assms(2) refl [OF ok] show ?thesis by (simp add: arrive_def)
  next
    case (Cons e es)
    obtain f flt' where e: "e = (f, flt')" by (cases e)
    have "G (wd_store w) (f (wd_store w))"
      using assms(1) ok Cons e unfolding good_service_def good_env_def by (metis list.set_intros(1))
    then show ?thesis using assms(2) Cons e by (auto simp: arrive_def)
  qed
  then have "ok (wd_store w')" using follows [OF ok] follows_wf by blast
  moreover have "set (wd_env w') \<subseteq> set (wd_env w)"
    using assms(2) by (auto simp: arrive_def split: list.splits)
  ultimately show "good_service ok G w'" using assms(1) unfolding good_service_def good_env_def by blast
qed

lemma triple_return: "(\<And>st. P st \<Longrightarrow> Q x st) \<Longrightarrow> service_triple ok G P (return_io x) Q"
  unfolding service_triple_def return_io_def by (auto simp: refl good_service_def)

lemma triple_fail: "service_triple ok G P fail_io Q"
  unfolding service_triple_def fail_io_def by (auto simp: refl good_service_def)

lemma triple_try:
  assumes "service_triple ok G P m Q" "stable_under F P"
  shows "service_triple ok G P (try_io m) (\<lambda>r st. P st \<and> (\<forall>x. r = Some x \<longrightarrow> Q x st))"
proof (rule tripleI)
  fix w r w'
  assume w: "good_service ok G w" "P (wd_store w)" "try_io m w = (r, w')"
  then obtain y where "m w = (y, w')" "r = Some y" by (auto simp: try_io_def split: prod.splits)
  with tripleD [OF assms(1) w(1,2), of y w'] w(1) stableD [OF assms(2) w(2)]
  show "good_service ok G w' \<and> G (wd_store w) (wd_store w')
      \<and> (\<forall>z. r = Some z \<longrightarrow> P (wd_store w') \<and> (\<forall>x. z = Some x \<longrightarrow> Q x (wd_store w')))"
    by (auto simp: good_service_def)
qed

lemma triple_bind:
  assumes "service_triple ok G P m Q" "\<And>x. service_triple ok G (Q x) (f x) S"
  shows "service_triple ok G P (bind_io m f) S"
proof (rule tripleI)
  fix w r w'
  assume w: "good_service ok G w" "P (wd_store w)" "bind_io m f w = (r, w')"
  obtain y w1 where m: "m w = (y, w1)" by (cases "m w")
  note one = tripleD [OF assms(1) w(1,2) m]
  show "good_service ok G w' \<and> G (wd_store w) (wd_store w') \<and> (\<forall>x. r = Some x \<longrightarrow> S x (wd_store w'))"
  proof (cases y)
    case None
    with w(3) m one show ?thesis by (simp add: bind_io_def)
  next
    case (Some x)
    with w(3) m have fx: "f x w1 = (r, w')" by (simp add: bind_io_def)
    note two = tripleD [OF assms(2) one(1) one(3) [OF Some] fx]
    have "ok (wd_store w)" using w(1) by (simp add: good_service_def)
    from trans [OF this one(2) two(2)] two show ?thesis by blast
  qed
qed

lemma triple_frame:
  assumes "service_triple ok G P m Q" "stable_under F R"
  shows "service_triple ok G (\<lambda>st. R st \<and> P st) m (\<lambda>x st. R st \<and> Q x st)"
proof (rule tripleI)
  fix w r w'
  assume w: "good_service ok G w" "R (wd_store w) \<and> P (wd_store w)" "m w = (r, w')"
  note t = tripleD [OF assms(1) w(1) _ w(3)]
  have "ok (wd_store w)" using w(1) by (simp add: good_service_def)
  with w(2) t stableD [OF assms(2)]
  show "good_service ok G w' \<and> G (wd_store w) (wd_store w')
      \<and> (\<forall>x. r = Some x \<longrightarrow> R (wd_store w') \<and> Q x (wd_store w'))" by blast
qed

lemma triple_get:
  assumes "stable_under F P"
  shows "service_triple ok G P (get_io f) (\<lambda>x st. x = f st \<and> P st)"
proof (rule tripleI)
  fix w r w'
  assume w: "good_service ok G w" "P (wd_store w)" "get_io f w = (r, w')"
  obtain flt w1 where a: "arrive w = (flt, w1)" by (cases "arrive w")
  have "ok (wd_store w)" using w(1) by (simp add: good_service_def)
  with stableD [OF assms w(2)] arrive_good [OF w(1) a] w(3) a
  show "good_service ok G w' \<and> G (wd_store w) (wd_store w')
      \<and> (\<forall>x. r = Some x \<longrightarrow> x = f (wd_store w') \<and> P (wd_store w'))"
    by (auto simp: get_io_def split: if_splits)
qed

lemma triple_write:
  assumes "stable_under F P" "stable_under F Q"
    and step: "\<And>st st'. ok st \<Longrightarrow> P st \<Longrightarrow> txn st = Inr st' \<Longrightarrow> G st st' \<and> Q st'"
  shows "service_triple ok G P (write_io txn) (\<lambda>out st. P st \<and> (out = Done \<longrightarrow> Q st))"
proof (rule tripleI)
  fix w r w'
  assume w: "good_service ok G w" "P (wd_store w)" "write_io txn w = (r, w')"
  obtain flt w1 where a: "arrive w = (flt, w1)" by (cases "arrive w")
  note ag = arrive_good [OF w(1) a]
  have ok: "ok (wd_store w)" "ok (wd_store w1)"
    using w(1) ag(1) by (simp_all add: good_service_def)
  have P1: "P (wd_store w1)" by (rule stableD [OF assms(1) w(2) ok(1) ag(2)])
  show "good_service ok G w' \<and> G (wd_store w) (wd_store w')
      \<and> (\<forall>x. r = Some x \<longrightarrow> P (wd_store w') \<and> (x = Done \<longrightarrow> Q (wd_store w')))"
  proof (cases "txn (wd_store w1)")
    case (Inl e)
    then have "w' = w1" "r \<noteq> Some Done" using w(3) a by (auto simp: write_io_def split: if_splits)
    with ag P1 show ?thesis by blast
  next
    case (Inr st)
    from step [OF ok(2) P1 Inr] have st: "G (wd_store w1) st" "Q st" by auto
    have gw: "good_service ok G (w1\<lparr>wd_store := st\<rparr>)"
      using ag(1) follows_wf [OF follows [OF ok(2) st(1)]] by (simp add: good_service_def)
    have Pst: "P st" by (rule stableD [OF assms(1) P1 ok(2) st(1)])
    have Gst: "G (wd_store w) st" by (rule trans [OF ok(1) ag(2) st(1)])
    have "w' = w1 \<and> r = Some Broken \<or> w' = w1\<lparr>wd_store := st\<rparr>"
      using w(3) a Inr by (cases flt) (simp_all add: write_io_def)
    then show ?thesis
    proof
      assume "w' = w1 \<and> r = Some Broken"
      with ag P1 show ?thesis by simp
    next
      assume "w' = w1\<lparr>wd_store := st\<rparr>"
      with gw Gst Pst st(2) show ?thesis by simp
    qed
  qed
qed

lemma triple_write_new:
  assumes "stable_under F P" "stable_under F Q"
    and "\<And>st st'. ok st \<Longrightarrow> P st \<Longrightarrow> txn st = Inr st' \<Longrightarrow> G st st' \<and> Q st'"
  shows "service_triple ok G P (write_new_io txn f) (\<lambda>out st. P st \<and> (\<forall>x. out = Inr x \<longrightarrow> x = f st \<and> Q st))"
proof (rule tripleI)
  fix w r w'
  assume w: "good_service ok G w" "P (wd_store w)" "write_new_io txn f w = (r, w')"
  obtain out w1 where x: "write_io txn w = (out, w1)" by (cases "write_io txn w")
  note t = tripleD [OF triple_write [OF assms] w(1,2) x]
  show "good_service ok G w' \<and> G (wd_store w) (wd_store w')
      \<and> (\<forall>z. r = Some z \<longrightarrow> P (wd_store w') \<and> (\<forall>x. z = Inr x \<longrightarrow> x = f (wd_store w') \<and> Q (wd_store w')))"
  proof (cases out)
    case None
    have "write_new_io txn f w = (None, w1)" unfolding write_new_io_def x None by simp
    with w(3) have e: "r = None" "w' = w1" by (metis Pair_inject)+
    with t(1,2) show ?thesis by blast
  next
    case (Some o')
    show ?thesis
    proof (cases o')
      case Done
      have "write_new_io txn f w = (Some (Inr (f (wd_store w1))), w1)" unfolding write_new_io_def x Some Done by simp
      with w(3) have e: "r = Some (Inr (f (wd_store w1)))" "w' = w1" by (metis Pair_inject)+
      have "P (wd_store w1)" "Done = Done \<Longrightarrow> Q (wd_store w1)" using t(3) [of Done] Some Done by blast+
      with t(1,2) show ?thesis unfolding e by blast
    next
      case (Rejected e)
      have "write_new_io txn f w = (Some (Inl (Rejected e)), w1)" unfolding write_new_io_def x Some Rejected by simp
      with w(3) have e: "r = Some (Inl (Rejected e))" "w' = w1" by (metis Pair_inject)+
      have "P (wd_store w1)" "Rejected e = Done \<Longrightarrow> Q (wd_store w1)" using t(3) [of "Rejected e"] Some Rejected by blast+
      with t(1,2) show ?thesis unfolding e by blast
    next
      case Broken
      have "write_new_io txn f w = (Some (Inl Broken), w1)" unfolding write_new_io_def x Some Broken by simp
      with w(3) have e: "r = Some (Inl Broken)" "w' = w1" by (metis Pair_inject)+
      have "P (wd_store w1)" "Broken = Done \<Longrightarrow> Q (wd_store w1)" using t(3) [of Broken] Some Broken by blast+
      with t(1,2) show ?thesis unfolding e by blast
    qed
  qed
qed

lemma calm_return: "(\<And>st. P st \<Longrightarrow> Q (Some x) st) \<Longrightarrow> service_calm ok G P (return_io x) Q"
  unfolding service_calm_def return_io_def by (auto simp: refl good_service_def)

lemma calm_fail: "(\<And>st. P st \<Longrightarrow> Q None st) \<Longrightarrow> service_calm ok G P fail_io Q"
  unfolding service_calm_def fail_io_def by (auto simp: refl good_service_def)

lemma calm_try:
  assumes "service_calm ok G P m Q"
  shows "service_calm ok G P (try_io m) (\<lambda>r st. \<exists>y. r = Some y \<and> Q y st)"
proof (rule calmI)
  fix w r w'
  assume w: "good_service ok G w" "calm w" "P (wd_store w)" "try_io m w = (r, w')"
  then obtain y where "m w = (y, w')" "r = Some y" by (auto simp: try_io_def split: prod.splits)
  with calmD [OF assms w(1,2,3), of y w']
  show "good_service ok G w' \<and> calm w' \<and> G (wd_store w) (wd_store w') \<and> (\<exists>y. r = Some y \<and> Q y (wd_store w'))"
    by auto
qed

lemma calm_bind:
  assumes "service_calm ok G P m Q" "\<And>x. service_calm ok G (Q (Some x)) (f x) S" "\<And>st. Q None st \<Longrightarrow> S None st"
  shows "service_calm ok G P (bind_io m f) S"
proof (rule calmI)
  fix w r w'
  assume w: "good_service ok G w" "calm w" "P (wd_store w)" "bind_io m f w = (r, w')"
  obtain y w1 where m: "m w = (y, w1)" by (cases "m w")
  note one = calmD [OF assms(1) w(1,2,3) m]
  show "good_service ok G w' \<and> calm w' \<and> G (wd_store w) (wd_store w') \<and> S r (wd_store w')"
  proof (cases y)
    case None
    with w(4) m one assms(3) show ?thesis by (auto simp: bind_io_def)
  next
    case (Some x)
    with w(4) m have fx: "f x w1 = (r, w')" by (simp add: bind_io_def)
    note two = calmD [OF assms(2) one(1,2) one(4) [unfolded Some] fx]
    have "ok (wd_store w)" using w(1) by (simp add: good_service_def)
    from trans [OF this one(3) two(3)] two show ?thesis by blast
  qed
qed

lemma calm_frame:
  assumes "service_calm ok G P m Q" "stable_under F R"
  shows "service_calm ok G (\<lambda>st. R st \<and> P st) m (\<lambda>r st. R st \<and> Q r st)"
proof (rule calmI)
  fix w r w'
  assume w: "good_service ok G w" "calm w" "R (wd_store w) \<and> P (wd_store w)" "m w = (r, w')"
  note t = calmD [OF assms(1) w(1,2) _ w(4)]
  have "ok (wd_store w)" using w(1) by (simp add: good_service_def)
  with w(3) t stableD [OF assms(2)]
  show "good_service ok G w' \<and> calm w' \<and> G (wd_store w) (wd_store w') \<and> R (wd_store w') \<and> Q r (wd_store w')" by blast
qed

lemma calm_get:
  assumes "stable_under F P"
  shows "service_calm ok G P (get_io f) (\<lambda>r st. r = Some (f st) \<and> P st)"
proof (rule calmI)
  fix w r w'
  assume w: "good_service ok G w" "calm w" "P (wd_store w)" "get_io f w = (r, w')"
  obtain flt w1 where a: "arrive w = (flt, w1)" by (cases "arrive w")
  have "ok (wd_store w)" using w(1) by (simp add: good_service_def)
  with stableD [OF assms w(3)] arrive_good [OF w(1) a] calm_arrive [OF w(2) a] w(4) a
  show "good_service ok G w' \<and> calm w' \<and> G (wd_store w) (wd_store w') \<and> r = Some (f (wd_store w')) \<and> P (wd_store w')"
    by (auto simp: get_io_def)
qed

lemma calm_write:
  assumes "stable_under F P"
    and step: "\<And>st st'. ok st \<Longrightarrow> P st \<Longrightarrow> txn st = Inr st' \<Longrightarrow> G st st' \<and> Q st'"
  shows "service_calm ok G P (write_io txn) (\<lambda>r st. r = Some Done \<and> Q st
           \<or> (\<exists>e. r = Some (Rejected e) \<and> txn st = Inl e \<and> P st))"
proof (rule calmI)
  fix w r w'
  assume w: "good_service ok G w" "calm w" "P (wd_store w)" "write_io txn w = (r, w')"
  obtain flt w1 where a: "arrive w = (flt, w1)" by (cases "arrive w")
  note ag = arrive_good [OF w(1) a] and ca = calm_arrive [OF w(2) a]
  have ok: "ok (wd_store w)" "ok (wd_store w1)" using w(1) ag(1) by (simp_all add: good_service_def)
  have P1: "P (wd_store w1)" by (rule stableD [OF assms(1) w(3) ok(1) ag(2)])
  show "good_service ok G w' \<and> calm w' \<and> G (wd_store w) (wd_store w') \<and> (r = Some Done \<and> Q (wd_store w')
       \<or> (\<exists>e. r = Some (Rejected e) \<and> txn (wd_store w') = Inl e \<and> P (wd_store w')))"
  proof (cases "txn (wd_store w1)")
    case (Inl e)
    then have "w' = w1" "r = Some (Rejected e)" using w(4) a ca by (simp_all add: write_io_def)
    with ag ca P1 Inl show ?thesis by simp
  next
    case (Inr st)
    from step [OF ok(2) P1 Inr] have st: "G (wd_store w1) st" "Q st" by auto
    have gw: "good_service ok G (w1\<lparr>wd_store := st\<rparr>)"
      using ag(1) follows_wf [OF follows [OF ok(2) st(1)]] by (simp add: good_service_def)
    have "w' = w1\<lparr>wd_store := st\<rparr>" "r = Some Done" using w(4) a Inr ca by (simp_all add: write_io_def)
    with gw trans [OF ok(1) ag(2) st(1)] st(2) ca show ?thesis by (simp add: calm_def)
  qed
qed

end

section \<open>Quiet worlds\<close>

text \<open>Without other instances and failures a call answers from the store as it is.\<close>

lemma arrive_quiet: "wd_env w = [] \<Longrightarrow> arrive w = (Fine, w)"
  by (simp add: arrive_def)

lemma get_quiet: "wd_env w = [] \<Longrightarrow> get_io f w = (Some (f (wd_store w)), w)"
  by (simp add: get_io_def arrive_quiet)

lemma write_quiet:
  "wd_env w = [] \<Longrightarrow> write_io txn w = (case txn (wd_store w) of
     Inl e \<Rightarrow> (Some (Rejected e), w) | Inr st \<Rightarrow> (Some Done, w\<lparr>wd_store := st\<rparr>))"
  by (auto simp: write_io_def arrive_quiet split: sum.split)

lemma bind_return_simps:
  "m w = (Some x, w') \<Longrightarrow> bind_io m f w = f x w'"
  "m w = (None, w') \<Longrightarrow> bind_io m f w = (None, w')"
  "return_io x w = (Some x, w)"
  "fail_io w = (None, w)"
  by (simp_all add: bind_io_def return_io_def fail_io_def)

lemma try_simps: "m w = (r, w') \<Longrightarrow> try_io m w = (Some r, w')"
  by (simp add: try_io_def)

lemmas quiet_simps = arrive_quiet get_quiet bind_return_simps try_simps

end
