(* ===== verification/SpendStore.thy ===== *)
theory SpendStore
  imports QuotaLedger Service
begin

text \<open>
  The durable budget store of \<open>src/gateway/persistence.py\<close>: spend counters with billing epochs,
  reservation markers and threshold alerts in one DynamoDB table, changed by conditional
  transactions.

  Calls, interference and failures are those of \<open>Service\<close>. Amounts are exact
  rationals where the code uses \<open>Decimal\<close>; the SHA-256 digest of a request id in a key is the id
  itself. A limit keeps whether Python held it as an \<open>int\<close> or a \<open>float\<close>, because the reservation
  signature renders it with \<open>str\<close>.
\<close>

section \<open>Items\<close>

type_synonym counter_id = "string \<times> string"

datatype py_number = PyInt int | PyFloat rat

primrec num_val :: "py_number \<Rightarrow> rat" where
  "num_val (PyInt i) = of_int i"
| "num_val (PyFloat q) = q"

type_synonym counter = "string \<times> string \<times> py_number"

type_synonym counters3 = "counter list"

record counter_item =
  ct_spend :: "rat option"
  ct_epoch :: "int option"

datatype marker_state = Reserved | Finalized

datatype settlement = Estimated | Reported

record marker =
  mk_request :: string
  mk_signature :: counters3
  mk_epochs :: "(string \<times> int) list option"
  mk_reserved :: rat
  mk_settlement_amount :: rat
  mk_settlement_state :: settlement
  mk_state :: marker_state
  mk_actual :: "rat option"
  mk_lease_expires_at :: int
  mk_expires_at :: "int option"

type_synonym marker_key = "counter_id \<times> string"

type_synonym alert_key = "counter_id \<times> int \<times> rat"

record store =
  ss_counters :: "counter_id \<rightharpoonup> counter_item"
  ss_markers :: "(marker_key \<times> marker) list"
  ss_alerts :: "alert_key set"

definition empty_store :: store where
  "empty_store = \<lparr>ss_counters = Map.empty, ss_markers = [], ss_alerts = {}\<rparr>"

definition spend_of :: "store \<Rightarrow> counter_id \<Rightarrow> rat" where
  "spend_of st k = (case ss_counters st k of None \<Rightarrow> 0
     | Some c \<Rightarrow> (case ct_spend c of None \<Rightarrow> 0 | Some v \<Rightarrow> v))"

definition epoch_of :: "store \<Rightarrow> counter_id \<Rightarrow> int" where
  "epoch_of st k = (case ss_counters st k of None \<Rightarrow> 0
     | Some c \<Rightarrow> (case ct_epoch c of None \<Rightarrow> 0 | Some v \<Rightarrow> v))"

section \<open>Normalizing a request\<close>

definition counter_order :: "counter \<Rightarrow> string list" where
  "counter_order c = (case c of (scope, ident, _) \<Rightarrow> [scope, ident])"

text \<open>\<open>None\<close> is the \<open>ValueError\<close> of an invalid request.\<close>

definition normalize_budget_reservations :: "counters3 \<Rightarrow> counters3 option" where
  "normalize_budget_reservations rs =
     (if rs = [] \<or> list_ex (\<lambda>(scope, ident, limit). blank scope \<or> blank ident \<or> num_val limit < 0) rs
         \<or> \<not> distinct (map fst rs)
      then None else Some (sort_key counter_order rs))"

definition budget_reservation_key :: "string \<Rightarrow> counters3 \<Rightarrow> marker_key option" where
  "budget_reservation_key request_id normalized =
     (if blank request_id \<or> 256 < length request_id then None
      else (case hd normalized of (scope, ident, _) \<Rightarrow> Some ((scope, ident), request_id)))"

definition totals_of :: "(string \<times> rat \<times> int) list \<Rightarrow> (string \<times> rat) list" where
  "totals_of states = map (\<lambda>(s, v, _). (s, v)) states"

definition epochs_of :: "(string \<times> rat \<times> int) list \<Rightarrow> (string \<times> int) list" where
  "epochs_of states = map (\<lambda>(s, _, ep). (s, ep)) states"

definition epoch_in :: "(string \<times> int) list \<Rightarrow> string \<Rightarrow> int" where
  "epoch_in epochs scope = (case map_of epochs scope of None \<Rightarrow> 0 | Some ep \<Rightarrow> ep)"

text \<open>\<open>None\<close> is the \<open>RuntimeError\<close> for invalid billing epochs.\<close>

definition epochs_from_marker :: "marker \<Rightarrow> counters3 \<Rightarrow> (string \<times> int) list option" where
  "epochs_from_marker m normalized =
     (case mk_epochs m of
        None \<Rightarrow> Some (map (\<lambda>(scope, _, _). (scope, 0)) normalized)
      | Some eps \<Rightarrow> if set (map fst eps) \<noteq> set (map fst normalized) \<or> list_ex (\<lambda>(_, ep). ep < 0) eps
                    then None else Some eps)"

section \<open>Transactions\<close>

definition put_counter :: "counter_id \<Rightarrow> rat \<Rightarrow> store \<Rightarrow> store" where
  "put_counter k amount st =
     st\<lparr>ss_counters := (ss_counters st)(k \<mapsto> \<lparr>ct_spend = Some (spend_of st k + amount),
                                             ct_epoch = Some (epoch_of st k)\<rparr>)\<rparr>"

text \<open>The condition of the counter update in a reservation.\<close>

definition reserve_condition :: "store \<Rightarrow> (string \<times> int) list \<Rightarrow> rat \<Rightarrow> counter \<Rightarrow> bool" where
  "reserve_condition st epochs amount c =
     (case c of (scope, ident, limit) \<Rightarrow>
       (case ss_counters st (scope, ident) of
          None \<Rightarrow> True
        | Some x \<Rightarrow> (case ct_epoch x of None \<Rightarrow> True | Some ep \<Rightarrow> ep = epoch_in epochs scope)
                  \<and> (case ct_spend x of None \<Rightarrow> True | Some v \<Rightarrow> v \<le> num_val limit - amount)))"

definition new_marker :: "string \<Rightarrow> counters3 \<Rightarrow> (string \<times> int) list \<Rightarrow> rat \<Rightarrow> int \<Rightarrow> marker" where
  "new_marker request_id normalized epochs amount lease =
     \<lparr>mk_request = request_id, mk_signature = normalized, mk_epochs = Some epochs, mk_reserved = amount,
      mk_settlement_amount = amount, mk_settlement_state = Estimated, mk_state = Reserved,
      mk_actual = None, mk_lease_expires_at = lease, mk_expires_at = None\<rparr>"

definition apply_reserve :: "marker_key \<Rightarrow> marker \<Rightarrow> store \<Rightarrow> store" where
  "apply_reserve key m st =
     (fold (\<lambda>(scope, ident, _). put_counter (scope, ident) (mk_reserved m)) (mk_signature m) st)
       \<lparr>ss_markers := ss_markers st @ [(key, m)]\<rparr>"

text \<open>The scopes whose condition fails, or the store after the commit.\<close>

definition txn_reserve ::
  "marker_key \<Rightarrow> marker \<Rightarrow> (string \<times> int) list \<Rightarrow> store \<Rightarrow> (bool \<times> string list) + store" where
  "txn_reserve key m epochs st =
     (let taken = (map_of (ss_markers st) key \<noteq> None);
          failed = map fst (filter (\<lambda>c. \<not> reserve_condition st epochs (mk_reserved m) c) (mk_signature m))
      in if taken \<or> failed \<noteq> [] then Inl (taken, failed) else Inr (apply_reserve key m st))"

definition update_marker :: "marker_key \<Rightarrow> (marker \<Rightarrow> marker) \<Rightarrow> store \<Rightarrow> store" where
  "update_marker key f st = st\<lparr>ss_markers := map (\<lambda>(k, m). (k, if k = key then f m else m)) (ss_markers st)\<rparr>"

definition report_marker :: "rat \<Rightarrow> marker \<Rightarrow> marker" where
  "report_marker actual m = m\<lparr>mk_settlement_amount := actual, mk_settlement_state := Reported\<rparr>"

text \<open>Recording the settlement intent on the marker; \<open>None\<close> when its condition fails.\<close>

definition txn_settle :: "marker_key \<Rightarrow> counters3 \<Rightarrow> rat \<Rightarrow> store \<Rightarrow> store option" where
  "txn_settle key signature actual st =
     (case map_of (ss_markers st) key of
        None \<Rightarrow> None
      | Some m \<Rightarrow>
          if mk_state m = Reserved \<and> mk_signature m = signature
             \<and> (mk_settlement_state m = Estimated
                \<or> mk_settlement_state m = Reported \<and> mk_settlement_amount m = actual)
          then Some (update_marker key (report_marker actual) st)
          else None)"

definition finalize_condition :: "store \<Rightarrow> (string \<times> int) list \<Rightarrow> rat \<Rightarrow> counter \<Rightarrow> bool" where
  "finalize_condition st epochs reserved c =
     (case c of (scope, ident, _) \<Rightarrow>
       (case ss_counters st (scope, ident) of
          None \<Rightarrow> False
        | Some x \<Rightarrow> (case ct_spend x of None \<Rightarrow> False | Some v \<Rightarrow> reserved \<le> v)
                  \<and> (case ct_epoch x of None \<Rightarrow> epoch_in epochs scope = 0 | Some ep \<Rightarrow> ep = epoch_in epochs scope)))"

definition settled_marker :: "counters3 \<Rightarrow> rat \<Rightarrow> marker \<Rightarrow> bool" where
  "settled_marker signature actual m \<longleftrightarrow> mk_state m = Reserved \<and> mk_signature m = signature
     \<and> mk_settlement_state m = Reported \<and> mk_settlement_amount m = actual"

definition finish_marker :: "rat \<Rightarrow> int \<Rightarrow> marker \<Rightarrow> marker" where
  "finish_marker actual expires m = m\<lparr>mk_state := Finalized, mk_actual := Some actual, mk_expires_at := Some expires\<rparr>"

definition apply_finalize ::
  "marker_key \<Rightarrow> rat \<Rightarrow> rat \<Rightarrow> counters3 \<Rightarrow> alert_key list \<Rightarrow> int \<Rightarrow> store \<Rightarrow> store" where
  "apply_finalize key reserved actual included alerts expires st =
     (fold (\<lambda>(scope, ident, _). put_counter (scope, ident) (actual - reserved)) included
        (update_marker key (finish_marker actual expires) st))
       \<lparr>ss_alerts := ss_alerts st \<union> set alerts\<rparr>"

text \<open>
  The final transaction: the marker becomes finalized, \<open>included\<close> counters move by the difference,
  and the new alerts are put. \<open>Inl True\<close> is a failure with an alert condition among the causes.
\<close>

definition txn_finalize ::
  "marker_key \<Rightarrow> counters3 \<Rightarrow> rat \<Rightarrow> rat \<Rightarrow> (string \<times> int) list \<Rightarrow> counters3 \<Rightarrow> alert_key list \<Rightarrow> int
   \<Rightarrow> store \<Rightarrow> bool + store" where
  "txn_finalize key signature reserved actual epochs included alerts expires st =
     (let marker_ok = (case map_of (ss_markers st) key of None \<Rightarrow> False
            | Some m \<Rightarrow> settled_marker signature actual m);
          alerts_ok = list_all (\<lambda>a. a \<notin> ss_alerts st) alerts
      in if marker_ok \<and> list_all (finalize_condition st epochs reserved) included \<and> alerts_ok
         then Inr (apply_finalize key reserved actual included alerts expires st)
         else Inl (\<not> alerts_ok))"

section \<open>Calls\<close>

type_synonym world = "store service_world"

type_synonym 'a io = "(store, 'a) service"

type_synonym states = "(string \<times> rat \<times> int) list"

definition counter_state :: "counter \<Rightarrow> store \<Rightarrow> string \<times> rat \<times> int" where
  "counter_state c st = (case c of (scope, ident, _) \<Rightarrow>
     (scope, spend_of st (scope, ident), epoch_of st (scope, ident)))"

primrec states_from_table :: "counters3 \<Rightarrow> states io" where
  "states_from_table [] = return_io []"
| "states_from_table (c # cs) =
     bind_io (get_io (counter_state c)) (\<lambda>v. bind_io (states_from_table cs) (\<lambda>vs. return_io (v # vs)))"

definition read_marker :: "marker_key \<Rightarrow> marker option io" where
  "read_marker key = get_io (\<lambda>st. map_of (ss_markers st) key)"

datatype result_state = IsReserved | IsFinalized | IsDenied

record budget_result =
  br_allowed :: bool
  br_request :: string
  br_reserved :: rat
  br_totals :: "(string \<times> rat) list"
  br_epochs :: "(string \<times> int) list"
  br_state :: result_state
  br_denied_scope :: "string option"
  br_idempotent :: bool
  br_crossed :: "rat list"

section \<open>\<open>reserve_budget\<close>\<close>

record reserve_args =
  ra_request :: string
  ra_normalized :: counters3
  ra_amount :: rat
  ra_key :: marker_key
  ra_lease :: int

definition reserve_answer :: "reserve_args \<Rightarrow> states \<Rightarrow> (string \<times> int) list \<Rightarrow> result_state \<Rightarrow> bool \<Rightarrow> budget_result" where
  "reserve_answer a current epochs state idem =
     \<lparr>br_allowed = True, br_request = ra_request a, br_reserved = ra_amount a, br_totals = totals_of current,
      br_epochs = epochs, br_state = state, br_denied_scope = None, br_idempotent = idem, br_crossed = []\<rparr>"

definition reserve_denial :: "reserve_args \<Rightarrow> states \<Rightarrow> string \<Rightarrow> budget_result" where
  "reserve_denial a current scope =
     \<lparr>br_allowed = False, br_request = ra_request a, br_reserved = ra_amount a, br_totals = totals_of current,
      br_epochs = epochs_of current, br_state = IsDenied, br_denied_scope = Some scope,
      br_idempotent = False, br_crossed = []\<rparr>"

text \<open>A limit smaller than the amount: denied without a transaction.\<close>

definition reserve_impossible :: "reserve_args \<Rightarrow> string \<Rightarrow> world \<Rightarrow> budget_result \<times> world" where
  "reserve_impossible a scope w =
     (case states_from_table (ra_normalized a) w of
        (None, w') \<Rightarrow> (reserve_denial a [] scope, w')
      | (Some states, w') \<Rightarrow> (reserve_denial a states scope, w'))"

text \<open>The marker of this request exists already.\<close>

definition reserve_existing :: "reserve_args \<Rightarrow> marker \<Rightarrow> budget_result io" where
  "reserve_existing a m =
     (if mk_request m \<noteq> ra_request a \<or> mk_signature m \<noteq> ra_normalized a \<or> mk_reserved m \<noteq> ra_amount a
      then fail_io
      else bind_io (states_from_table (ra_normalized a)) (\<lambda>current.
             (case epochs_from_marker m (ra_normalized a) of
                None \<Rightarrow> fail_io
              | Some epochs \<Rightarrow> return_io (reserve_answer a current epochs
                  (case mk_state m of Reserved \<Rightarrow> IsReserved | Finalized \<Rightarrow> IsFinalized) True))))"

definition failed_scopes :: "(bool \<times> string list) outcome \<Rightarrow> string list" where
  "failed_scopes out = (case out of Rejected (_, scopes) \<Rightarrow> scopes | _ \<Rightarrow> [])"

text \<open>The handler of a failed transaction. A \<open>None\<close> answer is \<open>continue\<close>.\<close>

definition reserve_failed ::
  "reserve_args \<Rightarrow> (string \<times> int) list \<Rightarrow> (bool \<times> string list) outcome \<Rightarrow> budget_result option io" where
  "reserve_failed a epochs out =
     bind_io (read_marker (ra_key a)) (\<lambda>existing.
       (case existing of
          Some m \<Rightarrow> bind_io (reserve_existing a m) (\<lambda>r. return_io (Some r))
        | None \<Rightarrow>
            (case failed_scopes out of
               [] \<Rightarrow> fail_io
             | scope # _ \<Rightarrow> bind_io (states_from_table (ra_normalized a)) (\<lambda>current.
                 if epochs_of current \<noteq> epochs then return_io None
                 else return_io (Some (reserve_denial a current scope))))))"

definition reserve_attempt :: "reserve_args \<Rightarrow> budget_result option io" where
  "reserve_attempt a =
     bind_io (states_from_table (ra_normalized a)) (\<lambda>states.
       (let epochs = epochs_of states;
            m = new_marker (ra_request a) (ra_normalized a) epochs (ra_amount a) (ra_lease a)
        in bind_io (write_io (txn_reserve (ra_key a) m epochs)) (\<lambda>out.
             if out = Done
             then bind_io (states_from_table (ra_normalized a)) (\<lambda>current.
                    return_io (Some (reserve_answer a current epochs IsReserved False)))
             else reserve_failed a epochs out)))"

primrec reserve_attempts :: "nat \<Rightarrow> reserve_args \<Rightarrow> budget_result io" where
  "reserve_attempts 0 a = fail_io"
| "reserve_attempts (Suc n) a = bind_io (reserve_attempt a) (\<lambda>r.
     (case r of Some x \<Rightarrow> return_io x | None \<Rightarrow> reserve_attempts n a))"

datatype value_error = ValueError

definition second_us :: int where
  "second_us = 1000000"

definition reserve_args_of ::
  "string \<Rightarrow> counters3 \<Rightarrow> rat \<Rightarrow> int \<Rightarrow> int \<Rightarrow> reserve_args option" where
  "reserve_args_of request_id rs amount now_us lease =
     (case normalize_budget_reservations rs of
        None \<Rightarrow> None
      | Some normalized \<Rightarrow>
          if amount \<le> 0 \<or> lease < 60 then None
          else (case budget_reservation_key request_id normalized of
                  None \<Rightarrow> None
                | Some key \<Rightarrow> Some \<lparr>ra_request = request_id, ra_normalized = normalized, ra_amount = amount,
                    ra_key = key, ra_lease = (now_us + lease * second_us) div second_us\<rparr>))"

text \<open>An enabled store. \<open>Inr (None, _)\<close> is the \<open>None\<close> of an unavailable store.\<close>

definition store_reserve ::
  "string \<Rightarrow> counters3 \<Rightarrow> rat \<Rightarrow> int \<Rightarrow> int \<Rightarrow> world \<Rightarrow> value_error + budget_result option \<times> world" where
  "store_reserve request_id rs amount now_us lease w =
     (case reserve_args_of request_id rs amount now_us lease of
        None \<Rightarrow> Inl ValueError
      | Some a \<Rightarrow>
          (case find (\<lambda>(_, _, limit). num_val limit < amount) (ra_normalized a) of
             Some (scope, _, _) \<Rightarrow> (case reserve_impossible a scope w of (r, w') \<Rightarrow> Inr (Some r, w'))
           | None \<Rightarrow> Inr (reserve_attempts 5 a w)))"

section \<open>\<open>finalize_budget_reservation\<close>\<close>

record finalize_args =
  fa_request :: string
  fa_normalized :: counters3
  fa_reserved :: rat
  fa_actual :: rat
  fa_key :: marker_key
  fa_expires :: int

definition finalize_result :: "finalize_args \<Rightarrow> bool \<Rightarrow> rat list \<Rightarrow> budget_result io" where
  "finalize_result a idem crossed =
     bind_io (states_from_table (fa_normalized a)) (\<lambda>states. return_io
       \<lparr>br_allowed = True, br_request = fa_request a, br_reserved = fa_reserved a,
        br_totals = totals_of states, br_epochs = epochs_of states, br_state = IsFinalized,
        br_denied_scope = None, br_idempotent = idem, br_crossed = crossed\<rparr>)"

primrec unsent_thresholds :: "rat list \<Rightarrow> counter_id \<Rightarrow> int \<Rightarrow> rat \<Rightarrow> rat \<Rightarrow> rat list io" where
  "unsent_thresholds [] k epoch limit amount = return_io []"
| "unsent_thresholds (t # ts) k epoch limit amount =
     (if amount < limit * t then unsent_thresholds ts k epoch limit amount
      else bind_io (get_io (\<lambda>st. (k, epoch, t) \<in> ss_alerts st)) (\<lambda>sent.
             bind_io (unsent_thresholds ts k epoch limit amount) (\<lambda>rest.
               return_io (if sent then rest else t # rest))))"

definition QUOTA_SCOPE :: string where
  "QUOTA_SCOPE = ''quota''"

definition quota_thresholds :: "finalize_args \<Rightarrow> (string \<times> int) list \<Rightarrow> states \<Rightarrow> rat list io" where
  "quota_thresholds a epochs states =
     (case find (\<lambda>(scope, _, _). scope = QUOTA_SCOPE) (fa_normalized a) of
        None \<Rightarrow> return_io []
      | Some (_, ident, limit) \<Rightarrow>
          if 0 < num_val limit \<and> epoch_in (epochs_of states) QUOTA_SCOPE = epoch_in epochs QUOTA_SCOPE
          then (case map_of (totals_of states) QUOTA_SCOPE of
                  None \<Rightarrow> return_io []
                | Some v \<Rightarrow> unsent_thresholds BUDGET_ALERT_THRESHOLDS (QUOTA_SCOPE, ident)
                    (epoch_in epochs QUOTA_SCOPE) (num_val limit) (v + (fa_actual a - fa_reserved a)))
          else return_io [])"

text \<open>The alert items the final transaction puts.\<close>

definition alert_keys :: "finalize_args \<Rightarrow> (string \<times> int) list \<Rightarrow> rat list \<Rightarrow> alert_key list" where
  "alert_keys a epochs crossed =
     (case find (\<lambda>(scope, _, _). scope = QUOTA_SCOPE) (fa_normalized a) of
        None \<Rightarrow> []
      | Some (_, ident, _) \<Rightarrow> map (\<lambda>t. ((QUOTA_SCOPE, ident), epoch_in epochs QUOTA_SCOPE, t)) crossed)"

text \<open>The counters still in the billing epoch of the reservation.\<close>

definition included_counters :: "finalize_args \<Rightarrow> (string \<times> int) list \<Rightarrow> states \<Rightarrow> counters3" where
  "included_counters a epochs states =
     (if fa_actual a - fa_reserved a = 0 then []
      else filter (\<lambda>(scope, _, _). epoch_in (epochs_of states) scope = epoch_in epochs scope) (fa_normalized a))"

definition is_finalized :: "marker option \<Rightarrow> bool" where
  "is_finalized latest = (case latest of None \<Rightarrow> False | Some m \<Rightarrow> mk_state m = Finalized)"

definition finalize_failed :: "finalize_args \<Rightarrow> states \<Rightarrow> bool outcome \<Rightarrow> budget_result option io" where
  "finalize_failed a states out =
     bind_io (read_marker (fa_key a)) (\<lambda>latest.
       if is_finalized latest
       then (if mk_actual (the latest) \<noteq> Some (fa_actual a) then fail_io
             else bind_io (finalize_result a True []) (\<lambda>r. return_io (Some r)))
       else if out = Rejected True then return_io None
       else bind_io (states_from_table (fa_normalized a)) (\<lambda>current.
              if epochs_of current \<noteq> epochs_of states then return_io None else fail_io))"

definition finalize_attempt :: "finalize_args \<Rightarrow> (string \<times> int) list \<Rightarrow> budget_result option io" where
  "finalize_attempt a epochs =
     bind_io (states_from_table (fa_normalized a)) (\<lambda>states.
       if list_ex (\<lambda>(scope, ep). epoch_in (epochs_of states) scope < ep) epochs then fail_io
       else bind_io (quota_thresholds a epochs states) (\<lambda>crossed.
         bind_io (write_io (txn_finalize (fa_key a) (fa_normalized a) (fa_reserved a) (fa_actual a) epochs
                    (included_counters a epochs states) (alert_keys a epochs crossed) (fa_expires a)))
           (\<lambda>out. if out = Done
              then bind_io (finalize_result a False crossed) (\<lambda>r. return_io (Some r))
              else finalize_failed a states out)))"

primrec finalize_attempts :: "nat \<Rightarrow> finalize_args \<Rightarrow> (string \<times> int) list \<Rightarrow> budget_result io" where
  "finalize_attempts 0 a epochs = fail_io"
| "finalize_attempts (Suc n) a epochs = bind_io (finalize_attempt a epochs) (\<lambda>r.
     (case r of Some x \<Rightarrow> return_io x | None \<Rightarrow> finalize_attempts n a epochs))"

text \<open>The settlement intent could not be recorded.\<close>

definition settle_failed :: "finalize_args \<Rightarrow> budget_result io" where
  "settle_failed a = bind_io (read_marker (fa_key a)) (\<lambda>latest.
     (case latest of
        None \<Rightarrow> fail_io
      | Some m \<Rightarrow> if mk_state m = Finalized \<and> mk_actual m = Some (fa_actual a)
                  then finalize_result a True [] else fail_io))"

definition settle_and_finalize :: "finalize_args \<Rightarrow> (string \<times> int) list \<Rightarrow> budget_result io" where
  "settle_and_finalize a epochs =
     bind_io (write_io (\<lambda>st. (case txn_settle (fa_key a) (fa_normalized a) (fa_actual a) st of
                                None \<Rightarrow> Inl () | Some st' \<Rightarrow> Inr st')))
       (\<lambda>out. if out = Done then finalize_attempts 3 a epochs else settle_failed a)"

definition finalize_body :: "finalize_args \<Rightarrow> budget_result io" where
  "finalize_body a = bind_io (read_marker (fa_key a)) (\<lambda>found.
     (case found of
        None \<Rightarrow> fail_io
      | Some m \<Rightarrow>
          if mk_request m \<noteq> fa_request a \<or> mk_signature m \<noteq> fa_normalized a \<or> mk_reserved m \<noteq> fa_reserved a
          then fail_io
          else if mk_state m = Finalized
          then (if mk_actual m \<noteq> Some (fa_actual a) then fail_io else finalize_result a True [])
          else (case epochs_from_marker m (fa_normalized a) of
                  None \<Rightarrow> fail_io
                | Some epochs \<Rightarrow> settle_and_finalize a epochs)))"

definition finalize_args_of :: "string \<Rightarrow> counters3 \<Rightarrow> rat \<Rightarrow> rat \<Rightarrow> int \<Rightarrow> finalize_args option" where
  "finalize_args_of request_id rs reserved actual now_us =
     (case normalize_budget_reservations rs of
        None \<Rightarrow> None
      | Some normalized \<Rightarrow>
          if reserved \<le> 0 \<or> actual < 0 then None
          else (case budget_reservation_key request_id normalized of
                  None \<Rightarrow> None
                | Some key \<Rightarrow> Some \<lparr>fa_request = request_id, fa_normalized = normalized, fa_reserved = reserved,
                    fa_actual = actual, fa_key = key,
                    fa_expires = (now_us + 7 * 86400 * second_us) div second_us\<rparr>))"

definition store_finalize ::
  "string \<Rightarrow> counters3 \<Rightarrow> rat \<Rightarrow> rat \<Rightarrow> int \<Rightarrow> world \<Rightarrow> value_error + budget_result option \<times> world" where
  "store_finalize request_id rs reserved actual now_us w =
     (case finalize_args_of request_id rs reserved actual now_us of
        None \<Rightarrow> Inl ValueError
      | Some a \<Rightarrow> Inr (finalize_body a w))"

definition store_release :: "string \<Rightarrow> counters3 \<Rightarrow> rat \<Rightarrow> int \<Rightarrow> world \<Rightarrow> value_error + budget_result option \<times> world" where
  "store_release request_id rs reserved now_us w = store_finalize request_id rs reserved 0 now_us w"

section \<open>Lease cleanup\<close>

definition expired_markers :: "counter_id \<Rightarrow> int \<Rightarrow> store \<Rightarrow> marker list" where
  "expired_markers primary now_epoch st =
     map snd (filter (\<lambda>(key, m). fst key = primary \<and> mk_state m = Reserved \<and> mk_lease_expires_at m \<le> now_epoch)
                (ss_markers st))"

text \<open>\<open>float(limit)\<close> of a limit parsed from the signature.\<close>

definition float_limits :: "counters3 \<Rightarrow> counters3" where
  "float_limits cs = map (\<lambda>(scope, ident, limit). (scope, ident, PyFloat (num_val limit))) cs"

primrec release_each :: "marker list \<Rightarrow> int \<Rightarrow> nat \<Rightarrow> world \<Rightarrow> nat \<times> world" where
  "release_each [] now_us released w = (released, w)"
| "release_each (m # ms) now_us released w =
     (case store_finalize (mk_request m) (float_limits (mk_signature m)) (mk_reserved m)
             (mk_settlement_amount m) now_us w of
        Inl _ \<Rightarrow> release_each ms now_us released w
      | Inr (None, w') \<Rightarrow> release_each ms now_us released w'
      | Inr (Some _, w') \<Rightarrow> release_each ms now_us (released + 1) w')"

definition release_expired :: "string \<Rightarrow> string \<Rightarrow> int \<Rightarrow> world \<Rightarrow> value_error + nat option \<times> world" where
  "release_expired scope ident now_us w =
     (if blank scope \<or> blank ident then Inl ValueError
      else (case get_io (expired_markers (scope, ident) (now_us div second_us)) w of
              (None, w') \<Rightarrow> Inr (None, w')
            | (Some ms, w') \<Rightarrow> (case release_each ms now_us 0 w' of (n, w'') \<Rightarrow> Inr (Some n, w''))))"

section \<open>Direct spend and resets\<close>

definition add_spend_state :: "string \<Rightarrow> string \<Rightarrow> rat \<Rightarrow> world \<Rightarrow> value_error + (rat \<times> int) option \<times> world" where
  "add_spend_state scope ident cost w =
     (if blank scope \<or> blank ident \<or> cost < 0 then Inl ValueError
      else (case arrive w of (flt, w') \<Rightarrow>
        (let k = (scope, ident); st = put_counter k cost (wd_store w') in
         (case flt of
            Fine \<Rightarrow> Inr (Some (spend_of st k, epoch_of st k), w'\<lparr>wd_store := st\<rparr>)
          | Lost \<Rightarrow> Inr (None, w')
          | Applied \<Rightarrow> Inr (None, w'\<lparr>wd_store := st\<rparr>)))))"

definition get_spend_state :: "string \<Rightarrow> string \<Rightarrow> world \<Rightarrow> value_error + (rat \<times> int) option \<times> world" where
  "get_spend_state scope ident w =
     (if blank scope \<or> blank ident then Inl ValueError
      else (let k = (scope, ident) in
        (case get_io (\<lambda>st. if ss_counters st k = None then None else Some (spend_of st k, epoch_of st k)) w of
           (None, w') \<Rightarrow> Inr (None, w')
         | (Some r, w') \<Rightarrow> Inr (r, w'))))"

definition reset_counter :: "counter_id \<Rightarrow> store \<Rightarrow> store" where
  "reset_counter k st =
     st\<lparr>ss_counters := (ss_counters st)(k \<mapsto> \<lparr>ct_spend = Some 0, ct_epoch = Some (epoch_of st k + 1)\<rparr>)\<rparr>"

definition reset_valid :: "counter_id list \<Rightarrow> bool" where
  "reset_valid ks \<longleftrightarrow> ks \<noteq> [] \<and> length ks \<le> 99 \<and> list_all (\<lambda>(s, i). \<not> blank s \<and> \<not> blank i) ks
     \<and> distinct (map fst ks)"

definition reset_spend_counters :: "counter_id list \<Rightarrow> world \<Rightarrow> value_error + states option \<times> world" where
  "reset_spend_counters ks w =
     (if \<not> reset_valid ks then Inl ValueError
      else Inr (bind_io (write_io (\<lambda>st. Inr (fold reset_counter ks st) :: unit + store))
             (\<lambda>out. if out = Done then states_from_table (map (\<lambda>(s, i). (s, i, PyInt 0)) ks) else fail_io) w))"

end
