(* ===== verification/SpendStoreProps.thy ===== *)
theory SpendStoreProps
  imports SpendStore
begin

text \<open>
  Correctness of the durable budget store. A marker charges its reserved amount, or its actual cost once
  finalized, to every counter of its signature that is still in the marker's billing epoch; what a counter
  holds beyond these charges is its residual, the spend added directly since the last reset.

  \<open>triple\<close> is a Hoare triple over worlds whose other instances respect a guarantee \<open>G\<close>; the locale
  \<open>store_guarantee\<close> states what a guarantee must promise, proves the calls inside it once, and is
  interpreted on two guarantees: what any traffic keeps (\<open>follows\<close>: well-formed markers that only move
  forward, epochs that never decrease) and what reservation traffic alone keeps (the residuals too).
\<close>

section \<open>Charges\<close>

definition counter_ids :: "counters3 \<Rightarrow> counter_id list" where
  "counter_ids cs = map (\<lambda>(s, i, _). (s, i)) cs"

definition marker_epoch :: "marker \<Rightarrow> string \<Rightarrow> int" where
  "marker_epoch m s = (case mk_epochs m of None \<Rightarrow> 0 | Some eps \<Rightarrow> epoch_in eps s)"

definition charge :: "marker \<Rightarrow> rat" where
  "charge m = (case mk_actual m of None \<Rightarrow> mk_reserved m | Some v \<Rightarrow> v)"

definition charged :: "marker \<Rightarrow> store \<Rightarrow> counter_id \<Rightarrow> rat" where
  "charged m st k =
     (if k \<in> set (counter_ids (mk_signature m)) \<and> marker_epoch m (fst k) = epoch_of st k then charge m else 0)"

definition residual :: "store \<Rightarrow> counter_id \<Rightarrow> rat" where
  "residual st k = spend_of st k - sum_list (map (\<lambda>(_, m). charged m st k) (ss_markers st))"

definition wf_marker :: "store \<Rightarrow> marker \<Rightarrow> bool" where
  "wf_marker st m \<longleftrightarrow> distinct (map fst (mk_signature m))
     \<and> (\<exists>eps. mk_epochs m = Some eps \<and> map fst eps = map fst (mk_signature m))
     \<and> (\<forall>k\<in>set (counter_ids (mk_signature m)). marker_epoch m (fst k) \<le> epoch_of st k)
     \<and> (mk_state m = Finalized \<longleftrightarrow> mk_actual m \<noteq> None)"

definition wf_store :: "store \<Rightarrow> bool" where
  "wf_store st \<longleftrightarrow> distinct (map fst (ss_markers st)) \<and> (\<forall>(key, m)\<in>set (ss_markers st). wf_marker st m)
     \<and> (\<forall>k. 0 \<le> epoch_of st k)"

definition evolves :: "marker \<Rightarrow> marker \<Rightarrow> bool" where
  "evolves m m' \<longleftrightarrow> mk_request m' = mk_request m \<and> mk_signature m' = mk_signature m
     \<and> mk_epochs m' = mk_epochs m \<and> mk_reserved m' = mk_reserved m
     \<and> (mk_state m = Finalized \<longrightarrow> mk_state m' = Finalized \<and> mk_actual m' = mk_actual m)"

definition tracked :: "marker_key \<Rightarrow> marker \<Rightarrow> store \<Rightarrow> bool" where
  "tracked key m st \<longleftrightarrow> (\<exists>m'. map_of (ss_markers st) key = Some m' \<and> evolves m m')"

definition follows :: "store \<Rightarrow> store \<Rightarrow> bool" where
  "follows st st' \<longleftrightarrow> wf_store st' \<and> (\<forall>k. epoch_of st k \<le> epoch_of st' k)
     \<and> (\<forall>key m. map_of (ss_markers st) key = Some m \<longrightarrow> tracked key m st')"

definition same_residuals :: "store \<Rightarrow> store \<Rightarrow> bool" where
  "same_residuals st st' \<longleftrightarrow> follows st st' \<and> (\<forall>k. residual st' k = residual st k)"

lemma evolves_refl [simp]: "evolves m m"
  by (simp add: evolves_def)

lemma evolves_trans: "evolves a b \<Longrightarrow> evolves b c \<Longrightarrow> evolves a c"
  by (auto simp: evolves_def)

lemma follows_refl: "wf_store st \<Longrightarrow> follows st st"
  by (auto simp: follows_def tracked_def)

lemma follows_tracked: "follows st st' \<Longrightarrow> map_of (ss_markers st) key = Some m \<Longrightarrow> tracked key m st'"
  and follows_epoch: "follows st st' \<Longrightarrow> epoch_of st k \<le> epoch_of st' k"
  and follows_wf: "follows st st' \<Longrightarrow> wf_store st'"
  unfolding follows_def by blast+

lemma tracked_stable:
  assumes "tracked key m st" "follows st st'"
  shows "tracked key m st'"
proof -
  from assms(1) obtain a where a: "map_of (ss_markers st) key = Some a" "evolves m a"
    unfolding tracked_def by blast
  from follows_tracked [OF assms(2) a(1)] obtain b
    where "map_of (ss_markers st') key = Some b" "evolves a b"
    unfolding tracked_def by blast
  with a(2) show ?thesis unfolding tracked_def by (blast intro: evolves_trans)
qed

lemma follows_trans: "follows a b \<Longrightarrow> follows b c \<Longrightarrow> follows a c"
  unfolding follows_def [of a c]
  by (blast intro: order_trans follows_epoch follows_wf tracked_stable follows_tracked)

section \<open>What the transactions do to counters and markers\<close>

lemma spend_of_put [simp]: "spend_of (put_counter k x st) k' = spend_of st k' + (if k' = k then x else 0)"
  by (simp add: put_counter_def spend_of_def)

lemma epoch_of_put [simp]: "epoch_of (put_counter k x st) k' = epoch_of st k'"
  by (simp add: put_counter_def epoch_of_def)

lemma markers_put [simp]: "ss_markers (put_counter k x st) = ss_markers st"
  and alerts_put [simp]: "ss_alerts (put_counter k x st) = ss_alerts st"
  by (simp_all add: put_counter_def)

lemma counter_ids_simps [simp]:
  "counter_ids [] = []"
  "counter_ids ((s, i, l) # cs) = (s, i) # counter_ids cs"
  by (simp_all add: counter_ids_def)

lemma distinct_counter_ids: "distinct (map fst cs) \<Longrightarrow> distinct (counter_ids cs)"
  by (induction cs) (auto simp: counter_ids_def image_iff)

lemma spend_of_puts:
  "distinct (counter_ids cs) \<Longrightarrow>
   spend_of (fold (\<lambda>(s, i, _). put_counter (s, i) x) cs st) k
   = spend_of st k + (if k \<in> set (counter_ids cs) then x else 0)"
  by (induction cs arbitrary: st) auto

lemma epoch_of_puts [simp]: "epoch_of (fold (\<lambda>(s, i, _). put_counter (s, i) x) cs st) k = epoch_of st k"
  by (induction cs arbitrary: st) auto

lemma markers_puts [simp]: "ss_markers (fold (\<lambda>(s, i, _). put_counter (s, i) x) cs st) = ss_markers st"
  by (induction cs arbitrary: st) auto

lemma alerts_puts [simp]: "ss_alerts (fold (\<lambda>(s, i, _). put_counter (s, i) x) cs st) = ss_alerts st"
  by (induction cs arbitrary: st) auto

lemma spend_of_other [simp]:
  "spend_of (st\<lparr>ss_markers := ms\<rparr>) k = spend_of st k" "spend_of (st\<lparr>ss_alerts := al\<rparr>) k = spend_of st k"
  "epoch_of (st\<lparr>ss_markers := ms\<rparr>) k = epoch_of st k" "epoch_of (st\<lparr>ss_alerts := al\<rparr>) k = epoch_of st k"
  by (simp_all add: spend_of_def epoch_of_def)

lemma update_marker_simps [simp]:
  "spend_of (update_marker key f st) k = spend_of st k"
  "epoch_of (update_marker key f st) k = epoch_of st k"
  "map fst (ss_markers (update_marker key f st)) = map fst (ss_markers st)"
  by (simp_all add: update_marker_def comp_def split_def)

lemma map_of_update_marker:
  "map_of (ss_markers (update_marker key f st)) k
   = (if k = key then map_option f (map_of (ss_markers st) k) else map_of (ss_markers st) k)"
proof -
  have "map_of (map (\<lambda>(k, m). (k, if k = key then f m else m)) ms) k
      = (if k = key then map_option f (map_of ms k) else map_of ms k)" for ms
    by (induction ms) auto
  then show ?thesis by (simp add: update_marker_def)
qed

lemma charged_cong: "(\<And>k. epoch_of st' k = epoch_of st k) \<Longrightarrow> charged m st' k = charged m st k"
  by (simp add: charged_def)

lemma wf_marker_cong: "(\<And>k. epoch_of st k \<le> epoch_of st' k) \<Longrightarrow> wf_marker st m \<Longrightarrow> wf_marker st' m"
  by (meson order_trans wf_marker_def)

lemma wf_store_markerD: "wf_store st \<Longrightarrow> map_of (ss_markers st) key = Some m \<Longrightarrow> wf_marker st m"
  by (auto simp: wf_store_def dest!: map_of_SomeD)

lemma wf_store_epochs: "wf_store st \<Longrightarrow> map_of (ss_markers st) key = Some m \<Longrightarrow> \<exists>eps. mk_epochs m = Some eps"
  using wf_store_markerD unfolding wf_marker_def by blast

text \<open>Updating the marker of one key changes its charge only.\<close>

lemma charges_update:
  assumes "wf_store st" "map_of (ss_markers st) key = Some m"
  shows "sum_list (map (\<lambda>(_, m). charged m st k) (ss_markers (update_marker key f st)))
       = sum_list (map (\<lambda>(_, m). charged m st k) (ss_markers st)) - charged m st k + charged (f m) st k"
proof -
  have "sum_list (map (\<lambda>(_, m). charged m st k) (map (\<lambda>(k, m). (k, if k = key then f m else m)) ms))
      = sum_list (map (\<lambda>(_, m). charged m st k) ms) - charged m st k + charged (f m) st k"
    if "distinct (map fst ms)" "map_of ms key = Some m" for ms
    using that
  proof (induction ms)
    case (Cons a ms)
    obtain k' m' where a: "a = (k', m')" by (cases a)
    show ?case
    proof (cases "k' = key")
      case True
      have "map (\<lambda>(k, m). (k, if k = key then f m else m)) ms = ms"
        using Cons.prems True a by (force intro!: map_idI)
      with True Cons.prems a show ?thesis by simp
    next
      case False
      with Cons a show ?thesis by simp
    qed
  qed simp
  with assms show ?thesis by (simp add: wf_store_def update_marker_def)
qed

lemma wf_update_marker:
  assumes "wf_store st" "\<And>m. map_of (ss_markers st) key = Some m \<Longrightarrow> wf_marker st (f m)"
  shows "wf_store (update_marker key f st)"
proof -
  have "wf_marker (update_marker key f st) m'" if "(k, m') \<in> set (ss_markers (update_marker key f st))" for k m'
  proof -
    have "distinct (map fst (ss_markers (update_marker key f st)))"
      using assms(1) by (simp add: wf_store_def)
    with that have "map_of (ss_markers (update_marker key f st)) k = Some m'"
      by (simp add: map_of_is_SomeI)
    then have "wf_marker st m'"
      using assms wf_store_markerD by (auto simp: map_of_update_marker split: if_splits)
    then show ?thesis by (rule wf_marker_cong [rotated]) simp
  qed
  with assms(1) show ?thesis by (auto simp: wf_store_def)
qed

section \<open>Each transaction keeps the residuals\<close>

definition epochs_read :: "counters3 \<Rightarrow> (string \<times> int) list \<Rightarrow> store \<Rightarrow> bool" where
  "epochs_read cs epochs st \<longleftrightarrow> map fst epochs = map fst cs
     \<and> (\<forall>(s, i, _)\<in>set cs. 0 \<le> epoch_in epochs s \<and> epoch_in epochs s \<le> epoch_of st (s, i))"

lemma reserve_condition_epoch:
  assumes "reserve_condition st epochs amount (s, i, l)" "epochs_read cs epochs st" "(s, i, l) \<in> set cs"
  shows "epoch_in epochs s = epoch_of st (s, i)"
proof -
  have "0 \<le> epoch_in epochs s" "epoch_in epochs s \<le> epoch_of st (s, i)"
    using assms(2,3) by (auto simp: epochs_read_def)
  with assms(1) show ?thesis
    by (auto simp: reserve_condition_def epoch_of_def split: option.splits)
qed

lemma same_residualsI:
  assumes "follows st st'" "\<And>k. residual st' k = residual st k"
  shows "same_residuals st st'"
  using assms by (simp add: same_residuals_def)

lemma counter_idsE:
  assumes "k \<in> set (counter_ids cs)"
  obtains s i l where "k = (s, i)" "(s, i, l) \<in> set cs"
  using assms by (auto simp: counter_ids_def)

lemma apply_reserve_simps:
  assumes "distinct (map fst (mk_signature m))"
  shows "spend_of (apply_reserve key m st) k
         = spend_of st k + (if k \<in> set (counter_ids (mk_signature m)) then mk_reserved m else 0)"
    and "epoch_of (apply_reserve key m st) k = epoch_of st k"
    and "ss_markers (apply_reserve key m st) = ss_markers st @ [(key, m)]"
  using distinct_counter_ids [OF assms] by (simp_all add: apply_reserve_def spend_of_puts)

lemma txn_reserve_cases:
  assumes "txn_reserve key m epochs st = Inr st'"
  shows "st' = apply_reserve key m st" "map_of (ss_markers st) key = None"
    "\<And>c. c \<in> set (mk_signature m) \<Longrightarrow> reserve_condition st epochs (mk_reserved m) c"
  using assms by (auto simp: txn_reserve_def Let_def filter_empty_conv split: if_splits)

lemma wf_append_marker:
  assumes "wf_store st" "wf_marker st' m" "map_of (ss_markers st) key = None"
    "ss_markers st' = ss_markers st @ [(key, m)]" "\<And>k. epoch_of st' k = epoch_of st k"
  shows "wf_store st'"
proof -
  have "wf_marker st' m'" if "(k, m') \<in> set (ss_markers st)" for k m'
    using assms(1,5) that by (auto simp: wf_store_def intro!: wf_marker_cong [of st st'])
  moreover have "key \<notin> set (map fst (ss_markers st))"
    using assms(3) by (simp add: map_of_eq_None_iff)
  moreover have "\<forall>k. 0 \<le> epoch_of st' k"
    using assms(1,5) unfolding wf_store_def by metis
  ultimately show ?thesis
    using assms(1,2,4) unfolding wf_store_def by auto
qed

lemma txn_reserve_same:
  assumes wf: "wf_store st" and m: "m = new_marker req cs epochs amount lease"
    and d: "distinct (map fst cs)" and e: "epochs_read cs epochs st"
    and t: "txn_reserve key m epochs st = Inr st'"
  shows "same_residuals st st'"
proof (rule same_residualsI)
  note tx = txn_reserve_cases [OF t]
  have sig [simp]: "mk_signature m = cs" "mk_reserved m = amount" "charge m = amount"
    by (simp_all add: m new_marker_def charge_def)
  note ar = apply_reserve_simps [of m key st, unfolded sig, OF d, folded tx(1)]
  have ep: "marker_epoch m (fst k) = epoch_of st k" if k: "k \<in> set (counter_ids cs)" for k
  proof -
    from k obtain s i l where "k = (s, i)" "(s, i, l) \<in> set cs" by (rule counter_idsE)
    with reserve_condition_epoch [OF tx(3) e] show ?thesis
      by (simp add: marker_epoch_def m new_marker_def)
  qed
  have "wf_marker st' m"
    using d ep e by (simp add: wf_marker_def ar) (simp add: m new_marker_def epochs_read_def)
  then have wf': "wf_store st'" by (rule wf_append_marker [OF wf _ tx(2) ar(3) ar(2)])
  have "tracked k n st'" if "map_of (ss_markers st) k = Some n" for k n
    using that unfolding tracked_def by (auto simp: ar map_add_def map_of_append)
  with wf' show "follows st st'" by (simp add: follows_def ar)
  show "residual st' k = residual st k" for k
    using ep [of k] by (auto simp: residual_def ar charged_cong [of st' st, OF ar(2)] charged_def)
qed

lemma txn_settle_cases:
  assumes "txn_settle key cs actual st = Some st'"
  obtains m where "map_of (ss_markers st) key = Some m" "mk_state m = Reserved"
    "st' = update_marker key (report_marker actual) st"
  using assms by (auto simp: txn_settle_def split: option.splits if_splits)

lemma report_marker_fields [simp]:
  "mk_request (report_marker a m) = mk_request m" "mk_signature (report_marker a m) = mk_signature m"
  "mk_epochs (report_marker a m) = mk_epochs m" "mk_reserved (report_marker a m) = mk_reserved m"
  "mk_state (report_marker a m) = mk_state m" "mk_actual (report_marker a m) = mk_actual m"
  by (simp_all add: report_marker_def)

lemma report_marker_charge [simp]: "charge (report_marker a m) = charge m"
  by (simp add: charge_def split: option.split)

lemma report_marker_simps [simp]:
  "charged (report_marker a m) st k = charged m st k"
  "wf_marker st (report_marker a m) \<longleftrightarrow> wf_marker st m"
  "evolves m (report_marker a m)"
  by (simp_all add: charged_def wf_marker_def evolves_def marker_epoch_def)

lemma follows_update:
  assumes "wf_store st" "map_of (ss_markers st) key = Some m" "wf_marker st (f m)" "evolves m (f m)"
  shows "follows st (update_marker key f st)"
proof -
  have "wf_store (update_marker key f st)"
    by (rule wf_update_marker [OF assms(1)]) (use assms(2,3) in simp)
  moreover have "tracked k n (update_marker key f st)" if "map_of (ss_markers st) k = Some n" for k n
    using that assms(2,4) by (auto simp: tracked_def map_of_update_marker)
  ultimately show ?thesis by (simp add: follows_def)
qed

lemma txn_settle_same:
  assumes wf: "wf_store st" and t: "txn_settle key cs actual st = Some st'"
  shows "same_residuals st st'"
proof -
  from t obtain m where m: "map_of (ss_markers st) key = Some m"
    and st': "st' = update_marker key (report_marker actual) st" by (rule txn_settle_cases)
  show ?thesis
  proof (rule same_residualsI)
    show "follows st st'"
      unfolding st' by (rule follows_update [OF wf m]) (simp_all add: wf_store_markerD [OF wf m])
    show "residual st' k = residual st k" for k
      using charges_update [OF wf m, of k "report_marker actual"]
      by (simp add: residual_def st' charged_cong [of "update_marker key (report_marker actual) st" st])
  qed
qed

lemma finish_marker_fields [simp]:
  "mk_request (finish_marker a e m) = mk_request m" "mk_signature (finish_marker a e m) = mk_signature m"
  "mk_epochs (finish_marker a e m) = mk_epochs m" "mk_reserved (finish_marker a e m) = mk_reserved m"
  "mk_state (finish_marker a e m) = Finalized" "mk_actual (finish_marker a e m) = Some a"
  by (simp_all add: finish_marker_def)

lemma finish_marker_simps [simp]:
  "charge (finish_marker a e m) = a"
  "marker_epoch (finish_marker a e m) = marker_epoch m"
  "wf_marker st m \<Longrightarrow> wf_marker st (finish_marker a e m)"
  "mk_state m = Reserved \<Longrightarrow> evolves m (finish_marker a e m)"
  by (simp_all add: wf_marker_def evolves_def charge_def marker_epoch_def fun_eq_iff)

lemma txn_finalize_cases:
  assumes "txn_finalize key cs reserved actual epochs included alerts expires st = Inr st'"
  obtains m where "map_of (ss_markers st) key = Some m" "settled_marker cs actual m"
    "\<And>c. c \<in> set included \<Longrightarrow> finalize_condition st epochs reserved c"
    "\<And>al. al \<in> set alerts \<Longrightarrow> al \<notin> ss_alerts st"
    "st' = apply_finalize key reserved actual included alerts expires st"
  using assms
  by (auto simp: txn_finalize_def Let_def list_all_iff split: if_splits option.splits)

lemma apply_finalize_simps:
  assumes "distinct (map fst included)"
  shows "spend_of (apply_finalize key reserved actual included alerts expires st) k
         = spend_of st k + (if k \<in> set (counter_ids included) then actual - reserved else 0)"
    and "epoch_of (apply_finalize key reserved actual included alerts expires st) k = epoch_of st k"
    and "ss_markers (apply_finalize key reserved actual included alerts expires st)
         = ss_markers (update_marker key (finish_marker actual expires) st)"
  using distinct_counter_ids [OF assms] by (simp_all add: apply_finalize_def spend_of_puts)

lemma finalize_condition_epoch:
  "finalize_condition st epochs reserved (s, i, l) \<Longrightarrow> epoch_in epochs s = epoch_of st (s, i)"
  by (auto simp: finalize_condition_def epoch_of_def split: option.splits)

lemma wf_epoch_nonneg: "wf_store st \<Longrightarrow> 0 \<le> epoch_of st k"
  unfolding wf_store_def by blast

lemma wf_store_markersI:
  assumes "wf_store st" "ss_markers st' = ss_markers st" "\<And>k. epoch_of st k \<le> epoch_of st' k"
  shows "wf_store st'"
proof -
  have "wf_marker st' m" if "(key, m) \<in> set (ss_markers st)" for key m
    using assms(1) that by (auto simp: wf_store_def intro: wf_marker_cong [OF assms(3)])
  moreover have "0 \<le> epoch_of st' k" for k
    using wf_epoch_nonneg [OF assms(1), of k] assms(3) [of k] by linarith
  ultimately show ?thesis using assms(1,2) unfolding wf_store_def by auto
qed

lemma follows_markersI:
  assumes "wf_store st" "ss_markers st' = ss_markers st" "\<And>k. epoch_of st k \<le> epoch_of st' k"
  shows "follows st st'"
  unfolding follows_def tracked_def assms(2) using wf_store_markersI [OF assms] assms(3) evolves_refl by blast

lemma follows_cong:
  assumes "follows st st'" "ss_markers st'' = ss_markers st'" "\<And>k. epoch_of st'' k = epoch_of st' k"
  shows "follows st st''"
  by (rule follows_trans [OF assms(1) follows_markersI [OF follows_wf [OF assms(1)] assms(2)]])
     (simp add: assms(3))

text \<open>
  The charge of the finished marker moves by the same amount as the counters: on an included counter both
  move by the difference; an excluded one has left the epoch of the marker, or the difference is zero.
\<close>

lemma finalize_charge:
  assumes wf: "wf_marker st m" and r: "mk_state m = Reserved" "mk_reserved m = reserved"
    and eps: "mk_epochs m = Some epochs"
    and inc: "set included \<subseteq> set (mk_signature m)" "\<And>c. c \<in> set included \<Longrightarrow> finalize_condition st epochs reserved c"
    and exc: "\<And>s i l. (s, i, l) \<in> set (mk_signature m) \<Longrightarrow> (s, i, l) \<notin> set included
                \<Longrightarrow> actual = reserved \<or> epoch_in epochs s < epoch_of st (s, i)"
  shows "charged (finish_marker actual expires m) st k
       = charged m st k + (if k \<in> set (counter_ids included) then actual - reserved else 0)"
proof -
  have no: "mk_actual m = None"
    using wf r(1) by (cases "mk_actual m") (auto simp: wf_marker_def)
  have ch: "charge m = reserved" using no r(2) by (simp add: charge_def)
  show ?thesis
  proof (cases "k \<in> set (counter_ids included)")
    case True
    then obtain s i l where k: "k = (s, i)" "(s, i, l) \<in> set included" by (rule counter_idsE)
    have "epoch_in epochs s = epoch_of st k"
      unfolding k(1) by (rule finalize_condition_epoch [OF inc(2) [OF k(2)]])
    moreover have "k \<in> set (counter_ids (mk_signature m))"
      using k inc(1) by (force simp: counter_ids_def)
    ultimately show ?thesis using True ch k by (simp add: charged_def marker_epoch_def eps)
  next
    case out: False
    have "actual = reserved \<or> marker_epoch m (fst k) \<noteq> epoch_of st k"
      if ids: "k \<in> set (counter_ids (mk_signature m))"
    proof -
      from ids obtain s i l where k: "k = (s, i)" "(s, i, l) \<in> set (mk_signature m)" by (rule counter_idsE)
      have "(s, i, l) \<notin> set included" using out k(1) by (force simp: counter_ids_def)
      from exc [OF k(2) this] show ?thesis by (auto simp: k(1) marker_epoch_def eps)
    qed
    then show ?thesis using out ch by (auto simp: charged_def)
  qed
qed

lemma txn_finalize_same:
  assumes wf: "wf_store st" and m: "map_of (ss_markers st) key = Some m"
    and eps: "mk_epochs m = Some epochs" "mk_reserved m = reserved"
    and inc: "set included \<subseteq> set cs" "distinct (map fst included)"
    and exc: "\<And>s i l. (s, i, l) \<in> set cs \<Longrightarrow> (s, i, l) \<notin> set included
                \<Longrightarrow> actual = reserved \<or> epoch_in epochs s < epoch_of st (s, i)"
    and t: "txn_finalize key cs reserved actual epochs included alerts expires st = Inr st'"
  shows "same_residuals st st'"
proof -
  obtain m' where "map_of (ss_markers st) key = Some m'" and sm: "settled_marker cs actual m'"
    and conds: "\<And>c. c \<in> set included \<Longrightarrow> finalize_condition st epochs reserved c"
    and st': "st' = apply_finalize key reserved actual included alerts expires st"
    using txn_finalize_cases [OF t] by metis
  then have mm: "m' = m" using m by simp
  have sig: "mk_signature m = cs" and res: "mk_state m = Reserved"
    using sm by (simp_all add: mm settled_marker_def)
  note wfm = wf_store_markerD [OF wf m]
  note ap = apply_finalize_simps [OF inc(2), of key reserved actual alerts expires st, folded st']
  have "follows st (update_marker key (finish_marker actual expires) st)"
    by (rule follows_update [OF wf m]) (simp_all add: wfm res)
  then have "follows st st'" by (rule follows_cong) (simp_all add: ap)
  moreover have "residual st' k = residual st k" for k
    using charges_update [OF wf m, of k "finish_marker actual expires"]
      finalize_charge [where expires = expires and k = k, OF wfm res eps(2,1) inc(1) [folded sig] conds exc [folded sig]]
    by (simp add: residual_def ap charged_cong [of st' st, OF ap(2)])
  ultimately show ?thesis by (rule same_residualsI)
qed

text \<open>Direct spend and a reset.\<close>

lemma put_counter_follows: "wf_store st \<Longrightarrow> follows st (put_counter k x st)"
  by (rule follows_markersI) simp_all

lemma residual_put: "residual (put_counter k x st) k' = residual st k' + (if k' = k then x else 0)"
  by (simp add: residual_def charged_cong [of "put_counter k x st" st])

lemma reset_counter_simps [simp]:
  "spend_of (reset_counter k st) k' = (if k' = k then 0 else spend_of st k')"
  "epoch_of (reset_counter k st) k' = (if k' = k then epoch_of st k + 1 else epoch_of st k')"
  "ss_markers (reset_counter k st) = ss_markers st"
  by (simp_all add: reset_counter_def spend_of_def epoch_of_def)

lemma reset_counter_follows: "wf_store st \<Longrightarrow> follows st (reset_counter k st)"
  by (rule follows_markersI) simp_all

lemma residual_reset:
  assumes "wf_store st"
  shows "residual (reset_counter k st) k' = (if k' = k then 0 else residual st k')"
proof (cases "k' = k")
  case True
  have "charged m (reset_counter k st) k = 0" if "(key, m) \<in> set (ss_markers st)" for key m
  proof -
    have "wf_marker st m" using assms that by (auto simp: wf_store_def)
    then have "k \<in> set (counter_ids (mk_signature m)) \<Longrightarrow> marker_epoch m (fst k) \<le> epoch_of st k"
      by (simp add: wf_marker_def)
    then show ?thesis by (auto simp: charged_def)
  qed
  then have "sum_list (map (\<lambda>(_, m). charged m (reset_counter k st) k) (ss_markers st))
           = sum_list (map (\<lambda>_. 0) (ss_markers st))"
    by (intro arg_cong [where f = sum_list] map_cong) auto
  then have "sum_list (map (\<lambda>(_, m). charged m (reset_counter k st) k) (ss_markers st)) = 0"
    by (simp only: sum_list_0)
  with True show ?thesis by (simp add: residual_def)
next
  case False
  then show ?thesis by (simp add: residual_def charged_def)
qed

section \<open>Calls among other instances\<close>

abbreviation good_world :: "(store \<Rightarrow> store \<Rightarrow> bool) \<Rightarrow> world \<Rightarrow> bool" where
  "good_world \<equiv> good_service wf_store"

abbreviation triple ::
  "(store \<Rightarrow> store \<Rightarrow> bool) \<Rightarrow> (store \<Rightarrow> bool) \<Rightarrow> 'a io \<Rightarrow> ('a \<Rightarrow> store \<Rightarrow> bool) \<Rightarrow> bool" where
  "triple \<equiv> service_triple wf_store"

abbreviation stable :: "(store \<Rightarrow> bool) \<Rightarrow> bool" where
  "stable \<equiv> stable_under follows"

lemmas good_world_def = good_service_def [of wf_store]

lemmas stable_def = stable_under_def [of follows]

lemma stable_tracked: "stable (tracked key m)"
  unfolding stable_def by (blast intro: tracked_stable)

text \<open>What a read or a commit establishes for good.\<close>

definition recorded :: "marker_key \<Rightarrow> string \<Rightarrow> counters3 \<Rightarrow> rat \<Rightarrow> store \<Rightarrow> bool" where
  "recorded key req cs amount st \<longleftrightarrow> (\<exists>m. map_of (ss_markers st) key = Some m \<and> mk_request m = req
     \<and> mk_signature m = cs \<and> mk_reserved m = amount)"

definition settled_at :: "marker_key \<Rightarrow> string \<Rightarrow> counters3 \<Rightarrow> rat \<Rightarrow> rat \<Rightarrow> store \<Rightarrow> bool" where
  "settled_at key req cs amount actual st \<longleftrightarrow> (\<exists>m. map_of (ss_markers st) key = Some m \<and> mk_request m = req
     \<and> mk_signature m = cs \<and> mk_reserved m = amount \<and> mk_state m = Finalized \<and> mk_actual m = Some actual)"

lemma recorded_iff_tracked:
  "recorded key req cs amount st \<longleftrightarrow> (\<exists>m. tracked key m st \<and> mk_request m = req
     \<and> mk_signature m = cs \<and> mk_reserved m = amount)"
proof
  assume "recorded key req cs amount st"
  then show "\<exists>m. tracked key m st \<and> mk_request m = req \<and> mk_signature m = cs \<and> mk_reserved m = amount"
    unfolding recorded_def tracked_def using evolves_refl by blast
qed (auto simp: recorded_def tracked_def evolves_def)

lemma settled_at_iff_tracked:
  "settled_at key req cs amount actual st \<longleftrightarrow> (\<exists>m. tracked key m st \<and> mk_request m = req
     \<and> mk_signature m = cs \<and> mk_reserved m = amount \<and> mk_state m = Finalized \<and> mk_actual m = Some actual)"
proof
  assume "settled_at key req cs amount actual st"
  then show "\<exists>m. tracked key m st \<and> mk_request m = req \<and> mk_signature m = cs \<and> mk_reserved m = amount
      \<and> mk_state m = Finalized \<and> mk_actual m = Some actual"
    unfolding settled_at_def tracked_def using evolves_refl by blast
qed (auto simp: settled_at_def tracked_def evolves_def)

lemma stable_recorded: "stable (recorded key req cs amount)"
  unfolding stable_def recorded_iff_tracked using tracked_stable by blast

lemma stable_settled_at: "stable (settled_at key req cs amount actual)"
  unfolding stable_def settled_at_iff_tracked using tracked_stable by blast

lemma stable_epochs_read: "stable (epochs_read cs epochs)"
  unfolding stable_def epochs_read_def using follows_epoch by (fastforce intro: order_trans)

lemma stable_epoch_le: "stable (\<lambda>st. ep \<le> epoch_of st k)"
  unfolding stable_def using follows_epoch order_trans by blast

locale store_guarantee = service_guarantee wf_store follows G for G :: "store \<Rightarrow> store \<Rightarrow> bool" +
  assumes reserve: "\<lbrakk>wf_store st; distinct (map fst cs); epochs_read cs epochs st;
        txn_reserve key (new_marker req cs epochs amount lease) epochs st = Inr st'\<rbrakk> \<Longrightarrow> G st st'"
    and settle: "\<lbrakk>wf_store st; txn_settle key cs actual st = Some st'\<rbrakk> \<Longrightarrow> G st st'"
    and finalize: "\<lbrakk>wf_store st; map_of (ss_markers st) key = Some m; mk_epochs m = Some epochs;
        mk_reserved m = reserved; set included \<subseteq> set cs; distinct (map fst included);
        \<And>s i l. (s, i, l) \<in> set cs \<Longrightarrow> (s, i, l) \<notin> set included
            \<Longrightarrow> actual = reserved \<or> epoch_in epochs s < epoch_of st (s, i);
        txn_finalize key cs reserved actual epochs included alerts expires st = Inr st'\<rbrakk> \<Longrightarrow> G st st'"
begin

lemma triple_states:
  assumes "stable P" "distinct (map fst cs)"
  shows "triple G P (states_from_table cs) (\<lambda>v st. epochs_read cs (epochs_of v) st \<and> P st)"
  using assms(2)
proof (induction cs)
  case Nil
  then show ?case by (auto intro!: triple_return simp: epochs_read_def epochs_of_def)
next
  case (Cons c cs)
  obtain s i l where c: "c = (s, i, l)" by (cases c)
  let ?R = "\<lambda>x st. \<exists>v ep. x = (s, v, ep) \<and> 0 \<le> ep \<and> ep \<le> epoch_of st (s, i)"
  have "stable (?R x)" for x
    using follows_epoch order_trans unfolding stable_def by blast
  note tail = triple_frame [OF Cons.IH this]
  have get: "triple G P (get_io (counter_state c)) (\<lambda>x st. ?R x st \<and> P st)"
    by (rule triple_weaken [OF triple_get [OF assms(1)]])
       (auto simp: c counter_state_def wf_epoch_nonneg)
  have fin: "epochs_read (c # cs) (epochs_of (x # v)) st \<and> P st"
    if h: "?R x st \<and> epochs_read cs (epochs_of v) st \<and> P st" for x v st
  proof -
    from h obtain u ep where x: "x = (s, u, ep)" "0 \<le> ep" "ep \<le> epoch_of st (s, i)" by blast
    have "epoch_in (epochs_of (x # v)) s' = (if s' = s then ep else epoch_in (epochs_of v) s')" for s'
      by (simp add: epochs_of_def epoch_in_def x(1))
    moreover have "s \<notin> set (map fst cs)" using Cons.prems c by simp
    ultimately show ?thesis
      using h x by (force simp: epochs_read_def c epochs_of_def image_iff)
  qed
  show ?case
    unfolding states_from_table.simps
    by (rule triple_bind [OF get triple_bind [OF tail]])
       (use Cons.prems in \<open>auto intro!: triple_return fin simp del: split_paired_All\<close>)
qed

end

definition reserve_post :: "reserve_args \<Rightarrow> budget_result \<Rightarrow> store \<Rightarrow> bool" where
  "reserve_post a r st \<longleftrightarrow> (br_allowed r
     \<longrightarrow> recorded (ra_key a) (ra_request a) (ra_normalized a) (ra_amount a) st)"

definition finalize_post :: "finalize_args \<Rightarrow> store \<Rightarrow> bool" where
  "finalize_post a = settled_at (fa_key a) (fa_request a) (fa_normalized a) (fa_reserved a) (fa_actual a)"

context store_guarantee
begin

lemmas triple_pre = triple_weaken [where P = "\<lambda>_. True", OF _ TrueI]

lemma triple_read_marker: "stable P \<Longrightarrow>
    triple G P (read_marker key) (\<lambda>x st. (\<forall>m. x = Some m \<longrightarrow> tracked key m st \<and> mk_epochs m \<noteq> None) \<and> P st)"
  unfolding read_marker_def
  by (rule triple_weaken [OF triple_get [where P = P]])
     (auto simp: tracked_def intro: evolves_refl dest: wf_store_epochs)

lemma triple_reserve_existing:
  assumes d: "distinct (map fst (ra_normalized a))"
  shows "triple G (tracked (ra_key a) m) (reserve_existing a m) (reserve_post a)"
proof (cases "mk_request m \<noteq> ra_request a \<or> mk_signature m \<noteq> ra_normalized a \<or> mk_reserved m \<noteq> ra_amount a")
  case True
  then show ?thesis by (simp add: reserve_existing_def triple_fail)
next
  case False
  have "reserve_post a r st" if "tracked (ra_key a) m st" for r st
    unfolding reserve_post_def recorded_iff_tracked using that False by blast
  then show ?thesis
    unfolding reserve_existing_def if_not_P [OF False]
    by (intro triple_bind [OF triple_states [OF stable_tracked d]])
       (auto split: option.split intro: triple_fail triple_return)
qed

lemma triple_reserve_failed:
  assumes d: "distinct (map fst (ra_normalized a))"
  shows "triple G (\<lambda>_. True) (reserve_failed a epochs out) (\<lambda>r st. \<forall>x. r = Some x \<longrightarrow> reserve_post a x st)"
  unfolding reserve_failed_def
proof (rule triple_bind [OF triple_read_marker [OF stable_True]])
  fix x :: "marker option"
  let ?P = "\<lambda>st. (\<forall>m. x = Some m \<longrightarrow> tracked (ra_key a) m st \<and> mk_epochs m \<noteq> None) \<and> True"
  show "triple G ?P (case x of
          Some m \<Rightarrow> bind_io (reserve_existing a m) (\<lambda>r. return_io (Some r))
        | None \<Rightarrow> (case failed_scopes out of
               [] \<Rightarrow> fail_io
             | scope # _ \<Rightarrow> bind_io (states_from_table (ra_normalized a)) (\<lambda>current.
                 if epochs_of current \<noteq> epochs then return_io None
                 else return_io (Some (reserve_denial a current scope)))))
       (\<lambda>r st. \<forall>x. r = Some x \<longrightarrow> reserve_post a x st)"
  proof (cases x)
    case (Some m)
    have "triple G ?P (reserve_existing a m) (reserve_post a)"
      by (rule triple_weaken [OF triple_reserve_existing [OF d]]) (auto simp: Some)
    then show ?thesis by (auto simp: Some intro: triple_bind triple_return)
  next
    case None
    show ?thesis
    proof (cases "failed_scopes out")
      case Nil
      then show ?thesis by (simp add: None triple_fail)
    next
      case (Cons scope rest)
      then show ?thesis
        by (auto simp: None reserve_post_def reserve_denial_def
            intro!: triple_bind [OF triple_states [OF stable_True d, THEN triple_weaken]] triple_return)
    qed
  qed
qed

lemma triple_reserve_attempt:
  assumes d: "distinct (map fst (ra_normalized a))"
  shows "triple G (\<lambda>_. True) (reserve_attempt a) (\<lambda>r st. \<forall>x. r = Some x \<longrightarrow> reserve_post a x st)"
  unfolding reserve_attempt_def Let_def
proof (rule triple_bind [OF triple_states [OF stable_True d]], rule triple_bind)
  fix v :: states
  let ?m = "new_marker (ra_request a) (ra_normalized a) (epochs_of v) (ra_amount a) (ra_lease a)"
  let ?rec = "recorded (ra_key a) (ra_request a) (ra_normalized a) (ra_amount a)"
  let ?P = "\<lambda>st. epochs_read (ra_normalized a) (epochs_of v) st \<and> True"
  show "triple G ?P (write_io (txn_reserve (ra_key a) ?m (epochs_of v)))
      (\<lambda>out st. ?P st \<and> (out = Done \<longrightarrow> ?rec st))"
  proof (rule triple_write)
    show "stable ?P" by (simp add: stable_epochs_read)
    show "stable ?rec" by (rule stable_recorded)
    fix st st'
    assume h: "wf_store st" "?P st" "txn_reserve (ra_key a) ?m (epochs_of v) st = Inr st'"
    then have "G st st'" using reserve [OF h(1) d] by blast
    moreover have "?rec st'"
      using txn_reserve_cases(1,2) [OF h(3)] apply_reserve_simps(3) [of ?m] d
      by (simp add: recorded_def new_marker_def map_add_def)
    ultimately show "G st st' \<and> ?rec st'" ..
  qed
  fix out
  show "triple G (\<lambda>st. ?P st \<and> (out = Done \<longrightarrow> ?rec st))
      (if out = Done then bind_io (states_from_table (ra_normalized a)) (\<lambda>current.
          return_io (Some (reserve_answer a current (epochs_of v) IsReserved False)))
       else reserve_failed a (epochs_of v) out) (\<lambda>r st. \<forall>x. r = Some x \<longrightarrow> reserve_post a x st)"
  proof (cases "out = Done")
    case True
    have "triple G (\<lambda>st. ?P st \<and> (out = Done \<longrightarrow> ?rec st)) (states_from_table (ra_normalized a)) (\<lambda>_. ?rec)"
      by (rule triple_weaken [OF triple_states [OF stable_recorded
          [of "ra_key a" "ra_request a" "ra_normalized a" "ra_amount a"] d]]) (simp_all add: True)
    then show ?thesis
      by (auto simp: True reserve_post_def intro: triple_bind triple_return)
  next
    case False
    then show ?thesis by (auto intro: triple_weaken [OF triple_reserve_failed [OF d]])
  qed
qed

lemma triple_reserve:
  assumes "distinct (map fst (ra_normalized a))"
  shows "triple G (\<lambda>_. True) (reserve_attempts n a) (reserve_post a)"
proof (induction n)
  case 0
  then show ?case by (simp add: triple_fail)
next
  case (Suc n)
  have "triple G (\<lambda>st. \<forall>x. r = Some x \<longrightarrow> reserve_post a x st)
      (case r of Some x \<Rightarrow> return_io x | None \<Rightarrow> reserve_attempts n a) (reserve_post a)" for r
    using Suc by (cases r) (auto intro: triple_return)
  then show ?case
    unfolding reserve_attempts.simps by (rule triple_bind [OF triple_reserve_attempt [OF assms]])
qed

end

lemma normalize_distinct: "normalize_budget_reservations rs = Some cs \<Longrightarrow> distinct (map fst cs)"
  by (auto simp: normalize_budget_reservations_def distinct_map split: if_splits)

lemma reserve_args_distinct: "reserve_args_of req rs amount now lease = Some a \<Longrightarrow> distinct (map fst (ra_normalized a))"
  by (auto simp: reserve_args_of_def dest: normalize_distinct split: option.splits if_splits)

lemma finalize_args_distinct: "finalize_args_of req rs reserved actual now = Some a \<Longrightarrow> distinct (map fst (fa_normalized a))"
  by (auto simp: finalize_args_of_def dest: normalize_distinct split: option.splits if_splits)

definition marker_for :: "finalize_args \<Rightarrow> (string \<times> int) list \<Rightarrow> marker \<Rightarrow> bool" where
  "marker_for a epochs m \<longleftrightarrow> mk_request m = fa_request a \<and> mk_signature m = fa_normalized a
     \<and> mk_reserved m = fa_reserved a \<and> mk_epochs m = Some epochs
     \<and> set (map fst epochs) = set (map fst (fa_normalized a))"

lemma finalize_postI:
  assumes "tracked (fa_key a) m st" "marker_for a epochs m" "tracked (fa_key a) m' st"
    "mk_state m' = Finalized" "mk_actual m' = Some (fa_actual a)"
  shows "finalize_post a st"
  using assms by (auto simp: finalize_post_def settled_at_def tracked_def marker_for_def evolves_def)

lemma included_or_later:
  assumes m: "marker_for a epochs m" and v: "epochs_read (fa_normalized a) (epochs_of v) st"
    and ok: "\<not> list_ex (\<lambda>(s, ep). epoch_in (epochs_of v) s < ep) epochs"
    and c: "(s, i, l) \<in> set (fa_normalized a)" "(s, i, l) \<notin> set (included_counters a epochs v)"
  shows "fa_actual a = fa_reserved a \<or> epoch_in epochs s < epoch_of st (s, i)"
proof (cases "fa_actual a = fa_reserved a")
  case False
  then have ne: "epoch_in (epochs_of v) s \<noteq> epoch_in epochs s"
    using c by (auto simp: included_counters_def)
  have "s \<in> set (map fst epochs)" using m c(1) by (force simp: marker_for_def)
  then obtain ep where "map_of epochs s = Some ep" by (metis map_of_eq_None_iff not_None_eq set_map)
  then have "epoch_in epochs s = ep" "(s, ep) \<in> set epochs" by (auto simp: epoch_in_def dest: map_of_SomeD)
  then have "epoch_in epochs s \<le> epoch_in (epochs_of v) s" using ok by (force simp: list_ex_iff)
  moreover have "epoch_in (epochs_of v) s \<le> epoch_of st (s, i)" using v c(1) by (auto simp: epochs_read_def)
  ultimately show ?thesis using ne by linarith
qed simp

lemma included_subset:
  assumes "distinct (map fst (fa_normalized a))"
  shows "set (included_counters a epochs v) \<subseteq> set (fa_normalized a)"
    "distinct (map fst (included_counters a epochs v))"
  using distinct_map_filter [OF assms] by (auto simp: included_counters_def)

context store_guarantee
begin

lemma triple_finalize_result:
  assumes "distinct (map fst (fa_normalized a))"
  shows "triple G (finalize_post a) (finalize_result a idem crossed) (\<lambda>_. finalize_post a)"
  unfolding finalize_result_def
  by (rule triple_bind [OF triple_states [OF _ assms]])
     (auto simp: finalize_post_def stable_settled_at intro: triple_return)

lemma triple_unsent:
  assumes "stable P"
  shows "triple G P (unsent_thresholds ts k ep limit amount) (\<lambda>_. P)"
proof (induction ts)
  case Nil
  then show ?case by (simp add: triple_return)
next
  case (Cons t ts)
  have "triple G P (get_io f) (\<lambda>_. P)" for f :: "store \<Rightarrow> bool"
    by (rule triple_weaken [OF triple_get [OF assms]]) auto
  then have "triple G P (bind_io (get_io (\<lambda>st. (k, ep, t) \<in> ss_alerts st)) (\<lambda>sent.
      bind_io (unsent_thresholds ts k ep limit amount) (\<lambda>rest. return_io (if sent then rest else t # rest))))
      (\<lambda>_. P)"
    by (intro triple_bind) (auto intro: Cons triple_return)
  with Cons show ?case by simp
qed

lemma triple_quota_thresholds:
  assumes "stable P"
  shows "triple G P (quota_thresholds a epochs v) (\<lambda>_. P)"
  unfolding quota_thresholds_def
  by (auto split: option.split intro!: triple_return triple_unsent [OF assms])

lemma triple_finalize_failed:
  assumes d: "distinct (map fst (fa_normalized a))" and m: "marker_for a epochs m"
  shows "triple G (tracked (fa_key a) m) (finalize_failed a v out) (\<lambda>r st. r \<noteq> None \<longrightarrow> finalize_post a st)"
  unfolding finalize_failed_def
proof (rule triple_bind [OF triple_read_marker [OF stable_tracked]])
  fix x :: "marker option"
  let ?P = "\<lambda>st. (\<forall>m. x = Some m \<longrightarrow> tracked (fa_key a) m st \<and> mk_epochs m \<noteq> None) \<and> tracked (fa_key a) m st"
  let ?Q = "\<lambda>r st. r \<noteq> None \<longrightarrow> finalize_post a st"
  have *: "triple G ?P (bind_io (finalize_result a True []) (\<lambda>r. return_io (Some r))) ?Q"
    if "x = Some m'" "mk_state m' = Finalized" "mk_actual m' = Some (fa_actual a)" for m'
  proof -
    have "triple G ?P (finalize_result a True []) (\<lambda>_. finalize_post a)"
      by (rule triple_weaken [OF triple_finalize_result [OF d]]) (use that m in \<open>auto intro: finalize_postI\<close>)
    then show ?thesis by (rule triple_bind) (auto intro: triple_return)
  qed
  have **: "triple G ?P (bind_io (states_from_table (fa_normalized a)) (\<lambda>current.
      if epochs_of current \<noteq> epochs_of v then return_io None else fail_io)) ?Q"
    by (auto intro!: triple_bind [OF triple_states [OF stable_True d, THEN triple_weaken]]
        triple_return triple_fail)
  show "triple G ?P (if is_finalized x
       then (if mk_actual (the x) \<noteq> Some (fa_actual a) then fail_io
             else bind_io (finalize_result a True []) (\<lambda>r. return_io (Some r)))
       else if out = Rejected True then return_io None
       else bind_io (states_from_table (fa_normalized a)) (\<lambda>current.
              if epochs_of current \<noteq> epochs_of v then return_io None else fail_io)) ?Q"
    using * ** by (auto simp: is_finalized_def intro: triple_fail triple_return split: option.splits)
qed

lemma finalize_step:
  assumes d: "distinct (map fst (fa_normalized a))" and m: "marker_for a epochs m"
    and v: "\<not> list_ex (\<lambda>(s, ep). epoch_in (epochs_of v) s < ep) epochs"
    and wf: "wf_store st" and tr: "tracked (fa_key a) m st" and e: "epochs_read (fa_normalized a) (epochs_of v) st"
    and t: "txn_finalize (fa_key a) (fa_normalized a) (fa_reserved a) (fa_actual a) epochs
              (included_counters a epochs v) alerts expires st = Inr st'"
  shows "G st st' \<and> finalize_post a st'"
proof -
  from tr obtain n where n: "map_of (ss_markers st) (fa_key a) = Some n" "evolves m n"
    unfolding tracked_def by blast
  have nf: "mk_epochs n = Some epochs" "mk_reserved n = fa_reserved a" "mk_request n = fa_request a"
    "mk_signature n = fa_normalized a" using n(2) m by (simp_all add: evolves_def marker_for_def)
  note sub = included_subset [OF d, of epochs v]
  have "G st st'"
    by (rule finalize [OF wf n(1) nf(1,2) sub included_or_later [OF m e v] t])
  moreover have "ss_markers st' = ss_markers (update_marker (fa_key a) (finish_marker (fa_actual a) expires) st)"
    using txn_finalize_cases [OF t] apply_finalize_simps(3) [OF sub(2)] by metis
  then have "finalize_post a st'"
    using n nf by (simp add: finalize_post_def settled_at_def map_of_update_marker)
  ultimately show ?thesis ..
qed

lemma triple_finalize_attempt:
  assumes d: "distinct (map fst (fa_normalized a))" and m: "marker_for a epochs m"
  shows "triple G (tracked (fa_key a) m) (finalize_attempt a epochs)
           (\<lambda>r st. tracked (fa_key a) m st \<and> (r \<noteq> None \<longrightarrow> finalize_post a st))"
  unfolding finalize_attempt_def
proof (rule triple_bind [OF triple_states [OF stable_tracked d]])
  fix v :: states
  let ?P = "\<lambda>st. epochs_read (fa_normalized a) (epochs_of v) st \<and> tracked (fa_key a) m st"
  let ?Q = "\<lambda>r st. tracked (fa_key a) m st \<and> (r \<noteq> None \<longrightarrow> finalize_post a st)"
  let ?gone = "list_ex (\<lambda>(s, ep). epoch_in (epochs_of v) s < ep) epochs"
  have st: "stable ?P" by (rule stable_conj [OF stable_epochs_read stable_tracked])
  have sf: "stable (finalize_post a)" by (simp add: finalize_post_def stable_settled_at)
  have main: "triple G ?P (bind_io (quota_thresholds a epochs v) (\<lambda>crossed.
         bind_io (write_io (txn_finalize (fa_key a) (fa_normalized a) (fa_reserved a) (fa_actual a) epochs
                    (included_counters a epochs v) (alert_keys a epochs crossed) (fa_expires a)))
           (\<lambda>out. if out = Done
              then bind_io (finalize_result a False crossed) (\<lambda>r. return_io (Some r))
              else finalize_failed a v out))) ?Q" if ok: "\<not> ?gone"
  proof (rule triple_bind [OF triple_quota_thresholds [OF st]],
      rule triple_bind [OF triple_write [OF st sf]])
    fix crossed s s'
    assume h: "wf_store s" "?P s" "txn_finalize (fa_key a) (fa_normalized a) (fa_reserved a) (fa_actual a) epochs
        (included_counters a epochs v) (alert_keys a epochs crossed) (fa_expires a) s = Inr s'"
    show "G s s' \<and> finalize_post a s'"
      by (rule finalize_step [OF d m ok h(1) _ _ h(3)]) (use h(2) in auto)
  next
    fix crossed and out :: "bool outcome"
    let ?P' = "\<lambda>st. ?P st \<and> (out = Done \<longrightarrow> finalize_post a st)"
    have "triple G (finalize_post a) (bind_io (finalize_result a False crossed) (\<lambda>r. return_io (Some r)))
        (\<lambda>r st. r \<noteq> None \<longrightarrow> finalize_post a st)"
      by (rule triple_bind [OF triple_finalize_result [OF d]]) (auto intro: triple_return)
    then have "triple G ?P' (if out = Done
        then bind_io (finalize_result a False crossed) (\<lambda>r. return_io (Some r))
        else finalize_failed a v out) (\<lambda>r st. r \<noteq> None \<longrightarrow> finalize_post a st)"
      using triple_finalize_failed [OF d m, of v out] by (auto elim: triple_weaken)
    from triple_frame [OF this stable_tracked [of "fa_key a" m]]
    show "triple G ?P' (if out = Done
        then bind_io (finalize_result a False crossed) (\<lambda>r. return_io (Some r))
        else finalize_failed a v out) ?Q" by (rule triple_weaken) auto
  qed
  show "triple G ?P (if ?gone then fail_io
       else bind_io (quota_thresholds a epochs v) (\<lambda>crossed.
         bind_io (write_io (txn_finalize (fa_key a) (fa_normalized a) (fa_reserved a) (fa_actual a) epochs
                    (included_counters a epochs v) (alert_keys a epochs crossed) (fa_expires a)))
           (\<lambda>out. if out = Done
              then bind_io (finalize_result a False crossed) (\<lambda>r. return_io (Some r))
              else finalize_failed a v out))) ?Q"
    using main by (auto intro: triple_fail)
qed

lemma triple_finalize_attempts:
  assumes d: "distinct (map fst (fa_normalized a))" and m: "marker_for a epochs m"
  shows "triple G (tracked (fa_key a) m) (finalize_attempts n a epochs) (\<lambda>_. finalize_post a)"
proof (induction n)
  case 0
  then show ?case by (simp add: triple_fail)
next
  case (Suc n)
  have "triple G (\<lambda>st. tracked (fa_key a) m st \<and> (r \<noteq> None \<longrightarrow> finalize_post a st))
      (case r of Some x \<Rightarrow> return_io x | None \<Rightarrow> finalize_attempts n a epochs) (\<lambda>_. finalize_post a)" for r
    using Suc by (cases r) (auto intro: triple_return triple_weaken)
  then show ?case
    unfolding finalize_attempts.simps by (rule triple_bind [OF triple_finalize_attempt [OF assms]])
qed

lemma triple_settle:
  assumes d: "distinct (map fst (fa_normalized a))" and m: "marker_for a epochs m"
  shows "triple G (tracked (fa_key a) m) (settle_and_finalize a epochs) (\<lambda>_. finalize_post a)"
  unfolding settle_and_finalize_def
proof (rule triple_bind [OF triple_write [OF stable_tracked stable_True]])
  fix st st'
  assume "wf_store st" "(case txn_settle (fa_key a) (fa_normalized a) (fa_actual a) st of
      None \<Rightarrow> Inl () | Some st' \<Rightarrow> Inr st') = Inr st'"
  then show "G st st' \<and> True" by (auto intro: settle split: option.splits)
next
  fix out :: "unit outcome"
  let ?P = "\<lambda>st. tracked (fa_key a) m st \<and> (out = Done \<longrightarrow> True)"
  have "triple G (tracked (fa_key a) m) (settle_failed a) (\<lambda>_. finalize_post a)"
    unfolding settle_failed_def
  proof (rule triple_bind [OF triple_read_marker [OF stable_tracked]])
    fix x :: "marker option"
    let ?P = "\<lambda>st. (\<forall>m. x = Some m \<longrightarrow> tracked (fa_key a) m st \<and> mk_epochs m \<noteq> None) \<and> tracked (fa_key a) m st"
    have "triple G ?P (finalize_result a True []) (\<lambda>_. finalize_post a)"
      if "x = Some n" "mk_state n = Finalized" "mk_actual n = Some (fa_actual a)" for n
      by (rule triple_weaken [OF triple_finalize_result [OF d]]) (use that m in \<open>auto intro: finalize_postI\<close>)
    then show "triple G ?P (case x of None \<Rightarrow> fail_io
      | Some m \<Rightarrow> if mk_state m = Finalized \<and> mk_actual m = Some (fa_actual a)
                  then finalize_result a True [] else fail_io) (\<lambda>_. finalize_post a)"
      by (auto split: option.split intro: triple_fail)
  qed
  with triple_finalize_attempts [OF assms, of 3]
  show "triple G ?P (if out = Done then finalize_attempts 3 a epochs else settle_failed a) (\<lambda>_. finalize_post a)"
    by auto
qed

lemma triple_finalize:
  assumes d: "distinct (map fst (fa_normalized a))"
  shows "triple G (\<lambda>_. True) (finalize_body a) (\<lambda>_. finalize_post a)"
  unfolding finalize_body_def
proof (rule triple_bind [OF triple_read_marker [OF stable_True]])
  fix x :: "marker option"
  let ?P = "\<lambda>st. (\<forall>m. x = Some m \<longrightarrow> tracked (fa_key a) m st \<and> mk_epochs m \<noteq> None) \<and> True"
  let ?no = "\<lambda>m. mk_request m \<noteq> fa_request a \<or> mk_signature m \<noteq> fa_normalized a \<or> mk_reserved m \<noteq> fa_reserved a"
  have fin: "triple G ?P (finalize_result a True []) (\<lambda>_. finalize_post a)"
    if "x = Some m" "\<not> ?no m" "mk_state m = Finalized" "mk_actual m = Some (fa_actual a)" for m
    by (rule triple_weaken [OF triple_finalize_result [OF d]])
       (use that in \<open>auto simp: finalize_post_def settled_at_iff_tracked\<close>)
  have go: "triple G ?P (settle_and_finalize a epochs) (\<lambda>_. finalize_post a)"
    if x: "x = Some m" "\<not> ?no m" and ep: "epochs_from_marker m (fa_normalized a) = Some epochs" for m epochs
  proof (cases "mk_epochs m")
    case None
    then show ?thesis using x unfolding service_triple_def by auto
  next
    case (Some eps)
    with x ep have "marker_for a epochs m"
      by (auto simp: marker_for_def epochs_from_marker_def split: if_splits)
    from triple_settle [OF d this] show ?thesis by (rule triple_weaken) (auto simp: x)
  qed
  show "triple G ?P (case x of None \<Rightarrow> fail_io | Some m \<Rightarrow>
          if ?no m then fail_io
          else if mk_state m = Finalized
          then (if mk_actual m \<noteq> Some (fa_actual a) then fail_io else finalize_result a True [])
          else (case epochs_from_marker m (fa_normalized a) of
                  None \<Rightarrow> fail_io | Some epochs \<Rightarrow> settle_and_finalize a epochs)) (\<lambda>_. finalize_post a)"
    using fin go by (auto split: option.split intro: triple_fail)
qed

lemma store_reserve_good:
  assumes "good_world G w" "store_reserve req rs amount now lease w = Inr (r, w')"
  shows "good_world G w' \<and> G (wd_store w) (wd_store w')
     \<and> (\<forall>x a. r = Some x \<and> reserve_args_of req rs amount now lease = Some a \<longrightarrow> reserve_post a x (wd_store w'))"
proof -
  from assms(2) obtain a where a: "reserve_args_of req rs amount now lease = Some a"
    by (auto simp: store_reserve_def split: option.splits)
  note d = reserve_args_distinct [OF a]
  show ?thesis
  proof (cases "find (\<lambda>(_, _, limit). num_val limit < amount) (ra_normalized a)")
    case None
    then have "reserve_attempts 5 a w = (r, w')" using assms(2) a by (simp add: store_reserve_def)
    from tripleD [OF triple_reserve [OF d] assms(1) _ this] a show ?thesis by auto
  next
    case (Some c)
    obtain scope i l where c: "c = (scope, i, l)" by (cases c)
    obtain v w1 where v: "states_from_table (ra_normalized a) w = (v, w1)" by (cases "states_from_table (ra_normalized a) w")
    have "w' = w1 \<and> r \<noteq> None \<and> \<not> br_allowed (the r)"
      using assms(2) a Some c v
      by (cases v) (auto simp: store_reserve_def reserve_impossible_def reserve_denial_def)
    with tripleD [OF triple_states [OF stable_True d] assms(1) _ v] show ?thesis
      by (auto simp: reserve_post_def)
  qed
qed

lemma store_finalize_good:
  assumes "good_world G w" "store_finalize req rs reserved actual now w = Inr (r, w')"
  shows "good_world G w' \<and> G (wd_store w) (wd_store w')
     \<and> (\<forall>x a. r = Some x \<and> finalize_args_of req rs reserved actual now = Some a \<longrightarrow> finalize_post a (wd_store w'))"
proof -
  from assms(2) obtain a where a: "finalize_args_of req rs reserved actual now = Some a"
    by (auto simp: store_finalize_def split: option.splits)
  then have "finalize_body a w = (r, w')" using assms(2) by (simp add: store_finalize_def)
  from tripleD [OF triple_finalize [OF finalize_args_distinct [OF a]] assms(1) _ this] a
  show ?thesis by auto
qed

lemma release_each_good:
  assumes "good_world G w" "release_each ms now n w = (n', w')"
  shows "good_world G w' \<and> G (wd_store w) (wd_store w')"
  using assms
proof (induction ms arbitrary: n w)
  case Nil
  then show ?case by (auto simp: good_world_def intro: refl)
next
  case (Cons m ms)
  let ?f = "store_finalize (mk_request m) (float_limits (mk_signature m)) (mk_reserved m) (mk_settlement_amount m) now w"
  show ?case
  proof (cases ?f)
    case (Inl e)
    with Cons show ?thesis by simp
  next
    case (Inr p)
    obtain r w1 where p: "p = (r, w1)" by (cases p)
    note one = store_finalize_good [OF Cons.prems(1) Inr [unfolded p]]
    obtain k where "release_each ms now k w1 = (n', w')"
      using Cons.prems(2) Inr p by (cases r) auto
    with Cons.IH one have two: "good_world G w' \<and> G (wd_store w1) (wd_store w')" by blast
    have "wf_store (wd_store w)" using Cons.prems(1) by (simp add: good_world_def)
    with one two trans show ?thesis by blast
  qed
qed

lemma release_expired_good:
  assumes "good_world G w" "release_expired scope ident now w = Inr (r, w')"
  shows "good_world G w' \<and> G (wd_store w) (wd_store w')"
proof -
  let ?get = "get_io (expired_markers (scope, ident) (now div second_us))"
  obtain v w1 where v: "?get w = (v, w1)" by (cases "?get w")
  note one = tripleD(1,2) [OF triple_get [OF stable_True] assms(1) TrueI v]
  show ?thesis
  proof (cases v)
    case None
    then show ?thesis using one v assms(2) by (simp add: release_expired_def split: if_splits)
  next
    case (Some ms)
    then obtain n where "release_each ms now 0 w1 = (n, w')"
      using v assms(2) by (auto simp: release_expired_def split: if_splits prod.splits)
    from release_each_good [OF one(1) this] have "good_world G w'" "G (wd_store w1) (wd_store w')" by auto
    moreover have "wf_store (wd_store w)" using assms(1) by (simp add: good_world_def)
    ultimately show ?thesis using one trans by blast
  qed
qed

end

lemma same_residuals_follows: "same_residuals st st' \<Longrightarrow> follows st st'"
  by (simp add: same_residuals_def)

lemma same_residuals_refl: "wf_store st \<Longrightarrow> same_residuals st st"
  by (simp add: same_residuals_def follows_refl)

lemma same_residuals_trans: "same_residuals a b \<Longrightarrow> same_residuals b c \<Longrightarrow> same_residuals a c"
  unfolding same_residuals_def using follows_trans by fastforce

interpretation ledger: store_guarantee same_residuals
proof (unfold_locales, goal_cases)
  case 1 then show ?case by (rule same_residuals_refl)
next
  case 2 then show ?case by (blast intro: same_residuals_trans)
next
  case 3 then show ?case by (blast intro: same_residuals_follows)
next
  case 4 then show ?case by (rule follows_wf)
next
  case 5 then show ?case by (intro txn_reserve_same [OF _ HOL.refl])
next
  case 6 then show ?case by (rule txn_settle_same)
next
  case 7 then show ?case by (intro txn_finalize_same)
qed

interpretation traffic: store_guarantee follows
proof (unfold_locales, goal_cases)
  case 1 then show ?case by (rule follows_refl)
next
  case 2 then show ?case by (blast intro: follows_trans)
next
  case 3 then show ?case by blast
next
  case 4 then show ?case by (rule follows_wf)
next
  case 5 then show ?case by (blast intro: same_residuals_follows ledger.reserve)
next
  case 6 then show ?case by (blast intro: same_residuals_follows ledger.settle)
next
  case 7 show ?case by (rule same_residuals_follows, rule ledger.finalize) (fact 7)+
qed

end
