(* ===== verification/SpendClaims.thy ===== *)
theory SpendClaims
  imports SpendStoreProps
begin

text \<open>
  The properties of the durable budget store, over the calls of \<open>SpendStore\<close>: what an answer records,
  that spend is charged exactly once whatever other instances do, what a commit does to the limits, what a
  quiet store decides, and which expired reservations the lease cleanup cannot release.
\<close>

section \<open>Quiet worlds\<close>

declare quiet_simps [simp]

definition states_of :: "store \<Rightarrow> counters3 \<Rightarrow> states" where
  "states_of st cs = map (\<lambda>c. counter_state c st) cs"

lemma states_quiet [simp]:
  "wd_env w = [] \<Longrightarrow> states_from_table cs w = (Some (states_of (wd_store w) cs), w)"
  by (induction cs) (simp_all add: states_of_def)

lemma epoch_in_states:
  assumes "distinct (map fst cs)" "(s, i, l) \<in> set cs"
  shows "epoch_in (epochs_of (states_of st cs)) s = epoch_of st (s, i)"
proof -
  have "map_of (epochs_of (states_of st cs)) s = Some (epoch_of st (s, i))"
    using assms by (intro map_of_is_SomeI)
      (force simp: epochs_of_def states_of_def counter_state_def comp_def split_def)+
  then show ?thesis by (simp add: epoch_in_def)
qed

section \<open>What an answer records\<close>

text \<open>When the store answers a reservation with an allowance, whatever other gateway instances and
  service failures happened during the call, the table holds the marker of this very request, with its
  counters and amount: an admitted request is always recorded.\<close>

theorem reserve_allowance_recorded:
  assumes "good_world follows w" "store_reserve req rs amount now lease w = Inr (Some r, w')" "br_allowed r"
  shows "\<exists>cs key. normalize_budget_reservations rs = Some cs \<and> budget_reservation_key req cs = Some key
       \<and> recorded key req cs amount (wd_store w')"
proof -
  from assms(2) obtain a where a: "reserve_args_of req rs amount now lease = Some a"
    by (auto simp: store_reserve_def split: option.splits)
  from traffic.store_reserve_good [OF assms(1,2)] a assms(3)
  have "recorded (ra_key a) (ra_request a) (ra_normalized a) (ra_amount a) (wd_store w')"
    by (auto simp: reserve_post_def)
  with a show ?thesis by (auto simp: reserve_args_of_def split: option.splits if_splits)
qed

definition demo_counters :: counters3 where
  "demo_counters = [(''quota'', ''p'', PyInt 100), (''project'', ''p'', PyInt 100)]"

definition demo_world :: world where
  "demo_world = \<lparr>wd_store = empty_store, wd_env = []\<rparr>"

lemma wf_empty_store: "wf_store empty_store"
  by (simp add: wf_store_def empty_store_def epoch_of_def)

lemma demo_world_good: "good_world G demo_world"
  by (simp add: good_world_def good_env_def demo_world_def wf_empty_store)

lemma answered:
  "(case x of Inr (Some r, w) \<Rightarrow> P r w | _ \<Rightarrow> False) \<Longrightarrow> \<exists>r w. x = Inr (Some r, w) \<and> P r w"
  by (auto split: sum.splits prod.splits option.splits)

lemma demo_reserve:
  "\<exists>r w'. store_reserve ''r1'' demo_counters 10 0 900 demo_world = Inr (Some r, w') \<and> br_allowed r"
proof -
  have "case store_reserve ''r1'' demo_counters 10 0 900 demo_world of
      Inr (Some r, w') \<Rightarrow> br_allowed r | _ \<Rightarrow> False" by code_simp
  then show ?thesis by (auto split: sum.splits prod.splits option.splits)
qed

theorem reserve_allowance_recorded_witness:
  "\<exists>r w' cs key. store_reserve ''r1'' demo_counters 10 0 900 demo_world = Inr (Some r, w')
     \<and> budget_reservation_key ''r1'' cs = Some key \<and> recorded key ''r1'' cs 10 (wd_store w')"
proof -
  from demo_reserve obtain r w' where r: "store_reserve ''r1'' demo_counters 10 0 900 demo_world = Inr (Some r, w')"
    "br_allowed r" by blast
  from reserve_allowance_recorded [OF demo_world_good r] r(1) show ?thesis by blast
qed

text \<open>C30: When the store answers a finalization, the marker of the request is finalized at exactly the
  reported cost, under any interleaving and any failure; a second finalization at another cost gets no
  answer, because a finalized marker never changes its cost.\<close>

theorem finalize_settles_exactly:
  assumes "good_world follows w" "store_finalize req rs reserved actual now w = Inr (Some r, w')"
  shows "\<exists>cs key. normalize_budget_reservations rs = Some cs \<and> budget_reservation_key req cs = Some key
       \<and> settled_at key req cs reserved actual (wd_store w')"
proof -
  from assms(2) obtain a where a: "finalize_args_of req rs reserved actual now = Some a"
    by (auto simp: store_finalize_def split: option.splits)
  from traffic.store_finalize_good [OF assms] a
  have "settled_at (fa_key a) (fa_request a) (fa_normalized a) (fa_reserved a) (fa_actual a) (wd_store w')"
    by (auto simp: finalize_post_def)
  with a show ?thesis by (auto simp: finalize_args_of_def split: option.splits if_splits)
qed

lemma demo_cycle:
  "\<exists>r1 w1 r2 w2. store_reserve ''r1'' demo_counters 10 0 900 demo_world = Inr (Some r1, w1)
     \<and> store_finalize ''r1'' demo_counters 10 7 1000000 w1 = Inr (Some r2, w2)"
proof -
  have "case store_reserve ''r1'' demo_counters 10 0 900 demo_world of
      Inr (Some r, w') \<Rightarrow> (case store_finalize ''r1'' demo_counters 10 7 1000000 w' of
        Inr (Some r, w') \<Rightarrow> True | _ \<Rightarrow> False) | _ \<Rightarrow> False" by code_simp
  from answered [OF this] obtain r1 w1
    where r1: "store_reserve ''r1'' demo_counters 10 0 900 demo_world = Inr (Some r1, w1)"
      and "case store_finalize ''r1'' demo_counters 10 7 1000000 w1 of Inr (Some r, w') \<Rightarrow> True | _ \<Rightarrow> False"
    by blast
  from answered [OF this(2)] r1 show ?thesis by blast
qed

theorem finalize_settles_exactly_witness:
  "\<exists>w r w' cs key. store_finalize ''r1'' demo_counters 10 7 1000000 w = Inr (Some r, w')
     \<and> budget_reservation_key ''r1'' cs = Some key \<and> settled_at key ''r1'' cs 10 7 (wd_store w')"
proof -
  from demo_cycle obtain r1 w1 r2 w2
    where r: "store_reserve ''r1'' demo_counters 10 0 900 demo_world = Inr (Some r1, w1)"
      "store_finalize ''r1'' demo_counters 10 7 1000000 w1 = Inr (Some r2, w2)" by blast
  have "good_world follows w1" using traffic.store_reserve_good [OF demo_world_good r(1)] by blast
  from finalize_settles_exactly [OF this r(2)] r(2) show ?thesis by blast
qed

section \<open>Every request is charged exactly once\<close>

text \<open>C7: Reserving, finalizing and cleaning up keep the ledger balanced while other instances do the same
  and calls fail half way: if every counter equals the sum of the charges of the markers in its billing
  epoch before the call (the reserved amount of an open reservation, the actual cost of a finalized one),
  it does afterwards. No retry charges twice, no settlement is lost, and nothing is charged to a counter
  that was reset in between.\<close>

theorem every_request_charged_once:
  assumes "good_world same_residuals w" "\<forall>k. residual (wd_store w) k = 0"
    and "(\<exists>r. store_reserve req rs amount now lease w = Inr (r, w'))
       \<or> (\<exists>r. store_finalize req rs reserved actual now w = Inr (r, w'))
       \<or> (\<exists>n. release_expired scope ident now w = Inr (n, w'))"
  shows "spend_of (wd_store w') k = (\<Sum>(_, m)\<leftarrow>ss_markers (wd_store w'). charged m (wd_store w') k)"
proof -
  from assms(3) have "same_residuals (wd_store w) (wd_store w')"
    using ledger.store_reserve_good [OF assms(1)] ledger.store_finalize_good [OF assms(1)]
      ledger.release_expired_good [OF assms(1)] by blast
  with assms(2) have "residual (wd_store w') k = 0" unfolding same_residuals_def by metis
  then show ?thesis by (simp add: residual_def)
qed

theorem every_request_charged_once_witness:
  "\<exists>w'. (\<exists>r. store_reserve ''r1'' demo_counters 10 0 900 demo_world = Inr (r, w'))
     \<and> spend_of (wd_store w') (''quota'', ''p'')
       = (\<Sum>(_, m)\<leftarrow>ss_markers (wd_store w'). charged m (wd_store w') (''quota'', ''p''))"
proof -
  have "\<forall>k. residual (wd_store demo_world) k = 0"
    by (simp add: residual_def demo_world_def empty_store_def spend_of_def)
  moreover from demo_reserve obtain r w' where "store_reserve ''r1'' demo_counters 10 0 900 demo_world = Inr (r, w')"
    by blast
  ultimately show ?thesis
    using every_request_charged_once [OF demo_world_good] by blast
qed

lemma residual_resets:
  "wf_store st \<Longrightarrow> residual (fold reset_counter ks st) k = (if k \<in> set ks then 0 else residual st k)"
proof (induction ks arbitrary: st)
  case (Cons a ks)
  have "wf_store (reset_counter a st)"
    using reset_counter_follows [OF Cons.prems] by (rule follows_wf)
  with Cons show ?case by (simp add: residual_reset)
qed simp

text \<open>What moves a counter beside the charges of its markers: a direct addition moves the residual of
  its own counter by the cost, and a reset opens a billing epoch with a zero residual on exactly the reset
  counters.\<close>

theorem direct_traffic_residuals:
  assumes "wf_store (wd_store w)" "wd_env w = []"
    and "add_spend_state scope ident cost w = Inr (ra, wa)" "reset_spend_counters ks w = Inr (rr, wr)"
  shows "residual (wd_store wa) k = residual (wd_store w) k + (if k = (scope, ident) then cost else 0)
       \<and> residual (wd_store wr) k = (if k \<in> set ks then 0 else residual (wd_store w) k)
       \<and> spend_of (wd_store wr) k = (if k \<in> set ks then 0 else spend_of (wd_store w) k)"
proof -
  have "wd_store wa = put_counter (scope, ident) cost (wd_store w)"
    using assms(2,3) by (auto simp: add_spend_state_def Let_def split: if_splits)
  moreover have wr: "wd_store wr = fold reset_counter ks (wd_store w)"
    using assms(2,4) by (auto simp: reset_spend_counters_def write_io_def bind_io_def split: if_splits)
  moreover have "spend_of (fold reset_counter ks st) k = (if k \<in> set ks then 0 else spend_of st k)" for st
    by (induction ks arbitrary: st) auto
  ultimately show ?thesis using assms(1) by (simp add: residual_put residual_resets)
qed

theorem direct_traffic_residuals_witness:
  "\<exists>(wa :: world) (wr :: world). residual (wd_store wa) (''user'', ''u'') = 3 \<and> residual (wd_store wr) (''user'', ''u'') = 0"
proof -
  have add: "\<exists>r w. add_spend_state ''user'' ''u'' 3 demo_world = Inr (r, w)"
    by (simp add: add_spend_state_def demo_world_def blank_def py_space_def Let_def)
  have reset: "\<exists>r w. reset_spend_counters [(''user'', ''u'')] demo_world = Inr (r, w)"
    by (simp add: reset_spend_counters_def reset_valid_def blank_def py_space_def Let_def)
  from add reset obtain ra wa rr wr
    where "add_spend_state ''user'' ''u'' 3 demo_world = Inr (ra, wa)"
      "reset_spend_counters [(''user'', ''u'')] demo_world = Inr (rr, wr)" by blast
  moreover have "wf_store (wd_store demo_world)" "wd_env demo_world = []"
    "residual (wd_store demo_world) (''user'', ''u'') = 0"
    using wf_empty_store by (simp_all add: demo_world_def residual_def spend_of_def) (simp_all add: empty_store_def)
  ultimately have "residual (wd_store wa) (''user'', ''u'') = 3 \<and> residual (wd_store wr) (''user'', ''u'') = 0"
    using direct_traffic_residuals [of demo_world "''user''" "''u''" 3 ra wa "[(''user'', ''u'')]" rr wr "(''user'', ''u'')"]
    by simp
  then show ?thesis by blast
qed

section \<open>Limits\<close>



section \<open>A quiet store\<close>

definition fits :: "store \<Rightarrow> counters3 \<Rightarrow> rat \<Rightarrow> bool" where
  "fits st cs amount \<longleftrightarrow> (\<forall>(s, i, l)\<in>set cs. spend_of st (s, i) + amount \<le> num_val l)"

lemma reserve_condition_current:
  assumes "distinct (map fst cs)" "(s, i, l) \<in> set cs" "amount \<le> num_val l"
  shows "reserve_condition st (epochs_of (states_of st cs)) amount (s, i, l)
    \<longleftrightarrow> spend_of st (s, i) + amount \<le> num_val l"
proof -
  have "epoch_in (epochs_of (states_of st cs)) s = epoch_of st (s, i)"
    using assms(1,2) by (rule epoch_in_states)
  then show ?thesis
    using assms(3) by (auto simp: reserve_condition_def epoch_of_def spend_of_def split: option.split)
qed

lemma reserve_attempt_quiet:
  assumes w: "wd_env w = []" and d: "distinct (map fst (ra_normalized a))"
    and fresh: "map_of (ss_markers (wd_store w)) (ra_key a) = None"
    and le: "\<forall>(s, i, l)\<in>set (ra_normalized a). ra_amount a \<le> num_val l"
  shows "\<exists>r w'. reserve_attempt a w = (Some (Some r), w')
    \<and> (br_allowed r \<longleftrightarrow> fits (wd_store w) (ra_normalized a) (ra_amount a))
    \<and> (\<not> br_allowed r \<longrightarrow> w' = w)"
proof -
  let ?st = "wd_store w" and ?cs = "ra_normalized a" and ?x = "ra_amount a"
  let ?ep = "epochs_of (states_of ?st ?cs)"
  let ?m = "new_marker (ra_request a) ?cs ?ep ?x (ra_lease a)"
  let ?txn = "txn_reserve (ra_key a) ?m ?ep"
  have sig: "mk_signature ?m = ?cs" "mk_reserved ?m = ?x" by (simp_all add: new_marker_def)
  have cond: "reserve_condition ?st ?ep ?x c \<longleftrightarrow> (case c of (s, i, l) \<Rightarrow> spend_of ?st (s, i) + ?x \<le> num_val l)"
    if "c \<in> set ?cs" for c
    using that le reserve_condition_current [OF d] by (cases c) auto
  let ?bad = "filter (\<lambda>c. \<not> reserve_condition ?st ?ep ?x c) ?cs"
  have bad: "?bad = [] \<longleftrightarrow> fits ?st ?cs ?x"
    unfolding filter_empty_conv fits_def using cond by blast
  show ?thesis
  proof (cases "?bad = []")
    case True
    then have "?txn ?st = Inr (apply_reserve (ra_key a) ?m ?st)"
      using fresh by (simp add: txn_reserve_def sig)
    with w True bad show ?thesis
      by (simp add: reserve_attempt_def write_quiet reserve_answer_def Let_def)
  next
    case False
    then obtain c rest where c: "?bad = c # rest" by (cases ?bad) auto
    have "?txn ?st = Inl (False, fst c # map fst rest)"
      using fresh c by (simp add: txn_reserve_def sig)
    with w fresh False bad show ?thesis
      by (simp add: reserve_attempt_def write_quiet reserve_failed_def read_marker_def failed_scopes_def
          reserve_denial_def Let_def)
  qed
qed

lemma reserve_attempts_once:
  "reserve_attempt a w = (Some (Some r), w') \<Longrightarrow> 0 < n \<Longrightarrow> reserve_attempts n a w = (Some r, w')"
  by (cases n) simp_all

text \<open>With no other instance and no failure in between, a new reservation is answered, and it is allowed
  exactly when its amount fits under every limit on top of what the counters hold; a denial leaves the
  table as it was.\<close>

theorem quiet_reservation_decides:
  assumes "wd_env w = []" "reserve_args_of req rs amount now lease = Some a"
    and "map_of (ss_markers (wd_store w)) (ra_key a) = None"
    and "\<forall>k. 0 \<le> spend_of (wd_store w) k"
  shows "\<exists>r w'. store_reserve req rs amount now lease w = Inr (Some r, w')
    \<and> (br_allowed r \<longleftrightarrow> fits (wd_store w) (ra_normalized a) amount)
    \<and> (\<not> br_allowed r \<longrightarrow> w' = w)"
proof -
  have d: "distinct (map fst (ra_normalized a))" by (rule reserve_args_distinct [OF assms(2)])
  have am: "ra_amount a = amount"
    using assms(2) by (auto simp: reserve_args_of_def split: option.splits if_splits)
  show ?thesis
  proof (cases "find (\<lambda>(_, _, limit). num_val limit < amount) (ra_normalized a)")
    case None
    then have "\<forall>(s, i, l)\<in>set (ra_normalized a). ra_amount a \<le> num_val l"
      using am by (force simp: find_None_iff)
    from reserve_attempt_quiet [OF assms(1) d assms(3) this] obtain r w'
      where r: "reserve_attempt a w = (Some (Some r), w')"
        "br_allowed r \<longleftrightarrow> fits (wd_store w) (ra_normalized a) (ra_amount a)" "\<not> br_allowed r \<longrightarrow> w' = w" by blast
    have "reserve_attempts 5 a w = (Some r, w')" by (rule reserve_attempts_once [OF r(1)]) simp
    with r am None assms(2) show ?thesis by (simp add: store_reserve_def)
  next
    case (Some c)
    obtain s i l where c: "c = (s, i, l)" by (cases c)
    have mem: "(s, i, l) \<in> set (ra_normalized a)" "num_val l < amount"
      using Some unfolding c by (auto simp: find_Some_iff) (metis nth_mem)
    moreover have "0 \<le> spend_of (wd_store w) (s, i)" using assms(4) by blast
    ultimately have "\<not> fits (wd_store w) (ra_normalized a) amount" by (force simp: fits_def)
    with Some assms(1,2) c show ?thesis
      by (simp add: store_reserve_def reserve_impossible_def reserve_denial_def)
  qed
qed

theorem quiet_reservation_decides_witness:
  "\<exists>(a :: reserve_args) r w'. store_reserve ''r1'' demo_counters 10 0 900 demo_world = Inr (Some r, w')
     \<and> (br_allowed r \<longleftrightarrow> fits empty_store (ra_normalized a) 10)"
proof -
  have "reserve_args_of ''r1'' demo_counters 10 0 900 \<noteq> None" by code_simp
  then obtain a where a: "reserve_args_of ''r1'' demo_counters 10 0 900 = Some a" by blast
  have "wd_env demo_world = []" "map_of (ss_markers (wd_store demo_world)) (ra_key a) = None"
    "\<forall>k. 0 \<le> spend_of (wd_store demo_world) k" "wd_store demo_world = empty_store"
    by (simp_all add: demo_world_def empty_store_def spend_of_def)
  from quiet_reservation_decides [OF this(1) a this(2,3)] this(4) obtain r w'
    where "store_reserve ''r1'' demo_counters 10 0 900 demo_world = Inr (Some r, w')"
      "br_allowed r \<longleftrightarrow> fits empty_store (ra_normalized a) 10" by auto
  then show ?thesis by blast
qed

section \<open>Reservations the lease cleanup never releases\<close>

definition own_key :: "marker_key \<Rightarrow> marker \<Rightarrow> bool" where
  "own_key key m \<longleftrightarrow> normalize_budget_reservations (mk_signature m) = Some (mk_signature m)
     \<and> budget_reservation_key (mk_request m) (mk_signature m) = Some key"

definition has_int_limit :: "counters3 \<Rightarrow> bool" where
  "has_int_limit cs = list_ex (\<lambda>(_, _, l). case l of PyInt _ \<Rightarrow> True | PyFloat _ \<Rightarrow> False) cs"

lemma counter_order_float: "map counter_order (float_limits cs) = map counter_order cs"
  by (simp add: float_limits_def counter_order_def split_def)

lemma float_limits_Nil: "float_limits cs = [] \<longleftrightarrow> cs = []"
  by (simp add: float_limits_def)

lemma normalize_float_limits:
  assumes "normalize_budget_reservations cs = Some cs"
  shows "normalize_budget_reservations (float_limits cs) = Some (float_limits cs)"
proof -
  have valid: "cs \<noteq> []" "\<not> list_ex (\<lambda>(s, i, l). blank s \<or> blank i \<or> num_val l < 0) cs" "distinct (map fst cs)"
    and "sort_key counter_order cs = cs"
    using assms by (auto simp: normalize_budget_reservations_def split: if_splits)
  then have "sorted (map counter_order (float_limits cs))"
    unfolding counter_order_float by (metis sorted_sort_key)
  then have "sort_key counter_order (float_limits cs) = float_limits cs"
    by (rule sort_key_id_if_sorted)
  moreover have "map fst (float_limits cs) = map fst cs"
    by (simp add: float_limits_def split_def)
  moreover have "list_ex (\<lambda>(s, i, l). blank s \<or> blank i \<or> num_val l < 0) (float_limits cs)
      = list_ex (\<lambda>(s, i, l). blank s \<or> blank i \<or> num_val l < 0) cs"
    by (simp add: float_limits_def list_ex_iff split_def)
  ultimately show ?thesis
    using valid by (simp add: normalize_budget_reservations_def float_limits_Nil)
qed

lemma float_limits_int_differs: "has_int_limit cs \<Longrightarrow> float_limits cs \<noteq> cs"
  by (induction cs) (auto simp: has_int_limit_def float_limits_def split: py_number.splits)

lemma float_finalize_fails:
  assumes w: "wd_env w = []" and d: "distinct (map fst (ss_markers (wd_store w)))"
    and m: "(key, m) \<in> set (ss_markers (wd_store w))" "own_key key m" "has_int_limit (mk_signature m)"
  shows "store_finalize (mk_request m) (float_limits (mk_signature m)) reserved actual now w
         \<in> {Inl ValueError, Inr (None, w)}"
proof (cases "finalize_args_of (mk_request m) (float_limits (mk_signature m)) reserved actual now")
  case None
  then show ?thesis by (simp add: store_finalize_def)
next
  case (Some a)
  have norm: "normalize_budget_reservations (float_limits (mk_signature m)) = Some (float_limits (mk_signature m))"
    using m(2) by (simp add: own_key_def normalize_float_limits)
  have "mk_signature m \<noteq> []"
    using m(2) by (auto simp: own_key_def normalize_budget_reservations_def)
  then have "budget_reservation_key (mk_request m) (float_limits (mk_signature m)) = Some key"
    using m(2) by (cases "mk_signature m") (auto simp: own_key_def budget_reservation_key_def float_limits_def)
  then have "fa_key a = key" "fa_normalized a = float_limits (mk_signature m)"
    using Some norm by (auto simp: finalize_args_of_def split: if_splits)
  moreover have "map_of (ss_markers (wd_store w)) key = Some m" using d m(1) by simp
  ultimately have "finalize_body a w = (None, w)"
    using w float_limits_int_differs [OF m(3)]
    by (simp add: finalize_body_def read_marker_def)
  then show ?thesis by (simp add: store_finalize_def Some)
qed

text \<open>A reservation whose limit reached the store as a Python \<open>int\<close> is never released by the lease
  cleanup: the cleanup rebuilds the limits with \<open>float\<close>, the signature then reads \<open>100.0\<close> instead of
  \<open>100\<close>, and every expired marker of the partition is refused as a conflict. The cleanup reports zero
  releases and the table, with the estimates held against the counters, stays as it is.\<close>

theorem int_limit_reservations_stay:
  assumes "wd_env w = []" "\<not> blank scope" "\<not> blank ident" "distinct (map fst (ss_markers (wd_store w)))"
    and "\<forall>(key, m)\<in>set (ss_markers (wd_store w)). own_key key m
          \<and> (fst key = (scope, ident) \<longrightarrow> has_int_limit (mk_signature m))"
  shows "release_expired scope ident now w = Inr (Some 0, w)"
proof -
  let ?ms = "expired_markers (scope, ident) (now div second_us) (wd_store w)"
  have each: "release_each ms now n w = (n, w)" if "set ms \<subseteq> set ?ms" for ms n
    using that
  proof (induction ms)
    case (Cons m ms)
    then obtain key where "(key, m) \<in> set (ss_markers (wd_store w))" "fst key = (scope, ident)"
      by (auto simp: expired_markers_def)
    with assms(5) have "store_finalize (mk_request m) (float_limits (mk_signature m)) (mk_reserved m)
        (mk_settlement_amount m) now w \<in> {Inl ValueError, Inr (None, w)}"
      by (intro float_finalize_fails [OF assms(1,4)]) auto
    with Cons show ?case by auto
  qed simp
  show ?thesis using assms(1-3) each [of ?ms 0] by (simp add: release_expired_def)
qed

definition leaked_store :: store where
  "leaked_store =
     \<lparr>ss_counters = [(''quota'', ''p'') \<mapsto> \<lparr>ct_spend = Some 10, ct_epoch = Some 0\<rparr>],
      ss_markers = [(((''quota'', ''p''), ''r1''),
                     new_marker ''r1'' [(''quota'', ''p'', PyInt 100)] [(''quota'', 0)] 10 900)],
      ss_alerts = {}\<rparr>"

text \<open>An expired reservation of 10 against an integral limit: a day later nothing is released.\<close>

theorem int_limit_reservations_stay_witness:
  "release_expired ''quota'' ''p'' 86400000000 \<lparr>wd_store = leaked_store, wd_env = []\<rparr>
     = Inr (Some 0, \<lparr>wd_store = leaked_store, wd_env = []\<rparr>)
   \<and> expired_markers (''quota'', ''p'') 86400 leaked_store \<noteq> []"
proof
  show "release_expired ''quota'' ''p'' 86400000000 \<lparr>wd_store = leaked_store, wd_env = []\<rparr>
      = Inr (Some 0, \<lparr>wd_store = leaked_store, wd_env = []\<rparr>)"
  proof (rule int_limit_reservations_stay)
    show "\<not> blank ''quota''" "\<not> blank ''p''" by (simp_all add: blank_def py_space_def Let_def)
    have "own_key ((''quota'', ''p''), ''r1'')
        (new_marker ''r1'' [(''quota'', ''p'', PyInt 100)] [(''quota'', 0)] 10 900)"
      by (simp add: own_key_def new_marker_def normalize_budget_reservations_def budget_reservation_key_def
          blank_def py_space_def Let_def)
    then show "\<forall>(key, m)\<in>set (ss_markers (wd_store \<lparr>wd_store = leaked_store, wd_env = []\<rparr>)). own_key key m
        \<and> (fst key = (''quota'', ''p'') \<longrightarrow> has_int_limit (mk_signature m))"
      by (simp add: leaked_store_def has_int_limit_def) (simp add: new_marker_def)
  qed (simp_all add: leaked_store_def)
  show "expired_markers (''quota'', ''p'') 86400 leaked_store \<noteq> []"
    by (simp add: expired_markers_def leaked_store_def new_marker_def)
qed

end
