(* ===== verification/Authorization.thy ===== *)
theory Authorization
  imports Prelude
begin

text \<open>
  The authorization floor: the tenant roles and their actions (\<open>auth/authorization.py\<close>), the middleware that
  applies them to the data plane (\<open>middleware/tenant_authorization.py\<close>), and the scopes and roles of the
  control plane (\<open>middleware/admin_rbac.py\<close> and the key-issuance guard of \<open>admin/key_routes.py\<close>).

  The project resolver is a parameter. A frozen set is a set; the iteration over the roles of a principal
  ends in the same answer in any order.
\<close>

section \<open>Principals and actions\<close>

datatype membership_status = Invited | Active | Suspended | Deprovisioned

datatype tenant_role = PlatformAdmin | TenantAdmin | TenantMember | TenantAuditor | ServiceRole

instance tenant_role :: finite
proof
  have "(UNIV :: tenant_role set) = {PlatformAdmin, TenantAdmin, TenantMember, TenantAuditor, ServiceRole}"
    using tenant_role.exhaust by blast
  then show "finite (UNIV :: tenant_role set)" by (metis finite.emptyI finite.insertI)
qed

definition role_value :: "tenant_role \<Rightarrow> string" where
  "role_value r = (case r of PlatformAdmin \<Rightarrow> ''platform_admin'' | TenantAdmin \<Rightarrow> ''tenant_admin''
     | TenantMember \<Rightarrow> ''tenant_member'' | TenantAuditor \<Rightarrow> ''tenant_auditor'' | ServiceRole \<Rightarrow> ''service'')"

datatype auth_method = OidcJwt | ApiKeyMethod | Sso | Anonymous

record principal =
  pr_id :: string
  pr_tenant :: string
  pr_subject :: string
  pr_issuer :: string
  pr_roles :: "tenant_role set"
  pr_auth_method :: auth_method
  pr_status :: membership_status
  pr_projects :: "string set"
  pr_scopes :: "string set"
  pr_version :: int

definition principal_valid :: "principal \<Rightarrow> bool" where
  "principal_valid p \<longleftrightarrow> \<not> blank (pr_id p) \<and> \<not> blank (pr_tenant p) \<and> \<not> blank (pr_subject p) \<and> \<not> blank (pr_issuer p)
     \<and> pr_auth_method p \<noteq> Anonymous \<and> pr_roles p \<noteq> {}
     \<and> \<not> (card (pr_roles p) > 1 \<and> pr_roles p \<inter> {PlatformAdmin, ServiceRole} \<noteq> {})
     \<and> 1 \<le> pr_version p \<and> (\<forall>x\<in>pr_projects p. \<not> blank x) \<and> (\<forall>x\<in>pr_scopes p. \<not> blank x)"

datatype action =
    MODEL_LIST | INFERENCE_INVOKE | QUERY_SELECT | QUERY_MUTATE
  | TENANT_CONFIG_READ | TENANT_CONFIG_WRITE | MEMBERSHIP_READ | MEMBERSHIP_WRITE | API_KEY_READ | API_KEY_MANAGE
  | POLICY_READ | POLICY_WRITE | QUOTA_READ | QUOTA_WRITE | WEBHOOK_READ | WEBHOOK_WRITE
  | USAGE_READ | USAGE_EXPORT | AUDIT_READ | AUDIT_EXPORT
  | PLATFORM_READ | PLATFORM_WRITE | PLATFORM_OPERATE

definition action_values :: "(action \<times> string) list" where
  "action_values =
     [(MODEL_LIST, ''model.list''), (INFERENCE_INVOKE, ''inference.invoke''), (QUERY_SELECT, ''query.select''),
      (QUERY_MUTATE, ''query.mutate''), (TENANT_CONFIG_READ, ''tenant.config.read''),
      (TENANT_CONFIG_WRITE, ''tenant.config.write''), (MEMBERSHIP_READ, ''membership.read''),
      (MEMBERSHIP_WRITE, ''membership.write''), (API_KEY_READ, ''apikey.read''), (API_KEY_MANAGE, ''apikey.manage''),
      (POLICY_READ, ''policy.read''), (POLICY_WRITE, ''policy.write''), (QUOTA_READ, ''quota.read''),
      (QUOTA_WRITE, ''quota.write''), (WEBHOOK_READ, ''webhook.read''), (WEBHOOK_WRITE, ''webhook.write''),
      (USAGE_READ, ''usage.read''), (USAGE_EXPORT, ''usage.export''), (AUDIT_READ, ''audit.read''),
      (AUDIT_EXPORT, ''audit.export''), (PLATFORM_READ, ''platform.read''), (PLATFORM_WRITE, ''platform.write''),
      (PLATFORM_OPERATE, ''platform.operate'')]"

definition action_value :: "action \<Rightarrow> string" where
  "action_value a = the (map_of action_values a)"

definition PLATFORM_ACTIONS :: "action set" where
  "PLATFORM_ACTIONS = {PLATFORM_READ, PLATFORM_WRITE, PLATFORM_OPERATE}"

definition TENANT_MEMBER_ACTIONS :: "action set" where
  "TENANT_MEMBER_ACTIONS = {MODEL_LIST, INFERENCE_INVOKE, QUERY_SELECT, TENANT_CONFIG_READ, MEMBERSHIP_READ,
     API_KEY_READ, POLICY_READ, QUOTA_READ, WEBHOOK_READ, USAGE_READ, USAGE_EXPORT, AUDIT_READ, AUDIT_EXPORT}"

definition TENANT_AUDITOR_ACTIONS :: "action set" where
  "TENANT_AUDITOR_ACTIONS = TENANT_MEMBER_ACTIONS"

definition TENANT_ADMIN_ACTIONS :: "action set" where
  "TENANT_ADMIN_ACTIONS = TENANT_AUDITOR_ACTIONS \<union> {TENANT_CONFIG_WRITE, MEMBERSHIP_WRITE, API_KEY_MANAGE,
     POLICY_WRITE, QUOTA_WRITE, WEBHOOK_WRITE}"

definition TENANT_WIDE_ADMIN_ACTIONS :: "action set" where
  "TENANT_WIDE_ADMIN_ACTIONS = TENANT_ADMIN_ACTIONS - {MODEL_LIST, INFERENCE_INVOKE, QUERY_SELECT}"

definition SERVICE_ACTIONS :: "action set" where
  "SERVICE_ACTIONS = {MODEL_LIST, INFERENCE_INVOKE, QUERY_SELECT}"

definition ROLE_ACTIONS :: "tenant_role \<Rightarrow> action set" where
  "ROLE_ACTIONS r = (case r of PlatformAdmin \<Rightarrow> PLATFORM_ACTIONS | TenantAdmin \<Rightarrow> TENANT_ADMIN_ACTIONS
     | TenantMember \<Rightarrow> TENANT_MEMBER_ACTIONS | TenantAuditor \<Rightarrow> TENANT_AUDITOR_ACTIONS | ServiceRole \<Rightarrow> {})"

section \<open>Decisions\<close>

record resource_ref =
  rr_type :: string
  rr_id :: string
  rr_tenant :: "string option"
  rr_project :: "string option"

definition resource_valid :: "resource_ref \<Rightarrow> bool" where
  "resource_valid r \<longleftrightarrow> \<not> blank (rr_type r) \<and> \<not> blank (rr_id r)
     \<and> (case rr_tenant r of None \<Rightarrow> True | Some t \<Rightarrow> \<not> blank t) \<and> (case rr_project r of None \<Rightarrow> True | Some p \<Rightarrow> \<not> blank p)"

record authz_decision =
  ad_allowed :: bool
  ad_action :: string
  ad_reason :: string
  ad_conceal :: bool
  ad_break_glass :: bool

definition decided :: "bool \<Rightarrow> string \<Rightarrow> string \<Rightarrow> authz_decision" where
  "decided ok name reason = \<lparr>ad_allowed = ok, ad_action = name, ad_reason = reason, ad_conceal = False, ad_break_glass = False\<rparr>"

definition status_code :: "authz_decision \<Rightarrow> int" where
  "status_code d = (if ad_allowed d then 200 else if ad_conceal d then 404 else 403)"

text \<open>An action as an enum member or as a text.\<close>

datatype action_arg = Act action | ActName string

definition normalize_action :: "action_arg \<Rightarrow> action option" where
  "normalize_action a = (case a of Act x \<Rightarrow> Some x | ActName s \<Rightarrow> map_of (map prod.swap action_values) s)"

definition action_name :: "action_arg \<Rightarrow> string" where
  "action_name a = (case a of Act x \<Rightarrow> action_value x | ActName s \<Rightarrow> s)"

definition service_scope_allows :: "principal \<Rightarrow> action \<Rightarrow> bool" where
  "service_scope_allows p a \<longleftrightarrow> a \<in> SERVICE_ACTIONS
     \<and> (action_value a \<in> pr_scopes p \<or> ''*'' \<in> pr_scopes p
        \<or> (case rpartition CHR ''.'' (action_value a) of None \<Rightarrow> action_value a | Some (h, _) \<Rightarrow> h) @ ''.*'' \<in> pr_scopes p)"

definition authorize :: "principal \<Rightarrow> action_arg \<Rightarrow> resource_ref \<Rightarrow> string option \<Rightarrow> authz_decision" where
  "authorize p a r reason =
     (case normalize_action a of
        None \<Rightarrow> decided False (action_name a) ''unknown_action''
      | Some x \<Rightarrow>
          if pr_status p \<noteq> Active then decided False (action_value x) ''membership_inactive''
          else if x \<in> PLATFORM_ACTIONS then
            (if rr_tenant r \<noteq> None then decided False (action_value x) ''platform_resource_must_not_have_tenant''
             else if PlatformAdmin \<in> pr_roles p then decided True (action_value x) ''role_allowed''
             else decided False (action_value x) ''role_not_allowed'')
          else if rr_tenant r = None then decided False (action_value x) ''tenant_resource_missing_owner''
          else if rr_tenant r \<noteq> Some (pr_tenant p) then
            (if PlatformAdmin \<in> pr_roles p \<and> (case reason of None \<Rightarrow> False | Some b \<Rightarrow> \<not> blank b)
             then (if x = QUERY_MUTATE then decided False (action_value x) ''query_mutation_not_supported''
                   else (decided True (action_value x) ''break_glass_allowed'')\<lparr>ad_break_glass := True\<rparr>)
             else (decided False (action_value x) ''resource_not_found'')\<lparr>ad_conceal := True\<rparr>)
          else if x = QUERY_MUTATE then decided False (action_value x) ''query_mutation_not_supported''
          else if (case rr_project r of None \<Rightarrow> False | Some j \<Rightarrow> j \<notin> pr_projects p)
                  \<and> \<not> (TenantAdmin \<in> pr_roles p \<and> x \<in> TENANT_WIDE_ADMIN_ACTIONS)
          then (decided False (action_value x) ''resource_not_found'')\<lparr>ad_conceal := True\<rparr>
          else if \<exists>role\<in>pr_roles p. x \<in> ROLE_ACTIONS role then decided True (action_value x) ''role_allowed''
          else if ServiceRole \<in> pr_roles p \<and> service_scope_allows p x
          then decided True (action_value x) ''scope_allowed''
          else decided False (action_value x) ''role_not_allowed'')"

text \<open>\<open>Inl\<close> is \<open>AuthorizationDenied\<close>.\<close>

definition require_authorized ::
  "principal \<Rightarrow> action_arg \<Rightarrow> resource_ref \<Rightarrow> string option \<Rightarrow> authz_decision + authz_decision" where
  "require_authorized p a r reason = (let d = authorize p a r reason in if ad_allowed d then Inr d else Inl d)"

section \<open>The data plane\<close>

definition DATA_PLANE_ACTIONS :: "((string \<times> string) \<times> action) list" where
  "DATA_PLANE_ACTIONS =
     [((''GET'', ''/api/models''), MODEL_LIST), ((''GET'', ''/v1/models''), MODEL_LIST),
      ((''POST'', ''/api/chat''), INFERENCE_INVOKE), ((''POST'', ''/api/chat/stream''), INFERENCE_INVOKE),
      ((''POST'', ''/v1/chat/completions''), INFERENCE_INVOKE), ((''POST'', ''/v1/responses''), INFERENCE_INVOKE),
      ((''POST'', ''/v1/embeddings''), INFERENCE_INVOKE), ((''POST'', ''/v1/query''), QUERY_SELECT)]"

record request_context =
  cx_user_id :: string
  cx_project_id :: string
  cx_roles :: "string list"
  cx_scopes :: "string list"
  cx_auth_method :: auth_method
  cx_tenant_id :: "string option"
  cx_principal_id :: "string option"
  cx_version :: "int option"
  cx_project :: "(string \<times> string) option"

text \<open>
  The tenant and id of a project, no such project, or an unavailable store. \<open>Raised\<close> is the \<open>ValueError\<close> of a
  \<open>ResourceRef\<close> with a blank part, which nothing handles.
\<close>

datatype resolved = FoundProject string string | NoProject | StoreDown

datatype plane_answer = Proceed request_context "authz_decision option" | Answer int string | Raised

definition data_plane_action :: "string \<Rightarrow> string \<Rightarrow> action option" where
  "data_plane_action verb path =
     (let m = upper verb in map_of DATA_PLANE_ACTIONS (if m = ''HEAD'' then ''GET'' else m, path))"

definition authorize_project ::
  "principal \<Rightarrow> action \<Rightarrow> request_context \<Rightarrow> string \<Rightarrow> (string \<times> string) option \<Rightarrow> plane_answer" where
  "authorize_project p a ctx project_id project =
     (let r = \<lparr>rr_type = ''project'', rr_id = project_id,
                rr_tenant = Some (case project of Some (t, _) \<Rightarrow> t | None \<Rightarrow> pr_tenant p), rr_project = Some project_id\<rparr>;
          d = authorize p (Act a) r None
      in if \<not> resource_valid r then Raised
         else if ad_allowed d
         then Proceed (if project \<noteq> None then ctx\<lparr>cx_project := project\<rparr> else ctx) (Some d)
         else Answer (status_code d) (ad_reason d))"

definition data_plane_dispatch ::
  "bool \<Rightarrow> (string \<Rightarrow> string \<Rightarrow> resolved) option \<Rightarrow> string \<Rightarrow> string \<Rightarrow> principal option \<Rightarrow> request_context \<Rightarrow> plane_answer" where
  "data_plane_dispatch require_project resolver verb path who ctx =
     (case who of
        None \<Rightarrow> Proceed ctx None
      | Some p \<Rightarrow>
          (case data_plane_action verb path of
             None \<Rightarrow> if starts_with ''/api/'' path \<or> starts_with ''/v1/'' path
                     then Answer 403 ''canonical_action_required'' else Proceed ctx None
           | Some a \<Rightarrow>
               if cx_project_id ctx = [] then Answer 400 ''project_context_required''
               else if require_project then
                 (case resolver of
                    None \<Rightarrow> Answer 503 ''project_resolver_unavailable''
                  | Some resolve \<Rightarrow>
                      (case resolve (pr_tenant p) (cx_project_id ctx) of
                         StoreDown \<Rightarrow> Answer 503 ''project_resolver_unavailable''
                       | NoProject \<Rightarrow> Answer 404 ''resource_not_found''
                       | FoundProject t i \<Rightarrow> authorize_project p a ctx (cx_project_id ctx) (Some (t, i))))
               else authorize_project p a ctx (cx_project_id ctx) None))"

section \<open>Admin scopes\<close>

definition TENANT_READ_ROLES :: "string set" where "TENANT_READ_ROLES = {''tenant_member'', ''tenant_auditor''}"

definition CANONICAL_CONTROL_PLANE_ROLES :: "string set" where
  "CANONICAL_CONTROL_PLANE_ROLES = {''tenant_admin'', ''platform_admin''} \<union> TENANT_READ_ROLES"

definition PLATFORM_RESOURCES :: "string set" where
  "PLATFORM_RESOURCES = {''architecture'', ''catalog'', ''catalog-drift'', ''health'', ''models'', ''pricing-drift'',
     ''production-checklist'', ''regions''}"

datatype access = Read | Write

text \<open>Write access includes read access.\<close>

instantiation access :: linorder
begin

definition less_eq_access :: "access \<Rightarrow> access \<Rightarrow> bool" where
  "less_eq_access a b \<longleftrightarrow> a = Read \<or> b = Write"

definition less_access :: "access \<Rightarrow> access \<Rightarrow> bool" where
  "less_access a b \<longleftrightarrow> a = Read \<and> b = Write"

instance
proof
  fix a b c :: access
  show "(a < b) = (a \<le> b \<and> \<not> b \<le> a)" "a \<le> a" "a \<le> b \<or> b \<le> a"
    by (cases a; cases b; simp add: less_eq_access_def less_access_def)+
  show "a \<le> b \<Longrightarrow> b \<le> c \<Longrightarrow> a \<le> c" "a \<le> b \<Longrightarrow> b \<le> a \<Longrightarrow> a = b"
    by (cases a; cases b; cases c; simp add: less_eq_access_def)+
qed

end

definition classify_access :: "string \<Rightarrow> string \<Rightarrow> access" where
  "classify_access verb path =
     (if path \<in> {''/admin/quotas/simulate'', ''/admin/regions/health/check'', ''/admin/regions/route''} then Write
      else if starts_with ''/admin/webhooks/'' path \<and> ends_with ''/test'' path then Write
      else if path \<in> {''/admin/pii/preview''} then Read
      else if upper verb \<in> {''GET'', ''HEAD'', ''OPTIONS''} then Read else Write)"

definition parse_admin_scope :: "string \<Rightarrow> string \<times> access" where
  "parse_admin_scope scope =
     (let body = (if starts_with ''admin:'' scope then drop (length ''admin:'') scope else scope) in
      case rpartition CHR '':'' body of
        None \<Rightarrow> (body, Write)
      | Some (resource, suffix) \<Rightarrow>
          if suffix = ''read'' then (resource, Read) else if suffix = ''write'' then (resource, Write) else (body, Write))"

definition scope_implies :: "string \<Rightarrow> string \<Rightarrow> bool" where
  "scope_implies held requested =
     (if held = requested then True
      else if \<not> starts_with ''admin:'' held \<or> \<not> starts_with ''admin:'' requested then False
      else (case parse_admin_scope held of (held_resource, held_access) \<Rightarrow>
            case parse_admin_scope requested of (req_resource, req_access) \<Rightarrow>
              if held_resource \<noteq> ''*'' \<and> held_resource \<noteq> req_resource then False
              else held_access = Write \<or> held_access = req_access))"

definition extract_resource :: "string \<Rightarrow> string" where
  "extract_resource path =
     (let slash = (\<lambda>c. c = CHR ''/''); parts = split_on CHR ''/'' (rev (dropWhile slash (rev (dropWhile slash path))))
      in if 2 \<le> length parts then parts ! 1 else [])"

definition is_canonical_context :: "request_context \<Rightarrow> bool" where
  "is_canonical_context ctx \<longleftrightarrow> cx_principal_id ctx \<noteq> None \<or> set (cx_roles ctx) \<inter> CANONICAL_CONTROL_PLANE_ROLES \<noteq> {}"

definition scope_reaches :: "string \<Rightarrow> access \<Rightarrow> string \<Rightarrow> bool" where
  "scope_reaches resource acc scope =
     (starts_with ''admin:'' scope
      \<and> (case parse_admin_scope scope of (r, a) \<Rightarrow> (r = ''*'' \<or> r = resource) \<and> (a = Write \<or> a = acc)))"

end
