(* ===== verification/AuditTrail.thy ===== *)
theory AuditTrail
  imports Prelude Service
begin

text \<open>
  The audit trail of \<open>src/gateway/security/audit_trail.py\<close> and the tables behind it in
  \<open>src/gateway/persistence.py\<close>: one hash chain per tenant, appended by compare-and-swap of the chain head,
  hydrated, queried, exported and verified. The pre-tenant chain goes by the tenant id \<open>__legacy__\<close> and has
  a table and rules of its own.

  A timestamp is its ISO text and \<open>data\<close> the text of its JSON object. \<open>digest\<close> is the SHA-256 digest of the
  JSON text of a payload; \<open>ev_time\<close> and \<open>ev_json\<close> read a stored text and render it again
  (\<open>fromisoformat\<close> then \<open>isoformat\<close>, \<open>loads\<close> then \<open>dumps\<close>), \<open>None\<close> being their \<open>ValueError\<close>.
  The lock of a tenant serializes the operations of one instance; the other instances act between its calls.
\<close>

section \<open>Records\<close>

datatype audit_event_type =
    LLM_REQUEST | LLM_RESPONSE | PII_REDACTION | INJECTION_DETECTED | INJECTION_BLOCKED
  | AUTH_SUCCESS | AUTH_FAILURE | POLICY_DENY | KEY_ISSUED | KEY_LISTED | KEY_REVOKED | KEY_ROTATED
  | BREAK_GLASS_ACCESS | QUERY_REQUEST | QUERY_RESULT | QUERY_REJECTED
  | DATASOURCE_MUTATION_REQUEST | DATASOURCE_MUTATION_RESULT
  | TENANT_CONFIG_MUTATION_REQUEST | TENANT_CONFIG_MUTATION_RESULT

definition audit_event_values :: "(audit_event_type \<times> string) list" where
  "audit_event_values =
     [(LLM_REQUEST, ''llm_request''), (LLM_RESPONSE, ''llm_response''), (PII_REDACTION, ''pii_redaction''),
      (INJECTION_DETECTED, ''injection_detected''), (INJECTION_BLOCKED, ''injection_blocked''),
      (AUTH_SUCCESS, ''auth_success''), (AUTH_FAILURE, ''auth_failure''), (POLICY_DENY, ''policy_deny''),
      (KEY_ISSUED, ''key_issued''), (KEY_LISTED, ''key_listed''), (KEY_REVOKED, ''key_revoked''),
      (KEY_ROTATED, ''key_rotated''), (BREAK_GLASS_ACCESS, ''break_glass_access''),
      (QUERY_REQUEST, ''query_request''), (QUERY_RESULT, ''query_result''), (QUERY_REJECTED, ''query_rejected''),
      (DATASOURCE_MUTATION_REQUEST, ''datasource_mutation_request''),
      (DATASOURCE_MUTATION_RESULT, ''datasource_mutation_result''),
      (TENANT_CONFIG_MUTATION_REQUEST, ''tenant_config_mutation_request''),
      (TENANT_CONFIG_MUTATION_RESULT, ''tenant_config_mutation_result'')]"

definition event_value :: "audit_event_type \<Rightarrow> string" where
  "event_value e = the (map_of audit_event_values e)"

definition event_of_value :: "string \<Rightarrow> audit_event_type option" where
  "event_of_value v = map_of (map prod.swap audit_event_values) v"

definition GENESIS_HASH :: string where "GENESIS_HASH = ''genesis''"
definition LEGACY_TENANT_ID :: string where "LEGACY_TENANT_ID = ''__legacy__''"
definition MAX_APPEND_ATTEMPTS :: nat where "MAX_APPEND_ATTEMPTS = 5"

record audit_record =
  ar_record_id :: string
  ar_event_type :: audit_event_type
  ar_timestamp :: string
  ar_user_id :: string
  ar_project_id :: string
  ar_request_id :: string
  ar_data :: string
  ar_prev_hash :: string
  ar_record_hash :: string
  ar_tenant_id :: string

record audit_payload =
  pl_record_id :: string
  pl_event_type :: string
  pl_timestamp :: string
  pl_user_id :: string
  pl_project_id :: string
  pl_request_id :: string
  pl_data :: string
  pl_prev_hash :: string
  pl_tenant_id :: "string option"

definition payload_of :: "audit_record \<Rightarrow> audit_payload" where
  "payload_of r =
     \<lparr>pl_record_id = ar_record_id r, pl_event_type = event_value (ar_event_type r), pl_timestamp = ar_timestamp r,
      pl_user_id = ar_user_id r, pl_project_id = ar_project_id r, pl_request_id = ar_request_id r,
      pl_data = ar_data r, pl_prev_hash = ar_prev_hash r,
      pl_tenant_id = (if ar_tenant_id r \<noteq> LEGACY_TENANT_ID then Some (ar_tenant_id r) else None)\<rparr>"

record audit_env =
  ev_digest :: "audit_payload \<Rightarrow> string"
  ev_time :: "string \<Rightarrow> string option"
  ev_json :: "string \<Rightarrow> string option"

definition compute_hash :: "audit_env \<Rightarrow> audit_record \<Rightarrow> string" where
  "compute_hash env r = ev_digest env (payload_of r)"

text \<open>A stored row; \<open>None\<close> is an absent key.\<close>

record audit_row =
  rw_record_id :: string
  rw_event_type :: string
  rw_timestamp :: string
  rw_tenant_id :: "string option"
  rw_user_id :: "string option"
  rw_project_id :: "string option"
  rw_request_id :: "string option"
  rw_data :: "string option"
  rw_prev_hash :: "string option"
  rw_record_hash :: "string option"

definition serialize_record :: "audit_record \<Rightarrow> audit_row" where
  "serialize_record r =
     \<lparr>rw_record_id = ar_record_id r, rw_event_type = event_value (ar_event_type r), rw_timestamp = ar_timestamp r,
      rw_tenant_id = Some (ar_tenant_id r), rw_user_id = Some (ar_user_id r), rw_project_id = Some (ar_project_id r),
      rw_request_id = Some (ar_request_id r), rw_data = Some (ar_data r), rw_prev_hash = Some (ar_prev_hash r),
      rw_record_hash = Some (ar_record_hash r)\<rparr>"

definition or_empty :: "string option \<Rightarrow> string" where
  "or_empty s = (case s of None \<Rightarrow> [] | Some t \<Rightarrow> t)"

text \<open>The tenant a row is read for, or \<open>None\<close> when it belongs to another one.\<close>

definition row_tenant :: "string \<Rightarrow> audit_row \<Rightarrow> string option" where
  "row_tenant tenant row =
     (if tenant = LEGACY_TENANT_ID
      then Some (if truthy (rw_tenant_id row) then or_empty (rw_tenant_id row) else LEGACY_TENANT_ID)
      else if rw_tenant_id row = Some tenant then Some tenant else None)"

text \<open>\<open>None\<close> is any exception: another tenant's row, an unknown event type, an unreadable text, a blank tenant.\<close>

definition deserialize_record :: "audit_env \<Rightarrow> string \<Rightarrow> audit_row \<Rightarrow> audit_record option" where
  "deserialize_record env tenant row =
     (case row_tenant tenant row of
        None \<Rightarrow> None
      | Some t \<Rightarrow>
          (case (case rw_data row of None \<Rightarrow> Some ''{}'' | Some d \<Rightarrow> ev_json env d) of
             None \<Rightarrow> None
           | Some d \<Rightarrow>
               (case event_of_value (rw_event_type row) of
                  None \<Rightarrow> None
                | Some e \<Rightarrow>
                    (case ev_time env (rw_timestamp row) of
                       None \<Rightarrow> None
                     | Some ts \<Rightarrow>
                         if blank t then None
                         else Some \<lparr>ar_record_id = rw_record_id row, ar_event_type = e, ar_timestamp = ts,
                           ar_user_id = or_empty (rw_user_id row), ar_project_id = or_empty (rw_project_id row),
                           ar_request_id = or_empty (rw_request_id row), ar_data = d,
                           ar_prev_hash = or_empty (rw_prev_hash row),
                           ar_record_hash = or_empty (rw_record_hash row), ar_tenant_id = t\<rparr>))))"

section \<open>The tables\<close>

text \<open>
  Rows by tenant and sort key, in the order they were put; the chain heads; the rows of the pre-tenant
  table by project and sort key.
\<close>

record audit_store =
  au_rows :: "((string \<times> string) \<times> audit_row) list"
  au_heads :: "string \<rightharpoonup> string"
  au_legacy :: "((string \<times> string) \<times> audit_row) list"

definition empty_audit :: audit_store where
  "empty_audit = \<lparr>au_rows = [], au_heads = Map.empty, au_legacy = []\<rparr>"

definition record_sk :: "string \<Rightarrow> string \<Rightarrow> string" where
  "record_sk timestamp record_id = ''AUDIT#RECORD#'' @ timestamp @ ''#'' @ record_id"

text \<open>What \<open>_tenant_audit_record_item\<close> and the head of \<open>append_tenant_audit_record\<close> require.\<close>

definition appendable :: "string \<Rightarrow> audit_row \<Rightarrow> string \<Rightarrow> bool" where
  "appendable tenant row expected \<longleftrightarrow> \<not> blank tenant \<and> expected \<noteq> [] \<and> rw_tenant_id row = Some tenant
     \<and> rw_record_id row \<noteq> [] \<and> rw_timestamp row \<noteq> [] \<and> truthy (rw_prev_hash row) \<and> truthy (rw_record_hash row)
     \<and> rw_prev_hash row = Some expected"

definition head_condition :: "string \<Rightarrow> string \<Rightarrow> audit_store \<Rightarrow> bool" where
  "head_condition tenant expected st =
     (case au_heads st tenant of Some h \<Rightarrow> h = expected | None \<Rightarrow> expected = GENESIS_HASH)"

definition apply_append :: "string \<Rightarrow> audit_row \<Rightarrow> audit_store \<Rightarrow> audit_store" where
  "apply_append tenant row st =
     st\<lparr>au_rows := au_rows st @ [((tenant, record_sk (rw_timestamp row) (rw_record_id row)), row)],
        au_heads := (au_heads st)(tenant \<mapsto> or_empty (rw_record_hash row))\<rparr>"

text \<open>The failed transaction reports whether the condition on the head is among the causes.\<close>

definition txn_append :: "string \<Rightarrow> audit_row \<Rightarrow> string \<Rightarrow> audit_store \<Rightarrow> bool + audit_store" where
  "txn_append tenant row expected st =
     (if map_of (au_rows st) (tenant, record_sk (rw_timestamp row) (rw_record_id row)) = None
         \<and> head_condition tenant expected st
      then Inr (apply_append tenant row st)
      else Inl (\<not> head_condition tenant expected st))"

definition append_tenant_audit_record :: "string \<Rightarrow> audit_row \<Rightarrow> string \<Rightarrow> (audit_store, bool) service" where
  "append_tenant_audit_record tenant row expected =
     (if \<not> appendable tenant row expected then fail_io
      else bind_io (write_io (txn_append tenant row expected)) (\<lambda>out.
        (case out of Done \<Rightarrow> return_io True | Rejected True \<Rightarrow> return_io False | _ \<Rightarrow> fail_io)))"

definition get_latest_tenant_audit_hash :: "string \<Rightarrow> (audit_store, string option) service" where
  "get_latest_tenant_audit_hash tenant =
     (if blank tenant then fail_io
      else bind_io (get_io (\<lambda>st. au_heads st tenant)) (\<lambda>h. if h = Some [] then fail_io else return_io h))"

text \<open>A table query answers in the order of the sort key; the code sorts again.\<close>

definition tenant_rows :: "string \<Rightarrow> audit_store \<Rightarrow> audit_row list" where
  "tenant_rows tenant st = map snd (sort_key (\<lambda>(k, _). snd k) (filter (\<lambda>(k, _). fst k = tenant) (au_rows st)))"

definition load_tenant_audit_records :: "string \<Rightarrow> string option \<Rightarrow> (audit_store, audit_row list) service" where
  "load_tenant_audit_records tenant project =
     (if blank tenant then fail_io
      else get_io (\<lambda>st. filter (\<lambda>row. project = None \<or> rw_project_id row = project) (tenant_rows tenant st)))"

definition legacy_rows :: "string option \<Rightarrow> audit_store \<Rightarrow> audit_row list" where
  "legacy_rows project st =
     map snd (sort_key (\<lambda>(k, _). snd k) (filter (\<lambda>(k, _). truthy project \<longrightarrow> Some (fst k) = project) (au_legacy st)))"

text \<open>The strict load raises on a failed scan, the other one answers the empty list.\<close>

definition load_audit_records_strict :: "string option \<Rightarrow> (audit_store, audit_row list) service" where
  "load_audit_records_strict project = get_io (legacy_rows project)"

definition load_audit_records :: "string option \<Rightarrow> (audit_store, audit_row list) service" where
  "load_audit_records project =
     bind_io (try_io (load_audit_records_strict project)) (\<lambda>r.
       return_io (case r of None \<Rightarrow> [] | Some rows \<Rightarrow> rows))"

definition get_latest_audit_hash :: "(audit_store, string option) service" where
  "get_latest_audit_hash = bind_io (load_audit_records None) (\<lambda>rows.
     return_io (if rows = [] then None else rw_record_hash (last rows)))"

definition put_item :: "string \<times> string \<Rightarrow> audit_row \<Rightarrow> audit_store \<Rightarrow> unit + audit_store" where
  "put_item key row st = Inr (st\<lparr>au_legacy := filter (\<lambda>(k, _). k \<noteq> key) (au_legacy st) @ [(key, row)]\<rparr>)"

section \<open>The trail\<close>

record trail =
  tr_durable :: bool
  tr_buffer_size :: nat
  tr_buffers :: "string \<rightharpoonup> audit_record list"
  tr_heads :: "string \<rightharpoonup> string"
  tr_initialized :: "string set"

definition new_trail :: "bool \<Rightarrow> nat \<Rightarrow> trail" where
  "new_trail durable capacity =
     \<lparr>tr_durable = durable, tr_buffer_size = capacity, tr_buffers = Map.empty, tr_heads = Map.empty, tr_initialized = {}\<rparr>"

text \<open>\<open>ValueError\<close> for a blank tenant; the messages of \<open>AuditStoreUnavailable\<close>.\<close>

datatype audit_error = InvalidTenant | HeadUnavailable | AppendUnavailable | RecoveryUnavailable | Contended
  | PersistFailed | RecordsUnavailable | NotContinuous | HashInvalid | HeadMismatch | ExportUnavailable | NotDurable

type_synonym 'a audit_io = "(audit_store, (audit_error + 'a) \<times> trail) service"

definition push_bounded :: "nat \<Rightarrow> 'a list \<Rightarrow> 'a \<Rightarrow> 'a list" where
  "push_bounded n xs x = drop (length xs + 1 - n) (xs @ [x])"

definition buffer_for :: "trail \<Rightarrow> string \<Rightarrow> audit_record list" where
  "buffer_for t tenant = get_or (tr_buffers t) tenant []"

definition or_genesis :: "string option \<Rightarrow> string" where
  "or_genesis h = (if truthy h then or_empty h else GENESIS_HASH)"

definition set_head :: "string \<Rightarrow> string \<Rightarrow> trail \<Rightarrow> trail" where
  "set_head tenant h t = t\<lparr>tr_heads := (tr_heads t)(tenant \<mapsto> h)\<rparr>"

definition load_tenant_head :: "string \<Rightarrow> (audit_store, string option) service" where
  "load_tenant_head tenant =
     bind_io (if tenant = LEGACY_TENANT_ID then get_latest_audit_hash else get_latest_tenant_audit_hash tenant) (\<lambda>h.
       if h = Some [] then fail_io else return_io h)"

definition initialize_tenant_locked :: "string \<Rightarrow> trail \<Rightarrow> unit audit_io" where
  "initialize_tenant_locked tenant t =
     (if tenant \<in> tr_initialized t then return_io (Inr (), t)
      else if \<not> tr_durable t
      then return_io (Inr (), (set_head tenant GENESIS_HASH t)\<lparr>tr_initialized := insert tenant (tr_initialized t)\<rparr>)
      else bind_io (try_io (load_tenant_head tenant)) (\<lambda>r.
        return_io (case r of
          None \<Rightarrow> (Inl HeadUnavailable, t)
        | Some h \<Rightarrow> (Inr (), (set_head tenant (or_genesis h) t)\<lparr>tr_initialized := insert tenant (tr_initialized t)\<rparr>))))"

definition link :: "audit_env \<Rightarrow> string \<Rightarrow> audit_record \<Rightarrow> audit_record" where
  "link env prev r = (let r' = r\<lparr>ar_prev_hash := prev\<rparr> in r'\<lparr>ar_record_hash := compute_hash env r'\<rparr>)"

text \<open>\<open>now i\<close> is the clock at attempt \<open>i\<close>.\<close>

primrec append_attempts :: "audit_env \<Rightarrow> (nat \<Rightarrow> string) \<Rightarrow> nat \<Rightarrow> audit_record \<Rightarrow> trail \<Rightarrow> audit_record audit_io" where
  "append_attempts env now 0 r t = return_io (Inl Contended, t)"
| "append_attempts env now (Suc n) r t =
     (let attempt = MAX_APPEND_ATTEMPTS - Suc n;
          tenant = ar_tenant_id r;
          expected = get_or (tr_heads t) tenant GENESIS_HASH;
          r' = link env expected (if attempt = 0 then r else r\<lparr>ar_timestamp := now attempt\<rparr>)
      in bind_io (try_io (append_tenant_audit_record tenant (serialize_record r') expected)) (\<lambda>c.
           (case c of
              None \<Rightarrow> return_io (Inl AppendUnavailable, t)
            | Some True \<Rightarrow> return_io (Inr r', t)
            | Some False \<Rightarrow> bind_io (try_io (load_tenant_head tenant)) (\<lambda>h.
                (case h of
                   None \<Rightarrow> return_io (Inl RecoveryUnavailable, t)
                 | Some h \<Rightarrow> append_attempts env now n r' (set_head tenant (or_genesis h) t))))))"

definition append_tenant_record :: "audit_env \<Rightarrow> (nat \<Rightarrow> string) \<Rightarrow> audit_record \<Rightarrow> trail \<Rightarrow> audit_record audit_io" where
  "append_tenant_record env now r t = append_attempts env now MAX_APPEND_ATTEMPTS r t"

definition persist_legacy :: "audit_record \<Rightarrow> (audit_store, unit) service" where
  "persist_legacy r =
     bind_io (write_io (put_item (ar_project_id r, ''AUDIT#'' @ ar_timestamp r @ ''#'' @ ar_record_id r) (serialize_record r)))
       (\<lambda>out. if out = Done then return_io () else fail_io)"

text \<open>What the caller of \<open>record\<close> gives, the generated id and the clock.\<close>

record audit_call =
  ac_event_type :: audit_event_type
  ac_user_id :: string
  ac_project_id :: string
  ac_request_id :: string
  ac_data :: string
  ac_tenant_id :: string
  ac_record_id :: string
  ac_now :: "nat \<Rightarrow> string"

definition audit_record_of :: "audit_call \<Rightarrow> audit_record" where
  "audit_record_of c =
     \<lparr>ar_record_id = ac_record_id c, ar_event_type = ac_event_type c, ar_timestamp = ac_now c 0,
      ar_user_id = ac_user_id c, ar_project_id = ac_project_id c, ar_request_id = ac_request_id c,
      ar_data = ac_data c, ar_prev_hash = [], ar_record_hash = [], ar_tenant_id = ac_tenant_id c\<rparr>"

definition remember :: "audit_record \<Rightarrow> trail \<Rightarrow> trail" where
  "remember r t =
     (set_head (ar_tenant_id r) (ar_record_hash r) t)
       \<lparr>tr_buffers := (tr_buffers t)(ar_tenant_id r \<mapsto> push_bounded (tr_buffer_size t) (buffer_for t (ar_tenant_id r)) r)\<rparr>"

definition record_locked :: "audit_env \<Rightarrow> audit_call \<Rightarrow> trail \<Rightarrow> audit_record audit_io" where
  "record_locked env c t =
     (let tenant = ac_tenant_id c; r = audit_record_of c in
      if tr_durable t \<and> tenant \<noteq> LEGACY_TENANT_ID then append_tenant_record env (ac_now c) r t
      else let r' = link env (get_or (tr_heads t) tenant GENESIS_HASH) r in
           if tr_durable t
           then bind_io (try_io (persist_legacy r')) (\<lambda>p.
                  return_io (case p of None \<Rightarrow> (Inl PersistFailed, t) | Some _ \<Rightarrow> (Inr r', t)))
           else return_io (Inr r', t))"

definition record_event :: "audit_env \<Rightarrow> audit_call \<Rightarrow> trail \<Rightarrow> audit_record audit_io" where
  "record_event env c t =
     (if blank (ac_tenant_id c) then return_io (Inl InvalidTenant, t)
      else bind_io (initialize_tenant_locked (ac_tenant_id c) t) (\<lambda>(i, t1).
        (case i of
           Inl e \<Rightarrow> return_io (Inl e, t1)
         | Inr _ \<Rightarrow> bind_io (record_locked env c t1) (\<lambda>(r, t2).
             return_io (case r of Inl e \<Rightarrow> (Inl e, t2) | Inr rec \<Rightarrow> (Inr rec, remember rec t2))))))"

definition record_break_glass_access :: "audit_env \<Rightarrow> audit_call \<Rightarrow> trail \<Rightarrow> audit_record audit_io" where
  "record_break_glass_access env c t =
     (if \<not> tr_durable t then return_io (Inl NotDurable, t)
      else record_event env (c\<lparr>ac_event_type := BREAK_GLASS_ACCESS\<rparr>) t)"

section \<open>Hydration\<close>

definition load_audit_rows :: "string \<Rightarrow> string option \<Rightarrow> bool \<Rightarrow> (audit_store, audit_row list) service" where
  "load_audit_rows tenant project strict =
     (if tenant \<noteq> LEGACY_TENANT_ID then load_tenant_audit_records tenant project
      else if strict then load_audit_records_strict project else load_audit_records project)"

fun deserialize_all :: "audit_env \<Rightarrow> string \<Rightarrow> audit_row list \<Rightarrow> audit_record list option" where
  "deserialize_all env tenant [] = Some []"
| "deserialize_all env tenant (row # rows) =
     (case deserialize_record env tenant row of None \<Rightarrow> None
      | Some r \<Rightarrow> (case deserialize_all env tenant rows of None \<Rightarrow> None | Some rs \<Rightarrow> Some (r # rs)))"

text \<open>The loop over the loaded records: the first break, or the last hash.\<close>

fun hydrate_chain :: "audit_env \<Rightarrow> string \<Rightarrow> audit_record list \<Rightarrow> audit_error + string" where
  "hydrate_chain env previous [] = Inr previous"
| "hydrate_chain env previous (r # rs) =
     (if ar_prev_hash r \<noteq> previous then Inl NotContinuous
      else if ar_record_hash r \<noteq> compute_hash env r then Inl HashInvalid
      else hydrate_chain env (ar_record_hash r) rs)"

definition last_n :: "nat \<Rightarrow> 'a list \<Rightarrow> 'a list" where
  "last_n n xs = drop (length xs - n) xs"

text \<open>\<open>deque(records[-n:], maxlen=n)\<close>: the slice keeps everything for \<open>n = 0\<close>, the deque then keeps nothing.\<close>

definition adopt_records :: "string \<Rightarrow> audit_record list \<Rightarrow> string \<Rightarrow> trail \<Rightarrow> trail" where
  "adopt_records tenant records previous t =
     (set_head tenant previous t)
       \<lparr>tr_buffers := (tr_buffers t)(tenant \<mapsto> last_n (tr_buffer_size t) records),
        tr_initialized := insert tenant (tr_initialized t)\<rparr>"

definition hydrate_head :: "string \<Rightarrow> audit_record list \<Rightarrow> string \<Rightarrow> trail \<Rightarrow> nat audit_io" where
  "hydrate_head tenant records previous t =
     (if tenant = LEGACY_TENANT_ID then return_io (Inr (length records), adopt_records tenant records previous t)
      else bind_io (try_io (load_tenant_head tenant)) (\<lambda>h.
        return_io (case h of
          None \<Rightarrow> (Inl HeadUnavailable, t)
        | Some durable \<Rightarrow>
            if durable \<noteq> (if records = [] then None else Some previous) then (Inl HeadMismatch, t)
            else (Inr (length records), adopt_records tenant records previous t))))"

definition hydrate_recent :: "audit_env \<Rightarrow> string \<Rightarrow> trail \<Rightarrow> nat audit_io" where
  "hydrate_recent env tenant t =
     (if blank tenant then return_io (Inl InvalidTenant, t)
      else if \<not> tr_durable t then return_io (Inr 0, t)
      else bind_io (try_io (load_audit_rows tenant None True)) (\<lambda>rows.
        (case rows of
           None \<Rightarrow> return_io (Inl RecordsUnavailable, t)
         | Some rows \<Rightarrow>
             (case deserialize_all env tenant rows of
                None \<Rightarrow> return_io (Inl RecordsUnavailable, t)
              | Some records \<Rightarrow>
                  (case hydrate_chain env GENESIS_HASH records of
                     Inl e \<Rightarrow> return_io (Inl e, t)
                   | Inr previous \<Rightarrow> hydrate_head tenant records previous t)))))"

section \<open>Queries and verification\<close>

text \<open>\<open>results[-limit:]\<close>: the whole list for \<open>limit = 0\<close>, the tail from \<open>-limit\<close> for a negative one.\<close>

definition slice_last :: "int \<Rightarrow> 'a list \<Rightarrow> 'a list" where
  "slice_last n xs = (if n \<le> 0 then drop (nat (- n)) xs else last_n (nat n) xs)"

text \<open>\<open>None\<close> is the \<open>ValueError\<close> of a blank tenant.\<close>

definition query_recent ::
  "string option \<Rightarrow> audit_event_type option \<Rightarrow> int \<Rightarrow> string \<Rightarrow> trail \<Rightarrow> audit_record list option" where
  "query_recent project event limit tenant t =
     (if blank tenant then None
      else Some (slice_last limit (filter (\<lambda>r. (truthy project \<longrightarrow> Some (ar_project_id r) = project)
                                  \<and> (event \<noteq> None \<longrightarrow> Some (ar_event_type r) = event)) (buffer_for t tenant))))"

fun chain_ok :: "audit_env \<Rightarrow> string \<Rightarrow> string \<Rightarrow> audit_record list \<Rightarrow> bool" where
  "chain_ok env tenant prev [] \<longleftrightarrow> True"
| "chain_ok env tenant prev (r # rs) \<longleftrightarrow>
     (if ar_tenant_id r \<noteq> tenant then False
      else if ar_record_hash r \<noteq> compute_hash env r then False
      else if ar_prev_hash r \<noteq> prev then False
      else chain_ok env tenant (ar_record_hash r) rs)"

definition verify_chain :: "audit_env \<Rightarrow> audit_record list option \<Rightarrow> string \<Rightarrow> string \<Rightarrow> trail \<Rightarrow> bool option" where
  "verify_chain env records expected tenant t =
     (if blank tenant then None
      else Some (chain_ok env tenant expected (case records of None \<Rightarrow> buffer_for t tenant | Some rs \<Rightarrow> rs)))"

datatype broken_reason = UnreadableRow | ContentAltered | NoGenesis | LinkBroken

datatype audit_report =
    Unavailable
  | NotConfigured
  | Disabled
  | Broken_at string broken_reason nat
  | Head_mismatch nat
  | Intact nat nat

fun report_rows ::
  "audit_env \<Rightarrow> string \<Rightarrow> string option \<Rightarrow> string \<Rightarrow> string \<Rightarrow> nat \<Rightarrow> nat \<Rightarrow> audit_row list
   \<Rightarrow> audit_report + (string \<times> nat \<times> nat)" where
  "report_rows env tenant project expected prev checked matched [] = Inr (prev, checked, matched)"
| "report_rows env tenant project expected prev checked matched (row # rows) =
     (case deserialize_record env tenant row of
        None \<Rightarrow> Inl (Broken_at (rw_record_id row) UnreadableRow checked)
      | Some r \<Rightarrow>
          if compute_hash env r \<noteq> ar_record_hash r then Inl (Broken_at (ar_record_id r) ContentAltered checked)
          else if ar_prev_hash r \<noteq> prev
          then Inl (Broken_at (ar_record_id r)
                 (if checked = 0 \<and> expected = GENESIS_HASH then NoGenesis else LinkBroken) checked)
          else report_rows env tenant project expected (ar_record_hash r) (checked + 1)
                 (if project = None \<or> Some (ar_project_id r) = project then matched + 1 else matched) rows)"

text \<open>\<open>None\<close> is the \<open>ValueError\<close> of a blank tenant.\<close>

definition verify_persisted_chain ::
  "audit_env \<Rightarrow> string option \<Rightarrow> string \<Rightarrow> string \<Rightarrow> trail \<Rightarrow> (audit_store, audit_report option) service" where
  "verify_persisted_chain env project expected tenant t =
     (if blank tenant then return_io None
      else if \<not> tr_durable t
      then return_io (Some (if tenant \<noteq> LEGACY_TENANT_ID then NotConfigured else Disabled))
      else bind_io (try_io (bind_io (load_audit_rows tenant None False) (\<lambda>rows.
                              bind_io (load_tenant_head tenant) (\<lambda>head. return_io (rows, head))))) (\<lambda>loaded.
        return_io (Some (case loaded of
          None \<Rightarrow> Unavailable
        | Some (rows, head) \<Rightarrow>
            (case report_rows env tenant project expected expected 0 0 rows of
               Inl report \<Rightarrow> report
             | Inr (prev, checked, matched) \<Rightarrow>
                 if rows \<noteq> [] \<and> head \<noteq> Some prev \<or> rows = [] \<and> truthy head then Head_mismatch checked
                 else Intact checked matched)))))"

text \<open>\<open>None\<close> is the error of a row of another tenant.\<close>

definition normalize_export_row :: "string \<Rightarrow> audit_row \<Rightarrow> audit_row option" where
  "normalize_export_row tenant row = map_option (\<lambda>t. row\<lparr>rw_tenant_id := Some t\<rparr>) (row_tenant tenant row)"

fun normalize_export_rows :: "string \<Rightarrow> audit_row list \<Rightarrow> audit_row list option" where
  "normalize_export_rows tenant [] = Some []"
| "normalize_export_rows tenant (row # rows) =
     (case normalize_export_row tenant row of None \<Rightarrow> None
      | Some x \<Rightarrow> map_option ((#) x) (normalize_export_rows tenant rows))"

definition export_records :: "string option \<Rightarrow> string \<Rightarrow> trail \<Rightarrow> (audit_store, audit_error + audit_row list) service" where
  "export_records project tenant t =
     (if blank tenant then return_io (Inl InvalidTenant)
      else if tr_durable t
      then bind_io (try_io (load_audit_rows tenant project False)) (\<lambda>rows.
             return_io (case rows of
               None \<Rightarrow> Inl ExportUnavailable
             | Some rows \<Rightarrow> (case normalize_export_rows tenant rows of
                   None \<Rightarrow> Inl ExportUnavailable | Some out \<Rightarrow> Inr out)))
      else return_io (Inr (map serialize_record
             (filter (\<lambda>r. project = None \<or> Some (ar_project_id r) = project) (buffer_for t tenant)))))"

end
