(* ===== verification/ControlPlane.thy ===== *)
theory ControlPlane
  imports Authorization AuditTrail
begin

text \<open>
  The control plane: \<open>AdminRBACMiddleware\<close> (\<open>middleware/admin_rbac.py\<close>) decides on requests to \<open>/admin/\<close>, by
  canonical roles or legacy scopes, and lets a platform administrator into a tenant only with a reason and a
  durable audit record; the guard of key issuance (\<open>admin/key_routes.py\<close>) limits the scopes a caller may
  hand out.

  \<open>be_dumps\<close> is the JSON text of the data of a break-glass event.
\<close>

section \<open>Roles and scopes\<close>

definition tenant_action :: "string \<Rightarrow> access \<Rightarrow> action" where
  "tenant_action path acc =
     (if contains_text ''/members'' path then (if acc = Read then MEMBERSHIP_READ else MEMBERSHIP_WRITE)
      else if contains_text ''/keys'' path then (if acc = Read then API_KEY_READ else API_KEY_MANAGE)
      else if path = ''/admin/audit/export'' \<or> starts_with ''/admin/audit/exports/'' path then AUDIT_EXPORT
      else if path = ''/admin/usage/export'' \<or> starts_with ''/admin/usage/exports/'' path then USAGE_EXPORT
      else (case map_of [(''audit'', (AUDIT_READ, AUDIT_EXPORT)), (''keys'', (API_KEY_READ, API_KEY_MANAGE)),
               (''policies'', (POLICY_READ, POLICY_WRITE)), (''quotas'', (QUOTA_READ, QUOTA_WRITE)),
               (''usage'', (USAGE_READ, USAGE_EXPORT)), (''webhooks'', (WEBHOOK_READ, WEBHOOK_WRITE))] (extract_resource path) of
              None \<Rightarrow> (if acc = Read then TENANT_CONFIG_READ else TENANT_CONFIG_WRITE)
            | Some (r, w) \<Rightarrow> (if acc = Read then r else w)))"

definition is_canonical_platform_context :: "request_context \<Rightarrow> principal option \<Rightarrow> bool" where
  "is_canonical_platform_context ctx who =
     (case who of
        None \<Rightarrow> False
      | Some p \<Rightarrow> PlatformAdmin \<in> pr_roles p \<and> cx_principal_id ctx = Some (pr_id p) \<and> cx_user_id ctx = pr_id p
          \<and> cx_tenant_id ctx = Some (pr_tenant p) \<and> set (cx_roles ctx) = role_value ` pr_roles p
          \<and> cx_auth_method ctx = pr_auth_method p \<and> cx_version ctx = Some (pr_version p))"

definition or_text :: "string \<Rightarrow> string \<Rightarrow> string" where
  "or_text s d = (if s = [] then d else s)"

definition is_authorized ::
  "request_context \<Rightarrow> string \<Rightarrow> access \<Rightarrow> string option \<Rightarrow> principal option \<Rightarrow> string option \<Rightarrow> bool" where
  "is_authorized ctx path acc reason who target =
     (let roles = set (cx_roles ctx); resource = extract_resource path in
      if is_canonical_context ctx then
        (if resource \<in> PLATFORM_RESOURCES then
           (case who of
              None \<Rightarrow> False
            | Some p \<Rightarrow> ad_allowed (authorize p (Act (if acc = Read then PLATFORM_READ else PLATFORM_WRITE))
                \<lparr>rr_type = resource, rr_id = path, rr_tenant = None, rr_project = None\<rparr> None))
         else if ''platform_admin'' \<in> roles then
           (case (who, target) of
              (Some p, Some t) \<Rightarrow> is_canonical_platform_context ctx who
                \<and> ad_allowed (authorize p (Act (tenant_action path acc))
                    \<lparr>rr_type = or_text resource ''admin'', rr_id = or_text path ''/admin'', rr_tenant = Some t,
                     rr_project = None\<rparr> reason)
            | _ \<Rightarrow> False)
         else if ''tenant_admin'' \<in> roles then True
         else if roles \<inter> TENANT_READ_ROLES \<noteq> {} then acc = Read
         else False)
      else if ''admin'' \<in> roles then True
      else list_ex (scope_reaches resource acc) (cx_scopes ctx))"

section \<open>Issuing keys\<close>

definition is_superadmin :: "request_context option \<Rightarrow> bool" where
  "is_superadmin ctx = (case ctx of None \<Rightarrow> False
     | Some c \<Rightarrow> \<not> is_canonical_context c \<and> (''admin'' \<in> set (cx_roles c) \<or> ''admin:*'' \<in> set (cx_scopes c)))"

text \<open>Whether the caller may grant the scopes; the code answers with the refusal instead.\<close>

definition may_grant :: "request_context option \<Rightarrow> string list \<Rightarrow> bool" where
  "may_grant ctx requested =
     (if (case ctx of None \<Rightarrow> False | Some c \<Rightarrow> is_canonical_context c)
      then \<not> list_ex (starts_with ''admin:'') requested
      else if is_superadmin ctx then True
      else (let held = (case ctx of None \<Rightarrow> [] | Some c \<Rightarrow> cx_scopes c)
            in \<not> list_ex (\<lambda>s. starts_with ''admin:'' s \<and> \<not> list_ex (\<lambda>h. scope_implies h s) held) requested))"

section \<open>Break glass\<close>

record admin_request =
  aq_method :: string
  aq_path :: string
  aq_context :: "request_context option"
  aq_principal :: "principal option"
  aq_targets :: "string list"
  aq_reasons :: "string list"
  aq_tenant_query :: "string list"

definition tenant_id_char :: "bool \<Rightarrow> char \<Rightarrow> bool" where
  "tenant_id_char first c \<longleftrightarrow> (let n = (of_char c :: nat) in
     48 \<le> n \<and> n \<le> 57 \<or> 65 \<le> n \<and> n \<le> 90 \<or> 97 \<le> n \<and> n \<le> 122 \<or> \<not> first \<and> c \<in> set ''._:-'')"

definition tenant_id_matches :: "string \<Rightarrow> bool" where
  "tenant_id_matches s = (case s of [] \<Rightarrow> False
     | c # cs \<Rightarrow> tenant_id_char True c \<and> length cs \<le> 127 \<and> list_all (tenant_id_char False) cs)"

text \<open>\<open>None\<close> is the \<open>ValueError\<close>.\<close>

definition target_tenant_id :: "admin_request \<Rightarrow> string option" where
  "target_tenant_id q =
     (case aq_targets q of
        [t] \<Rightarrow> if tenant_id_matches t \<and> length (aq_tenant_query q) \<le> 1 \<and> list_all (\<lambda>v. v = t) (aq_tenant_query q)
               then Some t else None
      | _ \<Rightarrow> None)"

definition break_glass_reason :: "admin_request \<Rightarrow> string option" where
  "break_glass_reason q = (case aq_reasons q of [] \<Rightarrow> Some [] | [r] \<Rightarrow> Some r | _ \<Rightarrow> None)"

definition is_break_glass_attempt :: "request_context \<Rightarrow> string \<Rightarrow> principal option \<Rightarrow> bool" where
  "is_break_glass_attempt ctx path who \<longleftrightarrow>
     (''platform_admin'' \<in> set (cx_roles ctx) \<or> (case who of None \<Rightarrow> False | Some p \<Rightarrow> PlatformAdmin \<in> pr_roles p))
     \<and> extract_resource path \<notin> PLATFORM_RESOURCES"

record break_glass_env =
  be_audit :: audit_env
  be_dumps :: "(string \<times> string) list \<Rightarrow> string"
  be_record_id :: string
  be_request_hex :: string
  be_now :: "nat \<Rightarrow> string"

definition access_value :: "access \<Rightarrow> string" where
  "access_value a = (case a of Read \<Rightarrow> ''read'' | Write \<Rightarrow> ''write'')"

definition break_glass_data :: "string \<Rightarrow> string \<Rightarrow> string \<Rightarrow> string \<Rightarrow> string \<Rightarrow> bool \<Rightarrow> access \<Rightarrow> (string \<times> string) list" where
  "break_glass_data principal_id target path verb reason allowed acc =
     [(''principal_id'', principal_id), (''tenant_id'', target), (''route'', path), (''method'', upper verb),
      (''reason'', reason), (''result'', if allowed then ''allowed'' else ''denied''), (''access'', access_value acc)]"

text \<open>\<open>Inl\<close> is any exception: no audit trail, no principal in the context, a failing append.\<close>

definition record_break_glass ::
  "break_glass_env \<Rightarrow> request_context \<Rightarrow> string \<Rightarrow> admin_request \<Rightarrow> access \<Rightarrow> string \<Rightarrow> bool \<Rightarrow> trail option
   \<Rightarrow> (audit_store, bool \<times> trail option) service" where
  "record_break_glass env ctx target q acc reason allowed tr =
     (case tr of
        None \<Rightarrow> return_io (False, None)
      | Some t \<Rightarrow>
          (case cx_principal_id ctx of
             None \<Rightarrow> return_io (False, Some t)
           | Some i \<Rightarrow>
               if blank i then return_io (False, Some t)
               else bind_io (record_break_glass_access (be_audit env)
                      \<lparr>ac_event_type = BREAK_GLASS_ACCESS, ac_user_id = cx_user_id ctx, ac_project_id = [],
                       ac_request_id = ''breakglass_'' @ be_request_hex env,
                       ac_data = be_dumps env (break_glass_data i target (aq_path q) (aq_method q) reason allowed acc),
                       ac_tenant_id = target, ac_record_id = be_record_id env, ac_now = be_now env\<rparr> t)
                 (\<lambda>(r, t'). return_io (case r of Inl _ \<Rightarrow> False | Inr _ \<Rightarrow> True, Some t'))))"

text \<open>The handler runs, with its context and the tenant broken into; or an error response.\<close>

datatype admin_answer = Admitted "request_context option" "string option" | Refused int

definition break_glass_resource :: "admin_request \<Rightarrow> string \<Rightarrow> resource_ref" where
  "break_glass_resource q target =
     \<lparr>rr_type = or_text (extract_resource (aq_path q)) ''admin'', rr_id = aq_path q, rr_tenant = Some target, rr_project = None\<rparr>"

definition break_glass_dispatch ::
  "break_glass_env \<Rightarrow> request_context \<Rightarrow> access \<Rightarrow> admin_request \<Rightarrow> trail option
   \<Rightarrow> (audit_store, admin_answer \<times> trail option) service" where
  "break_glass_dispatch env ctx acc q tr =
     (case (target_tenant_id q, break_glass_reason q) of
        (Some target, Some reason) \<Rightarrow>
          (case aq_principal q of
             Some p \<Rightarrow>
               if \<not> is_canonical_platform_context ctx (Some p) then return_io (Refused 403, tr)
               else (let d = authorize p (Act (tenant_action (aq_path q) acc)) (break_glass_resource q target) (Some reason) in
                 bind_io (record_break_glass env ctx target q acc reason (ad_allowed d) tr) (\<lambda>(ok, tr').
                   return_io (if \<not> ok then Refused 503
                     else if \<not> ad_allowed d then Refused 403
                     else Admitted (Some (ctx\<lparr>cx_tenant_id := Some target, cx_project_id := []\<rparr>)) (Some target), tr')))
           | None \<Rightarrow> return_io (Refused 403, tr))
      | _ \<Rightarrow> return_io (Refused 400, tr))"

definition admin_dispatch ::
  "bool \<Rightarrow> break_glass_env \<Rightarrow> admin_request \<Rightarrow> trail option \<Rightarrow> (audit_store, admin_answer \<times> trail option) service" where
  "admin_dispatch enforce env q tr =
     (let path = aq_path q in
      if \<not> starts_with ''/admin/'' path then return_io (Admitted (aq_context q) None, tr)
      else if starts_with ''/admin/static'' path \<or> path = ''/admin/dashboard'' then return_io (Admitted (aq_context q) None, tr)
      else (case aq_context q of
              None \<Rightarrow> return_io (if enforce then Refused 403 else Admitted None None, tr)
            | Some ctx \<Rightarrow>
                let acc = classify_access (aq_method q) path in
                if is_break_glass_attempt ctx path (aq_principal q) then break_glass_dispatch env ctx acc q tr
                else if is_authorized ctx path acc None (aq_principal q) None then return_io (Admitted (Some ctx) None, tr)
                else return_io (if enforce then Refused 403 else Admitted (Some ctx) None, tr)))"

end
