(* ===== verification/AuditProps.thy ===== *)
theory AuditProps
  imports AuditTrail "HOL-Library.Sublist"
begin

text \<open>
  What the audit trail promises. A verified chain is determined by its head, so nothing in it can be changed,
  removed, added or moved; recording through any interference of other instances appends to the log of its
  tenant and to no other; the stored log verifies as long as its sort keys increase.
\<close>

section \<open>Chains\<close>

lemma event_values: "distinct (map snd audit_event_values)" "e \<in> set (map fst audit_event_values)"
  by (code_simp, cases e) (simp_all add: audit_event_values_def)

lemma event_of_event_value [simp]: "event_of_value (event_value e) = Some e"
proof -
  obtain v where v: "map_of audit_event_values e = Some v"
    using event_values(2) [of e] by (metis map_of_eq_None_iff not_Some_eq set_map)
  then have "(e, v) \<in> set audit_event_values" by (rule map_of_SomeD)
  then have "(v, e) \<in> set (map prod.swap audit_event_values)" by force
  moreover have "distinct (map fst (map prod.swap audit_event_values))"
    using event_values(1) by (simp add: comp_def)
  ultimately show ?thesis by (simp add: event_of_value_def event_value_def v)
qed

lemma event_value_inject [simp]: "event_value e = event_value f \<longleftrightarrow> e = f"
  by (metis event_of_event_value option.inject)

lemma payload_determines:
  "\<lbrakk>payload_of a = payload_of b; ar_record_hash a = ar_record_hash b; ar_tenant_id a = ar_tenant_id b\<rbrakk> \<Longrightarrow> a = b"
  by (simp add: payload_of_def)

definition last_hash :: "string \<Rightarrow> audit_record list \<Rightarrow> string" where
  "last_hash prev rs = (if rs = [] then prev else ar_record_hash (last rs))"

lemma last_hash_simps [simp]: "last_hash prev [] = prev" "last_hash prev (rs @ [r]) = ar_record_hash r"
  by (simp_all add: last_hash_def)

lemma last_hash_Cons [simp]: "last_hash prev (r # rs) = last_hash (ar_record_hash r) rs"
  by (simp add: last_hash_def)

lemma chain_ok_append:
  "chain_ok env tenant prev (rs @ ss) \<longleftrightarrow> chain_ok env tenant prev rs \<and> chain_ok env tenant (last_hash prev rs) ss"
  by (induction rs arbitrary: prev) auto

lemma chain_ok_snoc:
  "chain_ok env tenant prev (rs @ [r]) \<longleftrightarrow> chain_ok env tenant prev rs \<and> ar_tenant_id r = tenant
     \<and> ar_record_hash r = compute_hash env r \<and> ar_prev_hash r = last_hash prev rs"
  by (auto simp: chain_ok_append)

text \<open>The digest separates the given payloads and never spells the genesis marker.\<close>

definition collision_free :: "audit_env \<Rightarrow> audit_record list \<Rightarrow> bool" where
  "collision_free env rs \<longleftrightarrow> inj_on (ev_digest env) (payload_of ` set rs) \<and> GENESIS_HASH \<notin> compute_hash env ` set rs"

lemma collision_freeD:
  assumes "collision_free env rs" "a \<in> set rs" "b \<in> set rs" "compute_hash env a = compute_hash env b"
  shows "payload_of a = payload_of b"
  using assms by (auto simp: collision_free_def compute_hash_def dest: inj_onD)

lemma chain_last_genesis:
  assumes "chain_ok env tenant GENESIS_HASH rs" "collision_free env rs" "last_hash GENESIS_HASH rs = GENESIS_HASH"
  shows "rs = []"
proof (cases rs rule: rev_cases)
  case (snoc ss r)
  with assms have "ar_record_hash r = compute_hash env r" "ar_record_hash r = GENESIS_HASH"
    by (simp_all add: chain_ok_snoc)
  with assms(2) snoc show ?thesis by (auto simp: collision_free_def)
qed simp

lemma collision_free_sub: "collision_free env rs \<Longrightarrow> set ss \<subseteq> set rs \<Longrightarrow> collision_free env ss"
  unfolding collision_free_def by (meson image_mono inj_on_subset subset_iff)

text \<open>C10: a chain that verifies is determined by its head. Two record lists of a tenant that both pass
  \<open>verify_chain\<close> and end in the same hash are equal, in every field of every record: no record can have been
  changed, dropped, inserted or moved behind a known head, unless the digest has a collision among them.\<close>

theorem verified_chain_unforgeable:
  assumes "verify_chain env (Some rs) GENESIS_HASH tenant t = Some True"
    and "verify_chain env (Some ss) GENESIS_HASH tenant t' = Some True"
    and "last_hash GENESIS_HASH rs = last_hash GENESIS_HASH ss"
    and "collision_free env (rs @ ss)"
  shows "rs = ss"
proof -
  have "chain_ok env tenant GENESIS_HASH rs" "chain_ok env tenant GENESIS_HASH ss"
    using assms(1,2) by (simp_all add: verify_chain_def split: if_splits)
  then show ?thesis using assms(3,4)
  proof (induction rs arbitrary: ss rule: rev_induct)
    case Nil
    then show ?case using chain_last_genesis [of env tenant ss] by simp
  next
    case (snoc r rs)
    show ?case
    proof (cases ss rule: rev_cases)
      case Nil
      then show ?thesis using chain_last_genesis [of env tenant "rs @ [r]"] snoc.prems by simp
    next
      case (snoc ss' s)
      note c = snoc.prems [unfolded snoc chain_ok_snoc]
      have "ar_record_hash r = ar_record_hash s" using c(3) by simp
      moreover have "payload_of r = payload_of s"
        by (rule collision_freeD [OF c(4)]) (use c in simp_all)
      ultimately have rs: "r = s" using c by (intro payload_determines) simp_all
      have "collision_free env (rs @ ss')" using c(4) by (rule collision_free_sub) auto
      then have "rs = ss'" using c rs by (intro snoc.IH) simp_all
      with rs snoc show ?thesis by simp
    qed
  qed
qed

text \<open>A digest to witness the properties on: it spells the fields a test uses.\<close>

definition sample_audit_env :: audit_env where
  "sample_audit_env = \<lparr>ev_digest = (\<lambda>p. ''h'' @ pl_record_id p @ pl_data p @ pl_prev_hash p), ev_time = Some, ev_json = Some\<rparr>"

definition sample_call :: "string \<Rightarrow> string \<Rightarrow> audit_call" where
  "sample_call rid ts = \<lparr>ac_event_type = LLM_REQUEST, ac_user_id = ''u'', ac_project_id = ''p'',
     ac_request_id = ''q'', ac_data = ''{}'', ac_tenant_id = ''acme'', ac_record_id = rid, ac_now = (\<lambda>_. ts)\<rparr>"

definition sample_chain :: "audit_record list" where
  "sample_chain = (let a = link sample_audit_env GENESIS_HASH (audit_record_of (sample_call ''1'' ''t1''));
                       b = link sample_audit_env (ar_record_hash a) (audit_record_of (sample_call ''2'' ''t2''))
                   in [a, b])"

text \<open>The same chain with the data of its first record rewritten.\<close>

definition tampered_chain :: "audit_record list" where
  "tampered_chain = (case sample_chain of a # rest \<Rightarrow> (a\<lparr>ar_data := ''[]''\<rparr>) # rest | [] \<Rightarrow> [])"

theorem verified_chain_unforgeable_witness:
  "verify_chain sample_audit_env (Some tampered_chain) GENESIS_HASH ''acme'' (new_trail False 1) \<noteq> Some True
   \<and> last_hash GENESIS_HASH tampered_chain = last_hash GENESIS_HASH sample_chain"
proof
  have ok: "verify_chain sample_audit_env (Some sample_chain) GENESIS_HASH ''acme'' (new_trail False 1) = Some True"
    and same: "last_hash GENESIS_HASH tampered_chain = last_hash GENESIS_HASH sample_chain"
    and differs: "sample_chain \<noteq> tampered_chain"
    by code_simp+
  have "collision_free sample_audit_env (sample_chain @ tampered_chain)"
    by (simp add: collision_free_def inj_on_def tampered_chain_def sample_chain_def Let_def link_def payload_of_def
        compute_hash_def sample_audit_env_def audit_record_of_def sample_call_def GENESIS_HASH_def LEGACY_TENANT_ID_def)
  from verified_chain_unforgeable [OF ok _ same [symmetric] this] differs
  show "verify_chain sample_audit_env (Some tampered_chain) GENESIS_HASH ''acme'' (new_trail False 1) \<noteq> Some True"
    by blast
  show "last_hash GENESIS_HASH tampered_chain = last_hash GENESIS_HASH sample_chain" by (rule same)
qed

section \<open>The log of a tenant\<close>

definition audit_log :: "string \<Rightarrow> audit_store \<Rightarrow> audit_row list" where
  "audit_log tenant st = map snd (filter (\<lambda>(k, _). fst k = tenant) (au_rows st))"

text \<open>A row the code wrote for a tenant.\<close>

definition genuine :: "audit_env \<Rightarrow> string \<Rightarrow> audit_row \<Rightarrow> bool" where
  "genuine env tenant row \<longleftrightarrow> (\<exists>r. row = serialize_record r \<and> ar_record_hash r = compute_hash env r
     \<and> ar_tenant_id r = tenant \<and> ar_record_hash r \<noteq> [])"

fun linked :: "string \<Rightarrow> audit_row list \<Rightarrow> bool" where
  "linked prev [] \<longleftrightarrow> True"
| "linked prev (row # rows) \<longleftrightarrow> rw_prev_hash row = Some prev \<and> linked (or_empty (rw_record_hash row)) rows"

definition row_head :: "string \<Rightarrow> audit_row list \<Rightarrow> string" where
  "row_head prev rows = (if rows = [] then prev else or_empty (rw_record_hash (last rows)))"

lemma linked_snoc: "linked prev (rows @ [row]) \<longleftrightarrow> linked prev rows \<and> rw_prev_hash row = Some (row_head prev rows)"
  by (induction rows arbitrary: prev) (auto simp: row_head_def)

text \<open>The invariant of the tenant tables, the code's own contract for them.\<close>

definition wf_audit :: "audit_env \<Rightarrow> audit_store \<Rightarrow> bool" where
  "wf_audit env st \<longleftrightarrow> distinct (map fst (au_rows st))
     \<and> (\<forall>(k, row)\<in>set (au_rows st). genuine env (fst k) row \<and> snd k = record_sk (rw_timestamp row) (rw_record_id row))
     \<and> (\<forall>tenant. linked GENESIS_HASH (audit_log tenant st)
          \<and> au_heads st tenant = (if audit_log tenant st = [] then None else Some (row_head GENESIS_HASH (audit_log tenant st))))"

definition grows :: "audit_env \<Rightarrow> audit_store \<Rightarrow> audit_store \<Rightarrow> bool" where
  "grows env st st' \<longleftrightarrow> wf_audit env st' \<and> (\<forall>tenant. prefix (audit_log tenant st) (audit_log tenant st'))"

text \<open>Only the log of one tenant grows.\<close>

definition grows_only :: "audit_env \<Rightarrow> string \<Rightarrow> audit_store \<Rightarrow> audit_store \<Rightarrow> bool" where
  "grows_only env tenant st st' \<longleftrightarrow> grows env st st' \<and> (\<forall>other. other \<noteq> tenant \<longrightarrow> audit_log other st' = audit_log other st)"

lemma log_append: "audit_log other (apply_append tenant row st) = (if other = tenant then audit_log tenant st @ [row] else audit_log other st)"
  by (simp add: audit_log_def apply_append_def)

lemma wf_audit_empty: "wf_audit env empty_audit"
  by (simp add: wf_audit_def empty_audit_def audit_log_def)

lemma txn_append_grows:
  assumes wf: "wf_audit env st" and row: "genuine env tenant row" "rw_prev_hash row = Some expected"
    and ok: "txn_append tenant row expected st = Inr st'"
  shows "grows_only env tenant st st'" "audit_log tenant st' = audit_log tenant st @ [row]"
proof -
  let ?k = "(tenant, record_sk (rw_timestamp row) (rw_record_id row))"
  have st': "st' = apply_append tenant row st" and free: "map_of (au_rows st) ?k = None"
    and head: "head_condition tenant expected st"
    using ok by (simp_all add: txn_append_def split: if_splits)
  show grown: "audit_log tenant st' = audit_log tenant st @ [row]" by (simp add: st' log_append)
  have exp: "expected = row_head GENESIS_HASH (audit_log tenant st)"
    using head wf by (auto simp: head_condition_def wf_audit_def row_head_def split: option.splits if_splits)
  have "distinct (map fst (au_rows st'))"
    using wf free by (simp add: st' apply_append_def wf_audit_def map_of_eq_None_iff)
  moreover have "\<forall>(k, x)\<in>set (au_rows st'). genuine env (fst k) x \<and> snd k = record_sk (rw_timestamp x) (rw_record_id x)"
    using wf row(1) by (auto simp: st' apply_append_def wf_audit_def)
  moreover have "linked GENESIS_HASH (audit_log other st')
      \<and> au_heads st' other = (if audit_log other st' = [] then None else Some (row_head GENESIS_HASH (audit_log other st')))" for other
  proof (cases "other = tenant")
    case True
    then show ?thesis
      using wf row(2) exp by (simp add: grown wf_audit_def linked_snoc) (simp add: st' apply_append_def row_head_def)
  next
    case False
    then have "audit_log other st' = audit_log other st" "au_heads st' other = au_heads st other"
      by (simp_all add: st' log_append) (simp add: apply_append_def)
    then show ?thesis using wf by (simp add: wf_audit_def)
  qed
  ultimately have "wf_audit env st'" unfolding wf_audit_def by blast
  then show "grows_only env tenant st st'" by (simp add: grows_only_def grows_def st' log_append)
qed

lemma put_item_grows:
  assumes "wf_audit env st" "put_item key row st = Inr st'"
  shows "grows_only env tenant st st'"
proof -
  have same: "au_rows st' = au_rows st" "au_heads st' = au_heads st" using assms(2) by (auto simp: put_item_def)
  then have logs: "audit_log other st' = audit_log other st" for other by (simp add: audit_log_def)
  with same assms(1) have "wf_audit env st'" by (simp add: wf_audit_def)
  with logs show ?thesis by (simp add: grows_only_def grows_def)
qed

lemma grows_refl: "wf_audit env st \<Longrightarrow> grows env st st"
  by (simp add: grows_def)

lemma grows_trans: "grows env a b \<Longrightarrow> grows env b c \<Longrightarrow> grows env a c"
  unfolding grows_def using prefix_order.trans by blast

section \<open>Recording among other instances\<close>

text \<open>The log has at least the entries \<open>old\<close>; it has the row \<open>x\<close> after them.\<close>

definition since :: "string \<Rightarrow> audit_row list \<Rightarrow> audit_store \<Rightarrow> bool" where
  "since tenant old st \<longleftrightarrow> prefix old (audit_log tenant st)"

definition has_since :: "string \<Rightarrow> audit_row list \<Rightarrow> audit_row \<Rightarrow> audit_store \<Rightarrow> bool" where
  "has_since tenant old x st \<longleftrightarrow> (\<exists>new. audit_log tenant st = old @ new \<and> x \<in> set new)"

lemma stable_since: "stable_under (grows env) (since tenant old)"
  unfolding stable_under_def since_def grows_def using prefix_order.trans by blast

lemma stable_has: "stable_under (grows env) (has_since tenant old x)"
  unfolding stable_under_def has_since_def grows_def
  by (auto elim!: prefixE) (metis prefixE append_assoc set_append UnI1)

text \<open>A record for the same event, with its own place in the chain.\<close>

definition same_event :: "audit_record \<Rightarrow> audit_record \<Rightarrow> bool" where
  "same_event r r' \<longleftrightarrow> ar_record_id r' = ar_record_id r \<and> ar_event_type r' = ar_event_type r
     \<and> ar_user_id r' = ar_user_id r \<and> ar_project_id r' = ar_project_id r \<and> ar_request_id r' = ar_request_id r
     \<and> ar_data r' = ar_data r \<and> ar_tenant_id r' = ar_tenant_id r"

lemma same_event_refl [simp]: "same_event r r"
  by (simp add: same_event_def)

lemma same_event_trans: "same_event a b \<Longrightarrow> same_event b c \<Longrightarrow> same_event a c"
  by (simp add: same_event_def)

lemma payload_without_hash [simp]: "payload_of (r\<lparr>ar_record_hash := h\<rparr>) = payload_of r"
  by (simp add: payload_of_def)

lemma link_simps [simp]:
  "same_event r (link env prev r)" "ar_prev_hash (link env prev r) = prev"
  "compute_hash env (link env prev r) = ar_record_hash (link env prev r)"
  "ar_tenant_id (link env prev r) = ar_tenant_id r"
  by (simp_all add: link_def Let_def same_event_def compute_hash_def)

lemma same_event_stamp [simp]: "same_event r (link env prev (r\<lparr>ar_timestamp := ts\<rparr>))"
  by (simp add: link_def Let_def same_event_def)

locale audit_guarantee = service_guarantee "wf_audit env" "grows env" G
  for env :: audit_env and G :: "audit_store \<Rightarrow> audit_store \<Rightarrow> bool" +
  fixes tenant :: string
  assumes append: "\<lbrakk>wf_audit env st; genuine env tenant row; rw_prev_hash row = Some expected;
      txn_append tenant row expected st = Inr st'\<rbrakk> \<Longrightarrow> G st st'"
    and put: "\<lbrakk>wf_audit env st; put_item key row st = Inr st'\<rbrakk> \<Longrightarrow> G st st'"
begin

lemma triple_append:
  assumes "ar_tenant_id r = tenant" "compute_hash env r = ar_record_hash r"
  shows "service_triple (wf_audit env) G (since tenant old)
    (append_tenant_audit_record tenant (serialize_record r) expected)
    (\<lambda>done st. since tenant old st \<and> (done \<longrightarrow> has_since tenant old (serialize_record r) st))"
proof (cases "appendable tenant (serialize_record r) expected")
  case True
  have gen: "genuine env tenant (serialize_record r)" and prev: "rw_prev_hash (serialize_record r) = Some expected"
    using True assms by (auto simp: appendable_def genuine_def serialize_record_def)
  have step: "G st st' \<and> has_since tenant old (serialize_record r) st'"
    if "wf_audit env st" "since tenant old st" "txn_append tenant (serialize_record r) expected st = Inr st'" for st st'
  proof
    show "G st st'" by (rule append [OF that(1) gen prev that(3)])
    show "has_since tenant old (serialize_record r) st'"
      using txn_append_grows(2) [OF that(1) gen prev that(3)] that(2) by (auto simp: since_def has_since_def elim: prefixE)
  qed
  show ?thesis
    unfolding append_tenant_audit_record_def using True
    by (auto intro!: triple_bind [OF triple_write [OF stable_since stable_has step]]
        triple_return triple_fail split: outcome.split bool.split)
next
  case False
  then show ?thesis by (simp add: append_tenant_audit_record_def triple_fail)
qed

lemma triple_head:
  assumes "stable_under (grows env) P"
  shows "service_triple (wf_audit env) G P (load_tenant_head other) (\<lambda>_. P)"
proof -
  have get: "service_triple (wf_audit env) G P (get_io f) (\<lambda>_. P)" for f :: "audit_store \<Rightarrow> 'b"
    by (rule triple_weaken [OF triple_get [OF assms]]) auto
  have tried: "service_triple (wf_audit env) G P (try_io (get_io f)) (\<lambda>_. P)" for f :: "audit_store \<Rightarrow> 'b"
    by (rule triple_weaken [OF triple_try [OF get assms]]) auto
  show ?thesis
    unfolding load_tenant_head_def get_latest_tenant_audit_hash_def get_latest_audit_hash_def load_audit_records_def
      load_audit_records_strict_def
    by (auto intro!: triple_bind [OF get] triple_bind [OF tried] triple_bind [where Q = "\<lambda>_. P"]
        triple_return triple_fail)
qed

lemma triple_attempts:
  "ar_tenant_id r = tenant \<Longrightarrow>
   service_triple (wf_audit env) G (since tenant old) (append_attempts env now n r t)
     (\<lambda>(res, t') st. since tenant old st \<and> (\<forall>r'. res = Inr r' \<longrightarrow> same_event r r'
        \<and> compute_hash env r' = ar_record_hash r' \<and> has_since tenant old (serialize_record r') st))"
proof (induction n arbitrary: r t)
  case 0
  show ?case by (auto intro!: triple_return)
next
  case (Suc n)
  let ?expected = "get_or (tr_heads t) tenant GENESIS_HASH"
  let ?attempt = "MAX_APPEND_ATTEMPTS - Suc n"
  define r' where "r' = link env ?expected (if ?attempt = 0 then r else r\<lparr>ar_timestamp := now ?attempt\<rparr>)"
  have r': "ar_tenant_id r' = tenant" "compute_hash env r' = ar_record_hash r'" "same_event r r'"
    using Suc.prems by (simp_all add: r'_def)
  note appended = triple_try [OF triple_append [OF r'(1,2), of old ?expected] stable_since]
  note reloaded = triple_try [OF triple_head [OF stable_since] stable_since]
  have rest: "service_triple (wf_audit env) G (since tenant old) (append_attempts env now n r' t2)
      (\<lambda>(res, t') st. since tenant old st \<and> (\<forall>r''. res = Inr r'' \<longrightarrow> same_event r r''
        \<and> compute_hash env r'' = ar_record_hash r'' \<and> has_since tenant old (serialize_record r'') st))" for t2
    by (rule triple_weaken [OF Suc.IH [OF r'(1)]]) (auto intro: same_event_trans [OF r'(3)])
  have step: "append_attempts env now (Suc n) r t
      = bind_io (try_io (append_tenant_audit_record tenant (serialize_record r') ?expected)) (\<lambda>c.
          (case c of
             None \<Rightarrow> return_io (Inl AppendUnavailable, t)
           | Some True \<Rightarrow> return_io (Inr r', t)
           | Some False \<Rightarrow> bind_io (try_io (load_tenant_head tenant)) (\<lambda>h.
               (case h of
                  None \<Rightarrow> return_io (Inl RecoveryUnavailable, t)
                | Some h \<Rightarrow> append_attempts env now n r' (set_head tenant (or_genesis h) t)))))"
    by (simp only: append_attempts.simps Let_def Suc.prems r'_def)
  show ?case
    unfolding step
    by (rule triple_bind [OF appended])
      (auto intro!: triple_return triple_bind [OF reloaded] triple_weaken [OF rest] simp: r'(2,3)
        split: option.split bool.split)
qed

lemma triple_initialize:
  assumes "stable_under (grows env) P"
  shows "service_triple (wf_audit env) G P (initialize_tenant_locked other t)
    (\<lambda>(i, t') st. P st \<and> tr_durable t' = tr_durable t \<and> tr_buffer_size t' = tr_buffer_size t)"
  unfolding initialize_tenant_locked_def
  by (auto intro!: triple_return triple_bind [OF triple_try [OF triple_head [OF assms] assms]]
      simp: set_head_def split: option.splits)

lemma triple_record:
  assumes "ac_tenant_id c = tenant" "tenant \<noteq> LEGACY_TENANT_ID" "tr_durable t"
  shows "service_triple (wf_audit env) G (since tenant old) (record_event env c t)
    (\<lambda>(res, t') st. \<forall>r. res = Inr r \<longrightarrow> same_event (audit_record_of c) r
        \<and> compute_hash env r = ar_record_hash r \<and> has_since tenant old (serialize_record r) st
        \<and> tr_heads t' tenant = Some (ar_record_hash r))"
proof (cases "blank (ac_tenant_id c)")
  case True
  then show ?thesis by (auto simp: record_event_def intro!: triple_return)
next
  case False
  have tenant: "ar_tenant_id (audit_record_of c) = tenant" by (simp add: audit_record_of_def assms(1))
  have locked: "service_triple (wf_audit env) G (\<lambda>st. since tenant old st \<and> tr_durable t1 = tr_durable t \<and> tr_buffer_size t1 = tr_buffer_size t)
      (record_locked env c t1)
      (\<lambda>(res, t') st. \<forall>r. res = Inr r \<longrightarrow> same_event (audit_record_of c) r
        \<and> compute_hash env r = ar_record_hash r \<and> has_since tenant old (serialize_record r) st)" for t1
  proof (cases "tr_durable t1 = tr_durable t")
    case True
    then have "record_locked env c t1 = append_attempts env (ac_now c) MAX_APPEND_ATTEMPTS (audit_record_of c) t1"
      using assms by (simp add: record_locked_def append_tenant_record_def Let_def)
    then show ?thesis by (auto intro: triple_weaken [OF triple_attempts [OF tenant]])
  next
    case False
    then show ?thesis by (simp add: service_triple_def)
  qed
  have head: "tr_heads (remember r t2) tenant = Some (ar_record_hash r)" if "same_event (audit_record_of c) r" for r t2
    using that tenant by (simp add: remember_def set_head_def same_event_def)
  let ?Q = "\<lambda>(res, t') st. \<forall>r. res = Inr r \<longrightarrow> same_event (audit_record_of c) r
        \<and> compute_hash env r = ar_record_hash r \<and> has_since tenant old (serialize_record r) st
        \<and> tr_heads t' tenant = Some (ar_record_hash r)"
  have rest: "service_triple (wf_audit env) G
      (\<lambda>st. since tenant old st \<and> tr_durable t1 = tr_durable t \<and> tr_buffer_size t1 = tr_buffer_size t)
      (case i of Inl e \<Rightarrow> return_io (Inl e, t1)
       | Inr _ \<Rightarrow> bind_io (record_locked env c t1) (\<lambda>(r, t2).
           return_io (case r of Inl e \<Rightarrow> (Inl e, t2) | Inr rec \<Rightarrow> (Inr rec, remember rec t2)))) ?Q" for i :: "audit_error + unit" and t1
    by (cases i) (auto intro!: triple_return triple_bind [OF locked] simp: head split: sum.splits)
  have "service_triple (wf_audit env) G (since tenant old)
      (bind_io (initialize_tenant_locked tenant t) (\<lambda>(i, t1).
        (case i of Inl e \<Rightarrow> return_io (Inl e, t1)
         | Inr _ \<Rightarrow> bind_io (record_locked env c t1) (\<lambda>(r, t2).
             return_io (case r of Inl e \<Rightarrow> (Inl e, t2) | Inr rec \<Rightarrow> (Inr rec, remember rec t2)))))) ?Q"
    by (rule triple_bind [OF triple_initialize [OF stable_since]]) (use rest in \<open>simp split: prod.split\<close>)
  then show ?thesis using False assms(1) by (simp add: record_event_def)
qed

end

lemma grows_wf: "grows env st st' \<Longrightarrow> wf_audit env st'"
  by (simp add: grows_def)

lemma grows_only_grows: "grows_only env tenant st st' \<Longrightarrow> grows env st st'"
  by (simp add: grows_only_def)

lemma grows_only_trans: "grows_only env tenant a b \<Longrightarrow> grows_only env tenant b c \<Longrightarrow> grows_only env tenant a c"
  unfolding grows_only_def using grows_trans by metis

interpretation log_fleet: audit_guarantee env "grows env" tenant for env tenant
proof (unfold_locales, goal_cases)
  case 1 then show ?case by (rule grows_refl)
next
  case 2 then show ?case by (blast intro: grows_trans)
next
  case 4 then show ?case by (rule grows_wf)
next
  case 5 then show ?case by (blast intro: grows_only_grows txn_append_grows(1))
next
  case 6 then show ?case by (blast intro: grows_only_grows put_item_grows)
qed

interpretation own: audit_guarantee env "grows_only env tenant" tenant for env tenant
proof (unfold_locales, goal_cases)
  case 1 then show ?case by (simp add: grows_only_def grows_refl)
next
  case 2 then show ?case by (blast intro: grows_only_trans)
next
  case 3 then show ?case by (blast intro: grows_only_grows)
next
  case 4 then show ?case by (rule grows_wf)
next
  case 5 then show ?case by (blast intro: txn_append_grows(1))
next
  case 6 then show ?case by (rule put_item_grows)
qed

section \<open>Properties\<close>

text \<open>C9: recording refines appending to a log. Under any number of steps of other instances that only append
  rows of their own, and any lost or falsely reported service call, a record that \<open>record\<close> returns is an entry
  of its tenant's durable log after all entries that were there before, it is the event the caller gave, its
  hash is right, it is the trail's new head, and the log is still one unbroken chain ending in the stored head.\<close>

theorem record_appends_to_log:
  assumes "good_service (wf_audit env) (grows env) w"
    and "tr_durable t" "ac_tenant_id c \<noteq> LEGACY_TENANT_ID"
    and "record_event env c t w = (Some (Inr r, t'), w')"
  shows "\<exists>new. audit_log (ac_tenant_id c) (wd_store w') = audit_log (ac_tenant_id c) (wd_store w) @ new
      \<and> serialize_record r \<in> set new
      \<and> same_event (audit_record_of c) r \<and> ar_record_hash r = compute_hash env r
      \<and> tr_heads t' (ac_tenant_id c) = Some (ar_record_hash r) \<and> wf_audit env (wd_store w')"
proof -
  let ?old = "audit_log (ac_tenant_id c) (wd_store w)"
  have "since (ac_tenant_id c) ?old (wd_store w)" by (simp add: since_def)
  note res = tripleD [OF log_fleet.triple_record [OF HOL.refl assms(3,2), of env ?old] assms(1) this assms(4)]
  from res(3) [OF HOL.refl] have got: "same_event (audit_record_of c) r" "compute_hash env r = ar_record_hash r"
      "has_since (ac_tenant_id c) ?old (serialize_record r) (wd_store w')" "tr_heads t' (ac_tenant_id c) = Some (ar_record_hash r)"
    by simp_all
  then show ?thesis using res(1) by (auto simp: has_since_def good_service_def)
qed

definition quiet_world :: "'s \<Rightarrow> 's service_world" where
  "quiet_world st = \<lparr>wd_store = st, wd_env = []\<rparr>"

lemma quiet_world_simps [simp]: "wd_store (quiet_world st) = st" "wd_env (quiet_world st) = []"
  by (simp_all add: quiet_world_def)

definition answered :: "((audit_error + 'a) \<times> trail) option \<times> 'w \<Rightarrow> bool" where
  "answered x \<longleftrightarrow> (case fst x of Some (Inr _, _) \<Rightarrow> True | _ \<Rightarrow> False)"

lemma answeredE:
  assumes "answered x"
  obtains r t' w' where "x = (Some (Inr r, t'), w')"
  using assms by (cases x) (auto simp: answered_def split: option.splits sum.splits)

theorem record_appends_to_log_witness:
  "\<exists>r t' w'. record_event sample_audit_env (sample_call ''1'' ''t1'') (new_trail True 10) (quiet_world empty_audit) = (Some (Inr r, t'), w')
     \<and> serialize_record r \<in> set (audit_log ''acme'' (wd_store w'))"
proof -
  have "answered (record_event sample_audit_env (sample_call ''1'' ''t1'') (new_trail True 10) (quiet_world empty_audit))"
    by code_simp
  then obtain r t' w' where run: "record_event sample_audit_env (sample_call ''1'' ''t1'') (new_trail True 10)
      (quiet_world empty_audit) = (Some (Inr r, t'), w')" by (rule answeredE)
  have "good_service (wf_audit sample_audit_env) (grows sample_audit_env) (quiet_world empty_audit)"
    by (simp add: good_service_def good_env_def wf_audit_empty)
  from record_appends_to_log [OF this _ _ run] run show ?thesis
    by (auto simp: new_trail_def sample_call_def LEGACY_TENANT_ID_def)
qed

text \<open>tenants are isolated in the audit store. While the other instances write only the log of the same tenant,
  recording an event leaves the log of every other tenant as it was, whether it succeeds or fails.\<close>

theorem audit_tenants_isolated:
  assumes "good_service (wf_audit env) (grows_only env (ac_tenant_id c)) w"
    and "tr_durable t" "ac_tenant_id c \<noteq> LEGACY_TENANT_ID" "other \<noteq> ac_tenant_id c"
    and "record_event env c t w = (res, w')"
  shows "audit_log other (wd_store w') = audit_log other (wd_store w)"
proof -
  have "since (ac_tenant_id c) [] (wd_store w)" by (simp add: since_def)
  from tripleD(2) [OF own.triple_record [OF HOL.refl assms(3,2)] assms(1) this assms(5)] assms(4)
  show ?thesis by (simp add: grows_only_def)
qed

theorem audit_tenants_isolated_witness:
  "audit_log ''other'' (wd_store (snd (record_event sample_audit_env (sample_call ''1'' ''t1'') (new_trail True 10) (quiet_world empty_audit)))) = []"
proof -
  have "good_service (wf_audit sample_audit_env) (grows_only sample_audit_env (ac_tenant_id (sample_call ''1'' ''t1''))) (quiet_world empty_audit)"
    by (simp add: good_service_def good_env_def wf_audit_empty)
  from audit_tenants_isolated [OF this _ _ _ surjective_pairing, of "new_trail True 10" "''other''"] show ?thesis
    by (simp add: new_trail_def sample_call_def LEGACY_TENANT_ID_def audit_log_def empty_audit_def)
qed

section \<open>Reading the log back\<close>

text \<open>The stored texts are in the form the code writes them.\<close>

definition readable :: "audit_env \<Rightarrow> audit_row \<Rightarrow> bool" where
  "readable env row \<longleftrightarrow> ev_time env (rw_timestamp row) = Some (rw_timestamp row)
     \<and> (\<forall>d. rw_data row = Some d \<longrightarrow> ev_json env d = Some d)"

text \<open>The sort keys of a log increase with the order of its entries.\<close>

definition keys_increase :: "audit_row list \<Rightarrow> bool" where
  "keys_increase rows \<longleftrightarrow> sorted (map (\<lambda>row. record_sk (rw_timestamp row) (rw_record_id row)) rows)"

lemma deserialize_serialize:
  assumes "\<not> blank (ar_tenant_id r)" "readable env (serialize_record r)"
  shows "deserialize_record env (ar_tenant_id r) (serialize_record r) = Some r"
  using assms
  by (auto simp: deserialize_record_def row_tenant_def serialize_record_def readable_def or_empty_def LEGACY_TENANT_ID_def)

lemma log_genuine: "wf_audit env st \<Longrightarrow> row \<in> set (audit_log tenant st) \<Longrightarrow> genuine env tenant row"
  by (auto simp: wf_audit_def audit_log_def)

lemma loaded_in_append_order:
  assumes "wf_audit env st" "keys_increase (audit_log tenant st)"
  shows "tenant_rows tenant st = audit_log tenant st"
proof -
  let ?own = "filter (\<lambda>(k, _). fst k = tenant) (au_rows st)"
  have keys: "map (\<lambda>(k, _). snd k) ?own = map (\<lambda>row. record_sk (rw_timestamp row) (rw_record_id row)) (map snd ?own)"
    using assms(1) by (auto simp: wf_audit_def)
  have "sorted (map (\<lambda>(k, _). snd k) ?own)"
    unfolding keys using assms(2) by (simp only: keys_increase_def audit_log_def)
  then show ?thesis by (simp add: tenant_rows_def audit_log_def sort_key_id_if_sorted)
qed

lemma genuineE:
  assumes "genuine env tenant row" "\<not> blank tenant" "readable env row"
  obtains r where "row = serialize_record r" "deserialize_record env tenant row = Some r"
    "compute_hash env r = ar_record_hash r" "ar_prev_hash r = or_empty (rw_prev_hash row)"
    "ar_record_hash r = or_empty (rw_record_hash row)" "rw_project_id row = Some (ar_project_id r)"
proof -
  from assms(1) obtain r where r: "row = serialize_record r" "ar_record_hash r = compute_hash env r" "ar_tenant_id r = tenant"
    by (auto simp: genuine_def)
  with assms deserialize_serialize [of r env] have "deserialize_record env tenant row = Some r" by simp
  moreover have "ar_prev_hash r = or_empty (rw_prev_hash row)" "ar_record_hash r = or_empty (rw_record_hash row)"
    "rw_project_id row = Some (ar_project_id r)"
    by (simp_all add: r(1) serialize_record_def or_empty_def)
  ultimately show ?thesis using that r(1,2) by metis
qed

lemma report_linked:
  assumes "\<forall>row\<in>set rows. genuine env tenant row \<and> readable env row" "\<not> blank tenant" "linked prev rows"
  shows "report_rows env tenant project expected prev n m rows
    = Inr (row_head prev rows, n + length rows, m + length (filter (\<lambda>row. project = None \<or> rw_project_id row = project) rows))"
  using assms(1,3)
proof (induction rows arbitrary: prev n m)
  case (Cons row rows)
  from Cons.prems(1) assms(2) obtain r where r: "row = serialize_record r" "deserialize_record env tenant row = Some r"
    "compute_hash env r = ar_record_hash r" "ar_prev_hash r = or_empty (rw_prev_hash row)"
    "ar_record_hash r = or_empty (rw_record_hash row)" "rw_project_id row = Some (ar_project_id r)"
    by (auto elim: genuineE)
  have "ar_prev_hash r = prev" using Cons.prems(2) r(4) by (simp add: or_empty_def)
  moreover have "row_head prev (row # rows) = row_head (ar_record_hash r) rows" by (simp add: row_head_def r(5))
  ultimately show ?case using Cons.IH [of "ar_record_hash r"] Cons.prems r by simp
qed (simp add: row_head_def)

lemma hydrate_linked:
  assumes "\<forall>row\<in>set rows. genuine env tenant row \<and> readable env row" "\<not> blank tenant" "linked prev rows"
  shows "\<exists>records. deserialize_all env tenant rows = Some records \<and> map serialize_record records = rows
    \<and> hydrate_chain env prev records = Inr (row_head prev rows)"
  using assms(1,3)
proof (induction rows arbitrary: prev)
  case (Cons row rows)
  from Cons.prems(1) assms(2) obtain r where r: "row = serialize_record r" "deserialize_record env tenant row = Some r"
    "compute_hash env r = ar_record_hash r" "ar_prev_hash r = or_empty (rw_prev_hash row)"
    "ar_record_hash r = or_empty (rw_record_hash row)"
    by (auto elim: genuineE)
  have "ar_prev_hash r = prev" using Cons.prems(2) r(4) by (simp add: or_empty_def)
  moreover have "row_head prev (row # rows) = row_head (ar_record_hash r) rows" by (simp add: row_head_def r(5))
  moreover obtain records where "deserialize_all env tenant rows = Some records" "map serialize_record records = rows"
      "hydrate_chain env (ar_record_hash r) records = Inr (row_head (ar_record_hash r) rows)"
    using Cons.IH [of "ar_record_hash r"] Cons.prems r(5) by auto
  ultimately show ?case using r by (intro exI [of _ "r # records"]) simp
qed (simp add: row_head_def)

lemma head_quiet:
  assumes "wf_audit env (wd_store w)" "wd_env w = []" "\<not> blank tenant" "tenant \<noteq> LEGACY_TENANT_ID"
  shows "load_tenant_head tenant w = (Some (if audit_log tenant (wd_store w) = [] then None
      else Some (row_head GENESIS_HASH (audit_log tenant (wd_store w)))), w)"
proof -
  let ?log = "audit_log tenant (wd_store w)"
  have h: "au_heads (wd_store w) tenant = (if ?log = [] then None else Some (row_head GENESIS_HASH ?log))"
    using assms(1) by (simp add: wf_audit_def)
  moreover have "row_head GENESIS_HASH ?log \<noteq> []" if "?log \<noteq> []"
  proof -
    have "genuine env tenant (last ?log)" by (rule log_genuine [OF assms(1)]) (simp add: that)
    with that show ?thesis by (auto simp: genuine_def row_head_def serialize_record_def or_empty_def)
  qed
  ultimately show ?thesis
    using assms(2-4) by (simp add: load_tenant_head_def get_latest_tenant_audit_hash_def quiet_simps)
qed

text \<open>C17: what was recorded is what is read. When the sort keys of a tenant's log increase with its entries, the
  durable verification finds the whole log intact and counts a project's records in it, and a hydrated trail
  holds exactly its newest records, in order, with the stored head as the head to append to.\<close>

theorem stored_log_reads_back:
  assumes "wf_audit env (wd_store w)" "wd_env w = []" "tr_durable t" "\<not> blank tenant" "tenant \<noteq> LEGACY_TENANT_ID"
    and "rows = audit_log tenant (wd_store w)" "keys_increase rows" "\<forall>row\<in>set rows. readable env row"
  shows "verify_persisted_chain env project GENESIS_HASH tenant t w
      = (Some (Some (Intact (length rows) (length (filter (\<lambda>row. project = None \<or> rw_project_id row = project) rows)))), w)
    \<and> (\<exists>t'. hydrate_recent env tenant t w = (Some (Inr (length rows), t'), w)
        \<and> map serialize_record (buffer_for t' tenant) = last_n (tr_buffer_size t) rows
        \<and> tr_heads t' tenant = Some (row_head GENESIS_HASH rows))"
proof
  have rows: "\<forall>row\<in>set rows. genuine env tenant row \<and> readable env row"
    using assms(6,8) log_genuine [OF assms(1)] by simp
  have linked: "linked GENESIS_HASH rows" using assms(1,6) by (simp add: wf_audit_def)
  have load: "load_audit_rows tenant None strict w = (Some rows, w)" for strict
    using assms loaded_in_append_order [OF assms(1), of tenant]
    by (simp add: load_audit_rows_def load_tenant_audit_records_def quiet_simps)
  note head = head_quiet [OF assms(1,2,4,5), folded assms(6)]
  show "verify_persisted_chain env project GENESIS_HASH tenant t w
      = (Some (Some (Intact (length rows) (length (filter (\<lambda>row. project = None \<or> rw_project_id row = project) rows)))), w)"
    using assms(3,4) by (simp add: verify_persisted_chain_def quiet_simps load head report_linked [OF rows assms(4) linked])
  obtain records where r: "deserialize_all env tenant rows = Some records" "map serialize_record records = rows"
      "hydrate_chain env GENESIS_HASH records = Inr (row_head GENESIS_HASH rows)"
    using hydrate_linked [OF rows assms(4) linked] by blast
  have len: "length records = length rows" using arg_cong [OF r(2), of length] by simp
  then have empty: "records = [] \<longleftrightarrow> rows = []" by (metis length_0_conv)
  have "hydrate_recent env tenant t w
      = (Some (Inr (length rows), adopt_records tenant records (row_head GENESIS_HASH rows) t), w)"
    using assms(3,4,5) by (simp add: hydrate_recent_def hydrate_head_def quiet_simps load head r(1,3) len empty)
  then show "\<exists>t'. hydrate_recent env tenant t w = (Some (Inr (length rows), t'), w)
        \<and> map serialize_record (buffer_for t' tenant) = last_n (tr_buffer_size t) rows
        \<and> tr_heads t' tenant = Some (row_head GENESIS_HASH rows)"
    using r(2) len by (simp add: adopt_records_def buffer_for_def set_head_def last_n_def drop_map [symmetric])
qed

definition sample_log :: audit_store where
  "sample_log = wd_store (snd (record_event sample_audit_env (sample_call ''2'' ''t2'') (new_trail True 10)
     (snd (record_event sample_audit_env (sample_call ''1'' ''t1'') (new_trail True 10) (quiet_world empty_audit)))))"

lemma sample_log_wf: "wf_audit sample_audit_env sample_log"
proof -
  have good: "good_service (wf_audit sample_audit_env) (grows sample_audit_env) (quiet_world empty_audit)"
    by (simp add: good_service_def good_env_def wf_audit_empty)
  have "since ''acme'' [] st" for st by (simp add: since_def)
  note run = tripleD(1) [OF log_fleet.triple_record _ this surjective_pairing]
  show ?thesis
    unfolding sample_log_def
    using run [OF _ _ _ run [OF _ _ _ good]]
    by (simp add: good_service_def new_trail_def sample_call_def LEGACY_TENANT_ID_def)
qed

theorem stored_log_reads_back_witness:
  "fst (verify_persisted_chain sample_audit_env (Some ''p'') GENESIS_HASH ''acme'' (new_trail True 10) (quiet_world sample_log))
     = Some (Some (Intact 2 2))"
proof -
  have rows: "keys_increase (audit_log ''acme'' sample_log)"
      "list_all (\<lambda>row. ev_time sample_audit_env (rw_timestamp row) = Some (rw_timestamp row)) (audit_log ''acme'' sample_log)"
      "length (audit_log ''acme'' sample_log) = 2"
      "length (filter (\<lambda>row. rw_project_id row = Some ''p'') (audit_log ''acme'' sample_log)) = 2"
    by code_simp+
  have "\<forall>row\<in>set (audit_log ''acme'' sample_log). readable sample_audit_env row"
    by (simp add: readable_def sample_audit_env_def)
  from stored_log_reads_back [OF _ _ _ _ _ HOL.refl _, of sample_audit_env "quiet_world sample_log" "new_trail True 10" "''acme''" "Some ''p''"]
    sample_log_wf rows this
  show ?thesis by (simp add: new_trail_def blank_def py_space_def LEGACY_TENANT_ID_def)
qed

text \<open>Nothing more is needed than a second instance whose clock is behind for the log to read as tampered with.\<close>

lemma clock_skew_reads_tampered:
  "fst (verify_persisted_chain sample_audit_env None GENESIS_HASH ''acme'' (new_trail True 10)
     (snd (record_event sample_audit_env (sample_call ''2'' ''t1'') (new_trail True 10)
       (snd (record_event sample_audit_env (sample_call ''1'' ''t2'') (new_trail True 10) (quiet_world empty_audit))))))
   = Some (Some (Broken_at ''2'' NoGenesis 0))"
  by code_simp

text \<open>A failed read of the pre-tenant chain starts a new chain, where a tenant chain refuses to.\<close>

lemma legacy_outage_starts_at_genesis:
  assumes "tr_durable t" "LEGACY_TENANT_ID \<notin> tr_initialized t" "tenant \<notin> tr_initialized t"
    and "tenant \<noteq> LEGACY_TENANT_ID" "\<not> blank tenant"
  shows "fst (initialize_tenant_locked LEGACY_TENANT_ID t \<lparr>wd_store = st, wd_env = [(others, Lost)]\<rparr>)
      = Some (Inr (), (set_head LEGACY_TENANT_ID GENESIS_HASH t)\<lparr>tr_initialized := insert LEGACY_TENANT_ID (tr_initialized t)\<rparr>)"
    and "fst (initialize_tenant_locked tenant t \<lparr>wd_store = st, wd_env = [(others, Lost)]\<rparr>) = Some (Inl HeadUnavailable, t)"
  using assms
  by (simp_all add: initialize_tenant_locked_def load_tenant_head_def get_latest_audit_hash_def load_audit_records_def
      load_audit_records_strict_def get_latest_tenant_audit_hash_def get_io_def arrive_def bind_io_def try_io_def
      return_io_def or_genesis_def)

section \<open>The local buffer\<close>

text \<open>Recording without a durable store; no call is made.\<close>

primrec record_all :: "audit_env \<Rightarrow> audit_call list \<Rightarrow> trail \<Rightarrow> audit_store service_world \<Rightarrow> trail \<times> audit_store service_world" where
  "record_all env [] t w = (t, w)"
| "record_all env (c # cs) t w = (case record_event env c t w of
     (Some (_, t'), w') \<Rightarrow> record_all env cs t' w' | (None, w') \<Rightarrow> (t, w'))"

definition local_chain :: "audit_env \<Rightarrow> string \<Rightarrow> trail \<Rightarrow> audit_record list \<Rightarrow> bool" where
  "local_chain env tenant t rs \<longleftrightarrow> \<not> tr_durable t \<and> chain_ok env tenant GENESIS_HASH rs
     \<and> buffer_for t tenant = last_n (tr_buffer_size t) rs
     \<and> (if tenant \<in> tr_initialized t then get_or (tr_heads t) tenant GENESIS_HASH = last_hash GENESIS_HASH rs else rs = [])"

lemma push_last_n: "push_bounded n (last_n n xs) x = last_n n (xs @ [x])"
  by (cases "length xs \<le> n") (simp_all add: push_bounded_def last_n_def Suc_diff_le)

lemma record_local:
  assumes "local_chain env (ac_tenant_id c) t rs" "\<not> blank (ac_tenant_id c)"
  shows "\<exists>r t'. record_event env c t w = (Some (Inr r, t'), w) \<and> local_chain env (ac_tenant_id c) t' (rs @ [r])
    \<and> tr_buffer_size t' = tr_buffer_size t"
proof -
  let ?tenant = "ac_tenant_id c"
  let ?t1 = "if ?tenant \<in> tr_initialized t then t
     else (set_head ?tenant GENESIS_HASH t)\<lparr>tr_initialized := insert ?tenant (tr_initialized t)\<rparr>"
  let ?r = "link env (get_or (tr_heads ?t1) ?tenant GENESIS_HASH) (audit_record_of c)"
  have run: "record_event env c t w = (Some (Inr ?r, remember ?r ?t1), w)"
    using assms by (simp add: record_event_def local_chain_def initialize_tenant_locked_def record_locked_def
        bind_io_def return_io_def set_head_def Let_def)
  have head: "get_or (tr_heads ?t1) ?tenant GENESIS_HASH = last_hash GENESIS_HASH rs"
    using assms(1) by (simp add: local_chain_def set_head_def get_or_def split: if_splits)
  have tenant: "ar_tenant_id ?r = ?tenant" by (simp add: audit_record_of_def)
  have chain: "local_chain env ?tenant (remember ?r ?t1) (rs @ [?r])"
    using assms(1) head tenant
    by (auto simp: local_chain_def chain_ok_snoc remember_def set_head_def buffer_for_def push_last_n get_or_def)
  have "tr_buffer_size (remember ?r ?t1) = tr_buffer_size t" by (simp add: remember_def set_head_def)
  with run chain show ?thesis by blast
qed

lemma record_all_local:
  assumes "local_chain env tenant t rs" "\<forall>c\<in>set cs. ac_tenant_id c = tenant" "\<not> blank tenant"
  shows "\<exists>rs'. length rs' = length cs \<and> local_chain env tenant (fst (record_all env cs t w)) (rs @ rs')
    \<and> tr_buffer_size (fst (record_all env cs t w)) = tr_buffer_size t"
  using assms(1,2)
proof (induction cs arbitrary: t rs)
  case (Cons c cs)
  have c: "ac_tenant_id c = tenant" using Cons.prems(2) by simp
  from record_local [of env c t rs w] Cons.prems(1) assms(3) obtain r t'
    where r: "record_event env c t w = (Some (Inr r, t'), w)" "local_chain env tenant t' (rs @ [r])"
      "tr_buffer_size t' = tr_buffer_size t" unfolding c by blast
  obtain rs' where "length rs' = length cs" "local_chain env tenant (fst (record_all env cs t' w)) ((rs @ [r]) @ rs')"
      "tr_buffer_size (fst (record_all env cs t' w)) = tr_buffer_size t'"
    using Cons.IH [OF r(2)] Cons.prems(2) by auto
  then show ?case using r by (intro exI [of _ "r # rs'"]) simp
qed simp

text \<open>the buffer check tells tampering from overflow only until the buffer is full. After recording events of a
  tenant without a durable store, \<open>verify_chain\<close> on the buffer succeeds exactly when no record has been
  evicted: from the first eviction on an untouched trail is reported broken, because the check starts at the
  genesis hash and not at the predecessor of the oldest record still held.\<close>

theorem buffer_verifies_until_overflow:
  assumes "\<forall>c\<in>set cs. ac_tenant_id c = tenant" "\<not> blank tenant" "0 < n"
    and "\<forall>p. ev_digest env p \<noteq> GENESIS_HASH"
  shows "verify_chain env None GENESIS_HASH tenant (fst (record_all env cs (new_trail False n) w)) = Some (length cs \<le> n)"
proof -
  have "local_chain env tenant (new_trail False n) []"
    by (simp add: local_chain_def new_trail_def buffer_for_def last_n_def get_or_def)
  from record_all_local [OF this assms(1,2), of w] obtain rs
    where rs: "length rs = length cs" "local_chain env tenant (fst (record_all env cs (new_trail False n) w)) rs"
      "tr_buffer_size (fst (record_all env cs (new_trail False n) w)) = n"
    by (auto simp: new_trail_def)
  then have chain: "chain_ok env tenant GENESIS_HASH rs"
    and buffer: "buffer_for (fst (record_all env cs (new_trail False n) w)) tenant = last_n n rs"
    by (simp_all add: local_chain_def)
  have "chain_ok env tenant GENESIS_HASH (last_n n rs) \<longleftrightarrow> length rs \<le> n"
  proof (cases "length rs \<le> n")
    case True
    with chain show ?thesis by (simp add: last_n_def)
  next
    case False
    let ?k = "length rs - n"
    have split: "rs = take ?k rs @ rs ! ?k # drop (Suc ?k) rs" using False assms(3) by (intro id_take_nth_drop) simp
    have "take ?k rs \<noteq> []" using False by auto
    then obtain ss r where ss: "take ?k rs = ss @ [r]" by (metis rev_exhaust)
    have "chain_ok env tenant GENESIS_HASH ((ss @ [r]) @ rs ! ?k # drop (Suc ?k) rs)" using chain split ss by simp
    then have "ar_prev_hash (rs ! ?k) = compute_hash env r" by (simp add: chain_ok_append split: if_splits)
    moreover have "last_n n rs = rs ! ?k # drop (Suc ?k) rs"
      using False assms(3) by (simp add: last_n_def Cons_nth_drop_Suc)
    ultimately show ?thesis using False assms(4) by (simp add: compute_hash_def)
  qed
  with rs(1) buffer show ?thesis by (simp add: verify_chain_def assms(2))
qed

theorem buffer_verifies_until_overflow_witness:
  "verify_chain sample_audit_env None GENESIS_HASH ''acme''
     (fst (record_all sample_audit_env [sample_call ''1'' ''t1'', sample_call ''2'' ''t2''] (new_trail False 1)
        (quiet_world empty_audit))) = Some False"
proof -
  have "\<forall>p. ev_digest sample_audit_env p \<noteq> GENESIS_HASH" by (simp add: sample_audit_env_def GENESIS_HASH_def)
  then show ?thesis
    using buffer_verifies_until_overflow [of "[sample_call ''1'' ''t1'', sample_call ''2'' ''t2'']" "''acme''" 1 sample_audit_env]
    by (simp add: sample_call_def blank_def py_space_def)
qed

end
