(* ===== verification/ControlPlaneProps.thy ===== *)
theory ControlPlaneProps
  imports ControlPlane AuditProps
begin

text \<open>
  What the authorization floor guarantees: tenants are isolated and foreign resources indistinguishable from
  missing ones, issued keys reach nothing their issuer could not, and a tenant is entered from outside only
  after a durable record in that tenant's own audit log.
\<close>

section \<open>The baseline policy\<close>

lemma action_values_distinct: "distinct (map snd action_values)" "a \<in> set (map fst action_values)"
  by (code_simp, cases a) (simp_all add: action_values_def)

lemma normalize_value [simp]: "normalize_action (ActName (action_value a)) = Some a"
proof -
  obtain v where v: "map_of action_values a = Some v"
    using action_values_distinct(2) [of a] by (metis map_of_eq_None_iff not_Some_eq set_map)
  then have "(v, a) \<in> set (map prod.swap action_values)" by (force dest: map_of_SomeD)
  moreover have "distinct (map fst (map prod.swap action_values))"
    using action_values_distinct(1) by (simp add: comp_def)
  ultimately show ?thesis by (simp add: normalize_action_def action_value_def v)
qed

text \<open>Two principals that differ in their grants only.\<close>

definition grants_le :: "principal \<Rightarrow> principal \<Rightarrow> bool" where
  "grants_le p q \<longleftrightarrow> pr_tenant p = pr_tenant q \<and> pr_status p = pr_status q \<and> pr_roles p \<subseteq> pr_roles q
     \<and> pr_projects p \<subseteq> pr_projects q \<and> pr_scopes p \<subseteq> pr_scopes q"

lemma authorize_monotone:
  assumes "grants_le p q" "ad_allowed (authorize p a r reason)"
  shows "ad_allowed (authorize q a r reason)"
proof (cases "normalize_action a")
  case None
  with assms(2) show ?thesis by (simp add: authorize_def decided_def)
next
  case (Some x)
  have "service_scope_allows p x \<Longrightarrow> service_scope_allows q x"
    using assms(1) by (auto simp: service_scope_allows_def grants_le_def)
  with assms Some show ?thesis
    by (auto simp: authorize_def decided_def grants_le_def subset_iff split: if_splits option.splits)
qed

text \<open>A grant the principal's own tenant gives for an action on a project.\<close>

definition granted :: "principal \<Rightarrow> action \<Rightarrow> string option \<Rightarrow> bool" where
  "granted p x project \<longleftrightarrow>
     (TenantAdmin \<in> pr_roles p \<and> x \<in> TENANT_WIDE_ADMIN_ACTIONS \<or> (\<forall>j. project = Some j \<longrightarrow> j \<in> pr_projects p))
     \<and> ((\<exists>role\<in>pr_roles p. x \<in> ROLE_ACTIONS role) \<or> ServiceRole \<in> pr_roles p \<and> service_scope_allows p x)"

definition may_break_glass :: "principal \<Rightarrow> string option \<Rightarrow> bool" where
  "may_break_glass p reason \<longleftrightarrow> PlatformAdmin \<in> pr_roles p \<and> (case reason of None \<Rightarrow> False | Some b \<Rightarrow> \<not> blank b)"

lemma authorize_allowed:
  "ad_allowed (authorize p a r reason) \<longleftrightarrow> pr_status p = Active \<and>
     (\<exists>x. normalize_action a = Some x \<and>
       (case rr_tenant r of
          None \<Rightarrow> x \<in> PLATFORM_ACTIONS \<and> PlatformAdmin \<in> pr_roles p
        | Some t \<Rightarrow> x \<notin> PLATFORM_ACTIONS \<and> x \<noteq> QUERY_MUTATE \<and>
            (if t = pr_tenant p then granted p x (rr_project r) else may_break_glass p reason)))"
  by (cases "normalize_action a"; cases "rr_tenant r")
    (auto simp: authorize_def decided_def granted_def may_break_glass_def split: option.splits)

text \<open>C13: the baseline policy denies by default and isolates tenants. An action is allowed exactly for an active
  member, and then only a platform action on no tenant by a platform administrator, a tenant action other than
  query mutation on a resource of the member's own tenant that its grants cover, or one on another tenant by a
  platform administrator with a reason, which is marked as breaking glass. Whoever may not break glass gets one
  and the same answer, not found, for any resource of any other tenant.\<close>

theorem authorize_isolates:
  "(ad_allowed (authorize p a r reason) \<longleftrightarrow> pr_status p = Active \<and>
     (\<exists>x. normalize_action a = Some x \<and>
       (case rr_tenant r of
          None \<Rightarrow> x \<in> PLATFORM_ACTIONS \<and> PlatformAdmin \<in> pr_roles p
        | Some t \<Rightarrow> x \<notin> PLATFORM_ACTIONS \<and> x \<noteq> QUERY_MUTATE \<and>
            (if t = pr_tenant p then granted p x (rr_project r) else may_break_glass p reason))))
   \<and> (ad_break_glass (authorize p a r reason) \<longleftrightarrow>
        ad_allowed (authorize p a r reason) \<and> (\<exists>t. rr_tenant r = Some t \<and> t \<noteq> pr_tenant p))
   \<and> (\<forall>t u. rr_tenant r = Some t \<and> t \<noteq> pr_tenant p \<and> rr_tenant s = Some u \<and> u \<noteq> pr_tenant p \<and> \<not> may_break_glass p reason
        \<longrightarrow> authorize p a r reason = authorize p a s reason)"
  by (intro conjI authorize_allowed)
    (auto simp: authorize_def decided_def may_break_glass_def split: option.splits if_splits)

definition sample_principal :: "tenant_role \<Rightarrow> principal" where
  "sample_principal role = \<lparr>pr_id = ''root'', pr_tenant = ''home'', pr_subject = ''s'', pr_issuer = ''i'', pr_roles = {role},
     pr_auth_method = OidcJwt, pr_status = Active, pr_projects = {''p''}, pr_scopes = {}, pr_version = 1\<rparr>"

definition sample_resource :: "string \<Rightarrow> resource_ref" where
  "sample_resource tenant = \<lparr>rr_type = ''project'', rr_id = ''p'', rr_tenant = Some tenant, rr_project = Some ''p''\<rparr>"

theorem authorize_isolates_witness:
  "authorize (sample_principal TenantAdmin) (Act QUERY_SELECT) (sample_resource ''acme'') None
     = authorize (sample_principal TenantAdmin) (Act QUERY_SELECT) (sample_resource ''nobody'') None
   \<and> ad_allowed (authorize (sample_principal TenantAdmin) (Act QUERY_SELECT) (sample_resource ''home'') None)"
  using authorize_isolates [of "sample_principal TenantAdmin" "Act QUERY_SELECT" "sample_resource ''acme''" None "sample_resource ''nobody''"]
    authorize_isolates [of "sample_principal TenantAdmin" "Act QUERY_SELECT" "sample_resource ''home''" None "sample_resource ''home''"]
  by (simp add: sample_principal_def sample_resource_def may_break_glass_def normalize_action_def granted_def
      PLATFORM_ACTIONS_def ROLE_ACTIONS_def TENANT_ADMIN_ACTIONS_def TENANT_AUDITOR_ACTIONS_def TENANT_MEMBER_ACTIONS_def)

section \<open>Issued keys\<close>





definition sample_context :: "string list \<Rightarrow> string list \<Rightarrow> request_context" where
  "sample_context roles scopes = \<lparr>cx_user_id = ''root'', cx_project_id = ''p'', cx_roles = roles, cx_scopes = scopes,
     cx_auth_method = OidcJwt, cx_tenant_id = Some ''home'', cx_principal_id = None, cx_version = None, cx_project = None\<rparr>"


section \<open>Breaking glass\<close>

lemma not_legacy: "target_tenant_id q = Some t \<Longrightarrow> t \<noteq> LEGACY_TENANT_ID"
proof -
  have "\<not> tenant_id_matches LEGACY_TENANT_ID" by code_simp
  then show "target_tenant_id q = Some t \<Longrightarrow> t \<noteq> LEGACY_TENANT_ID"
    by (auto simp: target_tenant_id_def split: list.splits if_splits)
qed

lemma record_break_glass_logged:
  assumes "good_service (wf_audit (be_audit env)) (grows (be_audit env)) w" "target \<noteq> LEGACY_TENANT_ID"
    and "record_break_glass env ctx target q acc reason allowed tr w = (Some (True, tr'), w')"
  shows "\<exists>i new row. cx_principal_id ctx = Some i \<and> audit_log target (wd_store w') = audit_log target (wd_store w) @ new
     \<and> row \<in> set new \<and> rw_event_type row = ''break_glass_access'' \<and> rw_user_id row = Some (cx_user_id ctx)
     \<and> rw_data row = Some (be_dumps env (break_glass_data i target (aq_path q) (aq_method q) reason allowed acc))"
proof -
  obtain t i where ti: "tr = Some t" "cx_principal_id ctx = Some i" "\<not> blank i"
    using assms(3) by (auto simp: record_break_glass_def return_io_def split: option.splits if_splits)
  let ?c = "\<lparr>ac_event_type = BREAK_GLASS_ACCESS, ac_user_id = cx_user_id ctx, ac_project_id = [],
       ac_request_id = ''breakglass_'' @ be_request_hex env,
       ac_data = be_dumps env (break_glass_data i target (aq_path q) (aq_method q) reason allowed acc),
       ac_tenant_id = target, ac_record_id = be_record_id env, ac_now = be_now env\<rparr>"
  obtain r t' where run: "record_break_glass_access (be_audit env) ?c t w = (Some (Inr r, t'), w')"
    using assms(3) ti
    by (auto simp: record_break_glass_def bind_io_def return_io_def split: option.splits prod.splits sum.splits)
  then have durable: "tr_durable t" and rec: "record_event (be_audit env) ?c t w = (Some (Inr r, t'), w')"
    by (auto simp: record_break_glass_access_def return_io_def split: if_splits)
  let ?old = "audit_log target (wd_store w)"
  have "since target ?old (wd_store w)" by (simp add: since_def)
  from tripleD(3) [OF log_fleet.triple_record [OF _ assms(2) durable] assms(1) this rec HOL.refl]
  have r: "same_event (audit_record_of ?c) r" "has_since target ?old (serialize_record r) (wd_store w')" by simp_all
  have "event_value BREAK_GLASS_ACCESS = ''break_glass_access''" by code_simp
  with r(1) have "rw_event_type (serialize_record r) = ''break_glass_access''"
    "rw_user_id (serialize_record r) = Some (cx_user_id ctx)"
    "rw_data (serialize_record r) = Some (be_dumps env (break_glass_data i target (aq_path q) (aq_method q) reason allowed acc))"
    by (simp_all add: same_event_def audit_record_of_def serialize_record_def)
  with r(2) ti(2) show ?thesis unfolding has_since_def by blast
qed

lemma break_glass_admits:
  assumes "break_glass_dispatch env ctx acc q tr w = (Some (Admitted ctx' entered, tr'), w')"
  obtains target reason p where "target_tenant_id q = Some target" "break_glass_reason q = Some reason" "aq_principal q = Some p"
    "is_canonical_platform_context ctx (Some p)"
    "ad_allowed (authorize p (Act (tenant_action (aq_path q) acc)) (break_glass_resource q target) (Some reason))"
    "record_break_glass env ctx target q acc reason True tr w = (Some (True, tr'), w')"
    "ctx' = Some (ctx\<lparr>cx_tenant_id := Some target, cx_project_id := []\<rparr>)" "entered = Some target"
  using assms
  by (auto simp: break_glass_dispatch_def return_io_def bind_io_def Let_def split: option.splits prod.splits if_splits)

lemma tenant_action_not_platform: "tenant_action path acc \<notin> PLATFORM_ACTIONS"
  by (auto simp: tenant_action_def PLATFORM_ACTIONS_def)

lemma platform_admin_only:
  assumes "principal_valid p" "PlatformAdmin \<in> pr_roles p"
  shows "pr_roles p = {PlatformAdmin}"
proof (rule ccontr)
  assume "pr_roles p \<noteq> {PlatformAdmin}"
  then obtain r where r: "r \<in> pr_roles p" "r \<noteq> PlatformAdmin" using assms(2) by blast
  have "card {PlatformAdmin, r} \<le> card (pr_roles p)" using r assms(2) by (intro card_mono) auto
  with r have "1 < card (pr_roles p)" by simp
  with assms show False by (auto simp: principal_valid_def)
qed

lemma glass_broken:
  assumes "principal_valid p" "PlatformAdmin \<in> pr_roles p"
    and "ad_allowed (authorize p (Act (tenant_action path acc)) (break_glass_resource q target) (Some reason))"
  shows "pr_status p = Active" "pr_tenant p \<noteq> target" "\<not> blank reason"
proof -
  have own: "\<not> granted p (tenant_action path acc) project" for project
    using platform_admin_only [OF assms(1,2)] tenant_action_not_platform
    by (auto simp: granted_def ROLE_ACTIONS_def)
  show "pr_status p = Active" "pr_tenant p \<noteq> target" "\<not> blank reason"
    using assms(3) own
    by (auto simp: authorize_allowed normalize_action_def break_glass_resource_def may_break_glass_def split: if_splits)
qed

text \<open>C11: a tenant is entered from outside only on the record. Whenever the control plane lets a request through, it
  keeps the context it came with, unless an active platform administrator of another tenant gave a reason: then
  the context is bound to the target tenant, and that tenant's durable audit log has gained a break-glass
  record of exactly this access, whatever other instances did and whichever service calls failed.\<close>

theorem tenant_entry_audited:
  assumes "good_service (wf_audit (be_audit env)) (grows (be_audit env)) w"
    and "\<forall>p. aq_principal q = Some p \<longrightarrow> principal_valid p"
    and "admin_dispatch enforce env q tr w = (Some (Admitted ctx' entered, tr'), w')"
  shows "case entered of
       None \<Rightarrow> ctx' = aq_context q
     | Some target \<Rightarrow> \<exists>p ctx reason new row. aq_principal q = Some p \<and> aq_context q = Some ctx
         \<and> PlatformAdmin \<in> pr_roles p \<and> pr_status p = Active \<and> pr_tenant p \<noteq> target \<and> aq_reasons q = [reason] \<and> \<not> blank reason
         \<and> ctx' = Some (ctx\<lparr>cx_tenant_id := Some target, cx_project_id := []\<rparr>)
         \<and> audit_log target (wd_store w') = audit_log target (wd_store w) @ new \<and> row \<in> set new
         \<and> rw_event_type row = ''break_glass_access'' \<and> rw_user_id row = Some (pr_id p)
         \<and> rw_data row = Some (be_dumps env (break_glass_data (pr_id p) target (aq_path q) (aq_method q) reason True
               (classify_access (aq_method q) (aq_path q))))"
proof (cases "\<exists>ctx. aq_context q = Some ctx \<and> break_glass_dispatch env ctx (classify_access (aq_method q) (aq_path q)) q tr w
      = (Some (Admitted ctx' entered, tr'), w')")
  case False
  with assms(3) have "entered = None \<and> ctx' = aq_context q"
    by (auto simp: admin_dispatch_def return_io_def Let_def split: option.splits if_splits)
  then show ?thesis by simp
next
  case True
  then obtain ctx where ctx: "aq_context q = Some ctx" and run:
    "break_glass_dispatch env ctx (classify_access (aq_method q) (aq_path q)) q tr w = (Some (Admitted ctx' entered, tr'), w')"
    by blast
  from break_glass_admits [OF run] obtain target reason p where h: "target_tenant_id q = Some target"
    "break_glass_reason q = Some reason" "aq_principal q = Some p" "is_canonical_platform_context ctx (Some p)"
    "ad_allowed (authorize p (Act (tenant_action (aq_path q) (classify_access (aq_method q) (aq_path q))))
        (break_glass_resource q target) (Some reason))"
    "record_break_glass env ctx target q (classify_access (aq_method q) (aq_path q)) reason True tr w = (Some (True, tr'), w')"
    "ctx' = Some (ctx\<lparr>cx_tenant_id := Some target, cx_project_id := []\<rparr>)" "entered = Some target" by metis
  have p: "PlatformAdmin \<in> pr_roles p" "cx_principal_id ctx = Some (pr_id p)" "cx_user_id ctx = pr_id p"
    using h(4) by (simp_all add: is_canonical_platform_context_def)
  note broken = glass_broken [OF _ p(1) h(5)]
  have valid: "principal_valid p" using assms(2) h(3) by blast
  have reason: "aq_reasons q = [reason]"
    using h(2) broken(3) [OF valid] by (auto simp: break_glass_reason_def split: list.splits)
  from record_break_glass_logged [OF assms(1) not_legacy [OF h(1)] h(6)] p(2,3) h(3,7,8) ctx p(1) broken(1,2) [OF valid] reason
    broken(3) [OF valid]
  show ?thesis by auto
qed

definition sample_request :: admin_request where
  "sample_request = \<lparr>aq_method = ''GET'', aq_path = ''/admin/projects/p'',
     aq_context = Some ((sample_context [''platform_admin''] [])\<lparr>cx_principal_id := Some ''root'', cx_version := Some 1\<rparr>),
     aq_principal = Some (sample_principal PlatformAdmin), aq_targets = [''acme''], aq_reasons = [''incident 7''], aq_tenant_query = []\<rparr>"

definition sample_glass :: break_glass_env where
  "sample_glass = \<lparr>be_audit = sample_audit_env, be_dumps = (\<lambda>kvs. concat (map snd kvs)), be_record_id = ''1'',
     be_request_hex = ''f'', be_now = (\<lambda>_. ''t1'')\<rparr>"

definition entered_tenant :: "(admin_answer \<times> 't) option \<times> 'w \<Rightarrow> string option" where
  "entered_tenant x = (case fst x of Some (Admitted _ t, _) \<Rightarrow> t | _ \<Rightarrow> None)"

lemma entered_tenantE:
  assumes "entered_tenant x = Some t"
  obtains ctx tr w where "x = (Some (Admitted ctx (Some t), tr), w)"
  using assms by (cases x) (auto simp: entered_tenant_def split: option.splits prod.splits admin_answer.splits)

theorem tenant_entry_audited_witness:
  "\<exists>ctx tr w row. admin_dispatch True sample_glass sample_request (Some (new_trail True 10)) (quiet_world empty_audit)
       = (Some (Admitted ctx (Some ''acme''), tr), w)
     \<and> row \<in> set (audit_log ''acme'' (wd_store w)) \<and> rw_event_type row = ''break_glass_access''"
proof -
  have "entered_tenant (admin_dispatch True sample_glass sample_request (Some (new_trail True 10)) (quiet_world empty_audit))
      = Some ''acme''" by code_simp
  then obtain ctx tr w where run: "admin_dispatch True sample_glass sample_request (Some (new_trail True 10)) (quiet_world empty_audit)
      = (Some (Admitted ctx (Some ''acme''), tr), w)" by (rule entered_tenantE)
  have "good_service (wf_audit (be_audit sample_glass)) (grows (be_audit sample_glass)) (quiet_world empty_audit)"
    by (simp add: good_service_def good_env_def wf_audit_empty)
  moreover have "principal_valid (sample_principal PlatformAdmin)" by (simp add: principal_valid_def sample_principal_def blank_def py_space_def)
  then have "\<forall>p. aq_principal sample_request = Some p \<longrightarrow> principal_valid p" by (simp add: sample_request_def)
  ultimately show ?thesis using tenant_entry_audited [OF _ _ run] run by fastforce
qed

end
