(* ===== verification/Region.thy ===== *)
theory Region
  imports Prelude
begin

text \<open>
  The hub-and-spoke topology of \<open>src/gateway/multi_region\<close>: the configuration of the regional spokes
  (\<open>region_config.py\<close>), the choice of a spoke for a request (\<open>region_router.py\<close>) and the health monitor
  that moves spokes in and out of rotation (\<open>health_monitor.py\<close>).

  \<open>randbelow\<close> is a parameter. A check awaits the network, so a topology refresh may replace the spokes
  before its result is applied: \<open>ce_meanwhile\<close> is what happened to the hub in between.
\<close>

section \<open>Configuration\<close>

datatype spoke_role = PrimaryRole | FailoverRole | ActiveRole

datatype spoke_status = Healthy | Unhealthy | Degraded | Draining

record spoke =
  sk_region :: string
  sk_role :: spoke_role
  sk_weight :: int
  sk_status :: spoke_status
  sk_endpoint :: string
  sk_providers :: "string list"
  sk_models :: "string list"
  sk_zones :: "string list"
  sk_health_url :: string
  sk_max_latency_ms :: rat
  sk_failover_priority :: int

record hub =
  hb_region :: string
  hb_spokes :: "spoke list"
  hb_interval :: int
  hb_threshold :: int
  hb_cooldown :: rat
  hb_strict :: bool
  hb_revision :: int

definition spoke_valid :: "spoke \<Rightarrow> bool" where
  "spoke_valid s \<longleftrightarrow> 0 \<le> sk_weight s"

definition hub_valid :: "hub \<Rightarrow> bool" where
  "hub_valid h \<longleftrightarrow> 0 < hb_interval h \<and> list_all spoke_valid (hb_spokes h)"

definition get_spoke :: "string \<Rightarrow> hub \<Rightarrow> spoke option" where
  "get_spoke region h = find (\<lambda>s. sk_region s = region) (hb_spokes h)"

definition get_primary :: "hub \<Rightarrow> spoke option" where
  "get_primary h = find (\<lambda>s. sk_role s = PrimaryRole) (hb_spokes h)"

definition get_failover_candidates :: "hub \<Rightarrow> spoke list" where
  "get_failover_candidates h = sort_key sk_failover_priority
     (filter (\<lambda>s. sk_role s \<in> {FailoverRole, ActiveRole} \<and> sk_status s = Healthy) (hb_spokes h))"

text \<open>A persisted document; \<open>None\<close> is an absent key. \<open>st_role\<close> is the stored role text.\<close>

record stored_spoke =
  st_region :: string
  st_role :: "string option"
  st_weight :: "int option"
  st_endpoint :: "string option"
  st_providers :: "string list option"
  st_models :: "string list option"
  st_zones :: "string list option"
  st_health_url :: "string option"
  st_max_latency_ms :: "rat option"
  st_failover_priority :: "int option"

record stored_topology =
  sd_hub_region :: string
  sd_spokes :: "stored_spoke list"
  sd_interval :: int
  sd_threshold :: int
  sd_cooldown :: rat
  sd_strict :: bool
  sd_revision :: "int option"

definition parse_role :: "string \<Rightarrow> spoke_role option" where
  "parse_role r = (if r = ''primary'' then Some PrimaryRole else if r = ''failover'' then Some FailoverRole
     else if r = ''active'' then Some ActiveRole else None)"

definition or_else :: "'a option \<Rightarrow> 'a \<Rightarrow> 'a" where
  "or_else x d = (case x of None \<Rightarrow> d | Some v \<Rightarrow> v)"

definition spoke_of_stored :: "(string \<rightharpoonup> spoke_status) \<Rightarrow> stored_spoke \<Rightarrow> spoke option" where
  "spoke_of_stored previous s =
     (case parse_role (or_else (st_role s) ''active'') of
        None \<Rightarrow> None
      | Some role \<Rightarrow>
          let k = \<lparr>sk_region = st_region s, sk_role = role, sk_weight = or_else (st_weight s) 50,
                   sk_status = or_else (previous (st_region s)) Healthy,
                   sk_endpoint = or_else (st_endpoint s) [], sk_providers = or_else (st_providers s) [],
                   sk_models = or_else (st_models s) [], sk_zones = or_else (st_zones s) [],
                   sk_health_url = or_else (st_health_url s) [],
                   sk_max_latency_ms = or_else (st_max_latency_ms s) 5000,
                   sk_failover_priority = or_else (st_failover_priority s) 0\<rparr>
          in if spoke_valid k then Some k else None)"

fun all_some :: "'a option list \<Rightarrow> 'a list option" where
  "all_some [] = Some []"
| "all_some (None # xs) = None"
| "all_some (Some x # xs) = (case all_some xs of None \<Rightarrow> None | Some ys \<Rightarrow> Some (x # ys))"

text \<open>The dictionary comprehension over the current spokes: the last spoke of a region wins.\<close>

definition previous_status :: "hub \<Rightarrow> string \<rightharpoonup> spoke_status" where
  "previous_status h = map_of (rev (map (\<lambda>s. (sk_region s, sk_status s)) (hb_spokes h)))"

text \<open>\<open>None\<close> is the \<open>ValueError\<close>; the live hub is then left as it was.\<close>

definition apply_persisted_topology :: "stored_topology \<Rightarrow> bool \<Rightarrow> hub \<Rightarrow> hub option" where
  "apply_persisted_topology d preserve h =
     (let previous = (if preserve then previous_status h else Map.empty);
          revision = or_else (sd_revision d) 0
      in if revision < 0 then None
         else (case all_some (map (spoke_of_stored previous) (sd_spokes d)) of
                 None \<Rightarrow> None
               | Some spokes \<Rightarrow>
                   let candidate = \<lparr>hb_region = (if sd_hub_region d \<noteq> [] then sd_hub_region d else hb_region h),
                         hb_spokes = spokes, hb_interval = sd_interval d, hb_threshold = sd_threshold d,
                         hb_cooldown = sd_cooldown d, hb_strict = sd_strict d, hb_revision = revision\<rparr>
                   in if hub_valid candidate then Some candidate else None))"

definition new_spoke :: "string \<Rightarrow> spoke_role \<Rightarrow> int \<Rightarrow> int \<Rightarrow> spoke" where
  "new_spoke region role w priority =
     \<lparr>sk_region = region, sk_role = role, sk_weight = w, sk_status = Healthy, sk_endpoint = [],
      sk_providers = [], sk_models = [], sk_zones = [], sk_health_url = [], sk_max_latency_ms = 5000,
      sk_failover_priority = priority\<rparr>"

definition new_hub :: "string \<Rightarrow> spoke list \<Rightarrow> hub" where
  "new_hub region spokes =
     \<lparr>hb_region = region, hb_spokes = spokes, hb_interval = 30, hb_threshold = 3, hb_cooldown = 60,
      hb_strict = False, hb_revision = 0\<rparr>"

definition default_single_region :: "string \<Rightarrow> hub" where
  "default_single_region region = new_hub region [new_spoke region PrimaryRole 100 0]"

definition active_passive :: "string \<Rightarrow> string \<Rightarrow> hub" where
  "active_passive primary failover =
     new_hub primary [new_spoke primary PrimaryRole 100 0, new_spoke failover FailoverRole 0 1]"

section \<open>Routing\<close>

record decision =
  dc_target :: spoke
  dc_reason :: string
  dc_considered :: nat
  dc_fallback :: bool

definition decide :: "spoke \<Rightarrow> string \<Rightarrow> nat \<Rightarrow> decision" where
  "decide s reason n = \<lparr>dc_target = s, dc_reason = reason, dc_considered = n, dc_fallback = False\<rparr>"

definition in_rotation :: "spoke \<Rightarrow> bool" where
  "in_rotation s \<longleftrightarrow> sk_status s \<in> {Healthy, Degraded}"

definition serves_zone :: "string option \<Rightarrow> spoke \<Rightarrow> bool" where
  "serves_zone zone s \<longleftrightarrow> sk_zones s = [] \<or> (case zone of None \<Rightarrow> False | Some z \<Rightarrow> z \<in> set (sk_zones s))"

definition serves_model :: "string option \<Rightarrow> spoke \<Rightarrow> bool" where
  "serves_model model s \<longleftrightarrow> sk_models s = [] \<or> (case model of None \<Rightarrow> False | Some m \<Rightarrow> m \<in> set (sk_models s))"

definition is_failover_mode :: "hub \<Rightarrow> bool" where
  "is_failover_mode h = list_all (\<lambda>s. sk_weight s = 0 \<or> sk_role s = FailoverRole)
     (filter (\<lambda>s. sk_role s \<noteq> PrimaryRole) (hb_spokes h))"

fun pick_cumulative :: "int \<Rightarrow> int \<Rightarrow> spoke list \<Rightarrow> spoke option" where
  "pick_cumulative r acc [] = None"
| "pick_cumulative r acc (s # ss) =
     (if r \<le> acc + sk_weight s then Some s else pick_cumulative r (acc + sk_weight s) ss)"

definition region_weighted_select :: "(int \<Rightarrow> int) \<Rightarrow> spoke list \<Rightarrow> decision" where
  "region_weighted_select randbelow ss =
     (let total = sum_list (map sk_weight ss) in
      if total = 0 then decide (ss ! nat (randbelow (int (length ss)))) ''random_equal_weight'' (length ss)
      else (case pick_cumulative (randbelow total + 1) 0 ss of
              Some s \<Rightarrow> decide s ''weighted_selection'' (length ss)
            | None \<Rightarrow> decide (last ss) ''weighted_fallback'' (length ss)))"

text \<open>Steps 4 to 7, on the spokes that survived the filters.\<close>

definition route_among :: "hub \<Rightarrow> string option \<Rightarrow> (int \<Rightarrow> int) \<Rightarrow> spoke list \<Rightarrow> decision" where
  "route_among h preferred_region randbelow healthy =
     (case (if truthy preferred_region then find (\<lambda>s. Some (sk_region s) = preferred_region) healthy else None) of
        Some s \<Rightarrow> decide s ''preferred_region'' (length healthy)
      | None \<Rightarrow>
          if length healthy = 1 then decide (hd healthy) ''single_available'' 1
          else (case find (\<lambda>s. sk_role s = PrimaryRole) healthy of
                  Some s \<Rightarrow> if is_failover_mode h then decide s ''primary_healthy'' (length healthy)
                            else region_weighted_select randbelow healthy
                | None \<Rightarrow> region_weighted_select randbelow healthy))"

definition route ::
  "hub \<Rightarrow> string option \<Rightarrow> string option \<Rightarrow> string option \<Rightarrow> (int \<Rightarrow> int) \<Rightarrow> decision option" where
  "route h model zone preferred_region randbelow =
     (let healthy = filter in_rotation (hb_spokes h) in
      if healthy = [] then None
      else let resident = (if truthy zone \<and> hb_strict h then filter (serves_zone zone) healthy else healthy) in
        if resident = [] then None
        else let able = (if truthy model then filter (serves_model model) resident else resident);
                 final = (if able \<noteq> [] then able else resident)
             in Some (route_among h preferred_region randbelow final))"

definition failover :: "hub \<Rightarrow> decision option" where
  "failover h = (case get_failover_candidates h of [] \<Rightarrow> None
     | s # ss \<Rightarrow> Some \<lparr>dc_target = s, dc_reason = ''failover'', dc_considered = Suc (length ss), dc_fallback = True\<rparr>)"

section \<open>Health monitor\<close>

record health_result =
  hr_region :: string
  hr_healthy :: bool
  hr_latency_ms :: rat
  hr_status_code :: int
  hr_error :: "string option"

record monitor =
  mo_failures :: "string \<rightharpoonup> int"
  mo_last_check :: "string \<rightharpoonup> health_result"
  mo_cooldown_until :: "string \<rightharpoonup> rat"

definition new_monitor :: monitor where
  "new_monitor = \<lparr>mo_failures = Map.empty, mo_last_check = Map.empty, mo_cooldown_until = Map.empty\<rparr>"

text \<open>The outcome of the HTTP request: a response, an exception, or no HTTP library.\<close>

datatype probe = Answered int rat | Failed string rat | NoLibrary

definition check_spoke :: "hub \<Rightarrow> spoke \<Rightarrow> probe \<Rightarrow> health_result" where
  "check_spoke h s p =
     (if sk_health_url s = []
      then \<lparr>hr_region = sk_region s, hr_healthy = True, hr_latency_ms = 0, hr_status_code = 200,
            hr_error = (if sk_region s = hb_region h then None else Some ''no_health_url_configured'')\<rparr>
      else (case p of
              Answered code latency \<Rightarrow> \<lparr>hr_region = sk_region s,
                hr_healthy = (code = 200 \<and> latency \<le> sk_max_latency_ms s), hr_latency_ms = latency,
                hr_status_code = code, hr_error = None\<rparr>
            | NoLibrary \<Rightarrow> \<lparr>hr_region = sk_region s, hr_healthy = True, hr_latency_ms = 0, hr_status_code = 0,
                hr_error = Some ''httpx_not_installed''\<rparr>
            | Failed e latency \<Rightarrow> \<lparr>hr_region = sk_region s, hr_healthy = False, hr_latency_ms = latency,
                hr_status_code = 0, hr_error = Some e\<rparr>))"

definition update_spoke_status ::
  "int \<Rightarrow> rat \<Rightarrow> rat \<Rightarrow> health_result \<Rightarrow> spoke \<times> monitor \<Rightarrow> spoke \<times> monitor" where
  "update_spoke_status threshold cooldown now res sm =
     (case sm of (s, m) \<Rightarrow>
      let region = sk_region s in
      if hr_healthy res then
        let m' = m\<lparr>mo_failures := (mo_failures m)(region \<mapsto> 0)\<rparr> in
        if sk_status s = Unhealthy
        then (if get_or (mo_cooldown_until m) region 0 \<le> now then (s\<lparr>sk_status := Healthy\<rparr>, m') else (s, m'))
        else (s\<lparr>sk_status := Healthy\<rparr>, m')
      else
        let failures = get_or (mo_failures m) region 0 + 1;
            m' = m\<lparr>mo_failures := (mo_failures m)(region \<mapsto> failures)\<rparr> in
        if threshold \<le> failures \<and> sk_status s \<noteq> Unhealthy
        then (s\<lparr>sk_status := Unhealthy\<rparr>,
              m'\<lparr>mo_cooldown_until := (mo_cooldown_until m')(region \<mapsto> now + cooldown)\<rparr>)
        else (s, m'))"

primrec update_first :: "('a \<Rightarrow> bool) \<Rightarrow> ('a \<Rightarrow> 'a) \<Rightarrow> 'a list \<Rightarrow> 'a list" where
  "update_first P f [] = []"
| "update_first P f (x # xs) = (if P x then f x # xs else x # update_first P f xs)"

definition put_spoke :: "string \<Rightarrow> (spoke \<Rightarrow> spoke) \<Rightarrow> hub \<Rightarrow> hub" where
  "put_spoke region f h = h\<lparr>hb_spokes := update_first (\<lambda>s. sk_region s = region) f (hb_spokes h)\<rparr>"

record check_env =
  ce_probe :: probe
  ce_meanwhile :: "hub \<Rightarrow> hub"
  ce_now :: rat

definition apply_check :: "rat \<Rightarrow> spoke \<Rightarrow> health_result \<Rightarrow> hub \<times> monitor \<Rightarrow> hub \<times> monitor" where
  "apply_check now s res hm =
     (case hm of (h, m) \<Rightarrow>
      let m' = m\<lparr>mo_last_check := (mo_last_check m)(sk_region s \<mapsto> res)\<rparr> in
      (case get_spoke (sk_region s) h of
         None \<Rightarrow> (h, m')
       | Some current \<Rightarrow>
           if sk_health_url current = sk_health_url s \<and> sk_max_latency_ms current = sk_max_latency_ms s
           then (case update_spoke_status (hb_threshold h) (hb_cooldown h) now res (current, m') of
                   (s', m'') \<Rightarrow> (put_spoke (sk_region s) (\<lambda>_. s') h, m''))
           else (h, m')))"

fun check_each :: "(nat \<Rightarrow> check_env) \<Rightarrow> nat \<Rightarrow> spoke list \<Rightarrow> hub \<times> monitor \<Rightarrow> hub \<times> monitor" where
  "check_each env n [] hm = hm"
| "check_each env n (s # ss) (h, m) =
     (let res = check_spoke h s (ce_probe (env n)) in
      check_each env (Suc n) ss (apply_check (ce_now (env n)) s res (ce_meanwhile (env n) h, m)))"

definition check_all :: "(nat \<Rightarrow> check_env) \<Rightarrow> hub \<times> monitor \<Rightarrow> hub \<times> monitor" where
  "check_all env hm = check_each env 0 (hb_spokes (fst hm)) hm"

definition region_mark_unhealthy :: "string \<Rightarrow> rat \<Rightarrow> hub \<times> monitor \<Rightarrow> hub \<times> monitor" where
  "region_mark_unhealthy region now hm = (case hm of (h, m) \<Rightarrow>
     if get_spoke region h = None then (h, m)
     else (put_spoke region (\<lambda>s. s\<lparr>sk_status := Unhealthy\<rparr>) h,
           m\<lparr>mo_cooldown_until := (mo_cooldown_until m)(region \<mapsto> now + hb_cooldown h)\<rparr>))"

definition region_mark_healthy :: "string \<Rightarrow> hub \<times> monitor \<Rightarrow> hub \<times> monitor" where
  "region_mark_healthy region hm = (case hm of (h, m) \<Rightarrow>
     if get_spoke region h = None then (h, m)
     else (put_spoke region (\<lambda>s. s\<lparr>sk_status := Healthy\<rparr>) h,
           m\<lparr>mo_failures := (mo_failures m)(region \<mapsto> 0)\<rparr>))"

definition region_mark_draining :: "string \<Rightarrow> hub \<times> monitor \<Rightarrow> hub \<times> monitor" where
  "region_mark_draining region hm = (case hm of (h, m) \<Rightarrow>
     (put_spoke region (\<lambda>s. s\<lparr>sk_status := Draining\<rparr>) h, m))"

end
