(* ===== verification/RegionProps.thy ===== *)
theory RegionProps
  imports Region
begin

text \<open>
  Correctness of the regional topology: what a routing decision respects, when the monitor takes a region
  out of rotation and for how long, and what a check does to a draining region.
\<close>

section \<open>Routing\<close>







definition demo_hub :: hub where
  "demo_hub = active_passive ''us-east-1'' ''eu-west-1''"


section \<open>Checks\<close>

definition run_updates :: "int \<Rightarrow> rat \<Rightarrow> (rat \<times> health_result) list \<Rightarrow> spoke \<times> monitor \<Rightarrow> spoke \<times> monitor" where
  "run_updates threshold cooldown evs sm =
     fold (\<lambda>(now, res). update_spoke_status threshold cooldown now res) evs sm"

definition trailing_failures :: "(rat \<times> health_result) list \<Rightarrow> nat" where
  "trailing_failures evs = length (takeWhile (\<lambda>(_, res). \<not> hr_healthy res) (rev evs))"

lemma trailing_snoc [simp]:
  "trailing_failures (evs @ [(now, res)]) = (if hr_healthy res then 0 else Suc (trailing_failures evs))"
  by (simp add: trailing_failures_def)

lemma trailing_Nil [simp]: "trailing_failures [] = 0"
  by (simp add: trailing_failures_def)

lemma run_updates_snoc [simp]:
  "run_updates th cd (evs @ [(now, res)]) sm = update_spoke_status th cd now res (run_updates th cd evs sm)"
  "run_updates th cd [] sm = sm"
  by (simp_all add: run_updates_def)

lemma update_region [simp]: "sk_region (fst (update_spoke_status th cd now res sm)) = sk_region (fst sm)"
  by (auto simp: update_spoke_status_def Let_def split: prod.split)

lemma run_region [simp]: "sk_region (fst (run_updates th cd evs sm)) = sk_region (fst sm)"
  by (induction evs rule: rev_induct) (auto simp: split_paired_all)

lemma update_cases:
  assumes "update_spoke_status th cd now res (s, m) = (s', m')"
  shows "get_or (mo_failures m') (sk_region s) 0 = (if hr_healthy res then 0 else get_or (mo_failures m) (sk_region s) 0 + 1)"
    and "hr_healthy res \<Longrightarrow> sk_status s' = Unhealthy \<Longrightarrow> sk_status s = Unhealthy"
    and "\<not> hr_healthy res \<Longrightarrow> th \<le> get_or (mo_failures m) (sk_region s) 0 + 1 \<Longrightarrow> sk_status s' = Unhealthy"
    and "\<not> hr_healthy res \<Longrightarrow> get_or (mo_failures m) (sk_region s) 0 + 1 < th \<Longrightarrow> sk_status s' = sk_status s"
  using assms by (auto simp: update_spoke_status_def Let_def split: if_splits)

text \<open>The monitor counts exactly the failures since the last success. A region is out of rotation
  whenever the threshold of consecutive failures has been reached, and it never leaves rotation without
  that many consecutive failures at some earlier point of the run.\<close>

theorem region_failures_take_out:
  assumes "0 < threshold" "mo_failures m (sk_region s) = None"
    and "run_updates threshold cooldown evs (s, m) = (s', m')"
  shows "get_or (mo_failures m') (sk_region s) 0 = int (trailing_failures evs)
    \<and> (threshold \<le> int (trailing_failures evs) \<longrightarrow> sk_status s' = Unhealthy)
    \<and> (sk_status s \<noteq> Unhealthy \<and> sk_status s' = Unhealthy
         \<longrightarrow> (\<exists>k \<le> length evs. threshold \<le> int (trailing_failures (take k evs))))"
  using assms(3)
proof (induction evs arbitrary: s' m' rule: rev_induct)
  case Nil
  then show ?case using assms(1,2) by simp
next
  case (snoc e evs)
  obtain now res where e: "e = (now, res)" by (cases e)
  obtain t n where tn: "run_updates threshold cooldown evs (s, m) = (t, n)"
    by (cases "run_updates threshold cooldown evs (s, m)")
  have region: "sk_region t = sk_region s"
    using run_region [of threshold cooldown evs "(s, m)"] tn by simp
  have up: "update_spoke_status threshold cooldown now res (t, n) = (s', m')"
    using snoc.prems tn e by simp
  note uc = update_cases [OF up, unfolded region]
  note IH = snoc.IH [OF tn]
  have count: "get_or (mo_failures m') (sk_region s) 0 = int (trailing_failures (evs @ [e]))"
    using uc(1) IH e by simp
  have reach: "\<exists>k \<le> length (evs @ [e]). threshold \<le> int (trailing_failures (take k (evs @ [e])))"
    if "\<exists>k \<le> length evs. threshold \<le> int (trailing_failures (take k evs))"
  proof -
    from that obtain k where "k \<le> length evs" "threshold \<le> int (trailing_failures (take k evs))" by blast
    then show ?thesis by (intro exI [of _ k]) simp
  qed
  have now: "\<exists>k \<le> length (evs @ [e]). threshold \<le> int (trailing_failures (take k (evs @ [e])))"
    if "threshold \<le> int (trailing_failures (evs @ [e]))"
    using that by (intro exI [of _ "length (evs @ [e])"]) simp
  show ?case
  proof (cases "hr_healthy res")
    case True
    with assms(1) uc(2) IH e count reach show ?thesis by auto
  next
    case False
    show ?thesis
    proof (cases "threshold \<le> int (trailing_failures (evs @ [e]))")
      case True
      then have "sk_status s' = Unhealthy" using uc(3) False IH e by simp
      with count now True show ?thesis by blast
    next
      case below: False
      then have "sk_status s' = sk_status t" using uc(4) False IH e by simp
      with count reach IH below show ?thesis by auto
    qed
  qed
qed

definition fail_result :: health_result where
  "fail_result = \<lparr>hr_region = ''eu'', hr_healthy = False, hr_latency_ms = 0, hr_status_code = 500, hr_error = None\<rparr>"

theorem region_failures_take_out_witness:
  "sk_status (fst (run_updates 2 60 [(1, fail_result), (2, fail_result)] (new_spoke ''eu'' ActiveRole 50 0, new_monitor))) = Unhealthy"
proof -
  obtain s' m' where r: "run_updates 2 60 [(1, fail_result), (2, fail_result)]
      (new_spoke ''eu'' ActiveRole 50 0, new_monitor) = (s', m')" by fastforce
  have "trailing_failures [(1, fail_result), (2, fail_result)] = 2"
    by (simp add: trailing_failures_def fail_result_def)
  with region_failures_take_out [OF _ _ r] r show ?thesis by (simp add: new_monitor_def)
qed

text \<open>A region taken out of rotation stays out for the whole cooldown, whatever its checks report.\<close>

theorem region_cooldown_holds:
  assumes "sk_status s = Unhealthy" "mo_cooldown_until m (sk_region s) = Some until"
    and "\<forall>(now, res)\<in>set evs. now < until"
  shows "sk_status (fst (run_updates threshold cooldown evs (s, m))) = Unhealthy"
proof -
  have "sk_status (fst (run_updates threshold cooldown evs (s, m))) = Unhealthy
      \<and> mo_cooldown_until (snd (run_updates threshold cooldown evs (s, m))) (sk_region s) = Some until"
    using assms(3)
  proof (induction evs rule: rev_induct)
    case (snoc e evs)
    obtain now res where e: "e = (now, res)" by (cases e)
    obtain t n where tn: "run_updates threshold cooldown evs (s, m) = (t, n)"
      by (cases "run_updates threshold cooldown evs (s, m)")
    have "sk_region t = sk_region s"
      using run_region [of threshold cooldown evs "(s, m)"] tn by simp
    with snoc e tn show ?case by (auto simp: update_spoke_status_def Let_def)
  qed (simp add: assms(1,2))
  then show ?thesis ..
qed

theorem region_cooldown_holds_witness:
  "sk_status (fst (run_updates 2 60 [(30, fail_result\<lparr>hr_healthy := True\<rparr>)]
     ((new_spoke ''eu'' ActiveRole 50 0)\<lparr>sk_status := Unhealthy\<rparr>,
      new_monitor\<lparr>mo_cooldown_until := [''eu'' \<mapsto> 62]\<rparr>))) = Unhealthy"
  by (rule region_cooldown_holds [where until = 62]) (simp_all add: new_spoke_def)

section \<open>Draining\<close>

lemma find_update_first:
  "(\<And>x. P x \<Longrightarrow> P (f x)) \<Longrightarrow> find P (update_first P f xs) = map_option f (find P xs)"
  by (induction xs) auto

lemma get_put_spoke:
  "(\<And>s. sk_region s = region \<Longrightarrow> sk_region (f s) = region) \<Longrightarrow>
   get_spoke region (put_spoke region f h) = map_option f (get_spoke region h)"
  by (simp add: get_spoke_def put_spoke_def find_update_first)

lemma get_spoke_region: "get_spoke region h = Some s \<Longrightarrow> sk_region s = region"
  by (auto simp: get_spoke_def dest: find_Some_set)

text \<open>A region marked as draining is back in rotation after its next successful health check: the
  monitor sets every spoke that is not unhealthy to healthy, so the drain an administrator asked for ends
  with the next check cycle and new traffic is routed there again.\<close>

theorem drained_region_returns:
  assumes "get_spoke region h = Some s" "hr_healthy res"
  shows "\<exists>s'. get_spoke region (fst (apply_check now s res (region_mark_draining region (h, m)))) = Some s'
       \<and> in_rotation s'"
proof -
  have region: "sk_region s = region" using assms(1) by (rule get_spoke_region)
  let ?h = "put_spoke region (\<lambda>s. s\<lparr>sk_status := Draining\<rparr>) h"
  have drained: "get_spoke region ?h = Some (s\<lparr>sk_status := Draining\<rparr>)"
    using assms(1) by (simp add: get_put_spoke)
  obtain s' m' where up: "update_spoke_status (hb_threshold ?h) (hb_cooldown ?h) now res
      (s\<lparr>sk_status := Draining\<rparr>, m\<lparr>mo_last_check := (mo_last_check m)(region \<mapsto> res)\<rparr>) = (s', m')" by fastforce
  then have s': "s' = s\<lparr>sk_status := Healthy\<rparr>"
    using assms(2) by (simp add: update_spoke_status_def Let_def)
  have "fst (apply_check now s res (region_mark_draining region (h, m))) = put_spoke region (\<lambda>_. s') ?h"
    using drained up region by (simp add: apply_check_def region_mark_draining_def Let_def)
  moreover have "get_spoke region (put_spoke region (\<lambda>_. s') ?h) = map_option (\<lambda>_. s') (get_spoke region ?h)"
    by (rule get_put_spoke) (simp add: s' region)
  then have "get_spoke region (put_spoke region (\<lambda>_. s') ?h) = Some s'"
    by (simp only: drained option.map)
  ultimately show ?thesis using s' by (simp add: in_rotation_def)
qed

theorem drained_region_returns_witness:
  "\<exists>s'. get_spoke ''us-east-1'' (fst (apply_check 0 (new_spoke ''us-east-1'' PrimaryRole 100 0)
       (check_spoke demo_hub (new_spoke ''us-east-1'' PrimaryRole 100 0) NoLibrary)
       (region_mark_draining ''us-east-1'' (demo_hub, new_monitor)))) = Some s' \<and> in_rotation s'"
  by (rule drained_region_returns)
     (simp_all add: demo_hub_def active_passive_def new_hub_def new_spoke_def get_spoke_def check_spoke_def)

end
