(* ===== verification/Redaction.thy ===== *)
theory Redaction
  imports PolicyTree
begin

text \<open>
  The PII redaction engine of \<open>src/gateway/security/pii_redactor.py\<close>: spans found by the detectors are
  replaced by indexed tokens before a prompt leaves the gateway, and the originals are put back into the
  answer.

  What a regular expression matches (\<open>finditer\<close>) and what the entity detector answers are parameters, as is
  the environment's default.
\<close>

section \<open>Strings\<close>

text \<open>\<open>s.replace(old, new)\<close> for a non-empty \<open>old\<close>: leftmost occurrences, not overlapping.\<close>

fun py_replace :: "string \<Rightarrow> string \<Rightarrow> string \<Rightarrow> string" where
  "py_replace old new [] = []"
| "py_replace old new (c # cs) =
     (if old \<noteq> [] \<and> starts_with old (c # cs)
      then new @ py_replace old new (drop (length old - 1) cs)
      else c # py_replace old new cs)"

section \<open>The mapping\<close>

record mapping_state =
  rm_forward :: "(string \<times> string) list"
  rm_counters :: "string \<rightharpoonup> nat"
  rm_dedup :: "string \<rightharpoonup> string"
  rm_reversible :: bool
  rm_ner_error :: "string option"

definition new_mapping :: "bool \<Rightarrow> mapping_state" where
  "new_mapping reversible =
     \<lparr>rm_forward = [], rm_counters = Map.empty, rm_dedup = Map.empty, rm_reversible = reversible,
      rm_ner_error = None\<rparr>"

definition pii_token :: "string \<Rightarrow> nat \<Rightarrow> string" where
  "pii_token ty n = ''['' @ upper ty @ ''_'' @ show_nat n @ '']''"

definition mapping_add :: "string \<Rightarrow> string \<Rightarrow> mapping_state \<Rightarrow> string \<times> mapping_state" where
  "mapping_add ty original m =
     (case rm_dedup m original of
        Some t \<Rightarrow> (t, m)
      | None \<Rightarrow>
          let n = get_or (rm_counters m) ty 0 + 1;
              t = pii_token ty n
          in (t, m\<lparr>rm_counters := (rm_counters m)(ty \<mapsto> n), rm_dedup := (rm_dedup m)(original \<mapsto> t),
                   rm_forward := (if rm_reversible m then rm_forward m @ [(t, original)] else rm_forward m)\<rparr>))"

definition mapping_reinject :: "mapping_state \<Rightarrow> string \<Rightarrow> string" where
  "mapping_reinject m text =
     (if rm_reversible m then fold (\<lambda>(t, original) s. py_replace t original s) (rm_forward m) text else text)"

definition seal :: "mapping_state \<Rightarrow> mapping_state" where
  "seal m = (if rm_reversible m then m else m\<lparr>rm_dedup := Map.empty\<rparr>)"

section \<open>Spans\<close>

type_synonym span = "nat \<times> nat \<times> string"

definition PII_PATTERNS :: "string list" where
  "PII_PATTERNS = [''email'', ''ssn'', ''credit_card'', ''phone'', ''ip_address'', ''aws_account_id'',
     ''medical_record'', ''iban'', ''passport'', ''ipv6'']"

definition regex_spans :: "(string \<Rightarrow> string \<Rightarrow> (nat \<times> nat) list) \<Rightarrow> string \<Rightarrow> string list \<Rightarrow> span list" where
  "regex_spans finditer text active =
     concat (map (\<lambda>ty. if ty \<in> set PII_PATTERNS then map (\<lambda>(s, e). (s, e, ty)) (finditer ty text) else []) active)"

definition span_order :: "span \<Rightarrow> int list" where
  "span_order sp = (case sp of (s, e, _) \<Rightarrow> [int s, - (int e - int s)])"

fun keep_spans :: "int \<Rightarrow> span list \<Rightarrow> span list" where
  "keep_spans last_end [] = []"
| "keep_spans last_end ((s, e, ty) # sps) =
     (if int s < last_end then keep_spans last_end sps else (s, e, ty) # keep_spans (int e) sps)"

text \<open>\<open>sorted(kept, key=..., reverse=True)\<close> keeps the order of equal keys.\<close>

definition drop_overlaps :: "span list \<Rightarrow> span list" where
  "drop_overlaps spans = rev (sort_key fst (rev (keep_spans (- 1) (sort_key span_order spans))))"

definition replace_span :: "span \<Rightarrow> string \<times> mapping_state \<Rightarrow> string \<times> mapping_state" where
  "replace_span sp tm = (case sp of (s, e, ty) \<Rightarrow> case tm of (text, m) \<Rightarrow>
     (case mapping_add ty (take (e - s) (drop s text)) m of
        (t, m') \<Rightarrow> (take s text @ t @ drop e text, m')))"

definition apply_spans :: "string \<Rightarrow> span list \<Rightarrow> mapping_state \<Rightarrow> string \<times> mapping_state" where
  "apply_spans text spans m = fold replace_span (drop_overlaps spans) (text, m)"

definition redact_str ::
  "(string \<Rightarrow> string \<Rightarrow> (nat \<times> nat) list) \<Rightarrow> string list \<Rightarrow> string \<Rightarrow> mapping_state \<Rightarrow> string \<times> mapping_state" where
  "redact_str finditer active text m = apply_spans text (regex_spans finditer text active) m"

text \<open>\<open>[:200]\<close> of the error text of a failing detector.\<close>

definition redact_str_async ::
  "(string \<Rightarrow> string \<Rightarrow> (nat \<times> nat) list) \<Rightarrow> (string \<Rightarrow> string list \<Rightarrow> string + span list) \<Rightarrow> string list
   \<Rightarrow> string list \<Rightarrow> string \<Rightarrow> mapping_state \<Rightarrow> string \<times> mapping_state" where
  "redact_str_async finditer detect ner_types active text m =
     (let spans = regex_spans finditer text active in
      if ner_types = [] then apply_spans text spans m
      else (case detect text ner_types of
              Inl err \<Rightarrow> apply_spans text spans (m\<lparr>rm_ner_error := Some (take 200 err)\<rparr>)
            | Inr found \<Rightarrow> apply_spans text (spans @ found) m))"

section \<open>Messages\<close>

text \<open>
  A part of a list content: the string values of its \<open>text\<close> and \<open>content\<close> keys (\<open>None\<close> when the key is
  absent or holds something else), or anything that is not a dictionary.
\<close>

datatype part = PartDict "string option" "string option" | PartOther

datatype content = CText string | CParts "part list" | COther

type_synonym redact1 = "string \<Rightarrow> mapping_state \<Rightarrow> string \<times> mapping_state"

fun redact_part :: "redact1 \<Rightarrow> part \<Rightarrow> mapping_state \<Rightarrow> part \<times> mapping_state" where
  "redact_part f (PartDict (Some t) c) m = (case f t m of (t', m') \<Rightarrow> (PartDict (Some t') c, m'))"
| "redact_part f (PartDict None (Some c)) m = (case f c m of (c', m') \<Rightarrow> (PartDict None (Some c'), m'))"
| "redact_part f p m = (p, m)"

fun redact_each :: "('a \<Rightarrow> mapping_state \<Rightarrow> 'a \<times> mapping_state) \<Rightarrow> 'a list \<Rightarrow> mapping_state \<Rightarrow> 'a list \<times> mapping_state" where
  "redact_each f [] m = ([], m)"
| "redact_each f (x # xs) m = (case f x m of (y, m1) \<Rightarrow> (case redact_each f xs m1 of (ys, m2) \<Rightarrow> (y # ys, m2)))"

fun redact_content :: "redact1 \<Rightarrow> content \<Rightarrow> mapping_state \<Rightarrow> content \<times> mapping_state" where
  "redact_content f (CText t) m = (case f t m of (t', m') \<Rightarrow> (CText t', m'))"
| "redact_content f (CParts ps) m = (case redact_each (redact_part f) ps m of (qs, m') \<Rightarrow> (CParts qs, m'))"
| "redact_content f COther m = (COther, m)"

text \<open>A message with or without a \<open>content\<close> key.\<close>

fun redact_message :: "redact1 \<Rightarrow> content option \<Rightarrow> mapping_state \<Rightarrow> content option \<times> mapping_state" where
  "redact_message f None m = (None, m)"
| "redact_message f (Some c) m = (case redact_content f c m of (c', m') \<Rightarrow> (Some c', m'))"

record redactor_env =
  rv_default_enabled :: bool
  rv_default_types :: "string list"
  rv_finditer :: "string \<Rightarrow> string \<Rightarrow> (nat \<times> nat) list"
  rv_detector :: "(string \<Rightarrow> string list \<Rightarrow> string + span list) option"
  rv_ner_default :: bool
  rv_ner_types :: "string list"

definition list_or :: "string list option \<Rightarrow> string list \<Rightarrow> string list" where
  "list_or x d = (case x of None \<Rightarrow> d | Some xs \<Rightarrow> if xs = [] then d else xs)"

definition effective_policy :: "redactor_env \<Rightarrow> resolved_policy \<Rightarrow> resolved_policy" where
  "effective_policy env p =
     (if po_pii_redaction_enabled p \<or> \<not> rv_default_enabled env then p
      else p\<lparr>po_pii_redaction_enabled := True,
             po_pii_redact_types := Some (list_or (po_pii_redact_types p) (rv_default_types env))\<rparr>)"

definition active_types :: "resolved_policy \<Rightarrow> string list" where
  "active_types p = list_or (po_pii_redact_types p) []"

definition redact :: "redactor_env \<Rightarrow> string \<Rightarrow> resolved_policy \<Rightarrow> string \<times> mapping_state" where
  "redact env text policy =
     (let p = effective_policy env policy; m = new_mapping (po_pii_reinject p) in
      if \<not> po_pii_redaction_enabled p \<or> active_types p = [] then (text, m)
      else (case redact_str (rv_finditer env) (active_types p) text m of (t, m') \<Rightarrow> (t, seal m')))"

definition redact_messages ::
  "redactor_env \<Rightarrow> content option list \<Rightarrow> resolved_policy \<Rightarrow> content option list \<times> mapping_state" where
  "redact_messages env msgs policy =
     (let p = effective_policy env policy; m = new_mapping (po_pii_reinject p) in
      if \<not> po_pii_redaction_enabled p \<or> active_types p = [] then (msgs, m)
      else (case redact_each (redact_message (redact_str (rv_finditer env) (active_types p))) msgs m of
              (out, m') \<Rightarrow> (out, seal m')))"

definition ner_enabled :: "redactor_env \<Rightarrow> resolved_policy \<Rightarrow> bool" where
  "ner_enabled env p \<longleftrightarrow> rv_detector env \<noteq> None \<and> (po_pii_ner_enabled p \<or> rv_ner_default env)"

definition redact_messages_async ::
  "redactor_env \<Rightarrow> content option list \<Rightarrow> resolved_policy \<Rightarrow> content option list \<times> mapping_state" where
  "redact_messages_async env msgs policy =
     (let p = effective_policy env policy in
      case (if ner_enabled env p then rv_detector env else None) of
        None \<Rightarrow> redact_messages env msgs p
      | Some detect \<Rightarrow>
          let m = new_mapping (po_pii_reinject p) in
          if \<not> po_pii_redaction_enabled p then (msgs, m)
          else (case redact_each (redact_message (redact_str_async (rv_finditer env) detect
                        (list_or (po_pii_ner_types p) (rv_ner_types env)) (active_types p))) msgs m of
                  (out, m') \<Rightarrow> (out, seal m')))"

definition reinject_response :: "string \<Rightarrow> mapping_state \<Rightarrow> string" where
  "reinject_response text m = mapping_reinject m text"

end
