(* ===== verification/RedactionProps.thy ===== *)
theory RedactionProps
  imports Redaction "HOL-Library.Multiset"
begin

text \<open>
  The redactor gives back what it took: on text without opening brackets, re-injection undoes redaction, for
  single texts and across the messages of a request. \<open>restores\<close> relates a redacted text to its original
  under a token table; the redactor builds such a text and re-injection takes it apart.
\<close>

section \<open>Replacing tokens\<close>














section \<open>Tokens\<close>






section \<open>The token table\<close>





section \<open>Spans\<close>






lemma drop_overlaps_rev:
  assumes "sorted_wrt (<) (map fst (keep_spans (- 1) (sort_key span_order sps)))"
  shows "drop_overlaps sps = rev (keep_spans (- 1) (sort_key span_order sps))"
proof -
  let ?k = "keep_spans (- 1) (sort_key span_order sps)"
  have "sort_key fst (rev ?k) = ?k"
    by (rule sort_key_inj_key_eq) (use assms in \<open>auto simp: strict_sorted_iff distinct_map\<close>)
  then show ?thesis by (simp add: drop_overlaps_def)
qed







section \<open>Messages\<close>















lemma effective_reinject [simp]: "po_pii_reinject (effective_policy env p) = po_pii_reinject p"
  by (simp add: effective_policy_def)


text \<open>What holds of the mapping after each step on a single text holds after a whole request.\<close>

lemma redact_each_keeps:
  "\<lbrakk>\<And>x m. I m \<Longrightarrow> I (snd (f x m)); I m\<rbrakk> \<Longrightarrow> I (snd (redact_each f xs m))"
  by (induction xs arbitrary: m) (auto split: prod.splits, metis snd_conv)

lemma redact_part_keeps: "\<lbrakk>\<And>t m. I m \<Longrightarrow> I (snd (f t m)); I m\<rbrakk> \<Longrightarrow> I (snd (redact_part f p m))"
  by (cases "(f, p, m)" rule: redact_part.cases) (auto split: prod.splits, (metis snd_conv)+)

lemma redact_content_keeps:
  assumes "\<And>t m. I m \<Longrightarrow> I (snd (f t m))" "I m"
  shows "I (snd (redact_content f c m))"
proof (cases c)
  case (CText t)
  with assms(1) [OF assms(2), of t] show ?thesis by (auto split: prod.splits)
next
  case (CParts ps)
  have "I (snd (redact_each (redact_part f) ps m))"
    by (rule redact_each_keeps [of I, OF redact_part_keeps [of I f]]) (use assms in auto)
  with CParts show ?thesis by (auto split: prod.splits)
qed (use assms(2) in simp)

lemma redact_message_keeps:
  assumes "\<And>t m. I m \<Longrightarrow> I (snd (f t m))" "I m"
  shows "I (snd (redact_message f c m))"
  by (cases c) (use redact_content_keeps [of I f, OF assms] assms(2) in \<open>auto split: prod.splits, metis snd_conv\<close>)

lemma redact_all_keeps:
  assumes "\<And>t m. I m \<Longrightarrow> I (snd (f t m))" "I m"
  shows "I (snd (redact_each (redact_message f) msgs m))"
  by (rule redact_each_keeps [of I, OF redact_message_keeps [of I f]]) (use assms in auto)

text \<open>A mapping that may not keep originals.\<close>

definition forgetful :: "mapping_state \<Rightarrow> bool" where
  "forgetful m \<longleftrightarrow> \<not> rm_reversible m \<and> rm_forward m = []"

lemma forgetful_add: "forgetful m \<Longrightarrow> forgetful (snd (mapping_add ty orig m))"
  by (auto simp: forgetful_def mapping_add_def Let_def split: option.split)

lemma forgetful_spans: "forgetful m \<Longrightarrow> forgetful (snd (fold replace_span sps (t, m)))"
proof (induction sps arbitrary: t m)
  case (Cons sp sps)
  obtain s e ty where "sp = (s, e, ty)" by (cases sp)
  moreover obtain tok m' where add: "mapping_add ty (take (e - s) (drop s t)) m = (tok, m')" by fastforce
  ultimately have "replace_span sp (t, m) = (take s t @ tok @ drop e t, m')" by (simp add: replace_span_def)
  with Cons.IH [of m'] forgetful_add [OF Cons.prems, of ty "take (e - s) (drop s t)"] add show ?case by simp
qed simp

lemma forgetful_str: "forgetful m \<Longrightarrow> forgetful (snd (redact_str finditer active t m))"
  by (simp add: redact_str_def apply_spans_def forgetful_spans)

lemma forgetful_str_async: "forgetful m \<Longrightarrow> forgetful (snd (redact_str_async finditer detect ner active t m))"
  by (auto simp: redact_str_async_def apply_spans_def Let_def forgetful_spans forgetful_def split: sum.split
      intro!: forgetful_spans [unfolded forgetful_def])

lemma forgetful_new: "forgetful (new_mapping False)"
  by (simp add: forgetful_def new_mapping_def)

lemma new_sealed: "seal (new_mapping False) = new_mapping False"
  by (simp add: seal_def new_mapping_def)

lemma forgetful_seal: "forgetful m \<Longrightarrow> seal m = m\<lparr>rm_dedup := Map.empty\<rparr> \<and> mapping_reinject (m\<lparr>rm_dedup := Map.empty\<rparr>) t = t"
  by (simp add: forgetful_def seal_def mapping_reinject_def)

section \<open>Properties\<close>


text \<open>A request to witness the properties on: the detector matches two characters of longer texts.\<close>

definition sample_env :: redactor_env where
  "sample_env = \<lparr>rv_default_enabled = False, rv_default_types = [],
     rv_finditer = (\<lambda>ty t. if 3 \<le> length t then [(1, 3)] else []),
     rv_detector = Some (\<lambda>t tys. Inl ''throttled''), rv_ner_default = True, rv_ner_types = [''name'']\<rparr>"

definition sample_policy :: "bool \<Rightarrow> resolved_policy" where
  "sample_policy reinject = default_policy\<lparr>po_pii_redaction_enabled := True,
     po_pii_redact_types := Some [''ssn''], po_pii_reinject := reinject\<rparr>"

definition sample_msgs :: "content option list" where
  "sample_msgs = [Some (CText ''a12b''), None, Some (CParts [PartDict (Some ''c12d'') None, PartOther])]"



lemma sync_forgetful:
  assumes "redact_messages env msgs policy = (out, m)" "\<not> po_pii_reinject policy"
  shows "\<exists>m0. forgetful m0 \<and> m = seal m0"
proof -
  let ?p = "effective_policy env policy"
  let ?run = "redact_each (redact_message (redact_str (rv_finditer env) (active_types ?p))) msgs (new_mapping False)"
  have "m = new_mapping False \<or> m = seal (snd ?run)"
    using assms by (simp add: redact_messages_def Let_def split: if_splits prod.splits)
  moreover have "forgetful (snd ?run)" by (rule redact_all_keeps [OF forgetful_str forgetful_new])
  ultimately show ?thesis using forgetful_new new_sealed by metis
qed

text \<open>without re-injection nothing is kept. A policy that turns re-injection off leaves no original in the
  mapping a request returns, with or without the entity detector, and re-injection changes no answer.
\<close>

theorem permanent_redaction_keeps_nothing:
  assumes "redact_messages_async env msgs policy = (out, m)" and "\<not> po_pii_reinject policy"
  shows "rm_forward m = [] \<and> rm_dedup m = Map.empty \<and> reinject_response answer m = answer"
proof -
  have "\<exists>m0. forgetful m0 \<and> m = seal m0"
  proof (cases "if ner_enabled env (effective_policy env policy) then rv_detector env else None")
    case None
    with assms(1) have "redact_messages env msgs (effective_policy env policy) = (out, m)"
      by (simp add: redact_messages_async_def Let_def)
    then show ?thesis by (rule sync_forgetful) (simp add: assms(2))
  next
    case (Some detect)
    let ?p = "effective_policy env policy"
    let ?run = "redact_each (redact_message (redact_str_async (rv_finditer env) detect
        (list_or (po_pii_ner_types ?p) (rv_ner_types env)) (active_types ?p))) msgs (new_mapping False)"
    have "m = new_mapping False \<or> m = seal (snd ?run)"
      using assms Some by (simp add: redact_messages_async_def Let_def split: if_splits prod.splits)
    moreover have "forgetful (snd ?run)" by (rule redact_all_keeps [OF forgetful_str_async forgetful_new])
    ultimately show ?thesis using forgetful_new new_sealed by metis
  qed
  then obtain m0 where "forgetful m0" "m = seal m0" by blast
  then show ?thesis using forgetful_seal [of m0 answer] by (simp add: reinject_response_def forgetful_def)
qed

theorem permanent_redaction_keeps_nothing_witness:
  "rm_dedup (snd (redact_messages_async sample_env sample_msgs (sample_policy False))) = Map.empty
   \<and> rm_ner_error (snd (redact_messages_async sample_env sample_msgs (sample_policy False))) = Some ''throttled''"
proof
  have "\<not> po_pii_reinject (sample_policy False)" by (simp add: sample_policy_def)
  then show "rm_dedup (snd (redact_messages_async sample_env sample_msgs (sample_policy False))) = Map.empty"
    using permanent_redaction_keeps_nothing [OF surjective_pairing] by blast
  show "rm_ner_error (snd (redact_messages_async sample_env sample_msgs (sample_policy False))) = Some ''throttled''"
    by code_simp
qed

lemma keep_spans_covers:
  assumes "sorted_wrt (\<lambda>(s, e, _) (s', e', _). s < s' \<or> s = s' \<and> e' \<le> e) sps"
    and "\<forall>(s, e, ty)\<in>set sps. s < e"
  shows "set (keep_spans lo sps) \<subseteq> {(s, e, ty)\<in>set sps. lo \<le> int s}
    \<and> sorted_wrt (\<lambda>(s, e, _) (s', e', _). e \<le> s') (keep_spans lo sps)
    \<and> (\<forall>(s, e, ty)\<in>set sps. lo \<le> int s \<longrightarrow>
         (\<exists>(s', e', ty')\<in>set (keep_spans lo sps). s' \<le> s \<and> s < e' \<and> (s' = s \<longrightarrow> e \<le> e')))"
  using assms
proof (induction lo sps rule: keep_spans.induct)
  case (2 lo s e ty sps)
  have tl: "sorted_wrt (\<lambda>(s, e, _) (s', e', _). s < s' \<or> s = s' \<and> e' \<le> e) sps" "\<forall>(s, e, ty)\<in>set sps. s < e"
    using "2.prems" by simp_all
  show ?case
  proof (cases "int s < lo")
    case True
    from "2.IH"(1) [OF True tl] True show ?thesis by auto
  next
    case False
    note IH = "2.IH"(2) [OF False tl]
    have kept: "int e \<le> int s' \<and> (s', e', ty') \<in> set sps" if "(s', e', ty') \<in> set (keep_spans (int e) sps)" for s' e' ty'
      using IH that by blast
    have se: "s < e" using "2.prems"(2) by simp
    have cover: "\<exists>(s', e', ty')\<in>set (keep_spans lo ((s, e, ty) # sps)). s' \<le> t \<and> t < e' \<and> (s' = t \<longrightarrow> u \<le> e')"
      if "(t, u, tz) \<in> set ((s, e, ty) # sps)" for t u tz
    proof (cases "t < e")
      case True
      then show ?thesis using that "2.prems" False by (intro bexI [of _ "(s, e, ty)"]) auto
    next
      case ge: False
      then have "(t, u, tz) \<in> set sps" using that se by auto
      moreover have "int e \<le> int t" using ge by simp
      ultimately have "\<exists>(s', e', ty')\<in>set (keep_spans (int e) sps). s' \<le> t \<and> t < e' \<and> (s' = t \<longrightarrow> u \<le> e')"
        using IH by blast
      then show ?thesis using False by auto
    qed
    have "sorted_wrt (\<lambda>(s, e, _) (s', e', _). e \<le> s') (keep_spans lo ((s, e, ty) # sps))"
      using kept False by (auto simp: IH [THEN conjunct2, THEN conjunct1])
    moreover have "set (keep_spans lo ((s, e, ty) # sps)) \<subseteq> {(s', e', ty')\<in>set ((s, e, ty) # sps). lo \<le> int s'}"
      using kept False se by force
    ultimately show ?thesis using cover by blast
  qed
qed simp

text \<open>Overlapping detections are resolved to disjoint replacements. The spans kept are detected ones, stand
  right to left without overlap, so that no replacement moves one still to come, and the start of every
  detected span lies in a kept one, which is at least as long when it starts there too.
\<close>

theorem overlaps_resolved:
  assumes "\<forall>(s, e, ty)\<in>set spans. s < e"
  shows "set (drop_overlaps spans) \<subseteq> set spans
     \<and> sorted_wrt (\<lambda>(s, e, _) (s', e', _). e' \<le> s) (drop_overlaps spans)
     \<and> (\<forall>(s, e, ty)\<in>set spans. \<exists>(s', e', ty')\<in>set (drop_overlaps spans). s' \<le> s \<and> s < e' \<and> (s' = s \<longrightarrow> e \<le> e'))"
proof -
  let ?sps = "sort_key span_order spans"
  let ?k = "keep_spans (- 1) ?sps"
  have "sorted_wrt (\<lambda>x y. span_order x \<le> span_order y) ?sps"
    using sorted_sort_key [of span_order spans] by (simp add: sorted_wrt_map del: sorted_sort_key)
  then have "sorted_wrt (\<lambda>(s, e, _) (s', e', _). s < s' \<or> s = s' \<and> e' \<le> e) ?sps"
    by (rule sorted_wrt_mono_rel [rotated]) (auto simp: span_order_def split: prod.splits)
  moreover have "\<forall>(s, e, ty)\<in>set ?sps. s < e" using assms by simp
  ultimately have all: "set ?k \<subseteq> {(s, e, ty)\<in>set ?sps. - 1 \<le> int s}
      \<and> sorted_wrt (\<lambda>(s, e, _) (s', e', _). e \<le> s') ?k
      \<and> (\<forall>(s, e, ty)\<in>set ?sps. - 1 \<le> int s \<longrightarrow> (\<exists>(s', e', ty')\<in>set ?k. s' \<le> s \<and> s < e' \<and> (s' = s \<longrightarrow> e \<le> e')))"
    by (rule keep_spans_covers)
  note k = all [THEN conjunct1] all [THEN conjunct2, THEN conjunct1] all [THEN conjunct2, THEN conjunct2]
  have "drop_overlaps spans = rev ?k"
  proof (rule drop_overlaps_rev)
    have "sorted_wrt (\<lambda>x y. fst x < fst y) ?k"
      using k(2) by (rule sorted_wrt_mono_rel [rotated]) (use k(1) assms in fastforce)
    then show "sorted_wrt (<) (map fst ?k)" by (simp add: sorted_wrt_map)
  qed
  with k show ?thesis by (auto simp: sorted_wrt_rev split_def)
qed

theorem overlaps_resolved_witness:
  "set (drop_overlaps [(0, 4, ''ssn''), (2, 9, ''phone''), (0, 6, ''iban''), (9, 11, ''ssn'')])
     \<subseteq> set [(0, 4, ''ssn''), (2, 9, ''phone''), (0, 6, ''iban''), (9, 11, ''ssn'')]
   \<and> drop_overlaps [(0, 4, ''ssn''), (2, 9, ''phone''), (0, 6, ''iban''), (9, 11, ''ssn'')]
     = [(9, 11, ''ssn''), (0, 6, ''iban'')]"
  using overlaps_resolved [of "[(0, 4, ''ssn''), (2, 9, ''phone''), (0, 6, ''iban''), (9, 11, ''ssn'')]"]
  by (intro conjI) (simp, code_simp)

text \<open>A detection that starts inside an earlier one is dropped although it is the longer: its tail stays.\<close>

lemma longer_overlap_dropped:
  "drop_overlaps [(2, 9, ''phone''), (4, 30, ''iban'')] = [(2, 9, ''phone'')]"
  by code_simp

end
