(* ===== verification/ApiKeys.thy ===== *)
theory ApiKeys
  imports Authorization Service "HOL-Library.AList"
begin

text \<open>
  API keys: the service of one gateway instance (\<open>auth/api_key_service.py\<close>) with its validation cache, and the
  rows behind it (\<open>persistence.py\<close>). A revocation advances an epoch in the table in the same transaction;
  the other instances poll the epoch and drop what they cached.

  All times are seconds of one clock, \<open>expires_at\<close> included. \<open>digest\<close> is the SHA-256 digest of a raw key. A
  call reads the clock at several points: \<open>now i\<close> is what it reads at the \<open>i\<close>-th of them, one value for readings
  with no service call between them. The operations of an instance are
  modelled one after the other; other instances act between the service calls.
\<close>

section \<open>Keys and rows\<close>

record api_key =
  ak_id :: string
  ak_hash :: string
  ak_project :: string
  ak_name :: string
  ak_scopes :: "string list"
  ak_created_by :: string
  ak_tenant :: "string option"
  ak_created_at :: rat
  ak_expires_at :: "rat option"
  ak_revoked :: bool
  ak_revoked_at :: "rat option"
  ak_revoked_by :: "string option"
  ak_last_used_at :: "rat option"
  ak_role :: tenant_role

type_synonym key_ref = "string option \<times> string"

definition API_KEY_ISSUER :: string where "API_KEY_ISSUER = ''urn:axonllm:api-key''"

definition key_ref_of :: "api_key \<Rightarrow> key_ref" where
  "key_ref_of k = (ak_tenant k, ak_id k)"

text \<open>The key rows, the hash lookups, the project edges, the status of the keys' principals, the epochs.\<close>

record key_store =
  ks_rows :: "key_ref \<rightharpoonup> api_key"
  ks_hashes :: "string \<rightharpoonup> key_ref"
  ks_edges :: "(key_ref \<times> string) list"
  ks_principals :: "key_ref \<rightharpoonup> principal"
  ks_epochs :: "string option \<rightharpoonup> nat"

definition empty_keys :: key_store where
  "empty_keys = \<lparr>ks_rows = Map.empty, ks_hashes = Map.empty, ks_edges = [], ks_principals = Map.empty, ks_epochs = Map.empty\<rparr>"

definition epoch_at :: "string option \<Rightarrow> key_store \<Rightarrow> nat" where
  "epoch_at tenant st = get_or (ks_epochs st) tenant 0"

definition stored_key :: "string \<Rightarrow> key_store \<Rightarrow> api_key option" where
  "stored_key h st = (case ks_hashes st h of None \<Rightarrow> None | Some r \<Rightarrow> ks_rows st r)"

text \<open>The condition that a new row is not there yet, in the order of the operations.\<close>

definition issue_conflict :: "api_key \<Rightarrow> bool \<Rightarrow> key_store \<Rightarrow> nat option" where
  "issue_conflict k with_principal st =
     (if ks_rows st (key_ref_of k) \<noteq> None then Some 0
      else if ks_hashes st (ak_hash k) \<noteq> None then Some 1
      else if (key_ref_of k, ak_project k) \<in> set (ks_edges st) then Some 2
      else if with_principal \<and> ks_principals st (key_ref_of k) \<noteq> None then Some 3 else None)"

definition put_key_rows :: "api_key \<Rightarrow> principal option \<Rightarrow> key_store \<Rightarrow> key_store" where
  "put_key_rows k who st =
     st\<lparr>ks_rows := (ks_rows st)(key_ref_of k \<mapsto> k), ks_hashes := (ks_hashes st)(ak_hash k \<mapsto> key_ref_of k),
        ks_edges := ks_edges st @ [(key_ref_of k, ak_project k)],
        ks_principals := (case who of None \<Rightarrow> ks_principals st | Some p \<Rightarrow> (ks_principals st)(key_ref_of k \<mapsto> p))\<rparr>"

definition txn_issue :: "api_key \<Rightarrow> principal option \<Rightarrow> key_store \<Rightarrow> nat + key_store" where
  "txn_issue k who st = (case issue_conflict k (who \<noteq> None) st of Some i \<Rightarrow> Inl i | None \<Rightarrow> Inr (put_key_rows k who st))"

definition revoke_condition :: "api_key \<Rightarrow> key_store \<Rightarrow> bool" where
  "revoke_condition k st = (case ks_rows st (key_ref_of k) of None \<Rightarrow> False | Some row \<Rightarrow> ak_hash row = ak_hash k \<and> \<not> ak_revoked row)"

definition principal_active :: "api_key \<Rightarrow> key_store \<Rightarrow> bool" where
  "principal_active k st = (case ks_principals st (key_ref_of k) of
       None \<Rightarrow> False
     | Some p \<Rightarrow> Some (pr_tenant p) = ak_tenant k \<and> pr_subject p = ak_id k \<and> pr_issuer p = API_KEY_ISSUER
         \<and> pr_auth_method p = ApiKeyMethod \<and> pr_status p = Active)"

definition put_revocation :: "api_key \<Rightarrow> bool \<Rightarrow> key_store \<Rightarrow> key_store" where
  "put_revocation k with_principal st =
     st\<lparr>ks_rows := (ks_rows st)(key_ref_of k := map_option (\<lambda>row. row\<lparr>ak_revoked := True, ak_revoked_at := ak_revoked_at k,
                       ak_revoked_by := ak_revoked_by k\<rparr>) (ks_rows st (key_ref_of k))),
        ks_principals := (if with_principal
          then (ks_principals st)(key_ref_of k := map_option (\<lambda>p. p\<lparr>pr_status := Deprovisioned, pr_version := pr_version p + 1\<rparr>)
                 (ks_principals st (key_ref_of k)))
          else ks_principals st),
        ks_epochs := (ks_epochs st)(ak_tenant k \<mapsto> epoch_at (ak_tenant k) st + 1)\<rparr>"

text \<open>The failed transaction reports the first operation whose condition failed.\<close>

definition txn_revoke :: "api_key \<Rightarrow> bool \<Rightarrow> key_store \<Rightarrow> nat + key_store" where
  "txn_revoke k with_principal st =
     (if \<not> revoke_condition k st then Inl 0
      else if with_principal \<and> \<not> principal_active k st then Inl 1
      else Inr (put_revocation k with_principal st))"

definition txn_rotate :: "api_key \<Rightarrow> api_key \<Rightarrow> principal \<Rightarrow> key_store \<Rightarrow> nat + key_store" where
  "txn_rotate old new who st =
     (if \<not> revoke_condition old st then Inl 0
      else if \<not> principal_active old st then Inl 1
      else (case issue_conflict new True st of
              Some i \<Rightarrow> Inl (3 + i)
            | None \<Rightarrow> Inr (put_key_rows new (Some who) (put_revocation old True st))))"

section \<open>Persistence calls\<close>

text \<open>A failed read, or a row that does not match the lookup, answers \<open>None\<close>, like a key that is not there.\<close>

definition get_api_key_by_hash :: "string \<Rightarrow> (key_store, api_key option) service" where
  "get_api_key_by_hash h =
     bind_io (try_io (bind_io (get_io (\<lambda>st. ks_hashes st h)) (\<lambda>ref.
         (case ref of
            None \<Rightarrow> return_io None
          | Some r \<Rightarrow> bind_io (get_io (\<lambda>st. ks_rows st r)) (\<lambda>row.
              (case row of
                 Some key \<Rightarrow> if key_ref_of key = r \<and> ak_hash key = h then return_io row else fail_io
               | None \<Rightarrow> return_io None))))))
       (\<lambda>k. return_io (case k of None \<Rightarrow> None | Some key \<Rightarrow> key))"

text \<open>A failed read of a tenant key raises.\<close>

definition get_api_key :: "string \<Rightarrow> string option \<Rightarrow> (key_store, api_key option) service" where
  "get_api_key key_id tenant =
     bind_io (try_io (bind_io (get_io (\<lambda>st. ks_rows st (tenant, key_id))) (\<lambda>row.
         (case row of
            Some key \<Rightarrow> if key_ref_of key = (tenant, key_id) then return_io row else fail_io
          | None \<Rightarrow> return_io None)))) (\<lambda>k.
       (case k of
          None \<Rightarrow> if tenant \<noteq> None then fail_io else return_io None
        | Some key \<Rightarrow> return_io key))"

text \<open>
  The keys of a project, in the order of the project's edges (by key id, the order of the sort keys). Edges
  beyond one page of the query are not read.
\<close>

definition project_edges :: "string \<Rightarrow> string option \<Rightarrow> key_store \<Rightarrow> string list" where
  "project_edges project tenant st =
     sort (map (snd \<circ> fst) (filter (\<lambda>(r, p). fst r = tenant \<and> p = project) (ks_edges st)))"

fun read_edges :: "string option \<Rightarrow> string list \<Rightarrow> (key_store, api_key list) service" where
  "read_edges tenant [] = return_io []"
| "read_edges tenant (i # is) = bind_io (get_io (\<lambda>st. ks_rows st (tenant, i))) (\<lambda>row.
     bind_io (read_edges tenant is) (\<lambda>ks. return_io (case row of None \<Rightarrow> ks | Some k \<Rightarrow> k # ks)))"

definition list_api_keys_for_project :: "string \<Rightarrow> string option \<Rightarrow> (key_store, api_key list) service" where
  "list_api_keys_for_project project tenant =
     bind_io (try_io (bind_io (get_io (project_edges project tenant)) (\<lambda>is. bind_io (read_edges tenant is) (\<lambda>ks.
         if \<exists>k \<in> set ks. ak_project k \<noteq> project \<or> ak_tenant k \<noteq> tenant then fail_io else return_io ks))))
       (\<lambda>r. (case r of
           Some ks \<Rightarrow> return_io ks
         | None \<Rightarrow> if tenant \<noteq> None then fail_io else return_io []))"

definition get_revocation_epoch :: "string option \<Rightarrow> (key_store, nat option) service" where
  "get_revocation_epoch tenant = try_io (get_io (epoch_at tenant))"

text \<open>An exception of the writes is a \<open>ValueError\<close> of their arguments or any of their \<open>RuntimeError\<close>s.\<close>

definition key_principal_valid :: "api_key \<Rightarrow> principal \<Rightarrow> bool" where
  "key_principal_valid k p \<longleftrightarrow> ak_tenant k \<noteq> None \<and> ak_role k \<in> {ServiceRole, TenantAdmin}
     \<and> \<not> (ak_role k = TenantAdmin \<and> ak_scopes k \<noteq> [])
     \<and> Some (pr_tenant p) = ak_tenant k \<and> pr_subject p = ak_id k \<and> pr_issuer p = API_KEY_ISSUER
     \<and> pr_auth_method p = ApiKeyMethod \<and> pr_status p = Active \<and> pr_roles p = {ak_role k}
     \<and> pr_projects p = {ak_project k} \<and> pr_scopes p = (if ak_role k = ServiceRole then set (ak_scopes k) else {})
     \<and> pr_version p = 1"

definition save_key :: "api_key \<Rightarrow> principal option \<Rightarrow> (key_store, unit) service" where
  "save_key k who =
     (if (case who of None \<Rightarrow> False | Some p \<Rightarrow> \<not> key_principal_valid k p) then fail_io
      else bind_io (write_io (txn_issue k who)) (\<lambda>out. if out = Done then return_io () else fail_io))"

definition revoke_stored_key :: "api_key \<Rightarrow> bool \<Rightarrow> (key_store, bool) service" where
  "revoke_stored_key k with_principal =
     (if \<not> ak_revoked k \<or> ak_revoked_at k = None \<or> (case ak_revoked_by k of None \<Rightarrow> True | Some b \<Rightarrow> blank b) then fail_io
      else bind_io (write_io (txn_revoke k with_principal)) (\<lambda>out.
        (case out of Done \<Rightarrow> return_io True | Rejected 0 \<Rightarrow> return_io False | _ \<Rightarrow> fail_io)))"

definition rotation_valid :: "api_key \<Rightarrow> api_key \<Rightarrow> bool" where
  "rotation_valid old new \<longleftrightarrow> ak_tenant old \<noteq> None
     \<and> ak_revoked old \<and> ak_revoked_at old \<noteq> None \<and> (case ak_revoked_by old of None \<Rightarrow> False | Some b \<Rightarrow> \<not> blank b)
     \<and> \<not> ak_revoked new \<and> ak_revoked_at new = None
     \<and> ak_tenant new = ak_tenant old \<and> ak_project new = ak_project old \<and> ak_name new = ak_name old \<and> ak_scopes new = ak_scopes old
     \<and> ak_id new \<noteq> ak_id old \<and> ak_hash new \<noteq> ak_hash old"

definition rotate_stored_key :: "api_key \<Rightarrow> api_key \<Rightarrow> principal \<Rightarrow> (key_store, bool) service" where
  "rotate_stored_key old new who =
     (if \<not> rotation_valid old new \<or> \<not> key_principal_valid new who then fail_io
      else bind_io (write_io (txn_rotate old new who)) (\<lambda>out.
        (case out of Done \<Rightarrow> return_io True | Rejected 0 \<Rightarrow> return_io False | _ \<Rightarrow> fail_io)))"

section \<open>The service of an instance\<close>

definition KEY_PREFIX :: string where "KEY_PREFIX = ''axon_''"
definition CACHE_TTL_SECONDS :: rat where "CACHE_TTL_SECONDS = 300"
definition REVOCATION_POLL_SECONDS :: rat where "REVOCATION_POLL_SECONDS = 5"
definition DEFAULT_TENANT_KEY_TTL :: rat where "DEFAULT_TENANT_KEY_TTL = 90 * 86400"
definition MAX_TENANT_KEY_TTL :: rat where "MAX_TENANT_KEY_TTL = 365 * 86400"

text \<open>
  \<open>sv_epochs\<close> and \<open>sv_checked\<close> hold the attributes of the unqualified keys under \<open>None\<close> and those of a tenant
  under its id.
\<close>

record key_service =
  sv_in_memory :: bool
  sv_cache :: "string \<rightharpoonup> api_key \<times> rat"
  sv_memory :: "(string \<times> api_key) list"
  sv_epochs :: "string option \<rightharpoonup> nat"
  sv_checked :: "string option \<rightharpoonup> rat"
  sv_baseline :: "string set"

definition new_key_service :: "bool \<Rightarrow> key_service" where
  "new_key_service in_memory = \<lparr>sv_in_memory = in_memory, sv_cache = Map.empty, sv_memory = [], sv_epochs = Map.empty,
     sv_checked = Map.empty, sv_baseline = {}\<rparr>"

text \<open>\<open>Inl\<close> is the \<open>ValueError\<close>; a naive expiry does not occur here.\<close>

definition resolve_expiry :: "rat option \<Rightarrow> string option \<Rightarrow> rat \<Rightarrow> unit + rat option" where
  "resolve_expiry expires tenant now =
     (if tenant = None then Inr expires
      else let resolved = (case expires of None \<Rightarrow> now + DEFAULT_TENANT_KEY_TTL | Some e \<Rightarrow> e) in
           if resolved \<le> now then Inl ()
           else if MAX_TENANT_KEY_TTL < resolved - now then Inl () else Inr (Some resolved))"

definition principal_for_key :: "api_key \<Rightarrow> string \<Rightarrow> principal" where
  "principal_for_key k tenant =
     \<lparr>pr_id = ''apikey:'' @ ak_id k, pr_tenant = tenant, pr_subject = ak_id k, pr_issuer = API_KEY_ISSUER,
      pr_roles = {ak_role k}, pr_auth_method = ApiKeyMethod, pr_status = Active, pr_projects = {ak_project k},
      pr_scopes = (if ak_role k = ServiceRole then set (ak_scopes k) else {}), pr_version = 1\<rparr>"

definition usable :: "api_key \<Rightarrow> rat \<Rightarrow> bool" where
  "usable k now \<longleftrightarrow> \<not> ak_revoked k \<and> (case ak_expires_at k of None \<Rightarrow> True | Some e \<Rightarrow> now \<le> e)"

definition cache_issued_key :: "api_key \<Rightarrow> rat \<Rightarrow> key_service \<Rightarrow> key_service" where
  "cache_issued_key k now s =
     (let s' = s\<lparr>sv_cache := (sv_cache s)(ak_hash k \<mapsto> (k, now))\<rparr> in
      if sv_in_memory s then s'
      else if sv_epochs s (ak_tenant k) = None then s'\<lparr>sv_baseline := insert (ak_hash k) (sv_baseline s)\<rparr> else s')"

definition evict_cached_key :: "string \<Rightarrow> key_service \<Rightarrow> key_service" where
  "evict_cached_key h s = s\<lparr>sv_baseline := sv_baseline s - {h}, sv_cache := (sv_cache s)(h := None)\<rparr>"

text \<open>Adopting an epoch that was read: the answer says whether a key loaded before must be read again.\<close>

definition adopt_epoch :: "string option \<Rightarrow> nat \<Rightarrow> key_service \<Rightarrow> bool \<times> key_service" where
  "adopt_epoch tenant epoch s =
     (case sv_epochs s tenant of
        None \<Rightarrow> (True, s\<lparr>sv_epochs := (sv_epochs s)(tenant \<mapsto> epoch)\<rparr>)
      | Some previous \<Rightarrow>
          if epoch \<noteq> previous
          then (let kept = (\<lambda>h. case sv_cache s h of None \<Rightarrow> None
                             | Some (k, t) \<Rightarrow> if ak_tenant k \<noteq> tenant then Some (k, t) else None)
                in (True, s\<lparr>sv_epochs := (sv_epochs s)(tenant \<mapsto> epoch), sv_cache := kept,
                           sv_baseline := {h \<in> sv_baseline s. kept h \<noteq> None}\<rparr>))
          else (False, s))"

definition poll_due :: "string option \<Rightarrow> rat \<Rightarrow> key_service \<Rightarrow> bool" where
  "poll_due tenant now s \<longleftrightarrow> \<not> sv_in_memory s \<and> \<not> now - get_or (sv_checked s) tenant 0 < REVOCATION_POLL_SECONDS"

definition check_revocations :: "string option \<Rightarrow> rat \<Rightarrow> key_service \<Rightarrow> (key_store, bool \<times> key_service) service" where
  "check_revocations tenant now s =
     (if \<not> poll_due tenant now s then return_io (False, s)
      else let s1 = s\<lparr>sv_checked := (sv_checked s)(tenant \<mapsto> now)\<rparr> in
           bind_io (get_revocation_epoch tenant) (\<lambda>e.
             return_io (case e of None \<Rightarrow> (False, s1) | Some epoch \<Rightarrow> adopt_epoch tenant epoch s1)))"

definition load_key_by_hash :: "string \<Rightarrow> key_service \<Rightarrow> (key_store, api_key option) service" where
  "load_key_by_hash h s =
     (if sv_in_memory s then return_io (find (\<lambda>k. ak_hash k = h) (map snd (sv_memory s))) else get_api_key_by_hash h)"

definition usable_or_none :: "api_key option \<Rightarrow> rat \<Rightarrow> api_key option" where
  "usable_or_none k now = (case k of None \<Rightarrow> None | Some key \<Rightarrow> if usable key now then Some key else None)"

text \<open>
  What happens with a key that was just read. Reading it again after a first or a changed epoch orders the value
  after that epoch.
\<close>

definition confirm_loaded :: "(nat \<Rightarrow> rat) \<Rightarrow> string \<Rightarrow> api_key option \<Rightarrow> key_service
    \<Rightarrow> (key_store, api_key option \<times> key_service) service" where
  "confirm_loaded now h k s =
     (case usable_or_none k (now 3) of
        None \<Rightarrow> return_io (None, s)
      | Some key \<Rightarrow> bind_io (check_revocations (ak_tenant key) (now 4) s) (\<lambda>(again, s').
          if again \<and> \<not> sv_in_memory s'
          then bind_io (load_key_by_hash h s') (\<lambda>k2. return_io (usable_or_none k2 (now 5), s'))
          else return_io (Some key, s')))"

definition load_cacheable_key :: "(nat \<Rightarrow> rat) \<Rightarrow> string \<Rightarrow> key_service \<Rightarrow> (key_store, api_key option \<times> key_service) service" where
  "load_cacheable_key now h s = bind_io (load_key_by_hash h s) (\<lambda>k. confirm_loaded now h k s)"

definition refresh_baseline :: "rat \<Rightarrow> string \<Rightarrow> rat \<Rightarrow> key_service \<Rightarrow> (key_store, key_service) service" where
  "refresh_baseline now h cached_at s =
     bind_io (load_key_by_hash h s) (\<lambda>k.
       let s1 = s\<lparr>sv_baseline := sv_baseline s - {h}\<rparr> in
       return_io (case usable_or_none k now of
         None \<Rightarrow> s1\<lparr>sv_cache := (sv_cache s1)(h := None)\<rparr>
       | Some key \<Rightarrow> s1\<lparr>sv_cache := (sv_cache s1)(h \<mapsto> (key, cached_at))\<rparr>))"

definition check_cached_revocations :: "(nat \<Rightarrow> rat) \<Rightarrow> string \<Rightarrow> key_service \<Rightarrow> (key_store, key_service) service" where
  "check_cached_revocations now h s =
     (case sv_cache s h of
        None \<Rightarrow> return_io s
      | Some (k, cached_at) \<Rightarrow> bind_io (check_revocations (ak_tenant k) (now 0) s) (\<lambda>(_, s1).
          if h \<in> sv_baseline s1 \<and> sv_epochs s1 (ak_tenant k) \<noteq> None \<and> \<not> sv_in_memory s1
          then refresh_baseline (now 1) h cached_at s1 else return_io s1))"

text \<open>
  The time of the last use is written into the key object. Without persistence the memory store holds the same
  object.
\<close>

definition note_use :: "string \<Rightarrow> api_key \<Rightarrow> rat \<Rightarrow> rat \<Rightarrow> key_service \<Rightarrow> api_key option \<times> key_service" where
  "note_use h k used_at cached_at s =
     (let used = k\<lparr>ak_last_used_at := Some used_at\<rparr> in
      (Some used, s\<lparr>sv_cache := (sv_cache s)(h \<mapsto> (used, cached_at)),
                    sv_memory := (if sv_in_memory s
                      then map (\<lambda>(i, m). (i, if ak_hash m = h then used else m)) (sv_memory s) else sv_memory s)\<rparr>))"

definition validate_uncached :: "(nat \<Rightarrow> rat) \<Rightarrow> string \<Rightarrow> key_service \<Rightarrow> (key_store, api_key option \<times> key_service) service" where
  "validate_uncached now h s =
     bind_io (load_cacheable_key now h s) (\<lambda>(k, s1).
       return_io (case k of
         None \<Rightarrow> (None, s1)
       | Some key \<Rightarrow> note_use h key (now 6) (now 7) s1))"

definition validate_key :: "(string \<Rightarrow> string) \<Rightarrow> (nat \<Rightarrow> rat) \<Rightarrow> string \<Rightarrow> key_service \<Rightarrow> (key_store, api_key option \<times> key_service) service" where
  "validate_key digest now raw s =
     (if \<not> starts_with KEY_PREFIX raw then return_io (None, s)
      else let h = digest raw in
        bind_io (check_cached_revocations now h s) (\<lambda>s1.
          (case sv_cache s1 h of
             Some (k, cached_at) \<Rightarrow>
               if now 2 - cached_at < CACHE_TTL_SECONDS \<and> usable k (now 2)
               then return_io (note_use h k (now 2) cached_at s1)
               else validate_uncached now h (evict_cached_key h s1)
           | None \<Rightarrow> validate_uncached now h s1)))"

section \<open>The lifecycle operations\<close>

text \<open>
  An operation answers with a value or an error, and in both cases with the state of the service. \<open>KeyRefused\<close>
  is a \<open>ValueError\<close> of the service, \<open>KeyStoreFailed\<close> what a persistence call raised. The random part of a new
  key is an argument: its id and its plaintext, \<open>(i, raw)\<close>.
\<close>

datatype key_error = KeyRefused | KeyStoreFailed

type_synonym 'a key_answer = "(key_error + 'a) \<times> key_service"

record key_request =
  kq_project :: string
  kq_name :: string
  kq_scopes :: "string list"
  kq_created_by :: string
  kq_expires_at :: "rat option"
  kq_tenant :: "string option"
  kq_role :: tenant_role

definition request_refused :: "key_request \<Rightarrow> bool" where
  "request_refused q \<longleftrightarrow> kq_role q \<notin> {ServiceRole, TenantAdmin}
     \<or> kq_tenant q = None \<and> kq_role q \<noteq> ServiceRole
     \<or> kq_role q = TenantAdmin \<and> kq_scopes q \<noteq> []"

definition requested_key :: "key_request \<Rightarrow> string \<Rightarrow> string \<Rightarrow> rat \<Rightarrow> rat option \<Rightarrow> api_key" where
  "requested_key q i h now expires =
     \<lparr>ak_id = i, ak_hash = h, ak_project = kq_project q, ak_name = kq_name q, ak_scopes = kq_scopes q,
      ak_created_by = kq_created_by q, ak_tenant = kq_tenant q, ak_created_at = now, ak_expires_at = expires,
      ak_revoked = False, ak_revoked_at = None, ak_revoked_by = None, ak_last_used_at = None, ak_role = kq_role q\<rparr>"

definition persist_new_key :: "api_key \<Rightarrow> key_service \<Rightarrow> (key_store, unit) service" where
  "persist_new_key k s =
     (if sv_in_memory s then return_io ()
      else save_key k (case ak_tenant k of None \<Rightarrow> None | Some tenant \<Rightarrow> Some (principal_for_key k tenant)))"

definition remember_key :: "api_key \<Rightarrow> key_service \<Rightarrow> key_service" where
  "remember_key k s = (if sv_in_memory s then s\<lparr>sv_memory := AList.update (ak_id k) k (sv_memory s)\<rparr> else s)"

definition issue_key :: "(string \<Rightarrow> string) \<Rightarrow> (nat \<Rightarrow> rat) \<Rightarrow> string \<times> string \<Rightarrow> key_request \<Rightarrow> key_service
    \<Rightarrow> (key_store, (api_key \<times> string) key_answer) service" where
  "issue_key digest now fresh q s = (case fresh of (i, raw) \<Rightarrow>
     if request_refused q then return_io (Inl KeyRefused, s)
     else (case resolve_expiry (kq_expires_at q) (kq_tenant q) (now 0) of
         Inl _ \<Rightarrow> return_io (Inl KeyRefused, s)
       | Inr expires \<Rightarrow> let k = requested_key q i (digest raw) (now 0) expires in
           bind_io (try_io (persist_new_key k s)) (\<lambda>saved. return_io
             (case saved of
                None \<Rightarrow> (Inl KeyStoreFailed, s)
              | Some _ \<Rightarrow> (Inr (k, raw), cache_issued_key k (now 1) (remember_key k s))))))"

definition get_key :: "string \<Rightarrow> string option \<Rightarrow> key_service \<Rightarrow> (key_store, api_key option) service" where
  "get_key i tenant s =
     (if sv_in_memory s
      then return_io (case map_of (sv_memory s) i of None \<Rightarrow> None | Some k \<Rightarrow> if ak_tenant k \<noteq> tenant then None else Some k)
      else get_api_key i tenant)"

definition unattributed :: "string option \<Rightarrow> bool" where
  "unattributed actor = (case actor of None \<Rightarrow> True | Some a \<Rightarrow> blank a)"

definition revoked_copy :: "api_key \<Rightarrow> rat \<Rightarrow> string option \<Rightarrow> api_key" where
  "revoked_copy k now actor = k\<lparr>ak_revoked := True, ak_revoked_at := Some now,
     ak_revoked_by := Some (case actor of None \<Rightarrow> ''system'' | Some a \<Rightarrow> if a = [] then ''system'' else a)\<rparr>"

definition persist_revocation :: "api_key \<Rightarrow> key_service \<Rightarrow> (key_store, bool) service" where
  "persist_revocation k s =
     (if sv_in_memory s then return_io True else revoke_stored_key k (ak_tenant k \<noteq> None))"

definition revoke_key :: "(nat \<Rightarrow> rat) \<Rightarrow> string \<Rightarrow> string option \<Rightarrow> string option \<Rightarrow> key_service
    \<Rightarrow> (key_store, bool key_answer) service" where
  "revoke_key now i tenant actor s =
     bind_io (try_io (get_key i tenant s)) (\<lambda>found.
       (case found of
          None \<Rightarrow> return_io (Inl KeyStoreFailed, s)
        | Some None \<Rightarrow> return_io (Inr False, s)
        | Some (Some k) \<Rightarrow>
            if ak_revoked k then return_io (Inr False, evict_cached_key (ak_hash k) s)
            else if ak_tenant k \<noteq> None \<and> unattributed actor then return_io (Inl KeyRefused, s)
            else let r = revoked_copy k (now 0) actor in
              bind_io (try_io (persist_revocation r s)) (\<lambda>stored. return_io
                (case stored of
                   None \<Rightarrow> (Inl KeyStoreFailed, s)
                 | Some ok \<Rightarrow> (Inr ok, evict_cached_key (ak_hash k) (remember_key r s))))))"

definition invalidate_keys :: "key_service \<Rightarrow> key_service" where
  "invalidate_keys s = s\<lparr>sv_cache := Map.empty, sv_baseline := {}\<rparr>"

definition replacement_request :: "api_key \<Rightarrow> string \<Rightarrow> key_request" where
  "replacement_request old actor = \<lparr>kq_project = ak_project old, kq_name = ak_name old, kq_scopes = ak_scopes old,
     kq_created_by = actor, kq_expires_at = ak_expires_at old, kq_tenant = ak_tenant old, kq_role = ak_role old\<rparr>"

text \<open>A key of a tenant is replaced in one transaction.\<close>

definition rotate_tenant_key :: "(string \<Rightarrow> string) \<Rightarrow> (nat \<Rightarrow> rat) \<Rightarrow> string \<times> string \<Rightarrow> api_key \<Rightarrow> string \<Rightarrow> string \<Rightarrow> key_service
    \<Rightarrow> (key_store, (api_key \<times> string) option key_answer) service" where
  "rotate_tenant_key digest now fresh old tenant actor s = (case fresh of (i, raw) \<Rightarrow>
     (case resolve_expiry (ak_expires_at old) (ak_tenant old) (now 0) of
        Inl _ \<Rightarrow> return_io (Inl KeyRefused, s)
      | Inr expires \<Rightarrow>
          let new = requested_key (replacement_request old actor) i (digest raw) (now 0) expires;
              r = old\<lparr>ak_revoked := True, ak_revoked_at := Some (now 0), ak_revoked_by := Some actor\<rparr> in
          bind_io (try_io (rotate_stored_key r new (principal_for_key new tenant))) (\<lambda>stored. return_io
            (case stored of
               None \<Rightarrow> (Inl KeyStoreFailed, s)
             | Some False \<Rightarrow> (Inr None, evict_cached_key (ak_hash old) s)
             | Some True \<Rightarrow> (Inr (Some (new, raw)), cache_issued_key new (now 1) (evict_cached_key (ak_hash old) s))))))"

text \<open>Any other key is revoked first; when the replacement then fails the old key stays revoked.\<close>

definition rotate_in_steps :: "(string \<Rightarrow> string) \<Rightarrow> (nat \<Rightarrow> rat) \<Rightarrow> string \<times> string \<Rightarrow> string \<Rightarrow> api_key \<Rightarrow> string \<Rightarrow> key_service
    \<Rightarrow> (key_store, (api_key \<times> string) option key_answer) service" where
  "rotate_in_steps digest now fresh i old actor s =
     bind_io (revoke_key now i (ak_tenant old) (Some actor) s) (\<lambda>(revoked, s1).
       (case revoked of
          Inl e \<Rightarrow> return_io (Inl e, s1)
        | Inr False \<Rightarrow> return_io (Inr None, s1)
        | Inr True \<Rightarrow> bind_io (issue_key digest (\<lambda>j. now (1 + j)) fresh (replacement_request old actor) s1) (\<lambda>(issued, s2).
            return_io (map_sum id Some issued, s2))))"

definition rotate_key :: "(string \<Rightarrow> string) \<Rightarrow> (nat \<Rightarrow> rat) \<Rightarrow> string \<times> string \<Rightarrow> string \<Rightarrow> string \<Rightarrow> string option \<Rightarrow> key_service
    \<Rightarrow> (key_store, (api_key \<times> string) option key_answer) service" where
  "rotate_key digest now fresh i actor tenant s =
     bind_io (try_io (get_key i tenant s)) (\<lambda>found.
       (case found of
          None \<Rightarrow> return_io (Inl KeyStoreFailed, s)
        | Some None \<Rightarrow> return_io (Inr None, s)
        | Some (Some old) \<Rightarrow> (case ak_tenant old of
              Some t \<Rightarrow> if sv_in_memory s then rotate_in_steps digest now fresh i old actor s
                else rotate_tenant_key digest now fresh old t actor s
            | None \<Rightarrow> rotate_in_steps digest now fresh i old actor s)))"

definition list_keys :: "string \<Rightarrow> string option \<Rightarrow> key_service \<Rightarrow> (key_store, api_key list) service" where
  "list_keys project tenant s =
     (if sv_in_memory s
      then return_io (filter (\<lambda>k. ak_project k = project \<and> ak_tenant k = tenant) (map snd (sv_memory s)))
      else list_api_keys_for_project project tenant)"

end
