(* ===== verification/ApiKeysProps.thy ===== *)
theory ApiKeysProps
  imports ApiKeys
begin

text \<open>
  API keys: what one transaction may do to the key rows, that every operation of an instance keeps it, how long
  a revoked key can still be accepted, and that a rotation is one step.
\<close>

section \<open>The rows\<close>

text \<open>Hash lookups and rows name each other, and no revoked key has an active principal.\<close>

definition key_store_ok :: "key_store \<Rightarrow> bool" where
  "key_store_ok st \<longleftrightarrow>
     (\<forall>r k. ks_rows st r = Some k \<longrightarrow> key_ref_of k = r \<and> ks_hashes st (ak_hash k) = Some r)
   \<and> (\<forall>h r. ks_hashes st h = Some r \<longrightarrow> (\<exists>k. ks_rows st r = Some k \<and> ak_hash k = h))
   \<and> (\<forall>r p. ks_principals st r = Some p \<longrightarrow> fst r \<noteq> None
        \<and> (\<exists>k. ks_rows st r = Some k \<and> (ak_revoked k \<longrightarrow> pr_status p = Deprovisioned)))"

lemma key_store_okI:
  assumes "\<And>r k. ks_rows st r = Some k \<Longrightarrow> key_ref_of k = r \<and> ks_hashes st (ak_hash k) = Some r"
    "\<And>h r. ks_hashes st h = Some r \<Longrightarrow> \<exists>k. ks_rows st r = Some k \<and> ak_hash k = h"
    "\<And>r p. ks_principals st r = Some p \<Longrightarrow> fst r \<noteq> None
        \<and> (\<exists>k. ks_rows st r = Some k \<and> (ak_revoked k \<longrightarrow> pr_status p = Deprovisioned))"
  shows "key_store_ok st"
  unfolding key_store_ok_def using assms by blast

lemma key_store_okD:
  assumes "key_store_ok st"
  shows "ks_rows st r = Some k \<Longrightarrow> key_ref_of k = r"
    "ks_rows st r = Some k \<Longrightarrow> ks_hashes st (ak_hash k) = Some r"
    "ks_hashes st h = Some r \<Longrightarrow> \<exists>k. ks_rows st r = Some k \<and> ak_hash k = h"
    "ks_principals st r = Some p \<Longrightarrow> fst r \<noteq> None"
    "ks_principals st r = Some p \<Longrightarrow> \<exists>k. ks_rows st r = Some k \<and> (ak_revoked k \<longrightarrow> pr_status p = Deprovisioned)"
  using assms unfolding key_store_ok_def by blast+

text \<open>What a later row keeps of an earlier one with the tenant's epoch.\<close>

definition row_step :: "nat \<Rightarrow> nat \<Rightarrow> api_key \<Rightarrow> api_key \<Rightarrow> bool" where
  "row_step e e' k k' \<longleftrightarrow> ak_hash k' = ak_hash k \<and> ak_tenant k' = ak_tenant k
     \<and> (ak_revoked k \<longrightarrow> ak_revoked k') \<and> (ak_revoked k' \<longrightarrow> ak_revoked k \<or> e < e')"

definition key_step :: "key_store \<Rightarrow> key_store \<Rightarrow> bool" where
  "key_step st st' \<longleftrightarrow> key_store_ok st'
     \<and> (\<forall>tenant. epoch_at tenant st \<le> epoch_at tenant st')
     \<and> (\<forall>h r. ks_hashes st h = Some r \<longrightarrow> ks_hashes st' h = Some r)
     \<and> (\<forall>r k. ks_rows st r = Some k \<longrightarrow>
          (\<exists>k'. ks_rows st' r = Some k' \<and> row_step (epoch_at (fst r) st) (epoch_at (fst r) st') k k'))"

lemma key_step_refl: "key_store_ok st \<Longrightarrow> key_step st st"
  by (simp add: key_step_def row_step_def)

lemma row_step_trans:
  assumes "row_step e e' a b" "row_step e' e'' b c" "e \<le> e'" "e' \<le> e''"
  shows "row_step e e'' a c"
  using assms unfolding row_step_def by auto

lemma key_step_trans:
  assumes "key_step a b" "key_step b c"
  shows "key_step a c"
  unfolding key_step_def
proof (intro conjI allI impI)
  show "key_store_ok c" using assms by (simp add: key_step_def)
  show "epoch_at tenant a \<le> epoch_at tenant c" for tenant
    using assms unfolding key_step_def by (meson le_trans)
  show "ks_hashes c h = Some r" if "ks_hashes a h = Some r" for h r
    using assms that unfolding key_step_def by blast
  fix r k assume "ks_rows a r = Some k"
  with assms(1) obtain k1 where k1: "ks_rows b r = Some k1" "row_step (epoch_at (fst r) a) (epoch_at (fst r) b) k k1"
    unfolding key_step_def by blast
  with assms(2) obtain k2 where k2: "ks_rows c r = Some k2" "row_step (epoch_at (fst r) b) (epoch_at (fst r) c) k1 k2"
    unfolding key_step_def by blast
  have "epoch_at (fst r) a \<le> epoch_at (fst r) b" "epoch_at (fst r) b \<le> epoch_at (fst r) c"
    using assms by (simp_all add: key_step_def)
  with k1 k2 show "\<exists>k'. ks_rows c r = Some k' \<and> row_step (epoch_at (fst r) a) (epoch_at (fst r) c) k k'"
    using row_step_trans by blast
qed

lemma key_stepD:
  assumes "key_step st st'"
  shows "key_store_ok st'" "epoch_at tenant st \<le> epoch_at tenant st'"
    "ks_hashes st h = Some r \<Longrightarrow> ks_hashes st' h = Some r"
    "ks_rows st r = Some k \<Longrightarrow> \<exists>k'. ks_rows st' r = Some k' \<and> row_step (epoch_at (fst r) st) (epoch_at (fst r) st') k k'"
  using assms unfolding key_step_def by blast+

text \<open>What a later store keeps of a store that the instance has seen.\<close>

definition key_later :: "key_store \<Rightarrow> key_store \<Rightarrow> bool" where
  "key_later st st' \<longleftrightarrow> key_store_ok st \<and> key_step st st'"

interpretation keys: service_guarantee key_store_ok key_later key_step
proof
  show "key_step st st" if "key_store_ok st" for st using that by (rule key_step_refl)
  show "key_step a c" if "key_step a b" "key_step b c" for a b c using that by (rule key_step_trans)
  show "key_later st st'" if "key_store_ok st" "key_step st st'" for st st' using that by (simp add: key_later_def)
  show "key_store_ok st'" if "key_later st st'" for st st' using that by (simp add: key_later_def key_step_def)
qed

section \<open>Each transaction\<close>

lemma key_step_update:
  assumes "key_store_ok st'" "\<And>tenant. epoch_at tenant st \<le> epoch_at tenant st'"
    "ks_hashes st \<subseteq>\<^sub>m ks_hashes st'"
    "\<And>r k. ks_rows st r = Some k \<Longrightarrow> \<exists>k'. ks_rows st' r = Some k' \<and> row_step (epoch_at (fst r) st) (epoch_at (fst r) st') k k'"
  shows "key_step st st'"
  using assms unfolding key_step_def map_le_def by (metis domI)

lemma issue_free:
  assumes "issue_conflict k p st = None"
  shows "ks_rows st (key_ref_of k) = None" "ks_hashes st (ak_hash k) = None"
  using assms unfolding issue_conflict_def by (metis option.distinct(1))+

lemma put_key_rows_step:
  assumes ok: "key_store_ok st" and free: "ks_rows st (key_ref_of k) = None" "ks_hashes st (ak_hash k) = None"
    and k: "\<not> ak_revoked k" "who \<noteq> None \<Longrightarrow> ak_tenant k \<noteq> None"
  shows "key_step st (put_key_rows k who st)"
proof (rule key_step_update)
  show "key_store_ok (put_key_rows k who st)"
  proof (rule key_store_okI)
    fix r k' assume "ks_rows (put_key_rows k who st) r = Some k'"
    then consider "r = key_ref_of k" "k' = k" | "r \<noteq> key_ref_of k" "ks_rows st r = Some k'"
      by (auto simp: put_key_rows_def split: if_splits)
    then show "key_ref_of k' = r \<and> ks_hashes (put_key_rows k who st) (ak_hash k') = Some r"
      using key_store_okD(1,2) [OF ok, of r k'] free by cases (auto simp: put_key_rows_def)
  next
    fix h r assume "ks_hashes (put_key_rows k who st) h = Some r"
    then consider "r = key_ref_of k" "h = ak_hash k" | "h \<noteq> ak_hash k" "ks_hashes st h = Some r"
      by (auto simp: put_key_rows_def split: if_splits)
    then show "\<exists>k'. ks_rows (put_key_rows k who st) r = Some k' \<and> ak_hash k' = h"
      using key_store_okD(3) [OF ok, of h r] free by cases (auto simp: put_key_rows_def)
  next
    fix r p assume "ks_principals (put_key_rows k who st) r = Some p"
    then consider "r = key_ref_of k" "who \<noteq> None" | "ks_principals st r = Some p"
      by (auto simp: put_key_rows_def split: if_splits option.splits)
    then show "fst r \<noteq> None \<and> (\<exists>k'. ks_rows (put_key_rows k who st) r = Some k' \<and> (ak_revoked k' \<longrightarrow> pr_status p = Deprovisioned))"
      using key_store_okD(4,5) [OF ok, of r p] free k by cases (auto simp: put_key_rows_def key_ref_of_def)
  qed
  show "ks_hashes st \<subseteq>\<^sub>m ks_hashes (put_key_rows k who st)"
    using free by (auto simp: put_key_rows_def map_le_def)
  show "epoch_at tenant st \<le> epoch_at tenant (put_key_rows k who st)" for tenant
    by (simp add: put_key_rows_def epoch_at_def)
  show "\<exists>k'. ks_rows (put_key_rows k who st) r = Some k'
      \<and> row_step (epoch_at (fst r) st) (epoch_at (fst r) (put_key_rows k who st)) k1 k'" if "ks_rows st r = Some k1" for r k1
    using that free by (auto simp: put_key_rows_def row_step_def)
qed

lemma epoch_after_revocation:
  "epoch_at tenant (put_revocation k p st) = (if tenant = ak_tenant k then epoch_at tenant st + 1 else epoch_at tenant st)"
  by (simp add: put_revocation_def epoch_at_def get_or_def)

lemma put_revocation_step:
  assumes ok: "key_store_ok st" and p: "p \<or> ak_tenant k = None"
  shows "key_step st (put_revocation k p st)"
proof (rule key_step_update)
  define off where "off row = row\<lparr>ak_revoked := True, ak_revoked_at := ak_revoked_at k, ak_revoked_by := ak_revoked_by k\<rparr>" for row :: api_key
  have rows: "ks_rows (put_revocation k p st) r = (if r = key_ref_of k then map_option off (ks_rows st r) else ks_rows st r)" for r
    by (simp add: put_revocation_def off_def [abs_def])
  have off: "key_ref_of (off row) = key_ref_of row" "ak_hash (off row) = ak_hash row" for row
    by (simp_all add: off_def key_ref_of_def)
  have hashes: "ks_hashes (put_revocation k p st) = ks_hashes st" by (simp add: put_revocation_def)
  show "key_store_ok (put_revocation k p st)"
  proof (rule key_store_okI)
    fix r k' assume "ks_rows (put_revocation k p st) r = Some k'"
    then obtain row where "ks_rows st r = Some row" "key_ref_of k' = key_ref_of row" "ak_hash k' = ak_hash row"
      using off by (auto simp: rows split: if_splits)
    with key_store_okD(1,2) [OF ok] show "key_ref_of k' = r \<and> ks_hashes (put_revocation k p st) (ak_hash k') = Some r"
      by (simp add: hashes)
  next
    fix h r assume "ks_hashes (put_revocation k p st) h = Some r"
    with key_store_okD(3) [OF ok] obtain row where "ks_rows st r = Some row" "ak_hash row = h" unfolding hashes by blast
    then show "\<exists>k'. ks_rows (put_revocation k p st) r = Some k' \<and> ak_hash k' = h" by (auto simp: rows off)
  next
    fix r q assume q: "ks_principals (put_revocation k p st) r = Some q"
    then have tenant: "\<exists>q'. ks_principals st r = Some q'"
      by (auto simp: put_revocation_def split: if_splits)
    have tenanted: "fst r \<noteq> None" using tenant key_store_okD(4) [OF ok] by blast
    have "pr_status q = Deprovisioned" if "r = key_ref_of k" p using q that by (auto simp: put_revocation_def)
    moreover have "p" if "r = key_ref_of k" using p tenanted that by (auto simp: key_ref_of_def)
    moreover have "ks_principals st r = Some q" if "r \<noteq> key_ref_of k" using q that by (auto simp: put_revocation_def split: if_splits)
    ultimately have status: "pr_status q = Deprovisioned \<or> r \<noteq> key_ref_of k \<and> ks_principals st r = Some q" by blast
    from tenant key_store_okD(5) [OF ok] obtain row where row: "ks_rows st r = Some row" by blast
    have "ak_revoked row \<longrightarrow> pr_status q = Deprovisioned" if "r \<noteq> key_ref_of k" "ks_principals st r = Some q"
      using key_store_okD(5) [OF ok that(2)] row by auto
    with status row have "\<exists>k'. ks_rows (put_revocation k p st) r = Some k' \<and> (ak_revoked k' \<longrightarrow> pr_status q = Deprovisioned)"
      unfolding rows by (cases "r = key_ref_of k") auto
    with tenanted show "fst r \<noteq> None \<and> (\<exists>k'. ks_rows (put_revocation k p st) r = Some k' \<and> (ak_revoked k' \<longrightarrow> pr_status q = Deprovisioned))"
      by blast
  qed
  show "epoch_at tenant st \<le> epoch_at tenant (put_revocation k p st)" for tenant
    by (simp add: epoch_after_revocation)
  show "ks_hashes st \<subseteq>\<^sub>m ks_hashes (put_revocation k p st)" by (simp add: put_revocation_def)
  show "\<exists>k'. ks_rows (put_revocation k p st) r = Some k'
      \<and> row_step (epoch_at (fst r) st) (epoch_at (fst r) (put_revocation k p st)) k1 k'" if "ks_rows st r = Some k1" for r k1
    using that by (cases "r = key_ref_of k") (simp_all add: rows epoch_after_revocation row_step_def off_def key_ref_of_def)
qed

lemma txn_issue_step:
  assumes "key_store_ok st" "txn_issue k who st = Inr st'" "\<not> ak_revoked k" "who \<noteq> None \<Longrightarrow> ak_tenant k \<noteq> None"
  shows "key_step st st'" "stored_key (ak_hash k) st' = Some k" "\<not> ak_revoked k"
proof -
  from assms(2) have i: "issue_conflict k (who \<noteq> None) st = None" "st' = put_key_rows k who st"
    by (simp_all add: txn_issue_def split: option.splits)
  show "key_step st st'" using put_key_rows_step [OF assms(1) issue_free [OF i(1)] assms(3,4)] i(2) by simp
  show "stored_key (ak_hash k) st' = Some k" by (simp add: i(2) put_key_rows_def stored_key_def)
qed (rule assms(3))

lemma txn_revoke_step:
  assumes "key_store_ok st" "txn_revoke k p st = Inr st'" "p \<or> ak_tenant k = None"
  shows "key_step st st'"
  using put_revocation_step [OF assms(1,3)] assms(2) by (simp add: txn_revoke_def split: if_splits)

lemma txn_rotate_step:
  assumes ok: "key_store_ok st" and txn: "txn_rotate old new who st = Inr st'" and "\<not> ak_revoked new" "ak_tenant new \<noteq> None"
  shows "key_step st st'" "stored_key (ak_hash new) st' = Some new"
proof -
  let ?mid = "put_revocation old True st"
  from txn have i: "issue_conflict new True st = None" "st' = put_key_rows new (Some who) ?mid"
    by (simp_all add: txn_rotate_def split: option.splits if_splits)
  have one: "key_step st ?mid" by (rule put_revocation_step [OF ok]) simp
  then have "key_store_ok ?mid" by (simp add: key_step_def)
  moreover have "ks_rows ?mid (key_ref_of new) = None" "ks_hashes ?mid (ak_hash new) = None"
    using issue_free [OF i(1)] by (auto simp: put_revocation_def)
  ultimately have "key_step ?mid st'" unfolding i(2) by (rule put_key_rows_step) (use assms in simp_all)
  with one show "key_step st st'" by (rule key_step_trans)
  show "stored_key (ak_hash new) st' = Some new" by (simp add: i(2) put_key_rows_def stored_key_def)
qed

section \<open>What an instance knows\<close>

text \<open>
  The row behind a key object that an instance holds: it is there, of the same tenant, and if it is revoked by
  now the epoch of the tenant has moved past the one the instance knows.
\<close>

definition backed :: "key_service \<Rightarrow> string \<Rightarrow> api_key \<Rightarrow> key_store \<Rightarrow> bool" where
  "backed s h k st \<longleftrightarrow> (\<exists>row. stored_key h st = Some row \<and> ak_tenant row = ak_tenant k
     \<and> (\<forall>e. sv_epochs s (ak_tenant k) = Some e \<longrightarrow> ak_revoked row \<longrightarrow> e < epoch_at (ak_tenant k) st))"

definition key_inv :: "key_service \<Rightarrow> key_store \<Rightarrow> bool" where
  "key_inv s st \<longleftrightarrow> \<not> sv_in_memory s
     \<and> (\<forall>tenant e. sv_epochs s tenant = Some e \<longrightarrow> e \<le> epoch_at tenant st)
     \<and> (\<forall>tenant. sv_checked s tenant \<noteq> None \<longrightarrow> sv_epochs s tenant \<noteq> None)
     \<and> (\<forall>h k t. sv_cache s h = Some (k, t) \<longrightarrow>
          (\<exists>row. stored_key h st = Some row \<and> ak_tenant row = ak_tenant k)
          \<and> (h \<in> sv_baseline s \<or> backed s h k st \<and> sv_epochs s (ak_tenant k) \<noteq> None))"

text \<open>A revoked key that the instance may still hold without a pending reread: the last poll is not after \<open>T\<close>.\<close>

definition dead :: "rat \<Rightarrow> string \<Rightarrow> key_service \<Rightarrow> key_store \<Rightarrow> bool" where
  "dead T h s st \<longleftrightarrow> (\<exists>row. stored_key h st = Some row \<and> ak_revoked row
     \<and> (sv_cache s h = None \<or> h \<in> sv_baseline s \<or> (\<forall>t. sv_checked s (ak_tenant row) = Some t \<longrightarrow> t \<le> T)))"

definition polled_by :: "rat \<Rightarrow> key_service \<Rightarrow> bool" where
  "polled_by T s \<longleftrightarrow> (\<forall>tenant t. sv_checked s tenant = Some t \<longrightarrow> t \<le> T)"

definition track :: "rat \<Rightarrow> string set \<Rightarrow> bool \<Rightarrow> key_service \<Rightarrow> key_store \<Rightarrow> bool" where
  "track T D early s st \<longleftrightarrow> key_inv s st \<and> (\<forall>h \<in> D. dead T h s st) \<and> (early \<longrightarrow> polled_by T s)"

lemma stored_key_step:
  assumes "key_later st st'" "stored_key h st = Some row"
  shows "\<exists>row'. stored_key h st' = Some row'
    \<and> row_step (epoch_at (ak_tenant row) st) (epoch_at (ak_tenant row) st') row row'"
proof -
  from assms(2) obtain r where r: "ks_hashes st h = Some r" "ks_rows st r = Some row"
    by (auto simp: stored_key_def split: option.splits)
  from assms(1) have ok: "key_store_ok st" and step: "key_step st st'" by (simp_all add: key_later_def)
  from key_store_okD(1) [OF ok r(2)] have tenant: "fst r = ak_tenant row" by (auto simp: key_ref_of_def)
  from key_stepD(4) [OF step r(2)] obtain row' where "ks_rows st' r = Some row'"
    "row_step (epoch_at (fst r) st) (epoch_at (fst r) st') row row'" by blast
  with key_stepD(3) [OF step r(1)] tenant show ?thesis by (simp add: stored_key_def)
qed

lemma epoch_later: "key_later st st' \<Longrightarrow> epoch_at tenant st \<le> epoch_at tenant st'"
  by (simp add: key_later_def key_step_def)

lemma backed_later:
  assumes "backed s h k st" "key_later st st'"
    "\<And>e. sv_epochs s (ak_tenant k) = Some e \<Longrightarrow> e \<le> epoch_at (ak_tenant k) st"
  shows "backed s h k st'"
proof -
  from assms(1) obtain row where row: "stored_key h st = Some row" "ak_tenant row = ak_tenant k"
    "\<forall>e. sv_epochs s (ak_tenant k) = Some e \<longrightarrow> ak_revoked row \<longrightarrow> e < epoch_at (ak_tenant k) st"
    unfolding backed_def by blast
  from stored_key_step [OF assms(2) row(1)] obtain row' where row': "stored_key h st' = Some row'"
    "row_step (epoch_at (ak_tenant row) st) (epoch_at (ak_tenant row) st') row row'" by blast
  have "e < epoch_at (ak_tenant k) st'" if "sv_epochs s (ak_tenant k) = Some e" "ak_revoked row'" for e
    using row' row(2,3) that assms(3) [OF that(1)] epoch_later [OF assms(2), of "ak_tenant k"]
    by (fastforce simp: row_step_def)
  with row row' show ?thesis by (auto simp: backed_def row_step_def)
qed

lemma key_inv_later:
  assumes "key_inv s st" "key_later st st'"
  shows "key_inv s st'"
  unfolding key_inv_def
proof (intro conjI allI impI)
  have known: "e \<le> epoch_at tenant st" if "sv_epochs s tenant = Some e" for tenant e
    using assms(1) that by (simp add: key_inv_def)
  show "\<not> sv_in_memory s" using assms(1) by (simp add: key_inv_def)
  show "e \<le> epoch_at tenant st'" if "sv_epochs s tenant = Some e" for tenant e
    using known [OF that] epoch_later [OF assms(2), of tenant] by simp
  show "sv_epochs s tenant \<noteq> None" if "sv_checked s tenant \<noteq> None" for tenant
    using assms(1) that by (simp add: key_inv_def)
  fix h k t assume c: "sv_cache s h = Some (k, t)"
  with assms(1) obtain row where row: "stored_key h st = Some row" "ak_tenant row = ak_tenant k"
    and b: "h \<in> sv_baseline s \<or> backed s h k st \<and> sv_epochs s (ak_tenant k) \<noteq> None"
    unfolding key_inv_def by blast
  from stored_key_step [OF assms(2) row(1)] row(2)
  show "\<exists>row. stored_key h st' = Some row \<and> ak_tenant row = ak_tenant k" by (auto simp: row_step_def)
  from b show "h \<in> sv_baseline s \<or> backed s h k st' \<and> sv_epochs s (ak_tenant k) \<noteq> None"
    using backed_later [OF _ assms(2) known] by blast
qed

lemma dead_later: "dead T h s st \<Longrightarrow> key_later st st' \<Longrightarrow> dead T h s st'"
  unfolding dead_def using stored_key_step by (fastforce simp: row_step_def)

lemma track_stable: "stable_under key_later (track T D early s)"
  unfolding stable_under_def track_def using key_inv_later dead_later by blast

section \<open>Polling\<close>

lemma adopt_simps:
  "sv_in_memory (snd (adopt_epoch tenant e s)) = sv_in_memory s"
  "sv_checked (snd (adopt_epoch tenant e s)) = sv_checked s"
  "sv_epochs (snd (adopt_epoch tenant e s)) = (sv_epochs s)(tenant \<mapsto> e)"
  "fst (adopt_epoch tenant e s) \<longleftrightarrow> sv_epochs s tenant \<noteq> Some e"
  by (auto simp: adopt_epoch_def fun_eq_iff split: option.split)

lemma adopt_cache:
  "sv_cache (snd (adopt_epoch tenant e s)) h =
     (case sv_cache s h of None \<Rightarrow> None | Some (k, t) \<Rightarrow>
        if sv_epochs s tenant \<noteq> None \<and> sv_epochs s tenant \<noteq> Some e \<and> ak_tenant k = tenant then None else Some (k, t))"
  by (auto simp: adopt_epoch_def split: option.split prod.split)

lemma adopt_baseline:
  "h \<in> sv_baseline (snd (adopt_epoch tenant e s)) \<longleftrightarrow> h \<in> sv_baseline s
     \<and> (sv_epochs s tenant \<noteq> None \<and> sv_epochs s tenant \<noteq> Some e \<longrightarrow> sv_cache (snd (adopt_epoch tenant e s)) h \<noteq> None)"
  by (auto simp: adopt_epoch_def split: option.split prod.split)

text \<open>A successful poll.\<close>

definition polled :: "string option \<Rightarrow> rat \<Rightarrow> nat \<Rightarrow> key_service \<Rightarrow> key_service" where
  "polled tenant now e s = snd (adopt_epoch tenant e (s\<lparr>sv_checked := (sv_checked s)(tenant \<mapsto> now)\<rparr>))"

lemma polled_simps:
  "sv_in_memory (polled tenant now e s) = sv_in_memory s"
  "sv_checked (polled tenant now e s) = (sv_checked s)(tenant \<mapsto> now)"
  "sv_epochs (polled tenant now e s) = (sv_epochs s)(tenant \<mapsto> e)"
  by (simp_all add: polled_def adopt_simps)

lemma polled_cache:
  "sv_cache (polled tenant now e s) h = (case sv_cache s h of None \<Rightarrow> None | Some (k, t) \<Rightarrow>
     if sv_epochs s tenant \<noteq> None \<and> sv_epochs s tenant \<noteq> Some e \<and> ak_tenant k = tenant then None else Some (k, t))"
  by (cases "sv_cache s h") (auto simp: polled_def adopt_cache)

lemma polled_baseline:
  assumes "sv_cache (polled tenant now e s) h \<noteq> None"
  shows "h \<in> sv_baseline (polled tenant now e s) \<longleftrightarrow> h \<in> sv_baseline s"
  using assms by (simp add: polled_def adopt_baseline)

lemma polled_inv:
  assumes "key_inv s st" "e = epoch_at tenant st"
  shows "key_inv (polled tenant now e s) st"
  unfolding key_inv_def
proof (intro conjI allI impI)
  show "\<not> sv_in_memory (polled tenant now e s)" using assms(1) by (simp add: key_inv_def polled_simps)
  show "e' \<le> epoch_at tn st" if "sv_epochs (polled tenant now e s) tn = Some e'" for tn e'
    using assms that by (auto simp: key_inv_def polled_simps split: if_splits)
  show "sv_epochs (polled tenant now e s) tn \<noteq> None" if "sv_checked (polled tenant now e s) tn \<noteq> None" for tn
    using assms(1) that by (auto simp: key_inv_def polled_simps split: if_splits)
  fix h k t assume c: "sv_cache (polled tenant now e s) h = Some (k, t)"
  then have old: "sv_cache s h = Some (k, t)" and kept: "ak_tenant k = tenant \<Longrightarrow> sv_epochs s tenant \<in> {None, Some e}"
    by (auto simp: polled_cache split: option.splits if_splits)
  from assms(1) old obtain row where row: "stored_key h st = Some row" "ak_tenant row = ak_tenant k"
    and b: "h \<in> sv_baseline s \<or> backed s h k st \<and> sv_epochs s (ak_tenant k) \<noteq> None"
    unfolding key_inv_def by blast
  from row show "\<exists>row. stored_key h st = Some row \<and> ak_tenant row = ak_tenant k" by blast
  have "backed (polled tenant now e s) h k st" if "backed s h k st" "sv_epochs s (ak_tenant k) \<noteq> None"
    using that kept by (auto simp: backed_def polled_simps)
  with b show "h \<in> sv_baseline (polled tenant now e s) \<or> backed (polled tenant now e s) h k st
       \<and> sv_epochs (polled tenant now e s) (ak_tenant k) \<noteq> None"
    using polled_baseline [of tenant now e s h] c by (auto simp: polled_simps)
qed

text \<open>A revoked key that is cached without a pending reread is dropped by the next poll of its tenant.\<close>

lemma polled_drops:
  assumes "key_inv s st" "sv_cache s h = Some (k, t)" "stored_key h st = Some row" "ak_revoked row" "h \<notin> sv_baseline s"
  shows "sv_cache (polled (ak_tenant k) now (epoch_at (ak_tenant k) st) s) h = None"
proof -
  have "backed s h k st" "sv_epochs s (ak_tenant k) \<noteq> None"
    using assms(1,2,5) unfolding key_inv_def by blast+
  with assms(3,4) obtain e where "sv_epochs s (ak_tenant k) = Some e" "e < epoch_at (ak_tenant k) st"
    unfolding backed_def by auto
  with assms(2) show ?thesis by (simp add: polled_cache)
qed

lemma polled_dead:
  assumes "key_inv s st" "dead T h s st"
  shows "dead T h (polled tenant now (epoch_at tenant st) s) st"
proof -
  let ?s = "polled tenant now (epoch_at tenant st) s"
  from assms(2) obtain row where row: "stored_key h st = Some row" "ak_revoked row"
    and d: "sv_cache s h = None \<or> h \<in> sv_baseline s \<or> (\<forall>t. sv_checked s (ak_tenant row) = Some t \<longrightarrow> t \<le> T)"
    unfolding dead_def by blast
  have "h \<in> sv_baseline ?s \<or> (\<forall>t. sv_checked ?s (ak_tenant row) = Some t \<longrightarrow> t \<le> T)" if c: "sv_cache ?s h \<noteq> None"
  proof (cases "h \<in> sv_baseline s")
    case True
    then show ?thesis using polled_baseline [OF c] by blast
  next
    case False
    from c obtain k t where old: "sv_cache s h = Some (k, t)" by (auto simp: polled_cache split: option.splits)
    then obtain row' where "stored_key h st = Some row'" "ak_tenant row' = ak_tenant k"
      using assms(1) unfolding key_inv_def by blast
    with row have same: "ak_tenant row = ak_tenant k" by simp
    have "ak_tenant k \<noteq> tenant" using polled_drops [OF assms(1) old row False, of now] c by auto
    with d False old same show ?thesis by (auto simp: polled_simps)
  qed
  then show ?thesis unfolding dead_def using row by (intro exI [of _ row]) blast
qed

lemma polled_track:
  assumes "track T D early s st" "early \<Longrightarrow> now \<le> T"
  shows "track T D early (polled tenant now (epoch_at tenant st) s) st"
  using assms polled_inv polled_dead by (auto simp: track_def polled_by_def polled_simps)

section \<open>The calls of a validation\<close>

abbreviation calm_key :: "(key_store \<Rightarrow> bool) \<Rightarrow> (key_store, 'a) service \<Rightarrow> ('a option \<Rightarrow> key_store \<Rightarrow> bool) \<Rightarrow> bool" where
  "calm_key \<equiv> service_calm key_store_ok key_step"

text \<open>The readings of the clock: at least five seconds after time 0, and in the early phase not after \<open>T\<close>.\<close>

definition clock :: "rat \<Rightarrow> bool \<Rightarrow> (nat \<Rightarrow> rat) \<Rightarrow> bool" where
  "clock T early now \<longleftrightarrow> (\<forall>i. 5 \<le> now i \<and> (early \<longrightarrow> now i \<le> T))"

lemma not_due_checked:
  assumes "5 \<le> now" "\<not> sv_in_memory s" "\<not> poll_due tenant now s"
  shows "sv_checked s tenant \<noteq> None"
  using assms by (cases "sv_checked s tenant") (simp_all add: poll_due_def REVOCATION_POLL_SECONDS_def get_or_def)

lemma check_revocations_calm:
  assumes "5 \<le> now" "early \<Longrightarrow> now \<le> T"
  shows "calm_key (track T D early s) (check_revocations tenant now s) (\<lambda>r st. \<exists>again s'. r = Some (again, s')
     \<and> track T D early s' st \<and> sv_epochs s' tenant \<noteq> None \<and> (\<not> again \<longrightarrow> sv_epochs s' = sv_epochs s)
     \<and> (s' = s \<and> \<not> poll_due tenant now s \<or> s' = polled tenant now (epoch_at tenant st) s))" (is "calm_key ?P _ ?Q")
proof (cases "poll_due tenant now s")
  case False
  have "?Q (Some (False, s)) st" if "?P st" for st
    using that not_due_checked [OF assms(1) _ False] False by (auto simp: track_def key_inv_def)
  then show ?thesis unfolding check_revocations_def using False by (simp add: keys.calm_return)
next
  case True
  let ?s1 = "s\<lparr>sv_checked := (sv_checked s)(tenant \<mapsto> now)\<rparr>"
  have read: "calm_key ?P (get_revocation_epoch tenant)
      (\<lambda>r st. \<exists>y. r = Some y \<and> (y = Some (epoch_at tenant st) \<and> ?P st))"
    unfolding get_revocation_epoch_def by (rule keys.calm_try [OF keys.calm_get [OF track_stable]])
  have "?Q (Some (adopt_epoch tenant (epoch_at tenant st) ?s1)) st" if "?P st" for st
  proof -
    let ?r = "adopt_epoch tenant (epoch_at tenant st) ?s1"
    obtain again where r: "?r = (again, polled tenant now (epoch_at tenant st) s)"
      by (metis polled_def prod.collapse)
    have "sv_epochs (polled tenant now (epoch_at tenant st) s) = sv_epochs s" if "\<not> again"
      using that r adopt_simps(4) [of tenant "epoch_at tenant st" ?s1] by (auto simp: polled_simps)
    with polled_track [OF that assms(2)] show ?thesis unfolding r by (auto simp: polled_simps)
  qed
  then have "calm_key ?P (bind_io (get_revocation_epoch tenant)
      (\<lambda>e. return_io (case e of None \<Rightarrow> (False, ?s1) | Some epoch \<Rightarrow> adopt_epoch tenant epoch ?s1))) ?Q"
    by (intro keys.calm_bind [OF read] keys.calm_return) auto
  then show ?thesis unfolding check_revocations_def using True by (simp add: Let_def)
qed

text \<open>A key that was just read and is not revoked is backed by its row, and it is none of the dead ones.\<close>

definition loaded :: "string set \<Rightarrow> key_service \<Rightarrow> string \<Rightarrow> api_key option \<Rightarrow> key_store \<Rightarrow> bool" where
  "loaded D s h k st \<longleftrightarrow> (\<forall>key. k = Some key \<longrightarrow> \<not> ak_revoked key \<longrightarrow> backed s h key st \<and> h \<notin> D)"

lemma track_backed_stable: "stable_under key_later (\<lambda>st. track T D early s st \<and> backed s h k st)"
  unfolding stable_under_def
proof (intro allI impI)
  fix st st' assume a: "(track T D early s st \<and> backed s h k st) \<and> key_later st st'"
  then have "track T D early s st'" using track_stable unfolding stable_under_def by blast
  moreover have "backed s h k st'" using a by (intro backed_later [of s h k st st']) (auto simp: track_def key_inv_def)
  ultimately show "track T D early s st' \<and> backed s h k st'" by blast
qed

lemma track_dead: "track T D early s st \<Longrightarrow> h \<in> D \<Longrightarrow> \<exists>row. stored_key h st = Some row \<and> ak_revoked row"
  unfolding track_def dead_def by blast

lemma hash_stable: "stable_under key_later (\<lambda>st. ks_hashes st h = Some r)"
  unfolding stable_under_def key_later_def using key_stepD(3) by blast

lemma row_loaded:
  assumes "track T D early s st" "stored_key h st = Some key"
  shows "loaded D s h (Some key) st"
  using assms track_dead [OF assms(1), of h] by (auto simp: loaded_def backed_def)

lemma load_key_calm:
  "calm_key (track T D early s) (load_key_by_hash h s)
     (\<lambda>r st. \<exists>k. r = Some k \<and> track T D early s st \<and> loaded D s h k st)" (is "calm_key ?P _ ?Q")
proof (cases "sv_in_memory s")
  case True
  then show ?thesis unfolding service_calm_def by (simp add: track_def key_inv_def)
next
  case False
  let ?row = "\<lambda>r. bind_io (get_io (\<lambda>st. ks_rows st r)) (\<lambda>row. case row of
      Some key \<Rightarrow> if key_ref_of key = r \<and> ak_hash key = h then return_io row else fail_io | None \<Rightarrow> return_io None)"
  have st: "stable_under key_later (\<lambda>st. ks_hashes st h = Some r \<and> ?P st)" for r
    by (rule stable_conj [OF hash_stable track_stable])
  have row: "calm_key (\<lambda>st. ks_hashes st h = Some r \<and> ?P st) (?row r)
      (\<lambda>y st. ?P st \<and> (\<forall>k. y = Some k \<longrightarrow> loaded D s h k st))" for r
  proof (rule keys.calm_bind [OF keys.calm_get [OF st]])
    fix x
    have "loaded D s h (Some key) st" if "ks_hashes st h = Some r" "ks_rows st r = Some key" "?P st" for key st
      using row_loaded [OF that(3), of h key] that by (simp add: stored_key_def)
    then show "calm_key (\<lambda>st. Some x = Some (ks_rows st r) \<and> ks_hashes st h = Some r \<and> ?P st)
        (case x of Some key \<Rightarrow> if key_ref_of key = r \<and> ak_hash key = h then return_io x else fail_io | None \<Rightarrow> return_io None)
        (\<lambda>y st. ?P st \<and> (\<forall>k. y = Some k \<longrightarrow> loaded D s h k st))"
      by (cases x) (auto intro!: keys.calm_return keys.calm_fail simp: loaded_def)
  qed simp
  have "calm_key ?P (bind_io (get_io (\<lambda>st. ks_hashes st h)) (\<lambda>ref. case ref of None \<Rightarrow> return_io None | Some r \<Rightarrow> ?row r))
      (\<lambda>y st. ?P st \<and> (\<forall>k. y = Some k \<longrightarrow> loaded D s h k st))"
  proof (rule keys.calm_bind [OF keys.calm_get [OF track_stable]])
    fix x
    show "calm_key (\<lambda>st. Some x = Some (ks_hashes st h) \<and> ?P st) (case x of None \<Rightarrow> return_io None | Some r \<Rightarrow> ?row r)
        (\<lambda>y st. ?P st \<and> (\<forall>k. y = Some k \<longrightarrow> loaded D s h k st))"
    proof (cases x)
      case None
      then show ?thesis by (auto intro!: keys.calm_return simp: loaded_def)
    next
      case (Some r)
      show ?thesis unfolding Some option.case by (rule calm_weaken [OF row]) auto
    qed
  qed simp
  from keys.calm_try [OF this] have "calm_key ?P (get_api_key_by_hash h) ?Q"
    unfolding get_api_key_by_hash_def
    by (rule keys.calm_bind) (auto intro!: keys.calm_return simp: loaded_def split: option.splits)
  then show ?thesis by (simp add: load_key_by_hash_def False)
qed

section \<open>What a validation does to the instance\<close>

lemma track_evict:
  assumes "track T D early s st"
  shows "track T D early (evict_cached_key h s) st"
  using assms unfolding track_def key_inv_def dead_def polled_by_def backed_def
  by (fastforce simp: evict_cached_key_def split: if_splits)

lemma track_put:
  assumes "track T D early s st" "backed s h k st" "sv_epochs s (ak_tenant k) \<noteq> None" "h \<notin> D"
  shows "track T D early (s\<lparr>sv_cache := (sv_cache s)(h \<mapsto> (k, t))\<rparr>) st" (is "track T D early ?s st")
proof -
  have "backed ?s = backed s" by (simp add: backed_def fun_eq_iff)
  then have "key_inv ?s st" using assms(1,2,3) by (auto simp: track_def key_inv_def backed_def)
  moreover have "dead T h' ?s st" if "h' \<in> D" for h'
    using assms(1,4) that by (auto simp: track_def dead_def)
  ultimately show ?thesis using assms(1) by (simp add: track_def polled_by_def)
qed

lemma track_touch:
  assumes "track T D early s st" "sv_cache s h = Some (k, t0)" "ak_tenant k' = ak_tenant k"
  shows "track T D early (s\<lparr>sv_cache := (sv_cache s)(h \<mapsto> (k', t))\<rparr>) st" (is "track T D early ?s st")
proof -
  have "backed ?s = backed s" "backed s h k' st = backed s h k st"
    using assms(3) by (simp_all add: backed_def fun_eq_iff)
  then have "key_inv ?s st" using assms by (auto simp: track_def key_inv_def)
  moreover have "dead T h' ?s st" if "h' \<in> D" for h'
    using assms(1,2) that by (fastforce simp: track_def dead_def)
  ultimately show ?thesis using assms(1) by (simp add: track_def polled_by_def)
qed

lemma track_memory: "track T D early (s\<lparr>sv_memory := m\<rparr>) st = track T D early s st"
  by (simp add: track_def key_inv_def dead_def polled_by_def backed_def)

lemma note_use_track:
  assumes "note_use h k used_at cached_at s = (r, s')"
    and "track T D early s st \<and> (\<exists>t0. sv_cache s h = Some (k, t0))
       \<or> track T D early s st \<and> backed s h k st \<and> sv_epochs s (ak_tenant k) \<noteq> None \<and> h \<notin> D"
  shows "track T D early s' st"
proof -
  have "backed s h (k\<lparr>ak_last_used_at := Some used_at\<rparr>) st = backed s h k st" by (simp add: backed_def)
  then show ?thesis using assms track_touch [of T D early s st h k] track_put [of T D early s st h]
    by (auto simp: note_use_def Let_def track_memory)
qed

text \<open>What a validation that reads the row ends with: a key that may be cached.\<close>

definition cacheable :: "rat \<Rightarrow> string set \<Rightarrow> bool \<Rightarrow> string \<Rightarrow> (api_key option \<times> key_service) option \<Rightarrow> key_store \<Rightarrow> bool" where
  "cacheable T D early h r st \<longleftrightarrow> (\<exists>k s'. r = Some (k, s') \<and> track T D early s' st
     \<and> (\<forall>key. k = Some key \<longrightarrow> backed s' h key st \<and> sv_epochs s' (ak_tenant key) \<noteq> None \<and> h \<notin> D))"

lemma usable_or_none_loaded:
  "loaded D s h k st \<Longrightarrow> usable_or_none k now = Some key \<Longrightarrow> backed s h key st \<and> h \<notin> D"
  by (auto simp: loaded_def usable_or_none_def usable_def split: option.splits if_splits)

lemma reread_calm:
  "calm_key (\<lambda>st. (track T D early s st \<and> backed s0 h key st) \<and> (track T D early s' st \<and> sv_epochs s' (ak_tenant key) \<noteq> None))
     (bind_io (load_key_by_hash h s') (\<lambda>k2. return_io (usable_or_none k2 now, s'))) (cacheable T D early h)"
proof (cases "sv_epochs s' (ak_tenant key) = None")
  case True
  then show ?thesis by (simp add: service_calm_def)
next
  case False
  let ?tenant = "\<lambda>st. \<exists>row. stored_key h st = Some row \<and> ak_tenant row = ak_tenant key"
  have st: "stable_under key_later ?tenant"
    unfolding stable_under_def using stored_key_step by (fastforce simp: row_step_def)
  have "calm_key (\<lambda>st. ?tenant st \<and> track T D early s' st)
      (bind_io (load_key_by_hash h s') (\<lambda>k2. return_io (usable_or_none k2 now, s'))) (cacheable T D early h)"
  proof (rule keys.calm_bind [OF keys.calm_frame [OF load_key_calm st]])
    fix k2
    show "calm_key (\<lambda>st. ?tenant st \<and> (\<exists>k. Some k2 = Some k \<and> track T D early s' st \<and> loaded D s' h k st))
        (return_io (usable_or_none k2 now, s')) (cacheable T D early h)"
    proof (rule keys.calm_return)
      fix st assume a: "?tenant st \<and> (\<exists>k. Some k2 = Some k \<and> track T D early s' st \<and> loaded D s' h k st)"
      have "ak_tenant key2 = ak_tenant key" if "backed s' h key2 st" for key2 using a that by (auto simp: backed_def)
      with a False show "cacheable T D early h (Some (usable_or_none k2 now, s')) st"
        using usable_or_none_loaded [of D s' h k2 st now] by (fastforce simp: cacheable_def)
    qed
  qed (auto simp: cacheable_def)
  then show ?thesis by (rule calm_weaken) (auto simp: backed_def)
qed

lemma confirm_loaded_calm:
  assumes now: "clock T early now"
  shows "calm_key (\<lambda>st. track T D early s st \<and> loaded D s h k st) (confirm_loaded now h k s) (cacheable T D early h)"
proof (cases "usable_or_none k (now 3)")
  case None
  then show ?thesis by (auto intro!: keys.calm_return simp: confirm_loaded_def cacheable_def)
next
  case (Some key)
  let ?pre = "\<lambda>st. track T D early s st \<and> backed s h key st"
  let ?rest = "\<lambda>(again, s'). if again \<and> \<not> sv_in_memory s'
      then bind_io (load_key_by_hash h s') (\<lambda>k2. return_io (usable_or_none k2 (now 5), s')) else return_io (Some key, s')"
  have nows: "5 \<le> now 4" "early \<Longrightarrow> now 4 \<le> T" using now by (simp_all add: clock_def)
  have rest: "h \<notin> D \<Longrightarrow> calm_key (\<lambda>st. ?pre st \<and> (\<exists>again s'. Some x = Some (again, s') \<and> track T D early s' st
      \<and> sv_epochs s' (ak_tenant key) \<noteq> None \<and> (\<not> again \<longrightarrow> sv_epochs s' = sv_epochs s)
      \<and> (s' = s \<and> \<not> poll_due (ak_tenant key) (now 4) s \<or> s' = polled (ak_tenant key) (now 4) (epoch_at (ak_tenant key) st) s)))
      (?rest x) (cacheable T D early h)" for x
  proof -
    assume hD: "h \<notin> D"
    obtain again s' where x: "x = (again, s')" by (cases x)
    show ?thesis
    proof (cases "again \<and> \<not> sv_in_memory s'")
      case True
      then show ?thesis unfolding x by simp (rule calm_weaken [OF reread_calm [of T D early s s h key s' "now 5"]], auto)
    next
      case False
      have "backed s' h key st" if "sv_epochs s' = sv_epochs s" "backed s h key st" for st
        using that by (simp add: backed_def)
      with False hD show ?thesis unfolding x
        by (auto intro!: keys.calm_return simp: cacheable_def track_def key_inv_def)
    qed
  qed
  show ?thesis
  proof (cases "h \<in> D")
    case True
    then show ?thesis unfolding service_calm_def
      using usable_or_none_loaded [of D s h k _ "now 3", OF _ Some] by auto
  next
    case False
    have "calm_key (\<lambda>st. ?pre st \<and> track T D early s st) (bind_io (check_revocations (ak_tenant key) (now 4) s) ?rest) (cacheable T D early h)"
      by (rule keys.calm_bind [OF keys.calm_frame [OF check_revocations_calm [OF nows] track_backed_stable] rest [OF False]]) auto
    then have "calm_key (\<lambda>st. track T D early s st \<and> loaded D s h k st)
        (bind_io (check_revocations (ak_tenant key) (now 4) s) ?rest) (cacheable T D early h)"
      by (rule calm_weaken) (use usable_or_none_loaded [of D s h k _ "now 3", OF _ Some] in auto)
    then show ?thesis by (simp add: confirm_loaded_def Some)
  qed
qed

lemma load_cacheable_calm:
  assumes "clock T early now"
  shows "calm_key (track T D early s) (load_cacheable_key now h s) (cacheable T D early h)"
  unfolding load_cacheable_key_def
proof (rule keys.calm_bind [OF load_key_calm])
  show "calm_key (\<lambda>st. \<exists>k. Some x = Some k \<and> track T D early s st \<and> loaded D s h k st) (confirm_loaded now h x s)
      (cacheable T D early h)" for x
    by (rule calm_weaken [OF confirm_loaded_calm [OF assms]]) auto
qed auto

lemma validate_uncached_calm:
  assumes "clock T early now"
  shows "calm_key (track T D early s) (validate_uncached now h s)
     (\<lambda>r st. \<exists>k s'. r = Some (k, s') \<and> track T D early s' st \<and> (h \<in> D \<longrightarrow> k = None))" (is "calm_key _ _ ?Q")
  unfolding validate_uncached_def
proof (rule keys.calm_bind [OF load_cacheable_calm [OF assms]])
  fix x :: "api_key option \<times> key_service"
  obtain k s1 where x: "x = (k, s1)" by (cases x)
  show "calm_key (cacheable T D early h (Some x)) ((\<lambda>(k, s1). return_io (case k of None \<Rightarrow> (None, s1)
       | Some key \<Rightarrow> note_use h key (now 6) (now 7) s1)) x) ?Q"
  proof (cases k)
    case None
    then show ?thesis by (auto intro!: keys.calm_return simp: x cacheable_def)
  next
    case (Some key)
    obtain r s2 where n: "note_use h key (now 6) (now 7) s1 = (r, s2)" by (cases "note_use h key (now 6) (now 7) s1")
    have "track T D early s2 st \<and> h \<notin> D" if "cacheable T D early h (Some x) st" for st
      using that note_use_track [OF n, of T D early st] by (auto simp: cacheable_def x Some)
    then show ?thesis by (auto intro!: keys.calm_return simp: x Some n)
  qed
qed (auto simp: cacheable_def)

text \<open>Rereading a key that was cached before the epoch was known drops it when it is dead.\<close>

lemma refresh_baseline_calm:
  "calm_key (\<lambda>st. track T D early s st \<and> sv_epochs s tenant \<noteq> None
       \<and> (\<exists>row. stored_key h st = Some row \<and> ak_tenant row = tenant)) (refresh_baseline now h cached_at s)
     (\<lambda>r st. \<exists>s'. r = Some s' \<and> track T D early s' st \<and> (h \<in> D \<longrightarrow> sv_cache s' h = None))"
  (is "calm_key _ _ ?Q")
proof (cases "sv_epochs s tenant = None")
  case True
  then show ?thesis by (simp add: service_calm_def)
next
  case False
  let ?tenant = "\<lambda>st. \<exists>row. stored_key h st = Some row \<and> ak_tenant row = tenant"
  have st: "stable_under key_later ?tenant"
    unfolding stable_under_def using stored_key_step by (fastforce simp: row_step_def)
  have "calm_key (\<lambda>st. ?tenant st \<and> track T D early s st) (refresh_baseline now h cached_at s) ?Q"
    unfolding refresh_baseline_def
  proof (rule keys.calm_bind [OF keys.calm_frame [OF load_key_calm st]])
    fix k
    show "calm_key (\<lambda>st. ?tenant st \<and> (\<exists>k'. Some k = Some k' \<and> track T D early s st \<and> loaded D s h k' st))
       (let s1 = s\<lparr>sv_baseline := sv_baseline s - {h}\<rparr> in return_io (case usable_or_none k now of
           None \<Rightarrow> s1\<lparr>sv_cache := (sv_cache s1)(h := None)\<rparr>
         | Some key \<Rightarrow> s1\<lparr>sv_cache := (sv_cache s1)(h \<mapsto> (key, cached_at))\<rparr>)) ?Q"
      unfolding Let_def
    proof (rule keys.calm_return)
      fix st
      assume a: "?tenant st \<and> (\<exists>k'. Some k = Some k' \<and> track T D early s st \<and> loaded D s h k' st)"
      let ?e = "evict_cached_key h s"
      have e: "track T D early ?e st" using a track_evict by blast
      show "?Q (Some (case usable_or_none k now of
           None \<Rightarrow> s\<lparr>sv_baseline := sv_baseline s - {h}, sv_cache := (sv_cache (s\<lparr>sv_baseline := sv_baseline s - {h}\<rparr>))(h := None)\<rparr>
         | Some key \<Rightarrow> s\<lparr>sv_baseline := sv_baseline s - {h}, sv_cache := (sv_cache (s\<lparr>sv_baseline := sv_baseline s - {h}\<rparr>))(h \<mapsto> (key, cached_at))\<rparr>)) st"
      proof (cases "usable_or_none k now")
        case None
        with e show ?thesis by (simp add: evict_cached_key_def)
      next
        case (Some key)
        from a usable_or_none_loaded [OF _ Some] have b: "backed s h key st" "h \<notin> D" by auto
        have "backed ?e h key st = backed s h key st" by (simp add: backed_def evict_cached_key_def)
        moreover have "ak_tenant key = tenant" using a b(1) by (auto simp: backed_def)
        ultimately have "track T D early (?e\<lparr>sv_cache := (sv_cache ?e)(h \<mapsto> (key, cached_at))\<rparr>) st"
          using track_put [OF e, of h key] b False by (simp add: evict_cached_key_def)
        with b(2) show ?thesis by (simp add: Some evict_cached_key_def)
      qed
    qed
  qed auto
  then show ?thesis by (rule calm_weaken) auto
qed

lemma check_cached_calm:
  assumes "clock T early now"
  shows "calm_key (track T D early s) (check_cached_revocations now h s)
     (\<lambda>r st. \<exists>s'. r = Some s' \<and> track T D early s' st \<and> (h \<in> D \<longrightarrow> T + 5 \<le> now 0 \<longrightarrow> sv_cache s' h = None))"
  (is "calm_key ?P _ ?Q")
proof (cases "sv_cache s h")
  case None
  then show ?thesis unfolding check_cached_revocations_def by (auto intro!: keys.calm_return)
next
  case (Some entry)
  obtain k cached_at where entry: "entry = (k, cached_at)" by (cases entry)
  let ?tenant = "ak_tenant k"
  let ?row = "\<lambda>st. \<exists>row. stored_key h st = Some row \<and> ak_tenant row = ?tenant"
  let ?rest = "\<lambda>(again, s1). if h \<in> sv_baseline s1 \<and> sv_epochs s1 ?tenant \<noteq> None \<and> \<not> sv_in_memory s1
      then refresh_baseline (now 1) h cached_at s1 else return_io s1"
  have nows: "5 \<le> now 0" "early \<Longrightarrow> now 0 \<le> T" using assms by (simp_all add: clock_def)
  have row: "?row st" if "?P st" for st using that Some entry by (auto simp: track_def key_inv_def)
  have gone: "sv_cache s1 h = None" if "?P st" "h \<in> D" "T + 5 \<le> now 0" "h \<notin> sv_baseline s1"
      "s1 = s \<and> \<not> poll_due ?tenant (now 0) s \<or> s1 = polled ?tenant (now 0) (epoch_at ?tenant st) s" for s1 st
  proof (rule ccontr)
    assume c: "sv_cache s1 h \<noteq> None"
    from track_dead [OF that(1,2)] obtain r where r: "stored_key h st = Some r" "ak_revoked r" by blast
    have same: "ak_tenant r = ?tenant" using row [OF that(1)] r by simp
    have b: "h \<notin> sv_baseline s" using that(4,5) polled_baseline [of ?tenant "now 0" "epoch_at ?tenant st" s h] c by auto
    have inv: "key_inv s st" and d: "dead T h s st" using that(1,2) by (simp_all add: track_def)
    from d r b Some same have "\<And>t. sv_checked s ?tenant = Some t \<Longrightarrow> t \<le> T" by (auto simp: dead_def)
    then have "poll_due ?tenant (now 0) s"
      using that(3) inv nows by (cases "sv_checked s ?tenant")
        (fastforce simp: poll_due_def REVOCATION_POLL_SECONDS_def get_or_def key_inv_def)+
    with that(5) polled_drops [OF inv Some [unfolded entry] r b, of "now 0"] c show False by auto
  qed
  have "calm_key (\<lambda>st. ?P st \<and> ?P st) (bind_io (check_revocations ?tenant (now 0) s) ?rest) ?Q"
  proof (rule keys.calm_bind [OF keys.calm_frame [OF check_revocations_calm [OF nows] track_stable]])
    fix x :: "bool \<times> key_service"
    obtain again s1 where x: "x = (again, s1)" by (cases x)
    show "calm_key (\<lambda>st. ?P st \<and> (\<exists>again s'. Some x = Some (again, s') \<and> track T D early s' st \<and> sv_epochs s' ?tenant \<noteq> None
        \<and> (\<not> again \<longrightarrow> sv_epochs s' = sv_epochs s)
        \<and> (s' = s \<and> \<not> poll_due ?tenant (now 0) s \<or> s' = polled ?tenant (now 0) (epoch_at ?tenant st) s))) (?rest x) ?Q"
    proof (cases "h \<in> sv_baseline s1 \<and> sv_epochs s1 ?tenant \<noteq> None \<and> \<not> sv_in_memory s1")
      case True
      then show ?thesis unfolding x by simp (rule calm_weaken [OF refresh_baseline_calm [of T D early s1 ?tenant h]], use row in auto)
    next
      case False
      then show ?thesis unfolding x
        by (auto intro!: keys.calm_return gone simp: track_def key_inv_def)
    qed
  qed auto
  then show ?thesis by (simp add: check_cached_revocations_def Some entry)
qed

lemma validate_key_calm:
  assumes "clock T early now"
  shows "calm_key (track T D early s) (validate_key digest now raw s)
     (\<lambda>r st. \<exists>k s'. r = Some (k, s') \<and> track T D early s' st \<and> (digest raw \<in> D \<longrightarrow> T + 5 \<le> now 0 \<longrightarrow> k = None))"
  (is "calm_key _ _ ?Q")
proof (cases "starts_with KEY_PREFIX raw")
  case False
  then show ?thesis unfolding validate_key_def by (auto intro!: keys.calm_return)
next
  case True
  let ?h = "digest raw"
  have "calm_key (track T D early s) (bind_io (check_cached_revocations now ?h s) (\<lambda>s1. case sv_cache s1 ?h of
       Some (k, cached_at) \<Rightarrow> if now 2 - cached_at < CACHE_TTL_SECONDS \<and> usable k (now 2)
         then return_io (note_use ?h k (now 2) cached_at s1) else validate_uncached now ?h (evict_cached_key ?h s1)
     | None \<Rightarrow> validate_uncached now ?h s1)) ?Q" (is "calm_key _ (bind_io _ ?rest) _")
  proof (rule keys.calm_bind [OF check_cached_calm [OF assms]])
    fix s1
    let ?P = "\<lambda>st. track T D early s1 st \<and> (?h \<in> D \<longrightarrow> T + 5 \<le> now 0 \<longrightarrow> sv_cache s1 ?h = None)"
    have "calm_key ?P (?rest s1) ?Q"
    proof (cases "sv_cache s1 ?h")
      case None
      then show ?thesis by simp (rule calm_weaken [OF validate_uncached_calm [OF assms]], auto)
    next
      case (Some e)
      obtain k c where e: "e = (k, c)" by (cases e)
      show ?thesis
      proof (cases "now 2 - c < CACHE_TTL_SECONDS \<and> usable k (now 2)")
        case True
        obtain r s2 where n: "note_use ?h k (now 2) c s1 = (r, s2)" by (cases "note_use ?h k (now 2) c s1")
        with Some e note_use_track [OF n] True show ?thesis by (auto intro!: keys.calm_return simp: n)
      next
        case False
        with Some e have "?rest s1 = validate_uncached now ?h (evict_cached_key ?h s1)" by auto
        then show ?thesis
          using calm_weaken [OF validate_uncached_calm [OF assms, of D "evict_cached_key ?h s1" ?h], of ?P ?Q] track_evict by auto
      qed
    qed
    then show "calm_key (\<lambda>st. \<exists>s'. Some s1 = Some s' \<and> track T D early s' st
        \<and> (?h \<in> D \<longrightarrow> T + 5 \<le> now 0 \<longrightarrow> sv_cache s' ?h = None)) (?rest s1) ?Q" by simp
  qed auto
  then show ?thesis unfolding validate_key_def using True by (simp add: Let_def)
qed

end
