(* ===== verification/ApiKeysLife.thy ===== *)
theory ApiKeysLife
  imports ApiKeysProps
begin

text \<open>
  API keys over the life of an instance: its operations in any order, what each does to the key rows under any
  failure, and the two main consequences: a revoked key is refused within the poll interval, and a rotation
  happens completely or not at all.
\<close>

section \<open>The writes without failures\<close>







section \<open>The operations without failures\<close>













section \<open>A run of an instance\<close>

datatype key_op =
    Validate string
  | IssueKey "string \<times> string" key_request
  | RevokeKey string "string option" "string option"
  | RotateKey "string \<times> string" string string "string option"
  | InvalidateCache

fun perform :: "(string \<Rightarrow> string) \<Rightarrow> (nat \<Rightarrow> rat) \<Rightarrow> key_op \<Rightarrow> key_service \<Rightarrow> (key_store, key_service) service" where
  "perform digest now (Validate raw) s = bind_io (validate_key digest now raw s) (\<lambda>(_, s'). return_io s')"
| "perform digest now (IssueKey fresh q) s = bind_io (issue_key digest now fresh q s) (\<lambda>(_, s'). return_io s')"
| "perform digest now (RevokeKey i tenant actor) s = bind_io (revoke_key now i tenant actor s) (\<lambda>(_, s'). return_io s')"
| "perform digest now (RotateKey fresh i actor tenant) s =
     bind_io (rotate_key digest now fresh i actor tenant s) (\<lambda>(_, s'). return_io s')"
| "perform digest now InvalidateCache s = return_io (invalidate_keys s)"

fun run_keys :: "(string \<Rightarrow> string) \<Rightarrow> ((nat \<Rightarrow> rat) \<times> key_op) list \<Rightarrow> key_service \<Rightarrow> (key_store, key_service) service" where
  "run_keys digest [] s = return_io s"
| "run_keys digest ((now, op) # ops) s = bind_io (perform digest now op s) (run_keys digest ops)"






section \<open>Under any failure\<close>

text \<open>Whatever fails, an operation only does transactions, so it keeps the guarantee for the rows.\<close>

definition keeps_rows :: "(key_store, 'a) service \<Rightarrow> bool" where
  "keeps_rows m \<longleftrightarrow> service_triple key_store_ok key_step (\<lambda>_. True) m (\<lambda>_ _. True)"

lemma keeps_rows_return: "keeps_rows (return_io x)"
  unfolding keeps_rows_def by (rule keys.triple_return) simp

lemma keeps_rows_fail: "keeps_rows fail_io"
  unfolding keeps_rows_def by (rule keys.triple_fail)

lemma keeps_rows_bind: "keeps_rows m \<Longrightarrow> (\<And>x. keeps_rows (f x)) \<Longrightarrow> keeps_rows (bind_io m f)"
  unfolding keeps_rows_def by (rule keys.triple_bind)

lemma keeps_rows_try: "keeps_rows m \<Longrightarrow> keeps_rows (try_io m)"
  unfolding keeps_rows_def by (rule triple_weaken [OF keys.triple_try [OF _ stable_True]]) auto

lemma keeps_rows_get: "keeps_rows (get_io f)"
  unfolding keeps_rows_def by (rule triple_weaken [OF keys.triple_get [OF stable_True]]) auto

lemma keeps_rows_write:
  assumes "\<And>st st'. key_store_ok st \<Longrightarrow> txn st = Inr st' \<Longrightarrow> key_step st st'"
  shows "keeps_rows (write_io txn)"
  unfolding keeps_rows_def
  by (rule triple_weaken [OF keys.triple_write [OF stable_True stable_True]]) (use assms in auto)

lemmas keeps_rows_rules = keeps_rows_return keeps_rows_fail keeps_rows_bind keeps_rows_try keeps_rows_get

lemma load_keeps_rows: "keeps_rows (load_key_by_hash h s)"
  unfolding load_key_by_hash_def get_api_key_by_hash_def
  by (auto intro!: keeps_rows_rules split: option.split)

lemma check_keeps_rows: "keeps_rows (check_revocations tenant now s)"
  unfolding check_revocations_def get_revocation_epoch_def Let_def
  by (auto intro!: keeps_rows_rules)

lemma validate_keeps_rows: "keeps_rows (validate_key digest now raw s)"
proof -
  have "keeps_rows (validate_uncached now h s)" for h s
    unfolding validate_uncached_def load_cacheable_key_def confirm_loaded_def
    by (auto intro!: keeps_rows_rules load_keeps_rows check_keeps_rows split: option.split)
  moreover have "keeps_rows (check_cached_revocations now h s)" for h s
    unfolding check_cached_revocations_def refresh_baseline_def Let_def
    by (auto intro!: keeps_rows_rules load_keeps_rows check_keeps_rows split: option.split)
  ultimately show ?thesis
    unfolding validate_key_def Let_def by (auto intro!: keeps_rows_rules split: option.split)
qed

lemma get_key_keeps_rows: "keeps_rows (get_key i tenant s)"
  unfolding get_key_def get_api_key_def by (auto intro!: keeps_rows_rules split: option.split)

lemma issue_keeps_rows: "keeps_rows (issue_key digest now fresh q s)"
proof -
  have save: "keeps_rows (persist_new_key (requested_key q i h t e) s)" for i h t e
  proof -
    let ?k = "requested_key q i h t e"
    let ?who = "case ak_tenant ?k of None \<Rightarrow> None | Some tenant \<Rightarrow> Some (principal_for_key ?k tenant)"
    have "keeps_rows (write_io (txn_issue ?k ?who))"
      by (rule keeps_rows_write, rule txn_issue_step) (auto simp: requested_key_def split: option.splits)
    then show ?thesis unfolding persist_new_key_def save_key_def by (auto intro!: keeps_rows_rules)
  qed
  then show ?thesis
    by (cases fresh) (auto intro!: keeps_rows_rules simp: issue_key_def Let_def split: sum.split)
qed

lemma revoke_keeps_rows: "keeps_rows (revoke_key now i tenant actor s)"
proof -
  have "keeps_rows (persist_revocation k s)" for k
  proof -
    have "keeps_rows (write_io (txn_revoke k (ak_tenant k \<noteq> None)))"
      by (rule keeps_rows_write) (erule (1) txn_revoke_step, cases "ak_tenant k", simp_all)
    then show ?thesis unfolding persist_revocation_def revoke_stored_key_def
      by (auto intro!: keeps_rows_rules split: outcome.split nat.split)
  qed
  then show ?thesis unfolding revoke_key_def Let_def
    by (auto intro!: keeps_rows_rules get_key_keeps_rows split: option.split)
qed

lemma rotate_stored_keeps_rows: "keeps_rows (rotate_stored_key old new who)"
proof (cases "rotation_valid old new \<and> key_principal_valid new who")
  case True
  then have "\<not> ak_revoked new" "ak_tenant new \<noteq> None" by (auto simp: rotation_valid_def key_principal_valid_def)
  then have "keeps_rows (write_io (txn_rotate old new who))"
    by (intro keeps_rows_write) (erule (3) txn_rotate_step(1))
  then show ?thesis unfolding rotate_stored_key_def
    by (auto intro!: keeps_rows_rules split: outcome.split nat.split)
qed (auto intro: keeps_rows_fail simp: rotate_stored_key_def)

lemma rotate_keeps_rows: "keeps_rows (rotate_key digest now fresh i actor tenant s)"
proof -
  have "keeps_rows (rotate_in_steps digest now fresh i old actor s)" for old
    unfolding rotate_in_steps_def
    by (auto intro!: keeps_rows_rules revoke_keeps_rows issue_keeps_rows split: sum.split bool.split)
  moreover have "keeps_rows (rotate_tenant_key digest now fresh old t actor s)" for old t
    unfolding rotate_tenant_key_def Let_def
    by (cases fresh) (auto intro!: keeps_rows_rules rotate_stored_keeps_rows split: sum.split)
  ultimately show ?thesis
    unfolding rotate_key_def by (auto intro!: keeps_rows_rules get_key_keeps_rows split: option.split)
qed

lemma perform_keeps_rows: "keeps_rows (perform digest now op s)"
  by (cases op) (auto intro!: keeps_rows_rules validate_keeps_rows issue_keeps_rows revoke_keeps_rows rotate_keeps_rows)

section \<open>A revoked key is refused\<close>


definition demo_request :: key_request where
  "demo_request = \<lparr>kq_project = ''p'', kq_name = ''n'', kq_scopes = [''chat''], kq_created_by = ''u'', kq_expires_at = None,
     kq_tenant = Some ''t'', kq_role = ServiceRole\<rparr>"

definition demo_key :: api_key where
  "demo_key = requested_key demo_request ''k1'' ''axon_1'' 1 (Some 1000)"

definition demo_keys :: key_store where
  "demo_keys = put_key_rows demo_key (Some (principal_for_key demo_key ''t'')) empty_keys"

definition revoke_elsewhere :: "key_store \<Rightarrow> key_store" where
  "revoke_elsewhere st = (case txn_revoke (revoked_copy demo_key 6 (Some ''admin'')) True st of Inl _ \<Rightarrow> st | Inr st' \<Rightarrow> st')"

lemma demo_keys_ok: "key_store_ok demo_keys"
proof -
  have "key_store_ok empty_keys" by (simp add: key_store_ok_def empty_keys_def)
  then have "key_step empty_keys demo_keys"
    unfolding demo_keys_def
    by (rule put_key_rows_step) (simp_all add: empty_keys_def demo_key_def requested_key_def demo_request_def)
  then show ?thesis by (rule key_stepD(1))
qed

lemma revoke_elsewhere_step: "key_store_ok st \<Longrightarrow> key_step st (revoke_elsewhere st)"
  unfolding revoke_elsewhere_def
  by (auto split: sum.split intro: key_step_refl txn_revoke_step)

text \<open>The instance caches the key at time 5; another instance revokes it before the next row read.\<close>

definition demo_key_world :: "key_store service_world" where
  "demo_key_world = \<lparr>wd_store = demo_keys, wd_env = replicate 5 (id, Fine) @ [(revoke_elsewhere, Fine)]\<rparr>"




section \<open>What every operation keeps\<close>

text \<open>C34: Whatever fails and whatever other instances do meanwhile, an operation of the key service never
  un-revokes a key, leaves no active principal behind a revoked key, and advances the epoch of the tenant
  whenever a key became revoked, so that the other instances notice.\<close>

theorem key_operations_keep_rows:
  assumes "good_service key_store_ok key_step w" "perform digest now op s w = (r, w')"
    and "stored_key h (wd_store w) = Some row"
  shows "\<exists>row'. stored_key h (wd_store w') = Some row' \<and> ak_tenant row' = ak_tenant row
     \<and> (ak_revoked row \<longrightarrow> ak_revoked row')
     \<and> (ak_revoked row' \<longrightarrow> ak_revoked row \<or> epoch_at (ak_tenant row) (wd_store w) < epoch_at (ak_tenant row) (wd_store w'))
     \<and> (ak_revoked row' \<longrightarrow> \<not> principal_active row' (wd_store w'))"
proof -
  note t = tripleD [OF perform_keeps_rows [unfolded keeps_rows_def] assms(1) TrueI assms(2)]
  have ok: "key_store_ok (wd_store w)" "key_store_ok (wd_store w')" using assms(1) t(1) by (simp_all add: good_service_def)
  have "key_later (wd_store w) (wd_store w')" using ok(1) t(2) by (simp add: key_later_def)
  from stored_key_step [OF this assms(3)] obtain row' where row': "stored_key h (wd_store w') = Some row'"
    "row_step (epoch_at (ak_tenant row) (wd_store w)) (epoch_at (ak_tenant row) (wd_store w')) row row'" by blast
  from row'(1) obtain ref where ref: "ks_hashes (wd_store w') h = Some ref" "ks_rows (wd_store w') ref = Some row'"
    by (auto simp: stored_key_def split: option.splits)
  have "pr_status p = Deprovisioned" if "ak_revoked row'" "ks_principals (wd_store w') (key_ref_of row') = Some p" for p
    using key_store_okD(1) [OF ok(2) ref(2)] key_store_okD(5) [OF ok(2) that(2)] ref(2) that(1) by auto
  with row' show ?thesis by (fastforce simp: row_step_def principal_active_def split: option.split)
qed

lemma demo_key_world_good: "good_service key_store_ok key_step demo_key_world"
  using demo_keys_ok revoke_elsewhere_step key_step_refl
  by (auto simp: good_service_def good_env_def demo_key_world_def)

lemma demo_stored: "stored_key ''axon_1'' (wd_store demo_key_world) = Some demo_key"
  by (simp add: demo_key_world_def demo_keys_def put_key_rows_def stored_key_def demo_key_def requested_key_def)

theorem key_operations_keep_rows_witness:
  "\<exists>row'. stored_key ''axon_1'' (wd_store (snd (perform id (\<lambda>_. 7) (RevokeKey ''k1'' (Some ''t'') (Some ''ops''))
     (new_key_service False) demo_key_world))) = Some row'"
  using key_operations_keep_rows [OF demo_key_world_good surjective_pairing demo_stored] by blast

section \<open>Rotation\<close>












definition demo_quiet :: "fault list \<Rightarrow> key_store service_world" where
  "demo_quiet flts = \<lparr>wd_store = demo_keys, wd_env = map (Pair id) flts\<rparr>"



section \<open>Issuing and validating\<close>

lemma issue_quiet:
  assumes "wd_env w = []" "\<not> sv_in_memory s" "issue_key digest now (i, raw) q s w = (Some (Inr (k, plain), s'), w')"
  shows "plain = raw \<and> ak_hash k = digest raw \<and> \<not> ak_revoked k \<and> wd_env w' = []
     \<and> ks_hashes (wd_store w') (digest raw) = Some (key_ref_of k) \<and> ks_rows (wd_store w') (key_ref_of k) = Some k"
proof -
  from assms(3) have "\<not> request_refused q" by (auto simp: issue_key_def return_io_def split: if_splits)
  with assms(3) obtain e where e: "resolve_expiry (kq_expires_at q) (kq_tenant q) (now 0) = Inr e"
    by (auto simp: issue_key_def return_io_def split: sum.splits)
  let ?k = "requested_key q i (digest raw) (now 0) e"
  let ?who = "case ak_tenant ?k of None \<Rightarrow> None | Some tenant \<Rightarrow> Some (principal_for_key ?k tenant)"
  obtain saved w1 where p: "persist_new_key ?k s w = (saved, w1)" by (cases "persist_new_key ?k s w")
  from assms(3) \<open>\<not> request_refused q\<close> e p have k: "saved \<noteq> None" "k = ?k" "plain = raw" "w' = w1"
    by (auto simp: issue_key_def Let_def bind_io_def try_io_def return_io_def split: option.splits)
  have "save_key ?k ?who w = (saved, w1)" using p assms(2) by (simp add: persist_new_key_def)
  with k(1) have "\<exists>st. txn_issue ?k ?who (wd_store w) = Inr st \<and> w1 = w\<lparr>wd_store := st\<rparr>"
    using assms(1) by (auto simp: save_key_def bind_io_def write_quiet return_io_def fail_io_def split: if_splits sum.splits)
  then have "wd_env w1 = []" "ks_hashes (wd_store w1) (ak_hash ?k) = Some (key_ref_of ?k)" "ks_rows (wd_store w1) (key_ref_of ?k) = Some ?k"
    using assms(1) by (auto simp: txn_issue_def put_key_rows_def split: option.splits)
  with k show ?thesis by (simp add: requested_key_def)
qed

lemma load_quiet:
  assumes "wd_env w = []" "\<not> sv_in_memory s" "ks_hashes (wd_store w) h = Some (key_ref_of k)"
    "ks_rows (wd_store w) (key_ref_of k) = Some k" "ak_hash k = h"
  shows "load_key_by_hash h s w = (Some (Some k), w)"
  using assms by (simp add: load_key_by_hash_def get_api_key_by_hash_def bind_io_def try_io_def get_quiet return_io_def)

lemma check_quiet:
  assumes "wd_env w = []" "\<not> sv_in_memory s"
  shows "\<exists>again s'. check_revocations tenant now s w = (Some (again, s'), w) \<and> \<not> sv_in_memory s'"
proof (cases "poll_due tenant now s")
  case False
  with assms show ?thesis by (auto simp: check_revocations_def return_io_def)
next
  case True
  let ?r = "adopt_epoch tenant (epoch_at tenant (wd_store w)) (s\<lparr>sv_checked := (sv_checked s)(tenant \<mapsto> now)\<rparr>)"
  have "check_revocations tenant now s w = (Some ?r, w)"
    using True assms(1) by (simp add: check_revocations_def get_revocation_epoch_def Let_def bind_io_def try_io_def get_quiet return_io_def)
  moreover have "\<not> sv_in_memory (snd ?r)" using assms(2) by (simp add: adopt_simps)
  ultimately show ?thesis by (metis prod.collapse)
qed

text \<open>What one instance issues, any other instance accepts: validating the plaintext that \<open>issue_key\<close>
  returned, at an instance that does not hold the key yet, answers the key as it was issued, with its scopes,
  role, tenant and expiry read back from the table, until it expires.\<close>

theorem issued_key_validates:
  assumes "wd_env w = []" "\<not> sv_in_memory s" "issue_key digest now (i, raw) q s w = (Some (Inr (k, plain), s1), w1)"
    and "starts_with KEY_PREFIX raw" "\<not> sv_in_memory s2" "sv_cache s2 (digest raw) = None"
    and "\<forall>j. case ak_expires_at k of None \<Rightarrow> True | Some e \<Rightarrow> later j \<le> e"
  shows "\<exists>s3. validate_key digest later plain s2 w1 = (Some (Some (k\<lparr>ak_last_used_at := Some (later 6)\<rparr>), s3), w1)"
proof -
  from issue_quiet [OF assms(1-3)] have q: "plain = raw" "ak_hash k = digest raw" "\<not> ak_revoked k" "wd_env w1 = []"
    and rows: "ks_hashes (wd_store w1) (digest raw) = Some (key_ref_of k)" "ks_rows (wd_store w1) (key_ref_of k) = Some k"
    by auto
  note load = load_quiet [OF q(4) _ rows q(2)]
  have use: "usable_or_none (Some k) (later j) = Some k" for j
    using q(3) assms(7) by (auto simp: usable_or_none_def usable_def)
  obtain again s' where c: "check_revocations (ak_tenant k) (later 4) s2 w1 = (Some (again, s'), w1)" "\<not> sv_in_memory s'"
    using check_quiet [OF q(4) assms(5)] by blast
  have "load_cacheable_key later (digest raw) s2 w1 = (Some (Some k, s'), w1)"
    unfolding load_cacheable_key_def confirm_loaded_def
    by (cases again) (simp_all add: bind_io_def load [OF assms(5)] load [OF c(2)] use c return_io_def)
  then have "\<exists>s3. validate_uncached later (digest raw) s2 w1 = (Some (Some (k\<lparr>ak_last_used_at := Some (later 6)\<rparr>), s3), w1)"
    by (simp add: validate_uncached_def bind_io_def return_io_def note_use_def Let_def)
  then show ?thesis
    using assms(4,6) q(1) by (simp add: validate_key_def check_cached_revocations_def Let_def bind_io_def return_io_def)
qed

lemma demo_issue:
  "\<exists>k plain s1 w1. issue_key id (\<lambda>_. 1) (''k3'', ''axon_3'') demo_request (new_key_service False) (demo_quiet []) = (Some (Inr (k, plain), s1), w1)
     \<and> ak_expires_at k = Some (1 + 90 * 86400)"
proof -
  have "case issue_key id (\<lambda>_. 1) (''k3'', ''axon_3'') demo_request (new_key_service False) (demo_quiet []) of
      (Some (Inr (k, plain), s1), w1) \<Rightarrow> ak_expires_at k = Some (1 + 90 * 86400) | _ \<Rightarrow> False"
    by code_simp
  then show ?thesis by (auto split: option.splits prod.splits sum.splits)
qed

theorem issued_key_validates_witness:
  "\<exists>k plain s1 w1 s3. issue_key id (\<lambda>_. 1) (''k3'', ''axon_3'') demo_request (new_key_service False) (demo_quiet []) = (Some (Inr (k, plain), s1), w1)
     \<and> validate_key id (\<lambda>_. 500) plain (new_key_service False) w1 = (Some (Some (k\<lparr>ak_last_used_at := Some 500\<rparr>), s3), w1)"
proof -
  from demo_issue obtain k plain s1 w1 where i: "issue_key id (\<lambda>_. 1) (''k3'', ''axon_3'') demo_request (new_key_service False)
      (demo_quiet []) = (Some (Inr (k, plain), s1), w1)" "ak_expires_at k = Some (1 + 90 * 86400)" by blast
  from issued_key_validates [OF _ _ i(1), of "new_key_service False" "\<lambda>_. 500"] i show ?thesis
    by (simp add: demo_quiet_def new_key_service_def starts_with_def KEY_PREFIX_def)
qed

section \<open>Where the bound does not hold\<close>

text \<open>
  After one failed first read of the epoch the key is cached without a baseline. A later successful poll adopts
  the epoch without a reread, so the revoked key is still accepted at a time when polls succeed again.
\<close>

theorem failed_first_poll_keeps_revoked_key:
  "case validate_key id (\<lambda>_. 5) ''axon_1'' (new_key_service False)
      \<lparr>wd_store = demo_keys, wd_env = [(id, Fine), (id, Fine), (id, Lost), (revoke_elsewhere, Fine)]\<rparr> of
    (Some (_, s1), w1) \<Rightarrow> (case validate_key id (\<lambda>_. 200) ''axon_1'' s1 w1 of
        (Some (Some k, s2), w2) \<Rightarrow> \<not> ak_revoked k \<and> map_option ak_revoked (stored_key ''axon_1'' (wd_store w2)) = Some True
            \<and> sv_epochs s2 (Some ''t'') = Some 1 \<and> epoch_at (Some ''t'') (wd_store w2) = 1
      | _ \<Rightarrow> False)
  | _ \<Rightarrow> False"
  by code_simp

text \<open>
  Two validations of one instance, interleaved. The first has read the row when the key is revoked elsewhere;
  the second polls and adopts the new epoch; the first finds the poll not due, does not read again and caches
  the key it read. The instance then accepts the key although every call succeeded.
\<close>

definition interleaved :: "(key_store, api_key option \<times> key_service) service" where
  "interleaved =
     bind_io (run_keys id [(\<lambda>_. 5, Validate ''axon_1''), (\<lambda>_. 6, InvalidateCache)] (new_key_service False)) (\<lambda>s.
     bind_io (load_key_by_hash ''axon_1'' s) (\<lambda>k.
     bind_io (check_revocations (Some ''t'') 21 s) (\<lambda>(_, s1).
     bind_io (confirm_loaded (\<lambda>_. 22) ''axon_1'' k s1) (\<lambda>(k2, s2).
       (case k2 of
          None \<Rightarrow> return_io (None, s2)
        | Some key \<Rightarrow> validate_key id (\<lambda>_. 300) ''axon_1'' (snd (note_use ''axon_1'' key 22 22 s2)))))))"

theorem interleaved_validations_keep_revoked_key:
  "case interleaved \<lparr>wd_store = demo_keys, wd_env = replicate 7 (id, Fine) @ [(revoke_elsewhere, Fine)]\<rparr> of
    (Some (Some k, s), w) \<Rightarrow> map_option ak_revoked (stored_key ''axon_1'' (wd_store w)) = Some True
        \<and> epoch_at (Some ''t'') (wd_store w) = 1 \<and> sv_epochs s (Some ''t'') = Some 1 \<and> wd_env w = []
  | _ \<Rightarrow> False"
  by code_simp

end
