(* ===== verification/QueryTable.thy ===== *)
theory QueryTable
  imports Prelude Service "HOL-Library.AList"
begin

text \<open>
  The table behind governed queries (the query section of \<open>persistence.py\<close>): one lifecycle row per request, the
  concurrency slots and the scan counters of a tenant, and the transactions on them.

  Times are whole seconds. A lifecycle key is \<open>(tenant, project, request)\<close>; the code stores the SHA-256 digest of
  the request id and of the scope, which is taken to be injective. The rows are listed in the order in which a
  scan of the table visits them. The ISO timestamps that only document when a row changed are left out, and so is
  the expiry of rows.
\<close>

section \<open>Rows\<close>

datatype query_status = Accepted | Running | Succeeded | Failed | Cancelled

definition active :: "query_status \<Rightarrow> bool" where
  "active s \<longleftrightarrow> s \<in> {Accepted, Running}"

record terminal_audit =
  ta_status :: query_status
  ta_failure :: "string option"
  ta_execution :: "string option"
  ta_state :: "string option"
  ta_observed :: "int option"
  ta_accounted :: int
  ta_engine_ms :: "int option"
  ta_cancel_requested :: bool
  ta_accounting :: string
  ta_row_count :: "int option"
  ta_truncated :: "bool option"
  ta_result_bytes :: "int option"

definition optional :: "('a \<Rightarrow> bool) \<Rightarrow> 'a option \<Rightarrow> bool" where
  "optional P x = (case x of None \<Rightarrow> True | Some y \<Rightarrow> P y)"

lemma optional_simps [simp]: "optional P None" "optional P (Some x) = P x"
  by (simp_all add: optional_def)

definition ATHENA_STATES :: "string list" where
  "ATHENA_STATES = [''SUCCEEDED'', ''FAILED'', ''CANCELLED'']"

definition SCAN_ACCOUNTING :: "string list" where
  "SCAN_ACCOUNTING = [''actual'', ''reserved_fallback'', ''reservation_ceiling'', ''zero_before_start'']"

definition terminal_audit_valid :: "terminal_audit \<Rightarrow> bool" where
  "terminal_audit_valid a \<longleftrightarrow> \<not> active (ta_status a)
     \<and> optional (\<lambda>v. 0 \<le> v) (ta_observed a) \<and> optional (\<lambda>v. 0 \<le> v) (ta_engine_ms a)
     \<and> optional (\<lambda>v. 0 \<le> v) (ta_row_count a) \<and> optional (\<lambda>v. 0 \<le> v) (ta_result_bytes a)
     \<and> 0 \<le> ta_accounted a \<and> ta_accounting a \<in> set SCAN_ACCOUNTING
     \<and> optional (\<lambda>v. v \<noteq> []) (ta_failure a) \<and> optional (\<lambda>v. v \<noteq> []) (ta_execution a)
     \<and> optional (\<lambda>v. v \<in> set ATHENA_STATES) (ta_state a)
     \<and> (ta_status a = Succeeded \<longleftrightarrow> ta_failure a = None)
     \<and> (ta_status a \<noteq> Succeeded \<longrightarrow> ta_row_count a = None \<and> ta_truncated a = None \<and> ta_result_bytes a = None)"

datatype query_key = QueryKey string string string

datatype scope = Scope (scope_kind: string) (scope_id: string)

datatype scope_key = ScopeKey string scope int

text \<open>What a caller holds of an admitted query.\<close>

record lease =
  le_tenant :: string
  le_project :: string
  le_principal :: string
  le_request :: string
  le_datasource :: string
  le_sha :: string
  le_token :: string
  le_window :: int
  le_expires :: int
  le_project_slot :: int
  le_principal_slot :: int
  le_reserved :: int

definition lease_key :: "lease \<Rightarrow> query_key" where
  "lease_key l = QueryKey (le_tenant l) (le_project l) (le_request l)"

text \<open>
  A lifecycle row: the lease with its status, its terminal evidence and the claim of a reconciliation worker. An
  optional attribute of the item is an option; \<open>audit_pending\<close> is only ever present as \<open>True\<close>.
\<close>

record lifecycle =
  lc_lease :: lease
  lc_status :: query_status
  lc_execution :: "string option"
  lc_failure :: "string option"
  lc_actual :: "int option"
  lc_pending :: bool
  lc_audit :: "terminal_audit option"
  lc_claim :: "string option"
  lc_claim_owner :: "string option"
  lc_claim_expires :: "int option"
  lc_deferred :: "string option"
  lc_acked :: "string option"

record slot_row =
  sl_request :: string
  sl_token :: string
  sl_expires :: int

text \<open>
  A record of the outcome of a query in the audit log of its tenant. A field that an event does not carry is
  \<open>None\<close>; \<open>qe_failure\<close> and \<open>qe_execution\<close> are as in the terminal evidence.
\<close>

record query_entry =
  qe_tenant :: string
  qe_project :: string
  qe_principal :: string
  qe_request :: string
  qe_datasource :: string
  qe_sha :: string
  qe_status :: string
  qe_failure :: "string option"
  qe_execution :: "string option"
  qe_state :: "string option"
  qe_observed :: "int option"
  qe_accounted :: "int option"
  qe_engine_ms :: "int option"
  qe_cancel_requested :: "bool option"
  qe_may_have_started :: "bool option"
  qe_accounting :: "string option"
  qe_finalized :: "bool option"
  qe_reconciled :: "bool option"
  qe_row_count :: "int option"
  qe_truncated :: "bool option"
  qe_result_bytes :: "int option"

fun status_text :: "query_status \<Rightarrow> string" where
  "status_text Accepted = ''accepted''"
| "status_text Running = ''running''"
| "status_text Succeeded = ''succeeded''"
| "status_text Failed = ''failed''"
| "status_text Cancelled = ''cancelled''"

text \<open>
  The events of the query service in the audit log: a request that passed the policy, one that was refused (by the
  policy or by admission), and an outcome. The first two carry tenant, project, principal, request, datasource and
  the digest of the query.
\<close>

record query_subject =
  qj_tenant :: string
  qj_project :: string
  qj_principal :: string
  qj_request :: string
  qj_datasource :: string
  qj_sha :: string

datatype query_event =
    QueryRequest query_subject int "int option"
  | QueryRejected query_subject string
  | QueryResult query_entry

text \<open>\<open>qs_log\<close> is the durable audit log of the tenants, in the order of its records.\<close>

record query_store =
  qs_rows :: "(query_key \<times> lifecycle) list"
  qs_slots :: "scope_key \<Rightarrow> slot_row option"
  qs_scans :: "scope_key \<Rightarrow> int option"
  qs_log :: "query_event list"

definition empty_queries :: query_store where
  "empty_queries = \<lparr>qs_rows = [], qs_slots = Map.empty, qs_scans = Map.empty, qs_log = []\<rparr>"

definition row_at :: "query_key \<Rightarrow> query_store \<Rightarrow> lifecycle option" where
  "row_at k st = map_of (qs_rows st) k"

definition put_row :: "query_key \<Rightarrow> lifecycle \<Rightarrow> query_store \<Rightarrow> query_store" where
  "put_row k r st = st\<lparr>qs_rows := AList.update k r (qs_rows st)\<rparr>"

text \<open>The two scopes in which a query is counted.\<close>

definition query_scopes :: "lease \<Rightarrow> scope list" where
  "query_scopes l = [Scope ''project'' (le_project l), Scope ''principal'' (le_principal l)]"

definition slot_of :: "lease \<Rightarrow> string \<Rightarrow> int" where
  "slot_of l scope = (if scope = ''project'' then le_project_slot l else le_principal_slot l)"

definition query_slot_key :: "lease \<Rightarrow> scope \<Rightarrow> scope_key" where
  "query_slot_key l s = ScopeKey (le_tenant l) s (slot_of l (scope_kind s))"

definition scan_counter_key :: "lease \<Rightarrow> scope \<Rightarrow> scope_key" where
  "scan_counter_key l s = ScopeKey (le_tenant l) s (le_window l)"

section \<open>Conditional transactions\<close>

text \<open>A cancelled transaction names the operations whose condition failed.\<close>

definition when_all :: "bool list \<Rightarrow> 's \<Rightarrow> nat list + 's" where
  "when_all conds st = (case filter (\<lambda>i. \<not> conds ! i) [0..<length conds] of [] \<Rightarrow> Inr st | fs \<Rightarrow> Inl fs)"

lemma when_all_Inr: "when_all conds st = Inr st' \<longleftrightarrow> list_all id conds \<and> st' = st"
proof -
  have "filter (\<lambda>i. \<not> conds ! i) [0..<length conds] = [] \<longleftrightarrow> list_all id conds"
    by (auto simp: filter_empty_conv list_all_length)
  then show ?thesis by (auto simp: when_all_def split: list.split)
qed

lemma when_all_Inl: "when_all conds st = Inl fs \<Longrightarrow> fs = filter (\<lambda>i. \<not> conds ! i) [0..<length conds]"
  by (auto simp: when_all_def split: list.splits)

section \<open>Admission\<close>

record capacity_request =
  cq_lease :: lease
  cq_project_concurrency :: int
  cq_principal_concurrency :: int
  cq_project_limit :: int
  cq_principal_limit :: int
  cq_window_seconds :: int
  cq_lease_seconds :: int
  cq_now :: int

definition concurrency_of :: "capacity_request \<Rightarrow> string \<Rightarrow> int" where
  "concurrency_of q scope = (if scope = ''project'' then cq_project_concurrency q else cq_principal_concurrency q)"

definition scan_limit_of :: "capacity_request \<Rightarrow> string \<Rightarrow> int" where
  "scan_limit_of q scope = (if scope = ''project'' then cq_project_limit q else cq_principal_limit q)"

text \<open>The condition of a slot: nobody holds it, or the holder's lease has run out.\<close>

definition slot_free :: "int \<Rightarrow> slot_row option \<Rightarrow> bool" where
  "slot_free now s = (case s of None \<Rightarrow> True | Some r \<Rightarrow> sl_expires r < now)"

definition scan_fits :: "int \<Rightarrow> int option \<Rightarrow> bool" where
  "scan_fits remaining v = (case v of None \<Rightarrow> True | Some n \<Rightarrow> n \<le> remaining)"

definition slot_row_of :: "lease \<Rightarrow> slot_row" where
  "slot_row_of l = \<lparr>sl_request = le_request l, sl_token = le_token l, sl_expires = le_expires l\<rparr>"

definition new_lifecycle :: "lease \<Rightarrow> lifecycle" where
  "new_lifecycle l = \<lparr>lc_lease = l, lc_status = Accepted, lc_execution = None, lc_failure = None, lc_actual = None,
     lc_pending = False, lc_audit = None, lc_claim = None, lc_claim_owner = None, lc_claim_expires = None,
     lc_deferred = None, lc_acked = None\<rparr>"

definition put_slot :: "lease \<Rightarrow> scope \<Rightarrow> query_store \<Rightarrow> query_store" where
  "put_slot l s st = st\<lparr>qs_slots := (qs_slots st)(query_slot_key l s \<mapsto> slot_row_of l)\<rparr>"

definition add_scan :: "int \<Rightarrow> lease \<Rightarrow> scope \<Rightarrow> query_store \<Rightarrow> query_store" where
  "add_scan n l s st = st\<lparr>qs_scans := (qs_scans st)(scan_counter_key l s \<mapsto>
     (case qs_scans st (scan_counter_key l s) of None \<Rightarrow> n | Some v \<Rightarrow> v + n))\<rparr>"

text \<open>One attempt, for the slots named in the lease.\<close>

definition reserve_conditions :: "capacity_request \<Rightarrow> query_store \<Rightarrow> bool list" where
  "reserve_conditions q st = (let l = cq_lease q in
     (row_at (lease_key l) st = None)
     # map (\<lambda>s. slot_free (cq_now q) (qs_slots st (query_slot_key l s))) (query_scopes l)
     @ map (\<lambda>s. scan_fits (scan_limit_of q (scope_kind s) - le_reserved l) (qs_scans st (scan_counter_key l s))) (query_scopes l))"

definition admit :: "lease \<Rightarrow> query_store \<Rightarrow> query_store" where
  "admit l st = fold (add_scan (le_reserved l) l) (query_scopes l)
     (fold (put_slot l) (query_scopes l) (put_row (lease_key l) (new_lifecycle l) st))"

definition txn_reserve_query :: "capacity_request \<Rightarrow> query_store \<Rightarrow> nat list + query_store" where
  "txn_reserve_query q st = when_all (reserve_conditions q st) (admit (cq_lease q) st)"

section \<open>Lifecycle updates\<close>

text \<open>An update of one row under a condition on that row; a row that is not there fails it.\<close>

definition update_query_row :: "query_key \<Rightarrow> (lifecycle \<Rightarrow> bool) \<Rightarrow> (lifecycle \<Rightarrow> lifecycle) \<Rightarrow> query_store \<Rightarrow> nat list + query_store" where
  "update_query_row k cond f st = (case row_at k st of
     None \<Rightarrow> Inl [0]
   | Some r \<Rightarrow> if cond r then Inr (put_row k (f r) st) else Inl [0])"

definition holds_token :: "lease \<Rightarrow> lifecycle \<Rightarrow> bool" where
  "holds_token l r \<longleftrightarrow> le_token (lc_lease r) = le_token l"

definition txn_mark_started :: "lease \<Rightarrow> string \<Rightarrow> query_store \<Rightarrow> nat list + query_store" where
  "txn_mark_started l execution = update_query_row (lease_key l)
     (\<lambda>r. holds_token l r \<and> (lc_status r = Accepted \<or> lc_status r = Running \<and> lc_execution r = Some execution))
     (\<lambda>r. r\<lparr>lc_status := Running, lc_execution := Some execution\<rparr>)"

text \<open>Settling: the row, the refunds of the counters and the slots that are still the caller's.\<close>

definition settle_row :: "terminal_audit \<Rightarrow> lifecycle \<Rightarrow> lifecycle" where
  "settle_row a r = r\<lparr>lc_status := ta_status a, lc_actual := Some (ta_accounted a), lc_pending := True, lc_audit := Some a\<rparr>"

definition slot_owned :: "lease \<Rightarrow> slot_row option \<Rightarrow> bool" where
  "slot_owned l s = (case s of None \<Rightarrow> False | Some r \<Rightarrow> sl_token r = le_token l \<and> sl_request r = le_request l)"

definition free_slot :: "lease \<Rightarrow> scope \<Rightarrow> query_store \<Rightarrow> query_store" where
  "free_slot l s st = st\<lparr>qs_slots := (qs_slots st)(query_slot_key l s := None)\<rparr>"

definition can_refund :: "int \<Rightarrow> int option \<Rightarrow> bool" where
  "can_refund refund v = (case v of None \<Rightarrow> False | Some n \<Rightarrow> refund \<le> n)"

definition settle_conditions ::
  "lease \<Rightarrow> (lifecycle \<Rightarrow> bool) \<Rightarrow> int \<Rightarrow> scope list \<Rightarrow> scope list \<Rightarrow> query_store \<Rightarrow> bool list" where
  "settle_conditions l cond refund refunds slots st =
     (case row_at (lease_key l) st of None \<Rightarrow> False | Some r \<Rightarrow> cond r)
     # map (\<lambda>s. can_refund refund (qs_scans st (scan_counter_key l s))) refunds
     @ map (\<lambda>s. slot_owned l (qs_slots st (query_slot_key l s))) slots"

definition apply_settle ::
  "lease \<Rightarrow> (lifecycle \<Rightarrow> lifecycle) \<Rightarrow> int \<Rightarrow> scope list \<Rightarrow> scope list \<Rightarrow> query_store \<Rightarrow> query_store" where
  "apply_settle l f refund refunds slots st = fold (free_slot l) slots (fold (add_scan (- refund) l) refunds
     (case row_at (lease_key l) st of None \<Rightarrow> st | Some r \<Rightarrow> put_row (lease_key l) (f r) st))"

definition txn_settle ::
  "lease \<Rightarrow> (lifecycle \<Rightarrow> bool) \<Rightarrow> (lifecycle \<Rightarrow> lifecycle) \<Rightarrow> int \<Rightarrow> scope list \<Rightarrow> scope list
     \<Rightarrow> query_store \<Rightarrow> nat list + query_store" where
  "txn_settle l cond f refund refunds slots st =
     when_all (settle_conditions l cond refund refunds slots st) (apply_settle l f refund refunds slots st)"

text \<open>The row updates of the two ways to settle, by the service and by a reconciliation worker.\<close>

definition service_settles :: "lease \<Rightarrow> lifecycle \<Rightarrow> bool" where
  "service_settles l r \<longleftrightarrow> holds_token l r \<and> active (lc_status r)"

definition service_settled :: "terminal_audit \<Rightarrow> string \<Rightarrow> int \<Rightarrow> lifecycle \<Rightarrow> lifecycle" where
  "service_settled a claim_token claim_expires r = (settle_row a r)
     \<lparr>lc_execution := (case ta_execution a of None \<Rightarrow> lc_execution r | Some e \<Rightarrow> Some e),
      lc_failure := (case ta_failure a of None \<Rightarrow> lc_failure r | Some c \<Rightarrow> Some c),
      lc_claim := Some claim_token, lc_claim_owner := Some ''query-service'', lc_claim_expires := Some claim_expires\<rparr>"

definition worker_settles :: "lease \<Rightarrow> string \<Rightarrow> query_status \<Rightarrow> lifecycle \<Rightarrow> bool" where
  "worker_settles l claim_token status r \<longleftrightarrow> holds_token l r \<and> lc_claim r = Some claim_token \<and> lc_status r = status"

definition worker_settled :: "terminal_audit \<Rightarrow> lifecycle \<Rightarrow> lifecycle" where
  "worker_settled a r = (settle_row a r)\<lparr>lc_execution := ta_execution a, lc_failure := ta_failure a\<rparr>"

section \<open>Claims\<close>

text \<open>What a worker may claim: an active row whose lease has run out, or a terminal row with a pending audit.\<close>

definition claim_eligible :: "int \<Rightarrow> lifecycle \<Rightarrow> bool" where
  "claim_eligible now r \<longleftrightarrow> (if active (lc_status r) then le_expires (lc_lease r) \<le> now else lc_pending r)"

definition unclaimed :: "int \<Rightarrow> lifecycle \<Rightarrow> bool" where
  "unclaimed now r = (case lc_claim_expires r of None \<Rightarrow> True | Some e \<Rightarrow> e \<le> now)"

definition claimed :: "string \<Rightarrow> string \<Rightarrow> int \<Rightarrow> lifecycle \<Rightarrow> lifecycle" where
  "claimed token owner expires r = r\<lparr>lc_claim := Some token, lc_claim_owner := Some owner, lc_claim_expires := Some expires\<rparr>"

definition unclaim :: "lifecycle \<Rightarrow> lifecycle" where
  "unclaim r = r\<lparr>lc_claim := None, lc_claim_owner := None, lc_claim_expires := None\<rparr>"

definition txn_claim :: "lease \<Rightarrow> query_status \<Rightarrow> string \<Rightarrow> string \<Rightarrow> int \<Rightarrow> int \<Rightarrow> query_store \<Rightarrow> nat list + query_store" where
  "txn_claim l status token owner now expires = update_query_row (lease_key l)
     (\<lambda>r. holds_token l r \<and> lc_status r = status \<and> claim_eligible now r \<and> unclaimed now r) (claimed token owner expires)"

definition txn_defer :: "lease \<Rightarrow> string \<Rightarrow> query_status \<Rightarrow> query_store \<Rightarrow> nat list + query_store" where
  "txn_defer l claim_token status = update_query_row (lease_key l) (worker_settles l claim_token status)
     (\<lambda>r. (unclaim r)\<lparr>lc_deferred := Some claim_token\<rparr>)"

definition txn_acknowledge :: "lease \<Rightarrow> string \<Rightarrow> terminal_audit \<Rightarrow> query_store \<Rightarrow> nat list + query_store" where
  "txn_acknowledge l claim_token a = update_query_row (lease_key l)
     (\<lambda>r. worker_settles l claim_token (ta_status a) r \<and> lc_pending r \<and> lc_audit r = Some a)
     (\<lambda>r. (unclaim r)\<lparr>lc_pending := False, lc_acked := Some claim_token\<rparr>)"

text \<open>The audit record that a reconciliation worker writes for a settled query.\<close>

definition query_entry_of :: "lease \<Rightarrow> terminal_audit \<Rightarrow> query_entry" where
  "query_entry_of l a = \<lparr>qe_tenant = le_tenant l, qe_project = le_project l, qe_principal = le_principal l,
     qe_request = le_request l, qe_datasource = le_datasource l, qe_sha = le_sha l, qe_status = status_text (ta_status a),
     qe_failure = ta_failure a, qe_execution = ta_execution a, qe_state = ta_state a, qe_observed = ta_observed a,
     qe_accounted = Some (ta_accounted a), qe_engine_ms = ta_engine_ms a, qe_cancel_requested = Some (ta_cancel_requested a),
     qe_may_have_started = Some (ta_execution a \<noteq> None \<or> ta_failure a = Some ''query_interrupted_before_execution_id''),
     qe_accounting = Some (ta_accounting a), qe_finalized = Some True, qe_reconciled = Some True,
     qe_row_count = ta_row_count a, qe_truncated = ta_truncated a, qe_result_bytes = ta_result_bytes a\<rparr>"

text \<open>A record tells of a settled query: it is about that request and agrees with the evidence in what it carries.\<close>

definition agrees :: "'a option \<Rightarrow> 'a \<Rightarrow> bool" where
  "agrees x y = (case x of None \<Rightarrow> True | Some z \<Rightarrow> z = y)"

lemma agrees_simps [simp]: "agrees None y" "agrees (Some x) y = (x = y)"
  by (simp_all add: agrees_def)

definition entry_tells :: "query_entry \<Rightarrow> lease \<Rightarrow> terminal_audit \<Rightarrow> bool" where
  "entry_tells e l a \<longleftrightarrow> qe_tenant e = le_tenant l \<and> qe_project e = le_project l \<and> qe_principal e = le_principal l
     \<and> qe_request e = le_request l \<and> qe_datasource e = le_datasource l \<and> qe_sha e = le_sha l
     \<and> qe_status e = status_text (ta_status a) \<and> qe_failure e = ta_failure a \<and> qe_execution e = ta_execution a
     \<and> qe_observed e = ta_observed a \<and> qe_engine_ms e = ta_engine_ms a
     \<and> qe_row_count e = ta_row_count a \<and> qe_truncated e = ta_truncated a \<and> qe_result_bytes e = ta_result_bytes a
     \<and> agrees (qe_accounted e) (ta_accounted a) \<and> agrees (qe_accounting e) (ta_accounting a)"

lemma query_entry_tells [simp]: "entry_tells (query_entry_of l a) l a"
  by (simp add: entry_tells_def query_entry_of_def)

definition tells :: "lease \<Rightarrow> terminal_audit \<Rightarrow> query_event \<Rightarrow> bool" where
  "tells l a ev = (case ev of QueryResult e \<Rightarrow> entry_tells e l a | _ \<Rightarrow> False)"

lemma tells_result [simp]: "tells l a (QueryResult e) = entry_tells e l a"
  by (simp add: tells_def)

definition append_event :: "query_event \<Rightarrow> query_store \<Rightarrow> query_store" where
  "append_event ev st = st\<lparr>qs_log := qs_log st @ [ev]\<rparr>"

end
