(* ===== verification/QueryStore.thy ===== *)
theory QueryStore
  imports QueryTable
begin

text \<open>
  The calls of \<open>persistence.py\<close> on the query table: reserving capacity, marking a start, settling, and the claims of
  the reconciliation workers. Every read and every transaction is one step of \<open>Service\<close>; an exception that leaves
  a function is \<open>None\<close>. The store is enabled and has transactions, as a real table has.
\<close>

section \<open>Reserving capacity\<close>

datatype capacity_answer = Granted lease | Denied string "int option"

definition cq_valid :: "capacity_request \<Rightarrow> bool" where
  "cq_valid q \<longleftrightarrow> (let l = cq_lease q in \<not> blank (le_tenant l)
     \<and> list_all (\<lambda>v. v \<noteq> []) [le_project l, le_principal l, le_request l, le_datasource l, le_sha l]
     \<and> list_all (\<lambda>v. 1 \<le> v) [le_reserved l, cq_project_concurrency q, cq_principal_concurrency q, cq_project_limit q,
          cq_principal_limit q, cq_window_seconds q, cq_lease_seconds q]
     \<and> le_reserved l \<le> cq_project_limit q \<and> le_reserved l \<le> cq_principal_limit q
     \<and> cq_principal_concurrency q \<le> cq_project_concurrency q)"

text \<open>\<open>int(token[:16], 16)\<close> of a hexadecimal token.\<close>

definition hex_digit :: "char \<Rightarrow> nat" where
  "hex_digit c = (let n = of_char c in if n < 58 then n - 48 else n - 87)"

definition slot_seed :: "string \<Rightarrow> int" where
  "slot_seed token = int (foldl (\<lambda>n c. 16 * n + hex_digit c) 0 (take 16 token))"

definition slot_order :: "int \<Rightarrow> int \<Rightarrow> int list" where
  "slot_order seed n = map (\<lambda>offset. (seed + offset) mod n) [0..n - 1]"

text \<open>The lease as far as it is fixed before the slots are chosen.\<close>

definition stamp_lease :: "capacity_request \<Rightarrow> string \<Rightarrow> lease" where
  "stamp_lease q token = (cq_lease q)\<lparr>le_token := token,
     le_window := cq_now q div cq_window_seconds q * cq_window_seconds q, le_expires := cq_now q + cq_lease_seconds q\<rparr>"

definition with_slots :: "lease \<Rightarrow> int \<times> int \<Rightarrow> lease" where
  "with_slots l ps = l\<lparr>le_project_slot := fst ps, le_principal_slot := snd ps\<rparr>"

definition window_retry :: "capacity_request \<Rightarrow> lease \<Rightarrow> int" where
  "window_retry q l = max 1 (le_window l + cq_window_seconds q - cq_now q)"

fun try_slots :: "capacity_request \<Rightarrow> lease \<Rightarrow> string \<Rightarrow> (int \<times> int) list \<Rightarrow> (query_store, capacity_answer) service" where
  "try_slots q l failure [] = return_io (Denied failure (Some (cq_lease_seconds q)))"
| "try_slots q l failure (ps # rest) =
     bind_io (write_io (txn_reserve_query (q\<lparr>cq_lease := with_slots l ps\<rparr>))) (\<lambda>out. (case out of
         Done \<Rightarrow> return_io (Granted (with_slots l ps))
       | Rejected fs \<Rightarrow>
           if 0 \<in> set fs then return_io (Denied ''duplicate_request'' None)
           else if 3 \<in> set fs then return_io (Denied ''project_scan_budget'' (Some (window_retry q l)))
           else if 4 \<in> set fs then return_io (Denied ''principal_scan_budget'' (Some (window_retry q l)))
           else if 1 \<in> set fs then try_slots q l ''project_concurrency'' rest
           else if 2 \<in> set fs then try_slots q l ''principal_concurrency'' rest
           else fail_io
       | Broken \<Rightarrow> fail_io))"

text \<open>The random lease token is an argument. \<open>None\<close> is the answer when the transaction could not be decided.\<close>

definition reserve_query_capacity :: "capacity_request \<Rightarrow> string \<Rightarrow> (query_store, capacity_answer option) service" where
  "reserve_query_capacity q token =
     (if \<not> cq_valid q then fail_io
      else let l = stamp_lease q token; seed = slot_seed token in
        try_io (try_slots q l ''project_concurrency''
          (List.product (slot_order seed (cq_project_concurrency q)) (slot_order seed (cq_principal_concurrency q)))))"

section \<open>Marking the start\<close>

definition applied :: "(query_store, 'e outcome) service \<Rightarrow> (query_store, bool) service" where
  "applied m = bind_io (try_io m) (\<lambda>out. return_io (case out of Some Done \<Rightarrow> True | _ \<Rightarrow> False))"

definition mark_query_started :: "lease \<Rightarrow> string \<Rightarrow> (query_store, bool) service" where
  "mark_query_started l execution =
     (if blank (le_tenant l) \<or> \<not> list_all (\<lambda>v. v \<noteq> []) [le_project l, le_request l, le_token l, execution] then fail_io
      else applied (write_io (txn_mark_started l execution)))"

section \<open>Settling\<close>

text \<open>The slots of a lease that a read still finds in its possession, in order.\<close>

fun read_owned :: "lease \<Rightarrow> scope list \<Rightarrow> (query_store, scope list) service" where
  "read_owned l [] = return_io []"
| "read_owned l (s # ss) = bind_io (get_io (\<lambda>st. qs_slots st (query_slot_key l s))) (\<lambda>row.
     bind_io (read_owned l ss) (\<lambda>rest. return_io (if slot_owned l row then s # rest else rest)))"

fun read_counters :: "lease \<Rightarrow> scope list \<Rightarrow> (query_store, scope list) service" where
  "read_counters l [] = return_io []"
| "read_counters l (s # ss) = bind_io (get_io (\<lambda>st. qs_scans st (scan_counter_key l s))) (\<lambda>v.
     bind_io (read_counters l ss) (\<lambda>rest. return_io (if v = None then rest else s # rest)))"

text \<open>A settlement that was not answered counts when the row shows it.\<close>

definition settle_answer :: "nat list outcome \<Rightarrow> query_key \<Rightarrow> (lifecycle \<Rightarrow> bool) \<Rightarrow> (query_store, bool) service" where
  "settle_answer out k shows_it = (case out of
     Done \<Rightarrow> return_io True
   | _ \<Rightarrow> bind_io (get_io (row_at k)) (\<lambda>row.
       if (case row of None \<Rightarrow> False | Some r \<Rightarrow> shows_it r) then return_io True
       else (case out of Rejected _ \<Rightarrow> return_io False | _ \<Rightarrow> fail_io)))"

definition false_on_error :: "(query_store, bool) service \<Rightarrow> (query_store, bool) service" where
  "false_on_error m = bind_io (try_io m) (\<lambda>r. return_io (r = Some True))"

definition service_shown :: "lease \<Rightarrow> terminal_audit \<Rightarrow> string \<Rightarrow> lifecycle \<Rightarrow> bool" where
  "service_shown l a claim_token r \<longleftrightarrow> holds_token l r \<and> lc_status r = ta_status a \<and> lc_actual r = Some (ta_accounted a)
     \<and> lc_execution r = ta_execution a \<and> lc_failure r = ta_failure a \<and> lc_audit r = Some a
     \<and> (lc_claim r = Some claim_token \<or> lc_acked r = Some claim_token)"

definition finalize_valid :: "lease \<Rightarrow> terminal_audit \<Rightarrow> string \<Rightarrow> int \<Rightarrow> bool" where
  "finalize_valid l a claim_token claim_seconds \<longleftrightarrow> \<not> blank (le_tenant l) \<and> terminal_audit_valid a
     \<and> list_all (\<lambda>v. v \<noteq> []) [le_project l, le_principal l, le_request l, le_token l]
     \<and> 1 \<le> le_reserved l \<and> ta_accounted a \<le> le_reserved l \<and> 0 \<le> le_window l \<and> 0 \<le> le_project_slot l \<and> 0 \<le> le_principal_slot l
     \<and> claim_token \<noteq> [] \<and> claim_token = py_strip claim_token \<and> length claim_token \<le> 256
     \<and> 15 \<le> claim_seconds \<and> claim_seconds \<le> 900"

text \<open>The status, the execution id, the failure code and the bytes that the caller passes besides are those of the audit.\<close>

definition finalize_query_capacity :: "lease \<Rightarrow> terminal_audit \<Rightarrow> string \<Rightarrow> int \<Rightarrow> int \<Rightarrow> (query_store, bool) service" where
  "finalize_query_capacity l a claim_token claim_seconds now =
     (if \<not> finalize_valid l a claim_token claim_seconds then fail_io
      else let refund = le_reserved l - ta_accounted a; refunds = (if refund = 0 then [] else query_scopes l) in
        false_on_error (bind_io (read_owned l (query_scopes l)) (\<lambda>slots.
          bind_io (write_io (txn_settle l (service_settles l) (service_settled a claim_token (now + claim_seconds)) refund refunds slots))
            (\<lambda>out. settle_answer out (lease_key l) (service_shown l a claim_token)))))"

section \<open>Reconciliation\<close>

record query_claim =
  cl_lease :: lease
  cl_token :: string
  cl_status :: query_status
  cl_execution :: "string option"
  cl_audit :: "terminal_audit option"

text \<open>What the constructor of a claim accepts.\<close>

definition claim_valid :: "query_claim \<Rightarrow> bool" where
  "claim_valid c \<longleftrightarrow> cl_token c \<noteq> [] \<and> optional (\<lambda>e. e \<noteq> []) (cl_execution c)
     \<and> (cl_status c = Running \<longrightarrow> cl_execution c \<noteq> None) \<and> (cl_status c = Accepted \<longrightarrow> cl_execution c = None)
     \<and> (case cl_audit c of
          None \<Rightarrow> active (cl_status c)
        | Some a \<Rightarrow> ta_status a = cl_status c \<and> \<not> active (cl_status c) \<and> ta_execution a = cl_execution c
            \<and> ta_accounted a \<le> le_reserved (cl_lease c))"

definition short_string :: "string \<Rightarrow> bool" where
  "short_string s \<longleftrightarrow> s \<noteq> [] \<and> length s \<le> 2048"

definition lease_readable :: "lease \<Rightarrow> bool" where
  "lease_readable l \<longleftrightarrow> list_all short_string [le_tenant l, le_project l, le_request l, le_principal l, le_datasource l, le_sha l, le_token l]
     \<and> 0 \<le> le_window l \<and> 1 \<le> le_expires l \<and> 0 \<le> le_project_slot l \<and> 0 \<le> le_principal_slot l \<and> 1 \<le> le_reserved l"

text \<open>Reading a row as a claim; \<open>None\<close> is the \<open>ValueError\<close> of a malformed row.\<close>

definition claim_from_row :: "query_key \<Rightarrow> lifecycle \<Rightarrow> string \<Rightarrow> query_claim option" where
  "claim_from_row k r token =
     (let c = \<lparr>cl_lease = lc_lease r, cl_token = token, cl_status = lc_status r, cl_execution = lc_execution r,
               cl_audit = (if active (lc_status r) then None else lc_audit r)\<rparr> in
      if lease_readable (lc_lease r) \<and> lease_key (lc_lease r) = k
        \<and> (\<not> active (lc_status r) \<longrightarrow> lc_pending r \<and> (case lc_audit r of None \<Rightarrow> False | Some a \<Rightarrow> terminal_audit_valid a))
        \<and> claim_valid c
      then Some c else None)"

text \<open>
  One page of a scan. The table holds items of many other kinds, and a page ends after a number of items of any
  kind: \<open>place k\<close> is the place of a key in the order of the scan, and \<open>stop\<close> the place of the last item that the page
  examined, \<open>None\<close> when it reached the end of the table. A cursor is an encoded key, here its place.
\<close>

definition past_place :: "nat option \<Rightarrow> nat \<Rightarrow> bool" where
  "past_place start p = (case start of None \<Rightarrow> True | Some s \<Rightarrow> s < p)"

definition until_place :: "nat option \<Rightarrow> nat \<Rightarrow> bool" where
  "until_place stop p = (case stop of None \<Rightarrow> True | Some e \<Rightarrow> p \<le> e)"

definition scan_page :: "(query_key \<Rightarrow> nat) \<Rightarrow> nat option \<Rightarrow> nat option \<Rightarrow> (lifecycle \<Rightarrow> bool) \<Rightarrow> query_store
    \<Rightarrow> (query_key \<times> lifecycle) list" where
  "scan_page place start stop keep st = filter (\<lambda>x. past_place start (place (fst x)) \<and> until_place stop (place (fst x)) \<and> keep (snd x))
     (sort_key (\<lambda>x. place (fst x)) (qs_rows st))"

text \<open>
  Claiming the candidates of a page: at most \<open>limit\<close> claims, and the key to continue from when that stops before
  the last candidate. \<open>tok i\<close> is the claim token drawn for the \<open>i\<close>-th candidate.
\<close>

fun claim_candidates :: "string \<Rightarrow> int \<Rightarrow> int \<Rightarrow> nat \<Rightarrow> (nat \<Rightarrow> string) \<Rightarrow> nat \<Rightarrow> (query_key \<times> lifecycle) list
    \<Rightarrow> (query_store, query_claim list \<times> query_key option) service" where
  "claim_candidates owner now expires limit tok i [] = return_io ([], None)"
| "claim_candidates owner now expires limit tok i ((k, r) # rest) =
     (case claim_from_row k r (tok i) of
        None \<Rightarrow> claim_candidates owner now expires limit tok (Suc i) rest
      | Some c \<Rightarrow>
          bind_io (write_new_io (txn_claim (cl_lease c) (cl_status c) (tok i) owner now expires) (row_at k)) (\<lambda>out.
            (case out of
               Inl (Rejected _) \<Rightarrow> claim_candidates owner now expires limit tok (Suc i) rest
             | Inr (Some r') \<Rightarrow>
                 (case claim_from_row k r' (tok i) of
                    None \<Rightarrow> fail_io
                  | Some c' \<Rightarrow>
                      if limit \<le> 1 then return_io ([c'], if rest = [] then None else Some k)
                      else bind_io (claim_candidates owner now expires (limit - 1) tok (Suc i) rest) (\<lambda>(cs, stop).
                        return_io (c' # cs, stop)))
             | _ \<Rightarrow> fail_io)))"

text \<open>\<open>page_end limit start\<close> is where a scan of at most \<open>limit\<close> items that begins after \<open>start\<close> stops.\<close>

definition claim_query_reconciliation_page ::
  "(query_key \<Rightarrow> nat) \<Rightarrow> (nat \<Rightarrow> nat option \<Rightarrow> nat option) \<Rightarrow> string \<Rightarrow> int \<Rightarrow> int \<Rightarrow> nat \<Rightarrow> nat option \<Rightarrow> (nat \<Rightarrow> string)
     \<Rightarrow> (query_store, query_claim list \<times> nat option) service" where
  "claim_query_reconciliation_page place page_end owner now claim_seconds limit cursor tok =
     (if owner = [] \<or> owner \<noteq> py_strip owner \<or> 256 < length owner \<or> \<not> (15 \<le> claim_seconds \<and> claim_seconds \<le> 900)
        \<or> \<not> (1 \<le> limit \<and> limit \<le> 100) then fail_io
      else let stop = page_end (min 1000 (max limit (limit * 20))) cursor in
        bind_io (get_io (scan_page place cursor stop (\<lambda>r. claim_eligible now r \<and> unclaimed now r)))
          (\<lambda>candidates. bind_io (claim_candidates owner now (now + claim_seconds) limit tok 0 candidates) (\<lambda>(cs, early).
            return_io (cs, case early of None \<Rightarrow> stop | Some k \<Rightarrow> Some (place k)))))"

definition worker_shown :: "query_claim \<Rightarrow> terminal_audit \<Rightarrow> lifecycle \<Rightarrow> bool" where
  "worker_shown c a r \<longleftrightarrow> holds_token (cl_lease c) r \<and> (lc_claim r = Some (cl_token c) \<or> lc_acked r = Some (cl_token c))
     \<and> lc_status r = ta_status a \<and> lc_actual r = Some (ta_accounted a) \<and> lc_audit r = Some a"

definition finalize_query_reconciliation :: "query_claim \<Rightarrow> terminal_audit \<Rightarrow> (query_store, bool) service" where
  "finalize_query_reconciliation c a =
     (let l = cl_lease c; refund = le_reserved l - ta_accounted a in
      if \<not> active (cl_status c) \<or> ta_execution a \<noteq> cl_execution c \<or> le_reserved l < ta_accounted a then fail_io
      else false_on_error (bind_io (read_counters l (if refund = 0 then [] else query_scopes l)) (\<lambda>refunds.
        bind_io (read_owned l (query_scopes l)) (\<lambda>slots.
          bind_io (write_io (txn_settle l (worker_settles l (cl_token c) (cl_status c)) (worker_settled a) refund refunds slots))
            (\<lambda>out. settle_answer out (lease_key l) (worker_shown c a))))))"

definition defer_query_reconciliation :: "query_claim \<Rightarrow> (query_store, bool) service" where
  "defer_query_reconciliation c =
     (if \<not> active (cl_status c) then fail_io
      else false_on_error (bind_io (write_io (txn_defer (cl_lease c) (cl_token c) (cl_status c))) (\<lambda>out.
        settle_answer out (lease_key (cl_lease c)) (\<lambda>r. holds_token (cl_lease c) r \<and> lc_status r = cl_status c
          \<and> lc_deferred r = Some (cl_token c)))))"

definition ack_query_reconciliation_audit :: "query_claim \<Rightarrow> (query_store, bool) service" where
  "ack_query_reconciliation_audit c = (case cl_audit c of
     None \<Rightarrow> fail_io
   | Some a \<Rightarrow>
       if active (cl_status c) then fail_io
       else false_on_error (bind_io (write_io (txn_acknowledge (cl_lease c) (cl_token c) a)) (\<lambda>out.
         settle_answer out (lease_key (cl_lease c)) (\<lambda>r. holds_token (cl_lease c) r \<and> lc_status r = cl_status c
           \<and> lc_audit r = Some a \<and> \<not> lc_pending r \<and> lc_acked r = Some (cl_token c)))))"

end
