(* ===== verification/Athena.thy ===== *)
theory Athena
  imports Messages Service
begin

text \<open>
  The bounded execution of one validated query on Athena (\<open>query/athena.py\<close>). Every awaited client call is answered
  by a \<open>reply\<close>: a value, an exception, or the cancellation of the task, by the caller or by the deadline that
  \<open>execute\<close> puts around everything. The answers of the client are arguments. A loop that need not end is a
  \<open>partial_function\<close>, \<open>None\<close> being that it does not return. Times are seconds.
\<close>

datatype 'a reply = Got 'a | Threw | Cut

section \<open>Errors and terminations\<close>

record athena_error =
  ae_code :: string
  ae_execution :: "string option"
  ae_state :: "string option"
  ae_scanned :: "int option"
  ae_engine_ms :: "int option"
  ae_cancel_requested :: bool
  ae_may_have_started :: bool

definition athena_error_of :: "string \<Rightarrow> athena_error" where
  "athena_error_of code = \<lparr>ae_code = code, ae_execution = None, ae_state = None, ae_scanned = None, ae_engine_ms = None,
     ae_cancel_requested = False, ae_may_have_started = False\<rparr>"

definition TERMINAL_STATES :: "string list" where
  "TERMINAL_STATES = [''SUCCEEDED'', ''FAILED'', ''CANCELLED'']"

definition ACTIVE_STATES :: "string list" where
  "ACTIVE_STATES = [''QUEUED'', ''RUNNING'']"

record termination_seen =
  tm_execution :: string
  tm_state :: string
  tm_terminal :: bool
  tm_scanned :: "int option"
  tm_engine_ms :: "int option"
  tm_cancel_requested :: bool

definition termination_valid :: "termination_seen \<Rightarrow> bool" where
  "termination_valid t \<longleftrightarrow> tm_execution t \<noteq> [] \<and> tm_state t \<in> set (TERMINAL_STATES @ ACTIVE_STATES)
     \<and> tm_terminal t = (tm_state t \<in> set TERMINAL_STATES)
     \<and> (case tm_scanned t of None \<Rightarrow> True | Some n \<Rightarrow> 0 \<le> n) \<and> (case tm_engine_ms t of None \<Rightarrow> True | Some n \<Rightarrow> 0 \<le> n)"

definition or_else :: "'a option \<Rightarrow> 'a option \<Rightarrow> 'a option" where
  "or_else x y = (case x of None \<Rightarrow> y | Some _ \<Rightarrow> x)"

definition attach_termination :: "termination_seen \<Rightarrow> athena_error \<Rightarrow> athena_error" where
  "attach_termination t e = e\<lparr>ae_execution := or_else (ae_execution e) (Some (tm_execution t)),
     ae_state := or_else (ae_state e) (Some (tm_state t)), ae_scanned := or_else (ae_scanned e) (tm_scanned t),
     ae_engine_ms := or_else (ae_engine_ms e) (tm_engine_ms t),
     ae_cancel_requested := ae_cancel_requested e \<or> tm_cancel_requested t, ae_may_have_started := True\<rparr>"

text \<open>\<open>_non_negative_statistic(d.get(name, 0))\<close>: \<open>None\<close> when the value is not a non-negative integer.\<close>

definition statistic :: "(string \<times> json) list \<Rightarrow> string \<Rightarrow> int option" where
  "statistic kvs name = (case map_of kvs name of
     None \<Rightarrow> Some 0
   | Some (JInt n) \<Rightarrow> if 0 \<le> n then Some n else None
   | _ \<Rightarrow> None)"

definition status_failed :: "string \<Rightarrow> string option \<Rightarrow> int option \<Rightarrow> bool \<Rightarrow> athena_error" where
  "status_failed execution state scanned cancel = (athena_error_of ''athena_status_failed'')
     \<lparr>ae_execution := Some execution, ae_state := state, ae_scanned := scanned, ae_cancel_requested := cancel\<rparr>"

text \<open>The statistics of an execution: \<open>Inl\<close> with the scan figure that was read before the malformed one.\<close>

definition statistics_of :: "json \<Rightarrow> int option + int option \<times> int option" where
  "statistics_of statistics = (case statistics of
     JNull \<Rightarrow> Inr (None, None)
   | JObj stats \<Rightarrow>
       (case statistic stats ''DataScannedInBytes'' of
          None \<Rightarrow> Inl None
        | Some n \<Rightarrow> (case statistic stats ''EngineExecutionTimeInMillis'' of None \<Rightarrow> Inl (Some n) | Some ms \<Rightarrow> Inr (Some n, Some ms)))
   | _ \<Rightarrow> Inl None)"

text \<open>The state of an execution, \<open>None\<close> when the document has none that is known.\<close>

definition state_of :: "(string \<times> json) list \<Rightarrow> string option" where
  "state_of kvs = (case jget kvs ''Status'' of
     JObj status \<Rightarrow> (case jget status ''State'' of
        JStr state \<Rightarrow> if state \<in> set (TERMINAL_STATES @ ACTIVE_STATES) then Some state else None
      | _ \<Rightarrow> None)
   | _ \<Rightarrow> None)"

definition termination_of :: "json \<Rightarrow> string \<Rightarrow> bool \<Rightarrow> athena_error + termination_seen" where
  "termination_of execution eid cancel = (case execution of
     JObj kvs \<Rightarrow> (case state_of kvs of
        None \<Rightarrow> Inl (status_failed eid None None cancel)
      | Some state \<Rightarrow> (case statistics_of (jget kvs ''Statistics'') of
          Inl scanned \<Rightarrow> Inl (status_failed eid (Some state) scanned cancel)
        | Inr (scanned, ms) \<Rightarrow> Inr \<lparr>tm_execution = eid, tm_state = state, tm_terminal = (state \<in> set TERMINAL_STATES),
            tm_scanned = scanned, tm_engine_ms = ms, tm_cancel_requested = cancel\<rparr>))
   | _ \<Rightarrow> Inl (status_failed eid None None cancel))"

lemma statistic_nonneg: "statistic kvs name = Some n \<Longrightarrow> 0 \<le> n"
  by (auto simp: statistic_def split: option.splits json.splits if_splits)

lemma statistics_of_nonneg:
  "statistics_of j = Inr (a, b) \<Longrightarrow> (case a of None \<Rightarrow> True | Some n \<Rightarrow> 0 \<le> n) \<and> (case b of None \<Rightarrow> True | Some n \<Rightarrow> 0 \<le> n)"
  by (auto simp: statistics_of_def dest: statistic_nonneg split: json.splits option.splits)

lemma state_of_known: "state_of kvs = Some s \<Longrightarrow> s \<in> set (TERMINAL_STATES @ ACTIVE_STATES)"
  by (auto simp: state_of_def split: json.splits if_splits)

lemma termination_of_valid:
  assumes "termination_of execution eid cancel = Inr t" "eid \<noteq> []"
  shows "termination_valid t" "tm_execution t = eid" "tm_cancel_requested t = cancel"
proof -
  obtain kvs state scanned ms where d: "execution = JObj kvs" "state_of kvs = Some state" "statistics_of (jget kvs ''Statistics'') = Inr (scanned, ms)"
    "t = \<lparr>tm_execution = eid, tm_state = state, tm_terminal = (state \<in> set TERMINAL_STATES),
       tm_scanned = scanned, tm_engine_ms = ms, tm_cancel_requested = cancel\<rparr>"
    using assms(1) by (cases execution) (auto simp: termination_of_def split: option.splits sum.splits)
  show "termination_valid t" "tm_execution t = eid" "tm_cancel_requested t = cancel"
    using assms(2) state_of_known [OF d(2)] statistics_of_nonneg [OF d(3)] by (simp_all add: d(4) termination_valid_def)
qed

section \<open>Limits\<close>

record athena_limits =
  al_timeout :: rat
  al_max_rows :: int
  al_max_bytes :: int
  al_max_scanned :: int
  al_poll :: rat

definition athena_limits_valid :: "athena_limits \<Rightarrow> bool" where
  "athena_limits_valid c \<longleftrightarrow> 0 < al_timeout c \<and> al_timeout c \<le> 300 \<and> 1 \<le> al_max_rows c \<and> al_max_rows c \<le> 10000
     \<and> 1024 \<le> al_max_bytes c \<and> al_max_bytes c \<le> 16 * 1024 * 1024 \<and> 0 < al_max_scanned c
     \<and> 1 / 20 \<le> al_poll c \<and> al_poll c \<le> 5"

section \<open>Waiting for the end\<close>

text \<open>\<open>_get_query_execution\<close>: a response without a \<open>QueryExecution\<close> object is an error.\<close>

text \<open>\<open>Crashed\<close> is an exception of another type.\<close>

datatype 'a step = Ok 'a | Err athena_error | Cancelled_out | Crashed

definition query_execution :: "json reply \<Rightarrow> string \<Rightarrow> json step" where
  "query_execution r eid = (case r of
     Cut \<Rightarrow> Cancelled_out
   | Threw \<Rightarrow> Err (status_failed eid None None False)
   | Got (JObj kvs) \<Rightarrow> (case jget kvs ''QueryExecution'' of JObj x \<Rightarrow> Ok (JObj x) | _ \<Rightarrow> Err (status_failed eid None None False))
   | Got _ \<Rightarrow> Err (status_failed eid None None False))"

text \<open>
  What happens around the \<open>i\<close>-th look at a query: the answer of the client, the clock afterwards, and whether the
  task is cancelled in the sleep that follows.
\<close>

record look =
  lk_reply :: "json reply"
  lk_clock :: rat
  lk_cut :: bool

partial_function (option) wait_for_query :: "athena_limits \<Rightarrow> (nat \<Rightarrow> look) \<Rightarrow> string \<Rightarrow> rat \<Rightarrow> nat \<Rightarrow> json step option" where
  "wait_for_query c looks eid deadline i = (case query_execution (lk_reply (looks i)) eid of
     Cancelled_out \<Rightarrow> Some Cancelled_out
   | Crashed \<Rightarrow> Some Crashed
   | Err e \<Rightarrow> Some (Err e)
   | Ok execution \<Rightarrow>
       (case termination_of execution eid False of
          Inl e \<Rightarrow> Some (Err e)
        | Inr t \<Rightarrow>
            if tm_terminal t then Some (Ok execution)
            else if deadline - lk_clock (looks i) \<le> 0 then Some (Err (athena_error_of ''athena_query_timeout''))
            else if lk_cut (looks i) then Some Cancelled_out
            else wait_for_query c looks eid deadline (Suc i)))"

text \<open>
  The loop of \<open>cancel\<close>: the state was not terminal at the last look; the deadline is checked before each sleep. The clock before
  the look with index \<open>i\<close> is \<open>lk_clock (looks i)\<close>.
\<close>

partial_function (option) watch_cancel :: "(nat \<Rightarrow> look) \<Rightarrow> string \<Rightarrow> bool \<Rightarrow> rat \<Rightarrow> termination_seen \<Rightarrow> nat \<Rightarrow> termination_seen step option" where
  "watch_cancel looks eid requested deadline t i =
     (if tm_terminal t then Some (Ok t)
      else if deadline - lk_clock (looks i) \<le> 0 then Some (Ok t)
      else if lk_cut (looks i) then Some Cancelled_out
      else (case query_execution (lk_reply (looks i)) eid of
         Cancelled_out \<Rightarrow> Some Cancelled_out
       | Crashed \<Rightarrow> Some Crashed
       | Err e \<Rightarrow> Some (Err e)
       | Ok execution \<Rightarrow>
           (case termination_of execution eid requested of
              Inl e \<Rightarrow> Some (Err e)
            | Inr t' \<Rightarrow> watch_cancel looks eid requested deadline t' (Suc i))))"


section \<open>Reading the results\<close>

text \<open>The length in UTF-8 of a text, and of a document in compact JSON without ASCII escapes.\<close>

definition utf8_length :: "string \<Rightarrow> nat" where
  "utf8_length s = sum_list (map (\<lambda>c. if of_char c < (128 :: nat) then 1 else 2) s)"

definition json_char_bytes :: "char \<Rightarrow> nat" where
  "json_char_bytes c = (let n = (of_char c :: nat) in
     if n = 34 \<or> n = 92 \<or> n \<in> {8, 9, 10, 12, 13} then 2 else if n < 32 then 6 else if n < 128 then 1 else 2)"

definition text_bytes :: "string \<Rightarrow> nat" where
  "text_bytes s = 2 + sum_list (map json_char_bytes s)"

datatype doc = DNull | DText string | DList "doc list" | DObj "(string \<times> doc) list"

fun compact_json_bytes :: "doc \<Rightarrow> nat" where
  "compact_json_bytes DNull = 4"
| "compact_json_bytes (DText s) = text_bytes s"
| "compact_json_bytes (DList xs) = 2 + sum_list (map compact_json_bytes xs) + (length xs - 1)"
| "compact_json_bytes (DObj kvs) = 2 + sum_list (map (\<lambda>kv. text_bytes (fst kv) + 1 + compact_json_bytes (snd kv)) kvs) + (length kvs - 1)"

type_synonym athena_row = "string option list"

definition row_doc :: "athena_row \<Rightarrow> doc" where
  "row_doc r = DList (map (\<lambda>v. case v of None \<Rightarrow> DNull | Some s \<Rightarrow> DText s) r)"

definition result_doc :: "(string \<times> string) list \<Rightarrow> athena_row list \<Rightarrow> doc" where
  "result_doc columns rows = DObj
     [(''columns'', DList (map (\<lambda>(n, ty). DObj [(''name'', DText n), (''type'', DText ty)]) columns)),
      (''rows'', DList (map row_doc rows))]"

definition results_failed :: athena_error where
  "results_failed = athena_error_of ''athena_results_failed''"

definition column_text :: "json \<Rightarrow> string option" where
  "column_text j = (case j of JStr s \<Rightarrow> if s \<noteq> [] \<and> utf8_length s \<le> 4096 then Some s else None | _ \<Rightarrow> None)"

definition column_of :: "json \<Rightarrow> (string \<times> string) option" where
  "column_of j = (case j of
     JObj kvs \<Rightarrow> (case (column_text (jget kvs ''Name''), column_text (jget kvs ''Type'')) of
         (Some n, Some ty) \<Rightarrow> Some (n, ty) | _ \<Rightarrow> None)
   | _ \<Rightarrow> None)"

fun collect :: "('a \<Rightarrow> 'b option) \<Rightarrow> 'a list \<Rightarrow> 'b list option" where
  "collect f [] = Some []"
| "collect f (x # xs) = (case f x of None \<Rightarrow> None | Some y \<Rightarrow> map_option ((#) y) (collect f xs))"

definition field_of :: "json \<Rightarrow> string option option" where
  "field_of j = (case j of
     JObj kvs \<Rightarrow> (case jget kvs ''VarCharValue'' of JNull \<Rightarrow> Some None | JStr s \<Rightarrow> Some (Some s) | _ \<Rightarrow> None)
   | _ \<Rightarrow> None)"

text \<open>\<open>d.get(k, [])\<close>.\<close>

definition get_list :: "(string \<times> json) list \<Rightarrow> string \<Rightarrow> json list option" where
  "get_list kvs k = (case map_of kvs k of None \<Rightarrow> Some [] | Some (JList xs) \<Rightarrow> Some xs | _ \<Rightarrow> None)"

definition row_of :: "nat \<Rightarrow> json \<Rightarrow> athena_row option" where
  "row_of width j = (case j of
     JObj kvs \<Rightarrow> (case get_list kvs ''Data'' of
         None \<Rightarrow> None
       | Some data \<Rightarrow> (case collect field_of data of
           None \<Rightarrow> None
         | Some vs \<Rightarrow> if width < length vs then None else Some (vs @ replicate (width - length vs) None)))
   | _ \<Rightarrow> None)"

record reading =
  rd_columns :: "(string \<times> string) list"
  rd_rows :: "athena_row list"
  rd_bytes :: nat
  rd_first :: bool

definition new_reading :: reading where
  "new_reading = \<lparr>rd_columns = [], rd_rows = [], rd_bytes = 0, rd_first = True\<rparr>"

text \<open>The columns of a page: the first page sets them, the others must repeat them. \<open>Inl True\<close> is the
\<open>AttributeError\<close> of metadata that is no object.\<close>

definition page_columns :: "athena_limits \<Rightarrow> (string \<times> json) list \<Rightarrow> reading \<Rightarrow> bool + reading" where
  "page_columns c result rd = (case map_of result ''ResultSetMetadata'' of
     Some (JObj meta) \<Rightarrow>
       (case get_list meta ''ColumnInfo'' of
          None \<Rightarrow> Inl False
        | Some raw \<Rightarrow>
            if raw = [] \<or> 1000 < length raw then Inl False
            else (case collect column_of raw of
               None \<Rightarrow> Inl False
             | Some cols \<Rightarrow>
                 if rd_columns rd = [] then
                   (let n = compact_json_bytes (result_doc cols []) in
                    if al_max_bytes c < int n then Inl False else Inr (rd\<lparr>rd_columns := cols, rd_bytes := n\<rparr>))
                 else if cols \<noteq> rd_columns rd then Inl False else Inr rd))
   | None \<Rightarrow> Inl False
   | _ \<Rightarrow> Inl True)"

text \<open>The rows of a page: \<open>Inr (True, _)\<close> when a row did not fit.\<close>

fun page_rows :: "athena_limits \<Rightarrow> int \<Rightarrow> json list \<Rightarrow> reading \<Rightarrow> unit + bool \<times> reading" where
  "page_rows c max_rows [] rd = Inr (False, rd)"
| "page_rows c max_rows (raw # rest) rd = (case row_of (length (rd_columns rd)) raw of
     None \<Rightarrow> Inl ()
   | Some row \<Rightarrow>
       if rd_first rd \<and> row = map (\<lambda>(n, _). Some n) (rd_columns rd) then page_rows c max_rows rest (rd\<lparr>rd_first := False\<rparr>)
       else
         (let n = compact_json_bytes (row_doc row) + (if rd_rows rd = [] then 0 else 1) in
          if max_rows \<le> int (length (rd_rows rd)) \<or> al_max_bytes c < int (rd_bytes rd + n) then Inr (True, rd\<lparr>rd_first := False\<rparr>)
          else page_rows c max_rows rest (rd\<lparr>rd_rows := rd_rows rd @ [row], rd_bytes := rd_bytes rd + n, rd_first := False\<rparr>)))"

text \<open>One page: \<open>Inl\<close> the end of the reading, \<open>Inr\<close> the token of the next page.\<close>

definition read_page :: "athena_limits \<Rightarrow> int \<Rightarrow> string list \<Rightarrow> json reply \<Rightarrow> reading \<Rightarrow> (bool \<times> reading) step + string \<times> reading" where
  "read_page c max_rows seen r rd = (case r of
     Cut \<Rightarrow> Inl Cancelled_out
   | Threw \<Rightarrow> Inl (Err results_failed)
   | Got (JObj response) \<Rightarrow> (case jget response ''ResultSet'' of
       JObj result \<Rightarrow> (case page_columns c result rd of
           Inl crash \<Rightarrow> Inl (if crash then Crashed else Err results_failed)
         | Inr rd1 \<Rightarrow> (case get_list result ''Rows'' of
             None \<Rightarrow> Inl (Err results_failed)
           | Some raws \<Rightarrow> (case page_rows c max_rows raws rd1 of
               Inl _ \<Rightarrow> Inl (Err results_failed)
             | Inr (True, rd2) \<Rightarrow> Inl (Ok (True, rd2))
             | Inr (False, rd2) \<Rightarrow> (case jget response ''NextToken'' of
                 JNull \<Rightarrow> Inl (Ok (False, rd2))
               | JStr token \<Rightarrow> if token = [] \<or> token \<in> set seen then Inl (Err results_failed) else Inr (token, rd2)
               | _ \<Rightarrow> Inl (Err results_failed)))))
     | _ \<Rightarrow> Inl (Err results_failed))
   | Got _ \<Rightarrow> Inl (Err results_failed))"

partial_function (option) read_results ::
  "athena_limits \<Rightarrow> int \<Rightarrow> (nat \<Rightarrow> json reply) \<Rightarrow> nat \<Rightarrow> string list \<Rightarrow> reading \<Rightarrow> (bool \<times> reading) step option" where
  "read_results c max_rows pages i seen rd = (case read_page c max_rows seen (pages i) rd of
     Inl x \<Rightarrow> Some x
   | Inr (token, rd') \<Rightarrow> read_results c max_rows pages (Suc i) (token # seen) rd')"


section \<open>The workgroup\<close>

text \<open>
  \<open>urlsplit\<close> as far as it decides whether a text is a plain S3 location: scheme \<open>s3\<close>, a network location without user,
  port or brackets (an address literal in brackets is taken to be refused), no query and no fragment.
\<close>

definition partition_at :: "char \<Rightarrow> string \<Rightarrow> string \<times> string" where
  "partition_at c s = (takeWhile (\<lambda>x. x \<noteq> c) s, tl (dropWhile (\<lambda>x. x \<noteq> c) s))"

definition url_text :: "string \<Rightarrow> string" where
  "url_text s = filter (\<lambda>c. (of_char c :: nat) \<notin> {9, 10, 13}) (dropWhile (\<lambda>c. (of_char c :: nat) \<le> 32) s)"

definition valid_s3_output_location :: "json \<Rightarrow> bool" where
  "valid_s3_output_location j = (case j of
     JStr s \<Rightarrow> (let u = url_text s; rest = drop 5 u; netloc = takeWhile (\<lambda>c. c \<notin> set ''/?#'') rest;
         (before, fragment) = partition_at (CHR ''#'') (drop (length netloc) rest); query = snd (partition_at (CHR ''?'') before) in
       upper (take 5 u) = ''S3://'' \<and> netloc \<noteq> [] \<and> list_all (\<lambda>c. c \<notin> set ''@[]'') netloc
       \<and> snd (partition_at (CHR '':'') netloc) = [] \<and> query = [] \<and> fragment = [])
   | _ \<Rightarrow> False)"

definition as_obj :: "json \<Rightarrow> (string \<times> json) list option" where
  "as_obj j = (case j of JObj kvs \<Rightarrow> Some kvs | _ \<Rightarrow> None)"

definition encrypted :: "(string \<times> json) list \<Rightarrow> bool" where
  "encrypted e \<longleftrightarrow> jget e ''EncryptionOption'' \<in> {JStr ''SSE_KMS'', JStr ''CSE_KMS''}
     \<and> (case jget e ''KmsKey'' of JStr k \<Rightarrow> k \<noteq> [] | _ \<Rightarrow> False)"

definition validate_workgroup :: "athena_limits \<Rightarrow> json reply \<Rightarrow> unit step" where
  "validate_workgroup c r = (case r of
     Cut \<Rightarrow> Cancelled_out
   | Threw \<Rightarrow> Err (athena_error_of ''athena_workgroup_unavailable'')
   | Got response \<Rightarrow> (case as_obj response of
       None \<Rightarrow> Crashed
     | Some kvs \<Rightarrow> (case as_obj (jget kvs ''WorkGroup'') of
         None \<Rightarrow> Err (athena_error_of ''athena_workgroup_invalid'')
       | Some wg \<Rightarrow>
           (let unsafe = Err (athena_error_of ''athena_workgroup_unsafe'') in
            case as_obj (jget wg ''Configuration'') of
              None \<Rightarrow> unsafe
            | Some conf \<Rightarrow>
                if jget wg ''State'' \<noteq> JStr ''ENABLED'' \<or> jget conf ''EnforceWorkGroupConfiguration'' \<noteq> JBool True
                  \<or> jget conf ''PublishCloudWatchMetricsEnabled'' \<noteq> JBool True then unsafe
                else (case as_obj (jget conf ''ResultConfiguration'') of
                  None \<Rightarrow> unsafe
                | Some results \<Rightarrow> (case as_obj (jget results ''EncryptionConfiguration'') of
                    None \<Rightarrow> unsafe
                  | Some e \<Rightarrow>
                      if \<not> valid_s3_output_location (jget results ''OutputLocation'') \<or> \<not> encrypted e then unsafe
                      else (case jget conf ''BytesScannedCutoffPerQuery'' of
                        JInt n \<Rightarrow> if n \<le> 0 \<or> al_max_scanned c < n then unsafe else Ok ()
                      | _ \<Rightarrow> unsafe)))))))"

section \<open>Executing\<close>

record datasource =
  ds_tenant :: string
  ds_project :: string
  ds_role :: string
  ds_enabled :: bool

record athena_result =
  ar_execution :: string
  ar_columns :: "(string \<times> string) list"
  ar_rows :: "athena_row list"
  ar_truncated :: bool
  ar_scanned :: int
  ar_engine_ms :: int
  ar_bytes :: int

text \<open>
  The answers of the client to one execution. \<open>as_late\<close> is what the start request, which runs on in its thread, gives
  after the task was cancelled while it waited for it (\<open>None\<close>: an exception); \<open>as_callback_cut\<close> that the task is
  cancelled while the callback runs, \<open>as_stop\<close> that stopping the query succeeds, \<open>as_deadline\<close> that a cancellation came
  from the deadline of \<open>execute\<close>.
\<close>

record athena_script =
  as_factory :: "unit reply"
  as_workgroup :: "json reply"
  as_start :: "json reply"
  as_late :: "json option"
  as_callback_cut :: bool
  as_clock :: rat
  as_looks :: "nat \<Rightarrow> look"
  as_pages :: "nat \<Rightarrow> json reply"
  as_stop :: bool
  as_deadline :: bool

record tracker_seen =
  tr_execution :: "string option"
  tr_cancel_requested :: bool
  tr_attempted :: bool

definition new_tracking :: tracker_seen where
  "new_tracking = \<lparr>tr_execution = None, tr_cancel_requested = False, tr_attempted = False\<rparr>"

definition execution_id_of :: "json \<Rightarrow> string option" where
  "execution_id_of started = (case started of
     JObj kvs \<Rightarrow> (case jget kvs ''QueryExecutionId'' of JStr s \<Rightarrow> if s \<noteq> [] then Some s else None | _ \<Rightarrow> None)
   | _ \<Rightarrow> None)"

text \<open>An id that is no text: it is not recorded, but the \<open>finally\<close> clause stops it, since it is not \<open>None\<close>.\<close>

definition stray_id :: "json \<Rightarrow> bool" where
  "stray_id started \<longleftrightarrow> execution_id_of started = None \<and> (case started of JObj kvs \<Rightarrow> jget kvs ''QueryExecutionId'' \<noteq> JNull | _ \<Rightarrow> False)"

text \<open>What is made of the end of a query.\<close>

definition judge :: "athena_limits \<Rightarrow> int \<Rightarrow> (nat \<Rightarrow> json reply) \<Rightarrow> termination_seen \<Rightarrow> athena_result step option" where
  "judge c max_rows pages t =
     (let failing = (\<lambda>code. Some (Err (attach_termination t (athena_error_of code)))) in
      case (tm_scanned t, tm_engine_ms t) of
        (Some scanned, Some ms) \<Rightarrow>
          if tm_state t \<noteq> ''SUCCEEDED'' then failing (if tm_state t = ''CANCELLED'' then ''athena_query_cancelled'' else ''athena_query_failed'')
          else if al_max_scanned c < scanned then failing ''athena_scan_limit_exceeded''
          else (case read_results c max_rows pages 0 [] new_reading of
              None \<Rightarrow> None
            | Some (Ok (truncated, rd)) \<Rightarrow> Some (Ok \<lparr>ar_execution = tm_execution t, ar_columns = rd_columns rd, ar_rows = rd_rows rd,
                ar_truncated = truncated, ar_scanned = scanned, ar_engine_ms = ms, ar_bytes = int (rd_bytes rd)\<rparr>)
            | Some (Err e) \<Rightarrow> Some (Err (attach_termination t e))
            | Some Cancelled_out \<Rightarrow> Some Cancelled_out
            | Some Crashed \<Rightarrow> Some Crashed)
      | _ \<Rightarrow> failing ''athena_status_failed'')"

text \<open>Waiting and reading; the flag is \<open>terminal\<close>, whether the query was seen to end.\<close>

definition follow :: "athena_limits \<Rightarrow> int \<Rightarrow> athena_script \<Rightarrow> string \<Rightarrow> athena_result step option \<times> bool" where
  "follow c max_rows sc eid = (case wait_for_query c (as_looks sc) eid (as_clock sc + al_timeout c) 0 of
     None \<Rightarrow> (None, False)
   | Some (Ok execution) \<Rightarrow> (case termination_of execution eid False of
       Inl e \<Rightarrow> (Some (Err e), True)
     | Inr t \<Rightarrow> (judge c max_rows (as_pages sc) t, True))
   | Some (Err e) \<Rightarrow> (Some (Err e), False)
   | Some Cancelled_out \<Rightarrow> (Some Cancelled_out, False)
   | Some Crashed \<Rightarrow> (Some Crashed, False))"

text \<open>The \<open>finally\<close> clause: a query that was not seen to end is stopped. (A cancellation that arrives only in this stop is
not modelled.)\<close>

definition stop_query :: "athena_script \<Rightarrow> tracker_seen \<Rightarrow> tracker_seen" where
  "stop_query sc tr = (if as_stop sc then tr\<lparr>tr_cancel_requested := True\<rparr> else tr)"

definition notified :: "('s, unit) service \<Rightarrow> ('s, bool) service" where
  "notified m = bind_io (try_io m) (\<lambda>r. return_io (r = Some ()))"

definition start_failed :: athena_error where
  "start_failed = (athena_error_of ''athena_start_failed'')\<lparr>ae_may_have_started := True\<rparr>"

definition execute_started ::
  "athena_limits \<Rightarrow> int \<Rightarrow> athena_script \<Rightarrow> (string \<Rightarrow> ('s, unit) service) \<Rightarrow> ('s, athena_result step option \<times> tracker_seen) service" where
  "execute_started c max_rows sc on_started =
     (let attempted = new_tracking\<lparr>tr_attempted := True\<rparr>; known = (\<lambda>eid. attempted\<lparr>tr_execution := Some eid\<rparr>) in
      case as_start sc of
        Threw \<Rightarrow> return_io (Some (Err start_failed), attempted)
      | Cut \<Rightarrow> (case Option.bind (as_late sc) execution_id_of of
          None \<Rightarrow> return_io (Some Cancelled_out, if (case as_late sc of None \<Rightarrow> False | Some late \<Rightarrow> stray_id late) then stop_query sc attempted else attempted)
        | Some eid \<Rightarrow> bind_io (notified (on_started eid)) (\<lambda>_. return_io (Some Cancelled_out, stop_query sc (known eid))))
      | Got started \<Rightarrow> (case execution_id_of started of
          None \<Rightarrow> return_io (Some (Err start_failed), if stray_id started then stop_query sc attempted else attempted)
        | Some eid \<Rightarrow> bind_io (notified (on_started eid)) (\<lambda>ok.
            if as_callback_cut sc then return_io (Some Cancelled_out, stop_query sc (known eid))
            else if \<not> ok then return_io (Some Crashed, stop_query sc (known eid))
            else (let (r, ended) = follow c max_rows sc eid in
              return_io (r, if ended then known eid else stop_query sc (known eid))))))"

definition row_limit :: "athena_limits \<Rightarrow> int option \<Rightarrow> int option" where
  "row_limit c requested = (let n = (case requested of None \<Rightarrow> al_max_rows c | Some n \<Rightarrow> n) in
     if 1 \<le> n \<and> n \<le> al_max_rows c then Some n else None)"

definition execute_bounded ::
  "athena_limits \<Rightarrow> athena_script \<Rightarrow> datasource \<Rightarrow> string \<Rightarrow> string \<Rightarrow> int option \<Rightarrow> (string \<Rightarrow> ('s, unit) service)
     \<Rightarrow> ('s, athena_result step option \<times> tracker_seen) service" where
  "execute_bounded c sc ds tenant project requested on_started =
     (let stop = (\<lambda>x. return_io (Some x, new_tracking)) in
      if ds_tenant ds \<noteq> tenant \<or> ds_project ds \<noteq> project then stop (Err (athena_error_of ''datasource_identity_mismatch''))
      else (case row_limit c requested of
          None \<Rightarrow> stop (Err (athena_error_of ''invalid_query_limit''))
        | Some n \<Rightarrow> (case as_factory sc of
            Threw \<Rightarrow> stop (Err (athena_error_of ''athena_role_unavailable''))
          | Cut \<Rightarrow> stop Cancelled_out
          | Got _ \<Rightarrow> (case validate_workgroup c (as_workgroup sc) of
              Ok _ \<Rightarrow> execute_started c n sc on_started
            | Err e \<Rightarrow> stop (Err e)
            | Cancelled_out \<Rightarrow> stop Cancelled_out
            | Crashed \<Rightarrow> stop Crashed))))"

text \<open>\<open>execute\<close>: the same under a deadline. The second component of the answer is the id that the callback was given.\<close>

definition timed_out :: "tracker_seen \<Rightarrow> athena_error" where
  "timed_out tr = (athena_error_of ''athena_query_timeout'')\<lparr>ae_execution := tr_execution tr,
     ae_cancel_requested := tr_cancel_requested tr, ae_may_have_started := tr_attempted tr\<rparr>"

definition execute_query ::
  "athena_limits \<Rightarrow> athena_script \<Rightarrow> datasource \<Rightarrow> string \<Rightarrow> string \<Rightarrow> int option \<Rightarrow> (string \<Rightarrow> ('s, unit) service)
     \<Rightarrow> ('s, athena_result step option \<times> string option) service" where
  "execute_query c sc ds tenant project requested on_started =
     bind_io (execute_bounded c sc ds tenant project requested on_started) (\<lambda>(r, tr).
       return_io (if r = Some Cancelled_out \<and> as_deadline sc then Some (Err (timed_out tr)) else r, tr_execution tr))"

section \<open>Cancelling\<close>

record cancel_script =
  cs_factory :: "unit reply"
  cs_first :: "json reply"
  cs_stop :: "unit reply"
  cs_clock :: rat
  cs_looks :: "nat \<Rightarrow> look"

definition cancel_query :: "cancel_script \<Rightarrow> datasource \<Rightarrow> string \<Rightarrow> string \<Rightarrow> string \<Rightarrow> termination_seen step option" where
  "cancel_query cs ds tenant project eid =
     (if ds_tenant ds \<noteq> tenant \<or> ds_project ds \<noteq> project
      then Some (Err ((athena_error_of ''datasource_identity_mismatch'')\<lparr>ae_execution := Some eid\<rparr>))
      else if eid = [] then Some (Err (athena_error_of ''athena_status_failed''))
      else (case cs_factory cs of
          Threw \<Rightarrow> Some (Err ((athena_error_of ''athena_role_unavailable'')\<lparr>ae_execution := Some eid\<rparr>))
        | Cut \<Rightarrow> Some Cancelled_out
        | Got _ \<Rightarrow> (case query_execution (cs_first cs) eid of
            Cancelled_out \<Rightarrow> Some Cancelled_out
          | Crashed \<Rightarrow> Some Crashed
          | Err e \<Rightarrow> Some (Err e)
          | Ok execution \<Rightarrow> (case termination_of execution eid False of
              Inl e \<Rightarrow> Some (Err e)
            | Inr t \<Rightarrow>
                if tm_terminal t then Some (Ok t)
                else (case cs_stop cs of
                  Cut \<Rightarrow> Some Cancelled_out
                | s \<Rightarrow> (let requested = (s = Got ()) in
                    watch_cancel (cs_looks cs) eid requested (cs_clock cs + 5) (t\<lparr>tm_cancel_requested := requested\<rparr>) 0))))))"

end
