(* ===== verification/QueryService.thy ===== *)
theory QueryService
  imports QueryStore Athena RateLimit Authorization
begin

text \<open>
  The query service of an instance (\<open>query/service.py\<close>) and its admission controller (\<open>query/admission.py\<close>): the
  checks before a query, admission, the execution through \<open>Athena\<close>, and the settlement, audit record and
  acknowledgement on every way out. The store carries the query table and the audit log of the query events; an
  append to the log is one call of the store that may fail. What the datasource repository, the SQL parser, the
  shared rate limit and the Athena client answer, the clock and the random tokens are arguments. The hooks of
  operation rehearsals are left out, and so are cancellations outside the execution.
\<close>

section \<open>Failures\<close>

text \<open>An exception: one that carries a status and a code, or any other.\<close>

datatype failure = Http int string | Uncaught

definition then_do :: "('s, failure + 'a) service \<Rightarrow> ('a \<Rightarrow> ('s, failure + 'b) service) \<Rightarrow> ('s, failure + 'b) service" where
  "then_do m f = bind_io m (\<lambda>r. (case r of Inl e \<Rightarrow> return_io (Inl e) | Inr x \<Rightarrow> f x))"

section \<open>Admission\<close>

record query_limits =
  ql_project_rpm :: int
  ql_principal_rpm :: int
  ql_project_concurrency :: int
  ql_principal_concurrency :: int
  ql_project_scan :: int
  ql_principal_scan :: int
  ql_window :: int
  ql_lease :: int

definition query_limits_valid :: "query_limits \<Rightarrow> bool" where
  "query_limits_valid q \<longleftrightarrow> list_all (\<lambda>v. 1 \<le> v) [ql_project_rpm q, ql_principal_rpm q, ql_project_concurrency q,
       ql_principal_concurrency q, ql_project_scan q, ql_principal_scan q, ql_window q, ql_lease q]
     \<and> ql_principal_rpm q \<le> ql_project_rpm q \<and> ql_principal_concurrency q \<le> ql_project_concurrency q
     \<and> ql_principal_scan q \<le> ql_project_scan q \<and> ql_window q \<le> 3600 \<and> 30 \<le> ql_lease q \<and> ql_lease q \<le> 900"

record controller =
  qc_limits :: query_limits
  qc_max_scan :: int

definition controller_valid :: "controller \<Rightarrow> bool" where
  "controller_valid c \<longleftrightarrow> query_limits_valid (qc_limits c) \<and> 1 \<le> qc_max_scan c
     \<and> qc_max_scan c \<le> ql_principal_scan (qc_limits c) \<and> qc_max_scan c \<le> ql_project_scan (qc_limits c)"

definition unavailable :: failure where
  "unavailable = Http 503 ''query_admission_unavailable''"

definition denial_status :: "string \<Rightarrow> int option" where
  "denial_status reason = map_of [(''duplicate_request'', 409), (''project_concurrency'', 429), (''principal_concurrency'', 429),
     (''project_scan_budget'', 429), (''principal_scan_budget'', 429)] reason"

text \<open>The request the controller makes of the store. The token, the window, the expiry and the slots are the store's.\<close>

definition capacity_request_of :: "controller \<Rightarrow> query_subject \<Rightarrow> int \<Rightarrow> capacity_request" where
  "capacity_request_of c j now = (let q = qc_limits c in
     \<lparr>cq_lease = \<lparr>le_tenant = qj_tenant j, le_project = qj_project j, le_principal = qj_principal j, le_request = qj_request j,
        le_datasource = qj_datasource j, le_sha = qj_sha j, le_token = [], le_window = 0, le_expires = 0, le_project_slot = 0,
        le_principal_slot = 0, le_reserved = qc_max_scan c\<rparr>,
      cq_project_concurrency = ql_project_concurrency q, cq_principal_concurrency = ql_principal_concurrency q,
      cq_project_limit = ql_project_scan q, cq_principal_limit = ql_principal_scan q,
      cq_window_seconds = ql_window q, cq_lease_seconds = ql_lease q, cq_now = now\<rparr>)"

definition lease_sound :: "controller \<Rightarrow> int \<Rightarrow> lease \<Rightarrow> bool" where
  "lease_sound c now l \<longleftrightarrow> le_token l \<noteq> [] \<and> 0 \<le> le_window l \<and> now < le_expires l
     \<and> 0 \<le> le_project_slot l \<and> le_project_slot l < ql_project_concurrency (qc_limits c)
     \<and> 0 \<le> le_principal_slot l \<and> le_principal_slot l < ql_principal_concurrency (qc_limits c)"

definition admission_answer :: "controller \<Rightarrow> int \<Rightarrow> capacity_answer option option \<Rightarrow> failure + lease" where
  "admission_answer c now r = (case r of
     Some (Some (Granted l)) \<Rightarrow> if lease_sound c now l then Inr l else Inl unavailable
   | Some (Some (Denied reason _)) \<Rightarrow> (case denial_status reason of
       None \<Rightarrow> Inl unavailable
     | Some status \<Rightarrow> Inl (Http status
         (if reason = ''duplicate_request'' then ''duplicate_query_request'' else ''query_admission_exceeded'')))
   | _ \<Rightarrow> Inl unavailable)"

text \<open>\<open>now\<close> is in microseconds, as the shared rate limit takes it; its \<open>ValueError\<close> is not handled.\<close>

definition acquire :: "controller \<Rightarrow> shared_output \<Rightarrow> int \<Rightarrow> string \<Rightarrow> query_subject \<Rightarrow> (query_store, failure + lease) service" where
  "acquire c backend now token j =
     (case consume_shared_rate_limit backend (Some (ql_principal_rpm (qc_limits c))) (ql_project_rpm (qc_limits c)) (ql_window (qc_limits c)) now of
        Inl _ \<Rightarrow> return_io (Inl Uncaught)
      | Inr rate \<Rightarrow>
          if so_allowed rate \<noteq> JBool True then return_io (Inl (Http 429 ''query_rate_limit_exceeded''))
          else bind_io (try_io (reserve_query_capacity (capacity_request_of c j (now div 1000000)) token)) (\<lambda>r.
            return_io (admission_answer c (now div 1000000) r)))"

definition lifecycle_down :: failure where
  "lifecycle_down = Http 503 ''query_lifecycle_unavailable''"

definition confirmed :: "(query_store, bool) service \<Rightarrow> (query_store, failure + unit) service" where
  "confirmed m = bind_io (try_io m) (\<lambda>r. return_io (if r = Some True then Inr () else Inl lifecycle_down))"

text \<open>\<open>mark_started\<close>; in the callback its failure is an exception.\<close>

definition mark_started :: "lease \<Rightarrow> string \<Rightarrow> (query_store, unit) service" where
  "mark_started l execution =
     (if execution = [] then fail_io
      else bind_io (confirmed (mark_query_started l execution)) (\<lambda>r. (case r of Inl _ \<Rightarrow> fail_io | Inr _ \<Rightarrow> return_io ())))"

text \<open>\<open>finalize\<close>: the status, the charge and the ids passed besides are those of the audit. \<open>hex\<close> is random.\<close>

definition finalize :: "lease \<Rightarrow> terminal_audit \<Rightarrow> string \<Rightarrow> int \<Rightarrow> (query_store, failure + query_claim) service" where
  "finalize l a hex now =
     (let token = ''query-service-'' @ hex in
      if \<not> (0 \<le> ta_accounted a \<and> ta_accounted a \<le> le_reserved l) \<or> active (ta_status a) then return_io (Inl Uncaught)
      else then_do (confirmed (finalize_query_capacity l a token 60 now)) (\<lambda>_. return_io (Inr
        \<lparr>cl_lease = l, cl_token = token, cl_status = ta_status a, cl_execution = ta_execution a, cl_audit = Some a\<rparr>)))"

definition ack_audit :: "query_claim \<Rightarrow> (query_store, failure + unit) service" where
  "ack_audit c = confirmed (ack_query_reconciliation_audit c)"


section \<open>Records\<close>

record query_config =
  qx_admission :: "controller option"
  qx_require_admission :: bool
  qx_require_audit :: bool
  qx_audit_durable :: bool
  qx_bindings :: "(string \<times> string \<times> string) list"
  qx_athena :: athena_limits

definition audit_down :: failure where
  "audit_down = Http 503 ''query_audit_unavailable''"

text \<open>\<open>_record\<close>. Without a durable trail, and when none is required, the event only goes to the buffer of the process.\<close>

definition record_query :: "query_config \<Rightarrow> query_event \<Rightarrow> (query_store, failure + unit) service" where
  "record_query x ev =
     (if \<not> qx_audit_durable x then return_io (if qx_require_audit x then Inl audit_down else Inr ())
      else bind_io (try_io (write_io (\<lambda>st. Inr (append_event ev st) :: unit + query_store))) (\<lambda>out.
        return_io (if out = Some Done then Inr () else Inl audit_down)))"

text \<open>\<open>_ack_terminal_audit\<close>: a failure is left to the reconciliation worker.\<close>

definition ack_terminal :: "query_claim option \<Rightarrow> (query_store, unit) service" where
  "ack_terminal claim = (case claim of
     None \<Rightarrow> return_io ()
   | Some c \<Rightarrow> bind_io (try_io (ack_audit c)) (\<lambda>_. return_io ()))"

section \<open>The ways out of an execution\<close>

definition error_termination :: "athena_error \<Rightarrow> string option \<Rightarrow> termination_seen option" where
  "error_termination e eid = (case (or_else (ae_execution e) eid, ae_state e) of
     (Some i, Some s) \<Rightarrow> Some \<lparr>tm_execution = i, tm_state = s, tm_terminal = (s \<in> set TERMINAL_STATES), tm_scanned = ae_scanned e,
       tm_engine_ms = ae_engine_ms e, tm_cancel_requested = ae_cancel_requested e\<rparr>
   | _ \<Rightarrow> None)"

text \<open>\<open>None\<close> when the cancellation does not return; \<open>Inl ()\<close> when the task is cancelled in it.\<close>

definition cancel_observed ::
  "cancel_script \<Rightarrow> datasource \<Rightarrow> string \<Rightarrow> string \<Rightarrow> string option \<Rightarrow> termination_seen option \<Rightarrow> (unit + termination_seen option) option" where
  "cancel_observed cs ds tenant project eid observed =
     (if (case observed of None \<Rightarrow> False | Some t \<Rightarrow> tm_terminal t) then Some (Inr observed)
      else (case eid of
          None \<Rightarrow> Some (Inr observed)
        | Some i \<Rightarrow> (case cancel_query cs ds tenant project i of
            None \<Rightarrow> None
          | Some (Ok t) \<Rightarrow> Some (Inr (Some t))
          | Some Cancelled_out \<Rightarrow> Some (Inl ())
          | Some _ \<Rightarrow> Some (Inr observed))))"

text \<open>What a failed query is charged, and how that figure came about.\<close>

definition failure_accounting :: "int \<Rightarrow> string option \<Rightarrow> termination_seen option \<Rightarrow> bool \<Rightarrow> int \<times> string" where
  "failure_accounting reserved eid term may_have_started =
     (if eid = None then (if may_have_started then (reserved, ''reserved_fallback'') else (0, ''zero_before_start''))
      else (case term of
          Some t \<Rightarrow>
            if \<not> tm_terminal t then (reserved, ''reservation_held'')
            else (case tm_scanned t of
                None \<Rightarrow> (reserved, ''reserved_fallback'')
              | Some n \<Rightarrow> (min n reserved, if n \<le> reserved then ''actual'' else ''reservation_ceiling''))
        | None \<Rightarrow> (reserved, ''reservation_held'')))"

definition terminal_observed :: "string option \<Rightarrow> termination_seen option \<Rightarrow> bool" where
  "terminal_observed eid term \<longleftrightarrow> eid = None \<or> (case term of None \<Rightarrow> False | Some t \<Rightarrow> tm_terminal t)"

definition failure_audit ::
  "query_status \<Rightarrow> string \<Rightarrow> int \<Rightarrow> string option \<Rightarrow> termination_seen option \<Rightarrow> bool \<Rightarrow> terminal_audit" where
  "failure_audit status code reserved eid term may_have_started =
     \<lparr>ta_status = status, ta_failure = Some code, ta_execution = eid, ta_state = map_option tm_state term,
      ta_observed = Option.bind term tm_scanned, ta_accounted = fst (failure_accounting reserved eid term may_have_started),
      ta_engine_ms = Option.bind term tm_engine_ms,
      ta_cancel_requested = (case term of None \<Rightarrow> False | Some t \<Rightarrow> tm_cancel_requested t),
      ta_accounting = snd (failure_accounting reserved eid term may_have_started),
      ta_row_count = None, ta_truncated = None, ta_result_bytes = None\<rparr>"

text \<open>The record of a failed query; without a lease (no admission controller) nothing was reserved.\<close>

definition failure_event ::
  "query_subject \<Rightarrow> lease option \<Rightarrow> query_status \<Rightarrow> string \<Rightarrow> string option \<Rightarrow> termination_seen option \<Rightarrow> bool \<Rightarrow> bool \<Rightarrow> query_event" where
  "failure_event j l status code eid term may_have_started finalized =
     QueryResult \<lparr>qe_tenant = qj_tenant j, qe_project = qj_project j, qe_principal = qj_principal j, qe_request = qj_request j,
       qe_datasource = qj_datasource j, qe_sha = qj_sha j,
       qe_status = (if terminal_observed eid term \<or> l = None then status_text status else ''reconciliation_pending''),
       qe_failure = Some code, qe_execution = eid, qe_state = map_option tm_state term, qe_observed = Option.bind term tm_scanned,
       qe_accounted = map_option (\<lambda>x. fst (failure_accounting (le_reserved x) eid term may_have_started)) l,
       qe_engine_ms = Option.bind term tm_engine_ms,
       qe_cancel_requested = Some (case term of None \<Rightarrow> False | Some t \<Rightarrow> tm_cancel_requested t),
       qe_may_have_started = Some (may_have_started \<or> eid \<noteq> None),
       qe_accounting = Some (case l of None \<Rightarrow> ''not_reserved'' | Some x \<Rightarrow> snd (failure_accounting (le_reserved x) eid term may_have_started)),
       qe_finalized = Some finalized, qe_reconciled = Some False,
       qe_row_count = None, qe_truncated = None, qe_result_bytes = None\<rparr>"

text \<open>
  The settlement of a query that holds a lease, when its end was observed; \<open>a\<close> is the evidence. Then the record of the
  outcome, and the acknowledgement that it was written.
\<close>

definition settle_step ::
  "lease option \<Rightarrow> bool \<Rightarrow> (lease \<Rightarrow> terminal_audit) \<Rightarrow> string \<Rightarrow> int \<Rightarrow> (query_store, failure + query_claim option) service" where
  "settle_step l observed a hex now = (case l of
     None \<Rightarrow> return_io (Inr None)
   | Some y \<Rightarrow>
       if \<not> observed then return_io (Inr None)
       else if \<not> terminal_audit_valid (a y) then return_io (Inl Uncaught)
       else then_do (finalize y (a y) hex now) (\<lambda>c. return_io (Inr (Some c))))"

definition record_step :: "query_config \<Rightarrow> query_event \<Rightarrow> query_claim option \<Rightarrow> (query_store, failure + unit) service" where
  "record_step x ev claim = then_do (record_query x ev) (\<lambda>_. bind_io (ack_terminal claim) (\<lambda>_. return_io (Inr ())))"

text \<open>\<open>Inl (Http _ _)\<close> of the settlement is kept until the record is written; any other exception leaves at once.\<close>

definition finalize_and_record ::
  "query_config \<Rightarrow> query_subject \<Rightarrow> lease option \<Rightarrow> query_status \<Rightarrow> string \<Rightarrow> string option \<Rightarrow> termination_seen option \<Rightarrow> bool
     \<Rightarrow> string \<Rightarrow> int \<Rightarrow> (query_store, failure + unit) service" where
  "finalize_and_record x j l status code eid term may_have_started hex now =
     bind_io (settle_step l (terminal_observed eid term) (\<lambda>y. failure_audit status code (le_reserved y) eid term may_have_started) hex now)
       (\<lambda>r. (case r of
           Inl Uncaught \<Rightarrow> return_io (Inl Uncaught)
         | Inl (Http s c) \<Rightarrow>
             then_do (record_step x (failure_event j l status code eid term may_have_started (l = None)) None) (\<lambda>_. return_io (Inl (Http s c)))
         | Inr claim \<Rightarrow> record_step x (failure_event j l status code eid term may_have_started (l = None \<or> claim \<noteq> None)) claim))"

definition success_audit :: "athena_result \<Rightarrow> terminal_audit" where
  "success_audit r = \<lparr>ta_status = Succeeded, ta_failure = None, ta_execution = Some (ar_execution r), ta_state = Some ''SUCCEEDED'',
     ta_observed = Some (ar_scanned r), ta_accounted = ar_scanned r, ta_engine_ms = Some (ar_engine_ms r), ta_cancel_requested = False,
     ta_accounting = ''actual'', ta_row_count = Some (int (length (ar_rows r))), ta_truncated = Some (ar_truncated r),
     ta_result_bytes = Some (ar_bytes r)\<rparr>"

definition success_event :: "query_subject \<Rightarrow> athena_result \<Rightarrow> query_event" where
  "success_event j r = QueryResult \<lparr>qe_tenant = qj_tenant j, qe_project = qj_project j, qe_principal = qj_principal j, qe_request = qj_request j,
     qe_datasource = qj_datasource j, qe_sha = qj_sha j, qe_status = ''succeeded'', qe_failure = None, qe_execution = Some (ar_execution r),
     qe_state = None, qe_observed = Some (ar_scanned r), qe_accounted = None, qe_engine_ms = Some (ar_engine_ms r),
     qe_cancel_requested = None, qe_may_have_started = None, qe_accounting = None, qe_finalized = None, qe_reconciled = None,
     qe_row_count = Some (int (length (ar_rows r))), qe_truncated = Some (ar_truncated r), qe_result_bytes = Some (ar_bytes r)\<rparr>"


section \<open>The service\<close>

datatype lookup = Store_down | No_datasource | Datasource datasource

record query_call =
  qk_principal :: principal
  qk_tenant :: string
  qk_project :: string
  qk_datasource :: string
  qk_max_rows :: "int option"
  qk_request :: "string option"

text \<open>
  The answers of everything outside: the repository, the SQL policy (digest and number of tables of an accepted query),
  the digest of the raw text, the rate limit, the client, the clock in microseconds and random texts.
\<close>

record query_inputs =
  qi_lookup :: lookup
  qi_validated :: "(string \<times> int) option"
  qi_raw_sha :: string
  qi_backend :: shared_output
  qi_now :: int
  qi_later :: int
  qi_token :: string
  qi_hex :: string
  qi_athena :: athena_script
  qi_cancel :: cancel_script

datatype query_answer = Answer_rows athena_result | Refuse failure | Task_cancelled | No_return

definition identity_ok :: "string \<Rightarrow> bool" where
  "identity_ok v \<longleftrightarrow> v \<noteq> [] \<and> v = py_strip v \<and> length v \<le> 128 \<and> list_all (\<lambda>c. 32 \<le> (of_char c :: nat)) v"

definition request_id_of :: "query_call \<Rightarrow> query_inputs \<Rightarrow> string option" where
  "request_id_of k i = (case qk_request k of None \<Rightarrow> Some (''qry_'' @ qi_hex i) | Some v \<Rightarrow> if identity_ok v then Some v else None)"

definition query_resource :: "query_call \<Rightarrow> resource_ref" where
  "query_resource k = \<lparr>rr_type = ''datasource'', rr_id = qk_datasource k, rr_tenant = Some (qk_tenant k), rr_project = Some (qk_project k)\<rparr>"

text \<open>The checks before the SQL is looked at.\<close>

definition query_gate :: "query_config \<Rightarrow> query_call \<Rightarrow> query_inputs \<Rightarrow> failure + string \<times> datasource" where
  "query_gate x k i =
     (if \<not> list_all identity_ok [qk_tenant k, qk_project k, qk_datasource k] then Inl (Http 400 ''invalid_query_request'')
      else (case request_id_of k i of
          None \<Rightarrow> Inl (Http 400 ''invalid_request_id'')
        | Some request \<Rightarrow> (case require_authorized (qk_principal k) (Act QUERY_SELECT) (query_resource k) None of
            Inl d \<Rightarrow> Inl (Http (status_code d) (if ad_conceal d then ''resource_not_found'' else ''query_not_authorized''))
          | Inr _ \<Rightarrow> (case qi_lookup i of
              Store_down \<Rightarrow> Inl (Http 503 ''datasource_store_unavailable'')
            | No_datasource \<Rightarrow> Inl (Http 404 ''resource_not_found'')
            | Datasource ds \<Rightarrow>
                if \<not> ds_enabled ds then Inl (Http 403 ''datasource_disabled'')
                else if (qk_tenant k, qk_project k, ds_role ds) \<notin> set (qx_bindings x) then Inl (Http 503 ''datasource_binding_invalid'')
                else Inr (request, ds)))))"

definition subject_of :: "query_call \<Rightarrow> string \<Rightarrow> string \<Rightarrow> string \<Rightarrow> query_subject" where
  "subject_of k tenant request sha = \<lparr>qj_tenant = tenant, qj_project = qk_project k, qj_principal = pr_id (qk_principal k),
     qj_request = request, qj_datasource = qk_datasource k, qj_sha = sha\<rparr>"

text \<open>Admission, when the service has a controller. A refusal is recorded before it is answered.\<close>

definition admit_query ::
  "query_config \<Rightarrow> query_call \<Rightarrow> query_inputs \<Rightarrow> string \<Rightarrow> string \<Rightarrow> (query_store, failure + lease option) service" where
  "admit_query x k i request sha = (case qx_admission x of
     None \<Rightarrow> return_io (if qx_require_admission x then Inl unavailable else Inr None)
   | Some c \<Rightarrow> bind_io (acquire c (qi_backend i) (qi_now i) (qi_token i) (subject_of k (qk_tenant k) request sha)) (\<lambda>r. (case r of
         Inr l \<Rightarrow> return_io (Inr (Some l))
       | Inl Uncaught \<Rightarrow> return_io (Inl Uncaught)
       | Inl (Http status code) \<Rightarrow>
           then_do (record_query x (QueryRejected (subject_of k (pr_tenant (qk_principal k)) request sha) code)) (\<lambda>_.
             return_io (Inl (Http status code))))))"

definition athena_status :: "string \<Rightarrow> int" where
  "athena_status code = (case map_of [(''invalid_query_limit'', 400), (''athena_query_timeout'', 504), (''athena_query_failed'', 502),
     (''athena_query_cancelled'', 502), (''athena_scan_limit_exceeded'', 502), (''athena_start_failed'', 502),
     (''athena_status_failed'', 502), (''athena_results_failed'', 502)] code of None \<Rightarrow> 503 | Some n \<Rightarrow> n)"

text \<open>What becomes of the answer of the executor; \<open>eid\<close> is the execution id that was announced.\<close>

definition finish_failure ::
  "query_config \<Rightarrow> query_subject \<Rightarrow> query_inputs \<Rightarrow> lease option \<Rightarrow> query_status \<Rightarrow> string \<Rightarrow> string option \<Rightarrow> termination_seen option
     \<Rightarrow> bool \<Rightarrow> failure \<Rightarrow> (query_store, query_answer) service" where
  "finish_failure x j i l status code eid term may_have_started answer =
     bind_io (finalize_and_record x j l status code eid term may_have_started (qi_hex i) (qi_later i)) (\<lambda>r.
       return_io (Refuse (case r of Inl e \<Rightarrow> e | Inr _ \<Rightarrow> answer)))"

definition after_error ::
  "query_config \<Rightarrow> query_call \<Rightarrow> query_subject \<Rightarrow> query_inputs \<Rightarrow> datasource \<Rightarrow> lease option \<Rightarrow> string option \<Rightarrow> athena_error
     \<Rightarrow> (query_store, query_answer) service" where
  "after_error x k j i ds l eid e =
     (let resolved = or_else (ae_execution e) eid in
      case cancel_observed (qi_cancel i) ds (qk_tenant k) (qk_project k) resolved (error_termination e resolved) of
        None \<Rightarrow> return_io No_return
      | Some (Inl _) \<Rightarrow> return_io Task_cancelled
      | Some (Inr term) \<Rightarrow>
          finish_failure x j i l
            (if ae_code e = ''athena_query_cancelled'' \<or> (case term of None \<Rightarrow> False | Some t \<Rightarrow> tm_state t = ''CANCELLED'') then Cancelled else Failed)
            (ae_code e) resolved term (ae_may_have_started e) (Http (athena_status (ae_code e)) (ae_code e)))"

definition after_crash ::
  "query_config \<Rightarrow> query_call \<Rightarrow> query_subject \<Rightarrow> query_inputs \<Rightarrow> datasource \<Rightarrow> lease option \<Rightarrow> string option \<Rightarrow> (query_store, query_answer) service" where
  "after_crash x k j i ds l eid =
     (case cancel_observed (qi_cancel i) ds (qk_tenant k) (qk_project k) eid None of
        None \<Rightarrow> return_io No_return
      | Some (Inl _) \<Rightarrow> return_io Task_cancelled
      | Some (Inr term) \<Rightarrow>
          finish_failure x j i l Failed ''query_execution_unavailable'' eid term False (Http 503 ''query_execution_unavailable''))"

text \<open>After the task was cancelled the cleanup runs shielded; whatever it answers, the cancellation goes on.\<close>

definition after_cancellation ::
  "query_config \<Rightarrow> query_call \<Rightarrow> query_subject \<Rightarrow> query_inputs \<Rightarrow> datasource \<Rightarrow> lease option \<Rightarrow> string option \<Rightarrow> (query_store, query_answer) service" where
  "after_cancellation x k j i ds l eid =
     (case cancel_observed (qi_cancel i) ds (qk_tenant k) (qk_project k) eid None of
        None \<Rightarrow> return_io No_return
      | Some (Inl _) \<Rightarrow> return_io Task_cancelled
      | Some (Inr term) \<Rightarrow>
          bind_io (finish_failure x j i l Cancelled ''query_cancelled'' eid term False Uncaught) (\<lambda>_. return_io Task_cancelled))"

definition after_success ::
  "query_config \<Rightarrow> query_subject \<Rightarrow> query_inputs \<Rightarrow> lease option \<Rightarrow> athena_result \<Rightarrow> (query_store, query_answer) service" where
  "after_success x j i l r =
     bind_io (then_do (settle_step l True (\<lambda>_. success_audit r) (qi_hex i) (qi_later i)) (record_step x (success_event j r)))
       (\<lambda>s. return_io (case s of Inl e \<Rightarrow> Refuse e | Inr _ \<Rightarrow> Answer_rows r))"

definition run_query ::
  "query_config \<Rightarrow> query_call \<Rightarrow> query_inputs \<Rightarrow> datasource \<Rightarrow> query_subject \<Rightarrow> lease option \<Rightarrow> (query_store, query_answer) service" where
  "run_query x k i ds j l =
     bind_io (execute_query (qx_athena x) (qi_athena i) ds (qk_tenant k) (qk_project k) (qk_max_rows k)
         (\<lambda>eid. (case l of None \<Rightarrow> return_io () | Some y \<Rightarrow> mark_started y eid)))
       (\<lambda>(r, eid). (case r of
           None \<Rightarrow> return_io No_return
         | Some (Ok result) \<Rightarrow> after_success x j i l result
         | Some (Err e) \<Rightarrow> after_error x k j i ds l eid e
         | Some Crashed \<Rightarrow> after_crash x k j i ds l eid
         | Some Cancelled_out \<Rightarrow> after_cancellation x k j i ds l eid))"

text \<open>An exception is the answer; otherwise the call goes on.\<close>

definition or_refuse :: "(query_store, failure + 'a) service \<Rightarrow> ('a \<Rightarrow> (query_store, query_answer) service) \<Rightarrow> (query_store, query_answer) service" where
  "or_refuse m f = bind_io m (\<lambda>r. (case r of Inl e \<Rightarrow> return_io (Refuse e) | Inr y \<Rightarrow> f y))"

definition execute_select :: "query_config \<Rightarrow> query_call \<Rightarrow> query_inputs \<Rightarrow> (query_store, query_answer) service" where
  "execute_select x k i = (case query_gate x k i of
     Inl e \<Rightarrow> return_io (Refuse e)
   | Inr (request, ds) \<Rightarrow>
       let subject = subject_of k (pr_tenant (qk_principal k)) request in
       (case qi_validated i of
          None \<Rightarrow> or_refuse (record_query x (QueryRejected (subject (qi_raw_sha i)) ''query_policy_rejected''))
            (\<lambda>_. return_io (Refuse (Http 400 ''query_policy_rejected'')))
        | Some (sha, tables) \<Rightarrow>
            or_refuse (record_query x (QueryRequest (subject sha) tables (qk_max_rows k))) (\<lambda>_.
            or_refuse (admit_query x k i request sha) (\<lambda>l.
            run_query x k i ds (subject sha) l))))"

end
