(* ===== verification/QueryFleet.thy ===== *)
theory QueryFleet
  imports QueryStore
begin

text \<open>
  The query table as a state machine: the atomic steps that any instance or worker takes, and the invariant of every
  table they reach. \<open>T\<close> is the latest reading of any clock at a reservation, \<open>C\<close> and \<open>L\<close> the concurrency and the
  scan limit of the deployment per scope.
\<close>

section \<open>Rows and sums\<close>

lemma row_put: "row_at k' (put_row k r st) = (if k' = k then Some r else row_at k' st)"
  by (simp add: row_at_def put_row_def update_conv')

lemma put_row_fields [simp]:
  "qs_slots (put_row k r st) = qs_slots st" "qs_scans (put_row k r st) = qs_scans st" "qs_log (put_row k r st) = qs_log st"
  by (simp_all add: put_row_def)

lemma put_slot_fields [simp]:
  "qs_rows (put_slot l s st) = qs_rows st" "qs_scans (put_slot l s st) = qs_scans st" "qs_log (put_slot l s st) = qs_log st"
  by (simp_all add: put_slot_def)

lemma add_scan_fields [simp]:
  "qs_rows (add_scan n l s st) = qs_rows st" "qs_slots (add_scan n l s st) = qs_slots st" "qs_log (add_scan n l s st) = qs_log st"
  by (simp_all add: add_scan_def)

lemma free_slot_fields [simp]:
  "qs_rows (free_slot l s st) = qs_rows st" "qs_scans (free_slot l s st) = qs_scans st" "qs_log (free_slot l s st) = qs_log st"
  by (simp_all add: free_slot_def)

lemma fold_keeps: "(\<And>x st. f (g x st) = f st) \<Longrightarrow> f (fold g xs st) = f st"
  by (induction xs arbitrary: st) simp_all

lemma fold_fields [simp]:
  "qs_rows (fold (put_slot l) ss st) = qs_rows st" "qs_scans (fold (put_slot l) ss st) = qs_scans st"
  "qs_log (fold (put_slot l) ss st) = qs_log st"
  "qs_rows (fold (add_scan n l) ss st) = qs_rows st" "qs_slots (fold (add_scan n l) ss st) = qs_slots st"
  "qs_log (fold (add_scan n l) ss st) = qs_log st"
  "qs_rows (fold (free_slot l) ss st) = qs_rows st" "qs_scans (fold (free_slot l) ss st) = qs_scans st"
  "qs_log (fold (free_slot l) ss st) = qs_log st"
  by (rule fold_keeps, simp)+

lemma query_scopes_keys:
  "distinct (query_scopes l)"
  "query_slot_key l s = query_slot_key l' s' \<Longrightarrow> s = s'"
  "scan_counter_key l s = scan_counter_key l' s' \<Longrightarrow> s = s'"
  by (auto simp: query_scopes_def query_slot_key_def scan_counter_key_def scope.expand)

lemma slots_put:
  "qs_slots (fold (put_slot l) ss st) key = (if key \<in> query_slot_key l ` set ss then Some (slot_row_of l) else qs_slots st key)"
  by (induction ss arbitrary: st) (auto simp: put_slot_def)

lemma slots_freed:
  "qs_slots (fold (free_slot l) ss st) key = (if key \<in> query_slot_key l ` set ss then None else qs_slots st key)"
  by (induction ss arbitrary: st) (auto simp: free_slot_def)

definition scanned :: "query_store \<Rightarrow> scope_key \<Rightarrow> int" where
  "scanned st key = (case qs_scans st key of None \<Rightarrow> 0 | Some v \<Rightarrow> v)"

lemma scans_added:
  assumes "distinct ss"
  shows "qs_scans (fold (add_scan n l) ss st) key =
    (if key \<in> scan_counter_key l ` set ss then Some (scanned st key + n) else qs_scans st key)"
  using assms
proof (induction ss arbitrary: st)
  case (Cons s ss)
  have "scan_counter_key l s \<notin> scan_counter_key l ` set ss" using Cons.prems query_scopes_keys(3) by fastforce
  with Cons show ?case by (auto simp: add_scan_def scanned_def split: option.split)
qed simp

text \<open>What a row contributes to a counter.\<close>

definition charge :: "lifecycle \<Rightarrow> int" where
  "charge r = (case lc_actual r of None \<Rightarrow> le_reserved (lc_lease r) | Some n \<Rightarrow> n)"

definition counts_at :: "scope_key \<Rightarrow> lifecycle \<Rightarrow> bool" where
  "counts_at key r \<longleftrightarrow> key \<in> scan_counter_key (lc_lease r) ` set (query_scopes (lc_lease r))"

definition charge_at :: "scope_key \<Rightarrow> lifecycle \<Rightarrow> int" where
  "charge_at key r = (if counts_at key r then charge r else 0)"

definition charges :: "query_store \<Rightarrow> scope_key \<Rightarrow> int" where
  "charges st key = (\<Sum>(_, r)\<leftarrow>qs_rows st. charge_at key r)"

lemma sum_update:
  fixes f :: "'v \<Rightarrow> int"
  assumes "distinct (map fst xs)"
  shows "(\<Sum>(_, r)\<leftarrow>AList.update k r' xs. f r) =
    (\<Sum>(_, r)\<leftarrow>xs. f r) + f r' - (case map_of xs k of None \<Rightarrow> 0 | Some r \<Rightarrow> f r)"
  using assms
proof (induction xs)
  case (Cons x xs)
  have "map_of xs k = None" if "k = fst x" using Cons.prems that by (auto simp: map_of_eq_None_iff)
  with Cons show ?case by (cases x) auto
qed simp

lemma charges_put:
  assumes "distinct (map fst (qs_rows st))"
  shows "charges (put_row k r st) key =
    charges st key + charge_at key r - (case row_at k st of None \<Rightarrow> 0 | Some r \<Rightarrow> charge_at key r)"
  using sum_update [OF assms, of "charge_at key" k r] by (simp add: charges_def put_row_def row_at_def)

lemma charges_cong: "qs_rows st = qs_rows st' \<Longrightarrow> charges st = charges st'"
  by (simp add: charges_def fun_eq_iff)

section \<open>The invariant\<close>

definition row_typed :: "lifecycle \<Rightarrow> bool" where
  "row_typed r \<longleftrightarrow> lease_readable (lc_lease r)
     \<and> (lc_status r = Accepted \<longrightarrow> lc_execution r = None)
     \<and> (lc_status r = Running \<longrightarrow> (\<exists>e. lc_execution r = Some e \<and> e \<noteq> []))
     \<and> (if active (lc_status r) then lc_actual r = None \<and> \<not> lc_pending r \<and> lc_audit r = None
        else (case lc_audit r of None \<Rightarrow> False | Some a \<Rightarrow> terminal_audit_valid a \<and> ta_status a = lc_status r
            \<and> ta_execution a = lc_execution r \<and> ta_accounted a \<le> le_reserved (lc_lease r) \<and> lc_actual r = Some (ta_accounted a)))"

definition rows_ok :: "query_store \<Rightarrow> bool" where
  "rows_ok st \<longleftrightarrow> distinct (map fst (qs_rows st))
     \<and> (\<forall>k r. row_at k st = Some r \<longrightarrow> lease_key (lc_lease r) = k \<and> row_typed r)
     \<and> (\<forall>k r k' r'. row_at k st = Some r \<longrightarrow> row_at k' st = Some r' \<longrightarrow> le_token (lc_lease r) = le_token (lc_lease r') \<longrightarrow> k = k')"

definition slots_ok :: "int \<Rightarrow> (string \<Rightarrow> int) \<Rightarrow> query_store \<Rightarrow> bool" where
  "slots_ok T C st \<longleftrightarrow> (\<forall>k r. row_at k st = Some r \<longrightarrow> (\<forall>s \<in> set (query_scopes (lc_lease r)).
     0 \<le> slot_of (lc_lease r) (scope_kind s) \<and> slot_of (lc_lease r) (scope_kind s) < C (scope_kind s)
     \<and> (active (lc_status r) \<longrightarrow> T \<le> le_expires (lc_lease r)
          \<longrightarrow> qs_slots st (query_slot_key (lc_lease r) s) = Some (slot_row_of (lc_lease r)))))"

definition scans_ok :: "(string \<Rightarrow> int) \<Rightarrow> query_store \<Rightarrow> bool" where
  "scans_ok L st \<longleftrightarrow> (\<forall>key. scanned st key = charges st key)
     \<and> (\<forall>t s w. qs_scans st (ScopeKey t s w) \<noteq> None \<longrightarrow> scanned st (ScopeKey t s w) \<le> L (scope_kind s))
     \<and> (\<forall>k r. row_at k st = Some r \<longrightarrow> (\<forall>s \<in> set (query_scopes (lc_lease r)). qs_scans st (scan_counter_key (lc_lease r) s) \<noteq> None))"

definition evidence_ok :: "query_store \<Rightarrow> bool" where
  "evidence_ok st \<longleftrightarrow> (\<forall>k r a. row_at k st = Some r \<longrightarrow> \<not> active (lc_status r) \<longrightarrow> \<not> lc_pending r \<longrightarrow> lc_audit r = Some a
     \<longrightarrow> (\<exists>ev \<in> set (qs_log st). tells (lc_lease r) a ev))"

definition fleet_ok :: "int \<Rightarrow> (string \<Rightarrow> int) \<Rightarrow> (string \<Rightarrow> int) \<Rightarrow> query_store \<Rightarrow> bool" where
  "fleet_ok T C L st \<longleftrightarrow> rows_ok st \<and> slots_ok T C st \<and> scans_ok L st \<and> evidence_ok st"

section \<open>Steps\<close>

text \<open>The caller's lease is the one the row was written with, if the row has its token.\<close>

definition lease_current :: "lease \<Rightarrow> query_store \<Rightarrow> bool" where
  "lease_current l st \<longleftrightarrow> (\<forall>r. row_at (lease_key l) st = Some r \<longrightarrow> holds_token l r \<longrightarrow> lc_lease r = l)"

definition fresh_token :: "string \<Rightarrow> query_store \<Rightarrow> bool" where
  "fresh_token tok st \<longleftrightarrow> (\<forall>k r. row_at k st = Some r \<longrightarrow> le_token (lc_lease r) \<noteq> tok)"

definition request_ok :: "int \<Rightarrow> (string \<Rightarrow> int) \<Rightarrow> (string \<Rightarrow> int) \<Rightarrow> capacity_request \<Rightarrow> bool" where
  "request_ok T C L q \<longleftrightarrow> lease_readable (cq_lease q) \<and> cq_now q \<le> T
     \<and> (\<forall>s \<in> set (query_scopes (cq_lease q)). 0 \<le> slot_of (cq_lease q) (scope_kind s) \<and> slot_of (cq_lease q) (scope_kind s) < C (scope_kind s)
          \<and> le_reserved (cq_lease q) \<le> scan_limit_of q (scope_kind s) \<and> scan_limit_of q (scope_kind s) \<le> L (scope_kind s))"

inductive fleet_step :: "int \<Rightarrow> (string \<Rightarrow> int) \<Rightarrow> (string \<Rightarrow> int) \<Rightarrow> query_store \<Rightarrow> query_store \<Rightarrow> bool" for T C L where
  Reserve: "request_ok T C L q \<Longrightarrow> fresh_token (le_token (cq_lease q)) st \<Longrightarrow> txn_reserve_query q st = Inr st'
     \<Longrightarrow> fleet_step T C L st st'"
| Start: "execution \<noteq> [] \<Longrightarrow> txn_mark_started l execution st = Inr st' \<Longrightarrow> fleet_step T C L st st'"
| ServiceSettle: "lease_current l st \<Longrightarrow> terminal_audit_valid a \<Longrightarrow> ta_accounted a \<le> le_reserved l
     \<Longrightarrow> (\<And>r. row_at (lease_key l) st = Some r \<Longrightarrow> ta_execution a = None \<Longrightarrow> lc_execution r = None)
     \<Longrightarrow> refund = le_reserved l - ta_accounted a \<Longrightarrow> refunds = (if refund = 0 then [] else query_scopes l)
     \<Longrightarrow> set slots \<subseteq> set (query_scopes l)
     \<Longrightarrow> txn_settle l (service_settles l) (service_settled a ct ce) refund refunds slots st = Inr st' \<Longrightarrow> fleet_step T C L st st'"
| WorkerSettle: "lease_current l st \<Longrightarrow> terminal_audit_valid a \<Longrightarrow> ta_accounted a \<le> le_reserved l \<Longrightarrow> active status
     \<Longrightarrow> refund = le_reserved l - ta_accounted a \<Longrightarrow> refunds = (if refund = 0 then [] else query_scopes l)
     \<Longrightarrow> set slots \<subseteq> set (query_scopes l)
     \<Longrightarrow> txn_settle l (worker_settles l ct status) (worker_settled a) refund refunds slots st = Inr st' \<Longrightarrow> fleet_step T C L st st'"
| Claim: "txn_claim l status tok owner now expires st = Inr st' \<Longrightarrow> fleet_step T C L st st'"
| Defer: "active status \<Longrightarrow> txn_defer l tok status st = Inr st' \<Longrightarrow> fleet_step T C L st st'"
| Record: "fleet_step T C L st (append_event e st)"
| Expire: "qs_slots st key = Some s \<Longrightarrow> sl_expires s < T \<Longrightarrow> fleet_step T C L st (st\<lparr>qs_slots := (qs_slots st)(key := None)\<rparr>)"
| Acknowledge: "\<not> active (ta_status a) \<Longrightarrow> lease_current l st \<Longrightarrow> (\<exists>ev \<in> set (qs_log st). tells l a ev)
     \<Longrightarrow> txn_acknowledge l tok a st = Inr st' \<Longrightarrow> fleet_step T C L st st'"

section \<open>Every step keeps the invariant\<close>

lemma charge_at_cong: "lc_lease r' = lc_lease r \<Longrightarrow> charge r' = charge r \<Longrightarrow> charge_at key r' = charge_at key r"
  by (simp add: charge_at_def counts_at_def)

lemma rows_put:
  assumes "rows_ok st" "row_at k st = Some r" "lc_lease r' = lc_lease r" "row_typed r'"
  shows "rows_ok (put_row k r' st)"
proof -
  have "distinct (map fst (qs_rows (put_row k r' st)))"
    using assms(1) by (simp add: rows_ok_def put_row_def distinct_update)
  then show ?thesis using assms unfolding rows_ok_def row_put by (auto split: if_splits)
qed

text \<open>An update of one row that keeps its lease and its charge.\<close>

lemma row_update_ok:
  assumes ok: "fleet_ok T C L st" and r: "row_at k st = Some r" and l: "lc_lease r' = lc_lease r" and typed: "row_typed r'"
    and charge: "charge r' = charge r" and act: "active (lc_status r') \<Longrightarrow> active (lc_status r)"
    and ev: "\<And>a. \<not> active (lc_status r') \<Longrightarrow> \<not> lc_pending r' \<Longrightarrow> lc_audit r' = Some a \<Longrightarrow> \<exists>ev \<in> set (qs_log st). tells (lc_lease r) a ev"
  shows "fleet_ok T C L (put_row k r' st)"
proof -
  have rows: "rows_ok st" and slots: "slots_ok T C st" and scans: "scans_ok L st" and evid: "evidence_ok st"
    using ok by (simp_all add: fleet_ok_def)
  have "charges (put_row k r' st) key = charges st key" for key
    using charges_put [of st k r' key] rows r charge_at_cong [OF l charge] by (simp add: rows_ok_def)
  then have "scans_ok L (put_row k r' st)"
    using scans r l unfolding scans_ok_def scanned_def row_put by (auto split: if_splits)
  moreover have "slots_ok T C (put_row k r' st)"
    using slots r l act unfolding slots_ok_def row_put by (auto split: if_splits)
  moreover have "evidence_ok (put_row k r' st)"
    using evid ev l unfolding evidence_ok_def row_put by (auto split: if_splits)
  ultimately show ?thesis using rows_put [OF rows r l typed] by (simp add: fleet_ok_def)
qed

lemma update_query_row_Inr:
  assumes "update_query_row k cond f st = Inr st'"
  obtains r where "row_at k st = Some r" "cond r" "st' = put_row k (f r) st"
  using assms by (auto simp: update_query_row_def split: option.splits if_splits)

lemma fleet_row: "fleet_ok T C L st \<Longrightarrow> row_at k st = Some r \<Longrightarrow> lease_key (lc_lease r) = k \<and> row_typed r"
  by (simp add: fleet_ok_def rows_ok_def)

lemma fleet_evidence:
  "fleet_ok T C L st \<Longrightarrow> row_at k st = Some r \<Longrightarrow> \<not> active (lc_status r) \<Longrightarrow> \<not> lc_pending r \<Longrightarrow> lc_audit r = Some a
     \<Longrightarrow> \<exists>ev \<in> set (qs_log st). tells (lc_lease r) a ev"
  by (simp add: fleet_ok_def evidence_ok_def)

lemma start_ok:
  assumes "fleet_ok T C L st" "execution \<noteq> []" "txn_mark_started l execution st = Inr st'"
  shows "fleet_ok T C L st'"
proof -
  from assms(3) obtain r where r: "row_at (lease_key l) st = Some r" "lc_status r = Accepted \<or> lc_status r = Running"
    and st': "st' = put_row (lease_key l) (r\<lparr>lc_status := Running, lc_execution := Some execution\<rparr>) st"
    unfolding txn_mark_started_def by (rule update_query_row_Inr) auto
  show ?thesis unfolding st'
    by (rule row_update_ok [OF assms(1) r(1)])
      (use fleet_row [OF assms(1) r(1)] r(2) assms(2) in \<open>auto simp: row_typed_def active_def charge_def\<close>)
qed

text \<open>Claiming, deferring and releasing only touch the claim of a row.\<close>

lemma claim_fields_ok:
  assumes "fleet_ok T C L st" "row_at k st = Some r"
    and same: "lc_lease r' = lc_lease r" "lc_status r' = lc_status r" "lc_execution r' = lc_execution r"
      "lc_actual r' = lc_actual r" "lc_pending r' = lc_pending r" "lc_audit r' = lc_audit r"
  shows "fleet_ok T C L (put_row k r' st)"
proof (rule row_update_ok [OF assms(1,2)])
  have "row_typed r' \<longleftrightarrow> row_typed r" unfolding row_typed_def same ..
  then show "row_typed r'" using fleet_row [OF assms(1,2)] by blast
qed (use fleet_evidence [OF assms(1,2)] same in \<open>simp_all add: charge_def split: option.split\<close>)

lemma claim_step_ok:
  assumes "fleet_ok T C L st" "txn_claim l status tok owner now expires st = Inr st'"
  shows "fleet_ok T C L st'"
  using assms(2) unfolding txn_claim_def
  by (rule update_query_row_Inr) (simp add: claim_fields_ok [OF assms(1)] claimed_def)

lemma defer_ok:
  assumes "fleet_ok T C L st" "txn_defer l tok status st = Inr st'"
  shows "fleet_ok T C L st'"
  using assms(2) unfolding txn_defer_def
  by (rule update_query_row_Inr) (simp add: claim_fields_ok [OF assms(1)] unclaim_def)

lemma acknowledge_ok:
  assumes "fleet_ok T C L st" "\<not> active (ta_status a)" "lease_current l st" "\<exists>ev \<in> set (qs_log st). tells l a ev"
    "txn_acknowledge l tok a st = Inr st'"
  shows "fleet_ok T C L st'"
proof -
  from assms(5) obtain r where r: "row_at (lease_key l) st = Some r" "holds_token l r" "lc_status r = ta_status a"
      "lc_audit r = Some a"
    and st': "st' = put_row (lease_key l) ((unclaim r)\<lparr>lc_pending := False, lc_acked := Some tok\<rparr>) st"
    unfolding txn_acknowledge_def by (rule update_query_row_Inr) (auto simp: worker_settles_def)
  have "lc_lease r = l" using assms(3) r by (auto simp: lease_current_def)
  then show ?thesis unfolding st'
    by (intro row_update_ok [OF assms(1) r(1)])
      (use fleet_row [OF assms(1) r(1)] r assms(2,4) in \<open>auto simp: row_typed_def charge_def unclaim_def\<close>)
qed

lemma record_ok: "fleet_ok T C L st \<Longrightarrow> fleet_ok T C L (append_event e st)"
  by (auto simp: fleet_ok_def rows_ok_def slots_ok_def scans_ok_def evidence_ok_def row_at_def scanned_def charges_def append_event_def)


text \<open>A new row with its slots and its reservation.\<close>

lemma expire_ok:
  assumes "fleet_ok T C L st" "qs_slots st key = Some s" "sl_expires s < T"
  shows "fleet_ok T C L (st\<lparr>qs_slots := (qs_slots st)(key := None)\<rparr>)" (is "fleet_ok T C L ?st")
proof -
  have same: "row_at k ?st = row_at k st" "scanned ?st key' = scanned st key'" "charges ?st = charges st" "qs_scans ?st = qs_scans st"
    "qs_rows ?st = qs_rows st" "qs_log ?st = qs_log st" for k key'
    by (simp_all add: row_at_def scanned_def charges_def fun_eq_iff)
  have "rows_ok st" "slots_ok T C st" "scans_ok L st" "evidence_ok st" using assms(1) by (simp_all add: fleet_ok_def)
  moreover from this have "slots_ok T C ?st"
    unfolding slots_ok_def same using assms(2,3) by (auto simp: slot_row_of_def)
  ultimately show ?thesis unfolding fleet_ok_def rows_ok_def scans_ok_def evidence_ok_def same by blast
qed

lemma admit_fields:
  "row_at k (admit l st) = (if k = lease_key l then Some (new_lifecycle l) else row_at k st)"
  "qs_slots (admit l st) key = (if key \<in> query_slot_key l ` set (query_scopes l) then Some (slot_row_of l) else qs_slots st key)"
  "qs_scans (admit l st) key =
     (if key \<in> scan_counter_key l ` set (query_scopes l) then Some (scanned st key + le_reserved l) else qs_scans st key)"
  "qs_log (admit l st) = qs_log st"
  "qs_rows (admit l st) = AList.update (lease_key l) (new_lifecycle l) (qs_rows st)"
  by (simp_all add: admit_def row_at_def slots_put scans_added query_scopes_keys(1) scanned_def put_row_def update_conv')

lemma query_scopes_iff: "s \<in> set (query_scopes l) \<longleftrightarrow> s = Scope ''project'' (le_project l) \<or> s = Scope ''principal'' (le_principal l)"
  by (auto simp: query_scopes_def)

lemma reserve_Inr:
  assumes "txn_reserve_query q st = Inr st'"
  shows "row_at (lease_key (cq_lease q)) st = None" "st' = admit (cq_lease q) st"
    "s \<in> set (query_scopes (cq_lease q)) \<Longrightarrow> slot_free (cq_now q) (qs_slots st (query_slot_key (cq_lease q) s))"
    "s \<in> set (query_scopes (cq_lease q))
       \<Longrightarrow> scan_fits (scan_limit_of q (scope_kind s) - le_reserved (cq_lease q)) (qs_scans st (scan_counter_key (cq_lease q) s))"
  using assms by (auto simp: txn_reserve_query_def when_all_Inr reserve_conditions_def Let_def query_scopes_def)

lemma reserve_ok:
  assumes ok: "fleet_ok T C L st" and q: "request_ok T C L q" "fresh_token (le_token (cq_lease q)) st"
    and txn: "txn_reserve_query q st = Inr st'"
  shows "fleet_ok T C L st'"
proof -
  let ?l = "cq_lease q"
  note c = reserve_Inr [OF txn]
  have rows: "rows_ok st" and slots: "slots_ok T C st" and scans: "scans_ok L st" and evid: "evidence_ok st"
    using ok by (simp_all add: fleet_ok_def)
  have new: "row_typed (new_lifecycle ?l)" "lc_lease (new_lifecycle ?l) = ?l"
    using q(1) by (simp_all add: row_typed_def new_lifecycle_def active_def request_ok_def)
  have "rows_ok st'"
  proof -
    have "distinct (map fst (qs_rows st'))" using rows by (simp add: c(2) rows_ok_def admit_fields distinct_update)
    moreover have "lease_key (lc_lease r) = k \<and> row_typed r" if "row_at k st' = Some r" for k r
      using that rows new unfolding c(2) admit_fields rows_ok_def by (auto split: if_splits)
    moreover have "k = k'" if "row_at k st' = Some r" "row_at k' st' = Some r'" "le_token (lc_lease r) = le_token (lc_lease r')"
      for k r k' r'
      using that rows q(2) new(2) unfolding c(2) admit_fields rows_ok_def fresh_token_def by (metis option.inject)
    ultimately show ?thesis unfolding rows_ok_def by blast
  qed
  moreover have "slots_ok T C st'"
  proof (unfold slots_ok_def, intro allI impI ballI)
    fix k r s assume r: "row_at k st' = Some r" and s: "s \<in> set (query_scopes (lc_lease r))"
    show "0 \<le> slot_of (lc_lease r) (scope_kind s) \<and> slot_of (lc_lease r) (scope_kind s) < C (scope_kind s)
       \<and> (active (lc_status r) \<longrightarrow> T \<le> le_expires (lc_lease r)
            \<longrightarrow> qs_slots st' (query_slot_key (lc_lease r) s) = Some (slot_row_of (lc_lease r)))"
    proof (cases "k = lease_key ?l")
      case True
      then have r: "lc_lease r = ?l" using r new(2) by (simp add: c(2) admit_fields)
      with s q(1) show ?thesis by (simp add: c(2) admit_fields request_ok_def)
    next
      case False
      then have r: "row_at k st = Some r" using r by (simp add: c(2) admit_fields)
      have old: "0 \<le> slot_of (lc_lease r) (scope_kind s)" "slot_of (lc_lease r) (scope_kind s) < C (scope_kind s)"
        "active (lc_status r) \<Longrightarrow> T \<le> le_expires (lc_lease r)
           \<Longrightarrow> qs_slots st (query_slot_key (lc_lease r) s) = Some (slot_row_of (lc_lease r))"
        using slots r s unfolding slots_ok_def by blast+
      have "query_slot_key (lc_lease r) s \<notin> query_slot_key ?l ` set (query_scopes ?l)"
        if a: "active (lc_status r)" "T \<le> le_expires (lc_lease r)"
      proof
        assume "query_slot_key (lc_lease r) s \<in> query_slot_key ?l ` set (query_scopes ?l)"
        then obtain s' where s': "s' \<in> set (query_scopes ?l)" "query_slot_key (lc_lease r) s = query_slot_key ?l s'" by blast
        with c(3) [OF s'(1)] old(3) [OF a] have "le_expires (lc_lease r) < cq_now q" by (simp add: slot_free_def slot_row_of_def)
        with a(2) q(1) show False by (simp add: request_ok_def)
      qed
      with old show ?thesis unfolding c(2) admit_fields by simp
    qed
  qed
  moreover have "scans_ok L st'"
  proof -
    have at: "charge_at key (new_lifecycle ?l) = (if key \<in> scan_counter_key ?l ` set (query_scopes ?l) then le_reserved ?l else 0)" for key
      by (simp add: charge_at_def counts_at_def charge_def new_lifecycle_def)
    have ch: "charges st' key = charges st key + charge_at key (new_lifecycle ?l)" for key
    proof -
      have "charges st' = charges (put_row (lease_key ?l) (new_lifecycle ?l) st)"
        by (rule charges_cong) (simp add: c(2) admit_fields put_row_def)
      then show ?thesis using charges_put [of st "lease_key ?l" "new_lifecycle ?l" key] rows c(1) by (simp add: rows_ok_def)
    qed
    have sum: "scanned st' key = charges st' key" for key
    proof -
      have "scanned st key = charges st key" using scans by (simp add: scans_ok_def)
      then show ?thesis by (simp add: ch at) (simp add: scanned_def c(2) admit_fields)
    qed
    have bound: "scanned st' (ScopeKey t s w) \<le> L (scope_kind s)" if "qs_scans st' (ScopeKey t s w) \<noteq> None" for t s w
    proof (cases "ScopeKey t s w \<in> scan_counter_key ?l ` set (query_scopes ?l)")
      case True
      then have s: "s \<in> set (query_scopes ?l)" "ScopeKey t s w = scan_counter_key ?l s" by (auto simp: scan_counter_key_def)
      have "scanned st (ScopeKey t s w) + le_reserved ?l \<le> L (scope_kind s)"
        using c(4) [OF s(1)] q(1) s by (auto simp: scan_fits_def scanned_def request_ok_def split: option.splits)
      with True show ?thesis by (simp add: c(2) scanned_def admit_fields)
    next
      case False
      then have same: "qs_scans st' (ScopeKey t s w) = qs_scans st (ScopeKey t s w)" by (simp add: c(2) admit_fields)
      with that scans have "scanned st (ScopeKey t s w) \<le> L (scope_kind s)" unfolding scans_ok_def by metis
      with same show ?thesis by (simp add: scanned_def)
    qed
    have "qs_scans st' (scan_counter_key (lc_lease r) s) \<noteq> None" if "row_at k st' = Some r" "s \<in> set (query_scopes (lc_lease r))" for k r s
      using that scans new(2) unfolding c(2) admit_fields scans_ok_def by (auto split: if_splits)
    with sum bound show ?thesis unfolding scans_ok_def by blast
  qed
  moreover have "evidence_ok st'"
    using evid unfolding evidence_ok_def c(2) admit_fields by (auto simp: new_lifecycle_def active_def)
  ultimately show ?thesis by (simp add: fleet_ok_def)
qed


text \<open>A settled row with its refunds and its slots given back.\<close>

lemma settle_Inr:
  assumes "txn_settle l cond f refund refunds slots st = Inr st'"
  obtains r where "row_at (lease_key l) st = Some r" "cond r"
    "st' = fold (free_slot l) slots (fold (add_scan (- refund) l) refunds (put_row (lease_key l) (f r) st))"
    "\<And>s. s \<in> set slots \<Longrightarrow> slot_owned l (qs_slots st (query_slot_key l s))"
    "\<And>s. s \<in> set refunds \<Longrightarrow> can_refund refund (qs_scans st (scan_counter_key l s))"
proof -
  have c: "list_all id (settle_conditions l cond refund refunds slots st)"
    "st' = apply_settle l f refund refunds slots st"
    using assms by (simp_all add: txn_settle_def when_all_Inr)
  obtain r where r: "row_at (lease_key l) st = Some r" "cond r"
    using c(1) by (auto simp: settle_conditions_def split: option.splits)
  show thesis
    by (rule that [OF r]) (use c r in \<open>auto simp: settle_conditions_def apply_settle_def list_all_iff\<close>)
qed

lemma settle_ok:
  assumes ok: "fleet_ok T C L st" and l: "lease_current l st"
    and refund: "refund = le_reserved l - ta_accounted a" "refunds = (if refund = 0 then [] else query_scopes l)"
      "ta_accounted a \<le> le_reserved l"
    and cond: "\<And>r. cond r \<Longrightarrow> holds_token l r \<and> active (lc_status r)"
    and f: "\<And>r. row_at (lease_key l) st = Some r \<Longrightarrow> cond r \<Longrightarrow> lc_lease r = l \<Longrightarrow> row_typed r
        \<Longrightarrow> row_typed (f r) \<and> lc_lease (f r) = l \<and> lc_actual (f r) = Some (ta_accounted a) \<and> lc_pending (f r) \<and> \<not> active (lc_status (f r))"
    and txn: "txn_settle l cond f refund refunds slots st = Inr st'"
  shows "fleet_ok T C L st'"
proof -
  obtain r where r: "row_at (lease_key l) st = Some r" "cond r"
    and st': "st' = fold (free_slot l) slots (fold (add_scan (- refund) l) refunds (put_row (lease_key l) (f r) st))"
    and owned: "\<And>s. s \<in> set slots \<Longrightarrow> slot_owned l (qs_slots st (query_slot_key l s))"
    and can: "\<And>s. s \<in> set refunds \<Longrightarrow> can_refund refund (qs_scans st (scan_counter_key l s))"
    using settle_Inr [OF txn] by metis
  have rows: "rows_ok st" and slots: "slots_ok T C st" and scans: "scans_ok L st" and evid: "evidence_ok st"
    using ok by (simp_all add: fleet_ok_def)
  have lr: "lc_lease r = l" using l r cond by (simp add: lease_current_def)
  have typed: "row_typed r" using fleet_row [OF ok r(1)] by simp
  note new = f [OF r lr typed]
  have at: "row_at k st' = (if k = lease_key l then Some (f r) else row_at k st)" for k
    by (simp add: st' row_at_def put_row_def update_conv')
  have "rows_ok (put_row (lease_key l) (f r) st)"
    by (rule rows_put [OF rows r(1)]) (use new lr in simp_all)
  then have "rows_ok st'" unfolding rows_ok_def st' row_at_def by simp
  moreover have "slots_ok T C st'"
  proof (unfold slots_ok_def, intro allI impI ballI)
    fix k x s assume x: "row_at k st' = Some x" and s: "s \<in> set (query_scopes (lc_lease x))"
    have "\<exists>y. row_at k st = Some y \<and> lc_lease y = lc_lease x"
      using x r(1) lr new by (auto simp: at split: if_splits)
    then obtain y where y: "row_at k st = Some y" "lc_lease y = lc_lease x" by blast
    have b: "0 \<le> slot_of (lc_lease x) (scope_kind s)" "slot_of (lc_lease x) (scope_kind s) < C (scope_kind s)"
      using slots y s unfolding slots_ok_def by metis+
    have "qs_slots st' (query_slot_key (lc_lease x) s) = Some (slot_row_of (lc_lease x))"
      if a: "active (lc_status x)" "T \<le> le_expires (lc_lease x)"
    proof -
      have k: "k \<noteq> lease_key l" using x a(1) new by (auto simp: at)
      then have y': "row_at k st = Some x" using x by (simp add: at)
      then have held: "qs_slots st (query_slot_key (lc_lease x) s) = Some (slot_row_of (lc_lease x))"
        using slots s a unfolding slots_ok_def by blast
      have "query_slot_key (lc_lease x) s \<notin> query_slot_key l ` set slots"
      proof
        assume "query_slot_key (lc_lease x) s \<in> query_slot_key l ` set slots"
        then obtain s' where s': "s' \<in> set slots" "query_slot_key (lc_lease x) s = query_slot_key l s'" by blast
        with owned [OF s'(1)] held have "le_token (lc_lease x) = le_token (lc_lease r)"
          by (simp add: slot_owned_def slot_row_of_def lr)
        with rows y' r(1) k show False unfolding rows_ok_def by blast
      qed
      then show ?thesis using held by (simp add: st' slots_freed)
    qed
    with b show "0 \<le> slot_of (lc_lease x) (scope_kind s) \<and> slot_of (lc_lease x) (scope_kind s) < C (scope_kind s)
       \<and> (active (lc_status x) \<longrightarrow> T \<le> le_expires (lc_lease x)
            \<longrightarrow> qs_slots st' (query_slot_key (lc_lease x) s) = Some (slot_row_of (lc_lease x)))" by blast
  qed
  moreover have "scans_ok L st'"
  proof -
    have dist: "distinct refunds" by (simp add: refund(2) query_scopes_keys(1))
    have sc: "qs_scans st' key = (if key \<in> scan_counter_key l ` set refunds then Some (scanned st key - refund) else qs_scans st key)" for key
      by (simp add: st' scans_added [OF dist] scanned_def)
    have "lc_actual r = None" using typed cond [OF r(2)] by (simp add: row_typed_def)
    then have ch0: "charge r = le_reserved l" "charge (f r) = le_reserved l - refund"
      using new by (simp_all add: charge_def lr refund(1))
    have ch: "charges st' key = charges st key - (if counts_at key r then refund else 0)" for key
    proof -
      have "charges st' = charges (put_row (lease_key l) (f r) st)" by (rule charges_cong) (simp add: st')
      moreover have "counts_at key (f r) = counts_at key r" using new lr by (simp add: counts_at_def)
      ultimately show ?thesis using charges_put [of st "lease_key l" "f r" key] rows r(1) ch0
        by (simp add: rows_ok_def charge_at_def)
    qed
    have counted: "counts_at key r \<and> refund \<noteq> 0 \<longleftrightarrow> key \<in> scan_counter_key l ` set refunds" for key
      by (simp add: counts_at_def lr refund(2))
    have sum: "scanned st' key = charges st' key" for key
    proof -
      have "scanned st key = charges st key" using scans by (simp add: scans_ok_def)
      with counted [of key] show ?thesis by (auto simp: ch scanned_def sc)
    qed
    have bound: "scanned st' (ScopeKey t s w) \<le> L (scope_kind s)" if some: "qs_scans st' (ScopeKey t s w) \<noteq> None" for t s w
    proof -
      have some': "qs_scans st (ScopeKey t s w) \<noteq> None"
      proof (cases "ScopeKey t s w \<in> scan_counter_key l ` set refunds")
        case True
        then obtain x where x: "x \<in> set refunds" "ScopeKey t s w = scan_counter_key l x" by blast
        from can [OF x(1)] show ?thesis unfolding x(2) by (auto simp: can_refund_def split: option.splits)
      qed (use some in \<open>simp add: sc\<close>)
      with scans have "scanned st (ScopeKey t s w) \<le> L (scope_kind s)" unfolding scans_ok_def by metis
      then show ?thesis using refund(1,3) by (auto simp: scanned_def sc)
    qed
    have "qs_scans st' (scan_counter_key (lc_lease x) s) \<noteq> None"
      if x: "row_at k st' = Some x" "s \<in> set (query_scopes (lc_lease x))" for k x s
    proof -
      have "\<exists>y. row_at k st = Some y \<and> lc_lease y = lc_lease x" using x r(1) lr new by (auto simp: at split: if_splits)
      then have "qs_scans st (scan_counter_key (lc_lease x) s) \<noteq> None" using scans x(2) unfolding scans_ok_def by metis
      then show ?thesis by (simp add: sc)
    qed
    with sum bound show ?thesis unfolding scans_ok_def by blast
  qed
  moreover have "evidence_ok st'"
  proof -
    have "qs_log st' = qs_log st" by (simp add: st')
    with evid new show ?thesis unfolding evidence_ok_def at by (auto split: if_splits)
  qed
  ultimately show ?thesis by (simp add: fleet_ok_def)
qed

lemma service_settle_typed:
  assumes "terminal_audit_valid a" "ta_accounted a \<le> le_reserved l" "ta_execution a = None \<Longrightarrow> lc_execution r = None"
    "lc_lease r = l" "row_typed r"
  shows "row_typed (service_settled a ct ce r)"
  using assms by (auto simp: row_typed_def service_settled_def settle_row_def terminal_audit_valid_def active_def split: option.splits)

lemma worker_settle_typed:
  assumes "terminal_audit_valid a" "ta_accounted a \<le> le_reserved l" "lc_lease r = l" "row_typed r"
  shows "row_typed (worker_settled a r)"
  using assms by (auto simp: row_typed_def worker_settled_def settle_row_def terminal_audit_valid_def active_def)

lemma settled_fields:
  "lc_lease (service_settled a ct ce r) = lc_lease r" "lc_actual (service_settled a ct ce r) = Some (ta_accounted a)"
  "lc_pending (service_settled a ct ce r)" "lc_status (service_settled a ct ce r) = ta_status a"
  "lc_lease (worker_settled a r) = lc_lease r" "lc_actual (worker_settled a r) = Some (ta_accounted a)"
  "lc_pending (worker_settled a r)" "lc_status (worker_settled a r) = ta_status a"
  by (simp_all add: service_settled_def worker_settled_def settle_row_def)

lemma audit_terminal: "terminal_audit_valid a \<Longrightarrow> \<not> active (ta_status a)"
  by (simp add: terminal_audit_valid_def)

theorem fleet_step_ok: "fleet_step T C L st st' \<Longrightarrow> fleet_ok T C L st \<Longrightarrow> fleet_ok T C L st'"
proof (induction rule: fleet_step.induct)
  case (ServiceSettle l st a refund refunds slots ct ce st')
  show ?case
    by (rule settle_ok [OF ServiceSettle.prems ServiceSettle.hyps(1,5,6,3) _ _ ServiceSettle.hyps(8)])
      (use ServiceSettle.hyps(2-4) in \<open>simp_all add: service_settles_def settled_fields audit_terminal service_settle_typed\<close>)
next
  case (WorkerSettle l st a status refund refunds slots ct st')
  show ?case
    by (rule settle_ok [OF WorkerSettle.prems WorkerSettle.hyps(1,5,6,3) _ _ WorkerSettle.hyps(8)])
      (use WorkerSettle.hyps(2-4) in \<open>auto simp: worker_settles_def settled_fields audit_terminal intro: worker_settle_typed\<close>)
qed (blast intro: reserve_ok start_ok claim_step_ok defer_ok record_ok expire_ok acknowledge_ok)+

end
