(* ===== verification/QueryGuard.thy ===== *)
theory QueryGuard
  imports QueryFleet "HOL-Library.Sublist"
begin

text \<open>
  What every later state of the query table keeps of an earlier one, and the calls of \<open>QueryStore\<close> under the steps
  of other instances and workers, as triples of the locale \<open>service_guarantee\<close>.
\<close>

section \<open>Later states\<close>

definition row_later :: "lifecycle \<Rightarrow> lifecycle \<Rightarrow> bool" where
  "row_later r r' \<longleftrightarrow> lc_lease r' = lc_lease r
     \<and> (lc_status r \<noteq> Accepted \<longrightarrow> lc_status r' \<noteq> Accepted)
     \<and> (lc_status r = Running \<longrightarrow> lc_status r' = Running \<longrightarrow> lc_execution r' = lc_execution r)
     \<and> (\<not> active (lc_status r) \<longrightarrow> lc_status r' = lc_status r \<and> lc_actual r' = lc_actual r \<and> lc_audit r' = lc_audit r
          \<and> lc_execution r' = lc_execution r \<and> lc_failure r' = lc_failure r \<and> (lc_pending r' \<longrightarrow> lc_pending r))"

definition fleet_later :: "query_store \<Rightarrow> query_store \<Rightarrow> bool" where
  "fleet_later st st' \<longleftrightarrow> (\<forall>k r. row_at k st = Some r \<longrightarrow> (\<exists>r'. row_at k st' = Some r' \<and> row_later r r'))
     \<and> prefix (qs_log st) (qs_log st')"

lemma row_later_refl: "row_later r r"
  by (simp add: row_later_def)

lemma row_later_trans: "row_later a b \<Longrightarrow> row_later b c \<Longrightarrow> row_later a c"
  unfolding row_later_def active_def by (cases "lc_status b") auto

lemma fleet_later_refl: "fleet_later st st"
  by (simp add: fleet_later_def row_later_refl)

lemma fleet_later_trans: "fleet_later a b \<Longrightarrow> fleet_later b c \<Longrightarrow> fleet_later a c"
  unfolding fleet_later_def by (meson row_later_trans prefix_order.trans)

lemma fleet_laterD:
  assumes "fleet_later st st'" "row_at k st = Some r"
  obtains r' where "row_at k st' = Some r'" "row_later r r'"
  using assms unfolding fleet_later_def by blast

text \<open>Changing one row, and possibly slots and counters.\<close>

lemma later_row:
  assumes "row_at k st = Some r" "row_later r r'" "\<And>k'. row_at k' st' = (if k' = k then Some r' else row_at k' st)" "qs_log st' = qs_log st"
  shows "fleet_later st st'"
  using assms row_later_refl unfolding fleet_later_def by (auto split: if_splits)

lemma update_later:
  assumes "update_query_row k cond f st = Inr st'" "\<And>r. cond r \<Longrightarrow> row_later r (f r)"
  shows "fleet_later st st'"
  using assms(1) by (rule update_query_row_Inr) (rule later_row, auto simp: row_put assms(2))

lemma settle_rows:
  "row_at k (fold (free_slot l) slots (fold (add_scan n l) refunds st)) = row_at k st"
  by (simp add: row_at_def)

lemma settle_later:
  assumes "txn_settle l cond f refund refunds slots st = Inr st'" "\<And>r. cond r \<Longrightarrow> row_later r (f r)"
  shows "fleet_later st st'"
  using assms(1) by (rule settle_Inr) (rule later_row, auto simp: settle_rows row_put assms(2))

lemma reserve_later:
  assumes "txn_reserve_query q st = Inr st'"
  shows "fleet_later st st'"
proof -
  note c = reserve_Inr [OF assms]
  show ?thesis unfolding fleet_later_def c(2) admit_fields using c(1) row_later_refl by auto
qed

lemma settled_later:
  "active (lc_status r) \<Longrightarrow> terminal_audit_valid a \<Longrightarrow> row_later r (service_settled a ct ce r)"
  "active (lc_status r) \<Longrightarrow> terminal_audit_valid a \<Longrightarrow> row_later r (worker_settled a r)"
  using audit_terminal [of a] by (auto simp: row_later_def settled_fields active_def)

theorem fleet_step_later: "fleet_step T C L st st' \<Longrightarrow> fleet_later st st'"
proof (induction rule: fleet_step.induct)
  case (Start execution l st st')
  show ?case using Start(2) unfolding txn_mark_started_def
    by (rule update_later) (auto simp: row_later_def active_def)
next
  case (ServiceSettle l st a refund refunds slots ct ce st')
  show ?case using ServiceSettle.hyps(8)
    by (rule settle_later) (use ServiceSettle.hyps(2) in \<open>simp add: service_settles_def settled_later\<close>)
next
  case (WorkerSettle l st a status refund refunds slots ct st')
  show ?case using WorkerSettle.hyps(8)
    by (rule settle_later) (use WorkerSettle.hyps(2,4) in \<open>auto simp: worker_settles_def intro: settled_later\<close>)
next
  case (Claim l status tok owner now expires st st')
  then show ?case unfolding txn_claim_def by (rule update_later) (simp add: row_later_def claimed_def)
next
  case (Defer status l tok st st')
  show ?case using Defer(2) unfolding txn_defer_def by (rule update_later) (simp add: row_later_def unclaim_def)
next
  case (Record st e)
  then show ?case by (simp add: fleet_later_def append_event_def row_at_def row_later_refl)
next
  case (Expire st key s)
  then show ?case by (simp add: fleet_later_def row_at_def row_later_refl)
next
  case (Acknowledge a l st tok st')
  show ?case using Acknowledge(4) unfolding txn_acknowledge_def
    by (rule update_later) (auto simp: row_later_def unclaim_def)
qed (rule reserve_later)

section \<open>Fleets\<close>

text \<open>
  \<open>own k tok e\<close>: only the row at \<open>k\<close> carries the token \<open>tok\<close>, and while it is active it has no execution id other
  than \<open>e\<close>. The instances of a fleet do not use each other's tokens, so their steps keep this for each other.
\<close>

definition own :: "query_key \<Rightarrow> string \<Rightarrow> string option \<Rightarrow> query_store \<Rightarrow> bool" where
  "own k tok e st \<longleftrightarrow> (\<forall>k' r. row_at k' st = Some r \<longrightarrow> le_token (lc_lease r) = tok
     \<longrightarrow> k' = k \<and> (active (lc_status r) \<longrightarrow> lc_execution r = None \<or> lc_execution r = e))"

definition fleet_guarantee where
  "fleet_guarantee T C L k tok e st st' \<longleftrightarrow> (fleet_step T C L)\<^sup>*\<^sup>* st st' \<and> (own k tok e st \<longrightarrow> own k tok e st')"

definition fleet_follows where
  "fleet_follows T C L k tok e st st' \<longleftrightarrow> fleet_ok T C L st' \<and> fleet_later st st' \<and> (own k tok e st \<longrightarrow> own k tok e st')"

lemma fleet_steps_ok: "(fleet_step T C L)\<^sup>*\<^sup>* st st' \<Longrightarrow> fleet_ok T C L st \<Longrightarrow> fleet_ok T C L st'"
  by (induction rule: rtranclp_induct) (auto intro: fleet_step_ok)

lemma fleet_steps_later: "(fleet_step T C L)\<^sup>*\<^sup>* st st' \<Longrightarrow> fleet_later st st'"
  by (induction rule: rtranclp_induct) (auto intro: fleet_later_refl fleet_later_trans fleet_step_later)

interpretation queries: service_guarantee "fleet_ok T C L" "fleet_follows T C L k tok e" "fleet_guarantee T C L k tok e"
  for T :: int and C L :: "string \<Rightarrow> int" and k :: query_key and tok :: string and e :: "string option"
proof (unfold_locales, goal_cases)
  case 1 then show ?case by (simp add: fleet_guarantee_def)
next
  case 2 then show ?case by (auto simp: fleet_guarantee_def)
next
  case 3 then show ?case by (auto simp: fleet_guarantee_def fleet_follows_def fleet_steps_ok fleet_steps_later)
next
  case 4 then show ?case by (simp add: fleet_follows_def)
qed

lemma guaranteeI: "fleet_step T C L st st' \<Longrightarrow> (own k tok e st \<Longrightarrow> own k tok e st') \<Longrightarrow> fleet_guarantee T C L k tok e st st'"
  by (simp add: fleet_guarantee_def)

text \<open>What stays true.\<close>

definition held :: "lease \<Rightarrow> query_store \<Rightarrow> bool" where
  "held l st \<longleftrightarrow> (\<exists>r. row_at (lease_key l) st = Some r \<and> lc_lease r = l)"

definition settled :: "lease \<Rightarrow> terminal_audit \<Rightarrow> query_store \<Rightarrow> bool" where
  "settled l a st \<longleftrightarrow> (\<exists>r. row_at (lease_key l) st = Some r \<and> lc_lease r = l \<and> lc_status r = ta_status a \<and> lc_audit r = Some a
     \<and> \<not> active (ta_status a))"

definition told :: "lease \<Rightarrow> terminal_audit \<Rightarrow> query_store \<Rightarrow> bool" where
  "told l a st \<longleftrightarrow> (\<exists>ev \<in> set (qs_log st). tells l a ev)"

lemma stable_later: "(\<And>st st'. fleet_later st st' \<Longrightarrow> P st \<Longrightarrow> P st') \<Longrightarrow> stable_under (fleet_follows T C L k tok e) P"
  unfolding stable_under_def fleet_follows_def by blast

lemma held_later: "fleet_later st st' \<Longrightarrow> held l st \<Longrightarrow> held l st'"
  unfolding held_def fleet_later_def row_later_def by metis

lemma settled_stays: "fleet_later st st' \<Longrightarrow> settled l a st \<Longrightarrow> settled l a st'"
  unfolding settled_def fleet_later_def row_later_def by metis

lemma told_later: "fleet_later st st' \<Longrightarrow> told l a st \<Longrightarrow> told l a st'"
  unfolding told_def fleet_later_def prefix_def by fastforce

lemma stable_held [intro]: "stable_under (fleet_follows T C L k tok e) (held l)"
  by (rule stable_later) (rule held_later)

lemma stable_settled [intro]: "stable_under (fleet_follows T C L k tok e) (settled l a)"
  by (rule stable_later) (rule settled_stays)

lemma stable_told [intro]: "stable_under (fleet_follows T C L k tok e) (told l a)"
  by (rule stable_later) (rule told_later)

lemma stable_own [intro]: "stable_under (fleet_follows T C L k tok e) (own k tok e)"
  by (simp add: stable_under_def fleet_follows_def)

lemma settled_held: "settled l a st \<Longrightarrow> held l st"
  by (auto simp: settled_def held_def)

lemma held_current: "held l st \<Longrightarrow> lease_current l st"
  by (auto simp: held_def lease_current_def)

text \<open>Steps that keep \<open>own\<close>: they keep the lease of every row, and the execution id of those that stay active.\<close>

lemma own_row:
  assumes "own k tok e st" "row_at k0 st = Some r" "\<And>k'. row_at k' st' = (if k' = k0 then Some r' else row_at k' st)" "lc_lease r' = lc_lease r"
    "active (lc_status r') \<Longrightarrow> active (lc_status r) \<and> lc_execution r' = lc_execution r"
  shows "own k tok e st'"
  using assms unfolding own_def by (auto split: if_splits)

lemma own_update:
  assumes "own k tok e st" "update_query_row k0 cond f st = Inr st'" "\<And>r. cond r \<Longrightarrow> lc_lease (f r) = lc_lease r"
    "\<And>r. cond r \<Longrightarrow> active (lc_status (f r)) \<Longrightarrow> active (lc_status r) \<and> lc_execution (f r) = lc_execution r"
  shows "own k tok e st'"
proof -
  from assms(2) obtain r where r: "row_at k0 st = Some r" "cond r" "st' = put_row k0 (f r) st" by (rule update_query_row_Inr)
  show ?thesis by (rule own_row [OF assms(1) r(1), where r' = "f r"]) (simp_all add: r(2,3) row_put assms(3,4))
qed

lemma own_settle:
  assumes "own k tok e st" "txn_settle l cond f refund refunds slots st = Inr st'"
    "\<And>r. lc_lease (f r) = lc_lease r" "\<And>r. \<not> active (lc_status (f r))"
  shows "own k tok e st'"
proof -
  from assms(2) obtain r where r: "row_at (lease_key l) st = Some r"
    "st' = fold (free_slot l) slots (fold (add_scan (- refund) l) refunds (put_row (lease_key l) (f r) st))"
    by (rule settle_Inr)
  show ?thesis by (rule own_row [OF assms(1) r(1), where r' = "f r"]) (simp_all add: r(2) settle_rows row_put assms(3,4))
qed

lemma own_log: "own k tok e (append_event x st) \<longleftrightarrow> own k tok e st"
  by (simp add: own_def append_event_def row_at_def)


section \<open>The calls\<close>

lemmas fleet_rules = queries.triple_bind queries.triple_return queries.triple_fail queries.triple_try queries.triple_get

abbreviation fleet_triple where
  "fleet_triple T C L k tok e \<equiv> service_triple (fleet_ok T C L) (fleet_guarantee T C L k tok e)"

text \<open>What a request needs to be within the limits of the deployment.\<close>

definition request_within :: "int \<Rightarrow> (string \<Rightarrow> int) \<Rightarrow> (string \<Rightarrow> int) \<Rightarrow> capacity_request \<Rightarrow> bool" where
  "request_within T C L q \<longleftrightarrow> 0 \<le> cq_now q \<and> cq_now q \<le> T
     \<and> cq_project_concurrency q \<le> C ''project'' \<and> cq_principal_concurrency q \<le> C ''principal''
     \<and> cq_project_limit q \<le> L ''project'' \<and> cq_principal_limit q \<le> L ''principal''
     \<and> list_all (\<lambda>s. length s \<le> 2048) [le_tenant (cq_lease q), le_project (cq_lease q), le_request (cq_lease q),
          le_principal (cq_lease q), le_datasource (cq_lease q), le_sha (cq_lease q)]"

lemma slot_order_range: "i \<in> set (slot_order seed n) \<Longrightarrow> 0 \<le> i \<and> i < n"
  by (auto simp: slot_order_def)

lemma request_ok_attempt:
  assumes "cq_valid q" "request_within T C L q" "short_string tok"
    "ps \<in> set (List.product (slot_order s (cq_project_concurrency q)) (slot_order s (cq_principal_concurrency q)))"
  shows "request_ok T C L (q\<lparr>cq_lease := with_slots (stamp_lease q tok) ps\<rparr>)"
proof -
  have "0 \<le> fst ps \<and> fst ps < cq_project_concurrency q" "0 \<le> snd ps \<and> snd ps < cq_principal_concurrency q"
    using assms(4) slot_order_range by (auto simp: set_product)
  moreover have "0 \<le> cq_now q div cq_window_seconds q * cq_window_seconds q"
    using assms(1,2) by (simp add: cq_valid_def request_within_def Let_def pos_imp_zdiv_nonneg_iff)
  ultimately show ?thesis using assms(1-3)
    by (auto simp: request_ok_def cq_valid_def request_within_def Let_def lease_readable_def short_string_def stamp_lease_def
      with_slots_def query_scopes_iff slot_of_def scan_limit_of_def blank_def)
qed


lemma own_reserve:
  assumes "own (lease_key (cq_lease q)) (le_token (cq_lease q)) e st" "txn_reserve_query q st = Inr st'"
  shows "fresh_token (le_token (cq_lease q)) st" "own (lease_key (cq_lease q)) (le_token (cq_lease q)) e st'"
proof -
  note c = reserve_Inr [OF assms(2)]
  show "fresh_token (le_token (cq_lease q)) st" using assms(1) c(1) unfolding own_def fresh_token_def by fastforce
  show "own (lease_key (cq_lease q)) (le_token (cq_lease q)) e st'"
    using assms(1) unfolding own_def c(2) admit_fields by (auto simp: new_lifecycle_def)
qed

text \<open>A granted lease is the one that was asked for, with the slots that were found.\<close>

definition granted_ok :: "lease \<Rightarrow> capacity_answer \<Rightarrow> query_store \<Rightarrow> bool" where
  "granted_ok l0 a st \<longleftrightarrow> (case a of Granted l \<Rightarrow> held l st \<and> (\<exists>ps. l = with_slots l0 ps) | Denied _ _ \<Rightarrow> True)"

lemma granted_ok_simps [simp]:
  "granted_ok l0 (Granted l) st \<longleftrightarrow> held l st \<and> (\<exists>ps. l = with_slots l0 ps)" "granted_ok l0 (Denied c w) st"
  by (simp_all add: granted_ok_def)

lemma granted_ok_slots: "held (with_slots l ps) st \<Longrightarrow> granted_ok l (Granted (with_slots l ps)) st"
  by (cases ps) auto

lemma stable_granted [intro]: "stable_under (fleet_follows T C L k tok e) (granted_ok l0 a)"
  by (rule stable_later) (auto simp: granted_ok_def split: capacity_answer.splits intro: held_later)

lemma try_slots_triple:
  assumes "\<And>ps. ps \<in> set attempts \<Longrightarrow> request_ok T C L (q\<lparr>cq_lease := with_slots l ps\<rparr>)" "lease_key l = k" "le_token l = tok"
  shows "fleet_triple T C L k tok e (own k tok e) (try_slots q l failure attempts) (\<lambda>a st. own k tok e st \<and> granted_ok l a st)"
  using assms(1)
proof (induction attempts arbitrary: failure)
  case Nil
  show ?case by (simp add: granted_ok_def queries.triple_return)
next
  case (Cons ps rest)
  have l: "lease_key (with_slots l ps) = k" "le_token (with_slots l ps) = tok"
    using assms(2,3) by (simp_all add: with_slots_def lease_key_def)
  let ?q = "q\<lparr>cq_lease := with_slots l ps\<rparr>"
  have w: "fleet_triple T C L k tok e (own k tok e) (write_io (txn_reserve_query ?q))
      (\<lambda>out st. own k tok e st \<and> (out = Done \<longrightarrow> held (with_slots l ps) st))"
  proof (rule queries.triple_write [OF stable_own stable_held])
    fix st st' assume st: "fleet_ok T C L st" "own k tok e st" "txn_reserve_query ?q st = Inr st'"
    then have o: "own (lease_key (cq_lease ?q)) (le_token (cq_lease ?q)) e st" by (simp add: l)
    note own' = own_reserve [OF o st(3)]
    have "fleet_step T C L st st'" by (rule Reserve [OF _ own'(1) st(3)]) (simp add: Cons.prems)
    moreover have "held (with_slots l ps) st'"
      using reserve_Inr(2) [OF st(3)] by (simp add: held_def admit_fields new_lifecycle_def)
    ultimately show "fleet_guarantee T C L k tok e st st' \<and> held (with_slots l ps) st'"
      using own'(2) by (simp add: guaranteeI l)
  qed
  have IH: "fleet_triple T C L k tok e (own k tok e) (try_slots q l failure rest) (\<lambda>a st. own k tok e st \<and> granted_ok l a st)" for failure
    using Cons by simp
  show ?case unfolding try_slots.simps
  proof (rule queries.triple_bind [OF w])
    fix out :: "nat list outcome"
    show "fleet_triple T C L k tok e (\<lambda>st. own k tok e st \<and> (out = Done \<longrightarrow> held (with_slots l ps) st))
      (case out of Done \<Rightarrow> return_io (Granted (with_slots l ps))
       | Rejected fs \<Rightarrow>
           if 0 \<in> set fs then return_io (Denied ''duplicate_request'' None)
           else if 3 \<in> set fs then return_io (Denied ''project_scan_budget'' (Some (window_retry q l)))
           else if 4 \<in> set fs then return_io (Denied ''principal_scan_budget'' (Some (window_retry q l)))
           else if 1 \<in> set fs then try_slots q l ''project_concurrency'' rest
           else if 2 \<in> set fs then try_slots q l ''principal_concurrency'' rest
           else fail_io
       | Broken \<Rightarrow> fail_io) (\<lambda>a st. own k tok e st \<and> granted_ok l a st)"
    proof (cases out)
      case (Rejected fs)
      then show ?thesis by (auto intro!: queries.triple_return queries.triple_fail IH)
    qed (auto simp del: granted_ok_simps(1) intro!: queries.triple_return queries.triple_fail granted_ok_slots)
  qed
qed

lemma reserve_query_triple:
  assumes "request_within T C L q" "short_string tok" "lease_key (cq_lease q) = k"
  shows "fleet_triple T C L k tok e (own k tok e) (reserve_query_capacity q tok)
    (\<lambda>a st. own k tok e st \<and> (\<forall>x. a = Some x \<longrightarrow> granted_ok (stamp_lease q tok) x st))"
proof (cases "cq_valid q")
  case True
  have l: "lease_key (stamp_lease q tok) = k" "le_token (stamp_lease q tok) = tok"
    using assms(3) by (simp_all add: stamp_lease_def lease_key_def)
  have nn: "\<not> \<not> cq_valid q" using True by simp
  show ?thesis unfolding reserve_query_capacity_def Let_def if_not_P [OF nn]
    by (rule triple_weaken [OF queries.triple_try [OF try_slots_triple [OF request_ok_attempt [OF True assms(1,2)] l] stable_own]]) auto
qed (simp add: reserve_query_capacity_def queries.triple_fail)

text \<open>Marking the start of the own query.\<close>

definition begun :: "lease \<Rightarrow> query_store \<Rightarrow> bool" where
  "begun l st \<longleftrightarrow> (\<exists>r. row_at (lease_key l) st = Some r \<and> lc_lease r = l \<and> lc_status r \<noteq> Accepted)"

lemma stable_begun [intro]: "stable_under (fleet_follows T C L k tok e) (begun l)"
  by (rule stable_later) (unfold begun_def fleet_later_def row_later_def, metis)

lemma applied_triple:
  assumes "fleet_triple T C L k tok e P m (\<lambda>out st. P st \<and> (out = Done \<longrightarrow> Q st))" "stable_under (fleet_follows T C L k tok e) P"
  shows "fleet_triple T C L k tok e P (applied m) (\<lambda>b st. P st \<and> (b \<longrightarrow> Q st))"
  unfolding applied_def
  by (rule queries.triple_bind [OF queries.triple_try [OF assms]]) (auto intro!: queries.triple_return split: option.split outcome.split)

lemma mark_query_triple:
  assumes l: "lease_key l = k" "le_token l = tok"
  shows "fleet_triple T C L k tok (Some execution) (\<lambda>st. own k tok (Some execution) st \<and> held l st) (mark_query_started l execution)
    (\<lambda>b st. (own k tok (Some execution) st \<and> held l st) \<and> (b \<longrightarrow> begun l st))"
proof (cases "blank (le_tenant l) \<or> \<not> list_all (\<lambda>v. v \<noteq> []) [le_project l, le_request l, le_token l, execution]")
  case False
  have "fleet_triple T C L k tok (Some execution) (\<lambda>st. own k tok (Some execution) st \<and> held l st) (write_io (txn_mark_started l execution))
    (\<lambda>out st. (own k tok (Some execution) st \<and> held l st) \<and> (out = Done \<longrightarrow> begun l st))"
  proof (rule queries.triple_write [OF stable_conj [OF stable_own stable_held] stable_begun])
    fix st st' assume st: "fleet_ok T C L st" "own k tok (Some execution) st \<and> held l st" "txn_mark_started l execution st = Inr st'"
    obtain r where r: "row_at (lease_key l) st = Some r"
      "st' = put_row (lease_key l) (r\<lparr>lc_status := Running, lc_execution := Some execution\<rparr>) st"
      using st(3) unfolding txn_mark_started_def by (rule update_query_row_Inr)
    have "lc_lease r = l" using st(2) r(1) by (auto simp: held_def)
    then have "begun l st'" by (simp add: begun_def r(2) row_put)
    moreover have "own k tok (Some execution) st'" using st(2) r(1) unfolding own_def r(2) row_put by (auto simp: l)
    ultimately show "fleet_guarantee T C L k tok (Some execution) st st' \<and> begun l st'"
      using Start [OF _ st(3)] False by (simp add: guaranteeI)
  qed
  from applied_triple [OF this stable_conj [OF stable_own stable_held]]
  show ?thesis unfolding mark_query_started_def if_not_P [OF False] .
qed (auto simp: mark_query_started_def intro: queries.triple_fail)


text \<open>Reads and settlements. \<open>P\<close> is what the caller knows throughout, \<open>Q\<close> what a settlement establishes.\<close>

lemma settle_answer_triple:
  assumes P: "stable_under (fleet_follows T C L k tok e) P" and Q: "stable_under (fleet_follows T C L k tok e) Q"
    and w: "fleet_triple T C L k tok e P m (\<lambda>out st. P st \<and> (out = Done \<longrightarrow> Q st))"
    and shown: "\<And>st r. P st \<Longrightarrow> row_at k0 st = Some r \<Longrightarrow> shows_it r \<Longrightarrow> Q st"
  shows "fleet_triple T C L k tok e P (bind_io m (\<lambda>out. settle_answer out k0 shows_it)) (\<lambda>b st. P st \<and> (b \<longrightarrow> Q st))"
proof (rule queries.triple_bind [OF w])
  fix out :: "nat list outcome"
  have look: "fleet_triple T C L k tok e P (bind_io (get_io (row_at k0)) (\<lambda>row.
       if (case row of None \<Rightarrow> False | Some r \<Rightarrow> shows_it r) then return_io True
       else (case out of Rejected _ \<Rightarrow> return_io False | _ \<Rightarrow> fail_io))) (\<lambda>b st. P st \<and> (b \<longrightarrow> Q st))"
  proof (rule queries.triple_bind [OF queries.triple_get [OF P]])
    fix row :: "lifecycle option"
    show "fleet_triple T C L k tok e (\<lambda>st. row = row_at k0 st \<and> P st)
        (if (case row of None \<Rightarrow> False | Some r \<Rightarrow> shows_it r) then return_io True
         else (case out of Rejected _ \<Rightarrow> return_io False | _ \<Rightarrow> fail_io)) (\<lambda>b st. P st \<and> (b \<longrightarrow> Q st))"
      by (cases row; cases out) (auto intro!: queries.triple_return queries.triple_fail intro: shown [OF _ sym])
  qed
  show "fleet_triple T C L k tok e (\<lambda>st. P st \<and> (out = Done \<longrightarrow> Q st)) (settle_answer out k0 shows_it) (\<lambda>b st. P st \<and> (b \<longrightarrow> Q st))"
  proof (cases out)
    case Done
    then show ?thesis by (auto simp: settle_answer_def intro: queries.triple_return)
  next
    case (Rejected fs)
    show ?thesis using look unfolding settle_answer_def Rejected outcome.case by simp
  next
    case Broken
    show ?thesis using look unfolding settle_answer_def Broken outcome.case by simp
  qed
qed

lemma false_on_error_triple:
  assumes "fleet_triple T C L k tok e P m (\<lambda>b st. P st \<and> (b \<longrightarrow> Q st))" "stable_under (fleet_follows T C L k tok e) P"
  shows "fleet_triple T C L k tok e P (false_on_error m) (\<lambda>b st. P st \<and> (b \<longrightarrow> Q st))"
  unfolding false_on_error_def
  by (rule queries.triple_bind [OF queries.triple_try [OF assms]]) (auto intro!: queries.triple_return)

lemma read_owned_triple:
  assumes P: "stable_under (fleet_follows T C L k tok e) P"
  shows "fleet_triple T C L k tok e P (read_owned l ss) (\<lambda>xs st. set xs \<subseteq> set ss \<and> P st)"
proof (induction ss)
  case Nil
  show ?case by (auto intro: queries.triple_return)
next
  case (Cons s ss)
  have g: "fleet_triple T C L k tok e P (get_io (\<lambda>st. qs_slots st (query_slot_key l s))) (\<lambda>_. P)"
    by (rule triple_weaken [OF queries.triple_get [OF P]]) auto
  show ?case unfolding read_owned.simps
  proof (rule queries.triple_bind [OF g])
    fix row :: "slot_row option"
    show "fleet_triple T C L k tok e P (bind_io (read_owned l ss) (\<lambda>rest. return_io (if slot_owned l row then s # rest else rest)))
        (\<lambda>xs st. set xs \<subseteq> set (s # ss) \<and> P st)"
      by (rule queries.triple_bind [OF Cons]) (auto intro!: queries.triple_return)
  qed
qed

lemma held_counted:
  "fleet_ok T C L st \<Longrightarrow> held l st \<Longrightarrow> s \<in> set (query_scopes l) \<Longrightarrow> qs_scans st (scan_counter_key l s) \<noteq> None"
  unfolding fleet_ok_def scans_ok_def held_def by blast

lemma read_counters_triple:
  assumes P: "stable_under (fleet_follows T C L k tok e) P" "\<And>st. P st \<Longrightarrow> held l st" and ss: "set ss \<subseteq> set (query_scopes l)"
  shows "fleet_triple T C L k tok e P (read_counters l ss) (\<lambda>xs st. xs = ss \<and> P st)"
  using ss
proof (induction ss)
  case Nil
  show ?case by (auto intro: queries.triple_return)
next
  case (Cons s ss)
  have g: "fleet_triple T C L k tok e P (get_io (\<lambda>st. qs_scans st (scan_counter_key l s))) (\<lambda>v st. v \<noteq> None \<and> P st)"
  proof (rule triple_weaken [OF queries.triple_get [OF P(1)]])
    fix v st assume "fleet_ok T C L st" "v = qs_scans st (scan_counter_key l s) \<and> P st"
    then show "v \<noteq> None \<and> P st" using held_counted P(2) Cons.prems by auto
  qed
  show ?case unfolding read_counters.simps
  proof (rule queries.triple_bind [OF g])
    fix v :: "int option"
    show "fleet_triple T C L k tok e (\<lambda>st. v \<noteq> None \<and> P st) (bind_io (read_counters l ss) (\<lambda>rest. return_io (if v = None then rest else s # rest)))
        (\<lambda>xs st. xs = s # ss \<and> P st)"
    proof (cases "v = None")
      case False
      have IH: "fleet_triple T C L k tok e (\<lambda>st. v \<noteq> None \<and> P st) (read_counters l ss) (\<lambda>xs st. xs = ss \<and> P st)"
        by (rule triple_weaken [OF Cons.IH]) (use Cons.prems in auto)
      show ?thesis by (rule queries.triple_bind [OF IH]) (use False in \<open>auto intro!: queries.triple_return\<close>)
    qed (simp add: service_triple_def)
  qed
qed

lemma settled_by_service:
  assumes st: "fleet_ok T C L st" "held l st" "own k tok e st" "lease_key l = k" "le_token l = tok"
    and a: "terminal_audit_valid a" "ta_accounted a \<le> le_reserved l" "ta_execution a = None \<Longrightarrow> e = None"
    and refund: "refund = le_reserved l - ta_accounted a" "refunds = (if refund = 0 then [] else query_scopes l)"
    and slots: "set slots \<subseteq> set (query_scopes l)"
    and txn: "txn_settle l (service_settles l) (service_settled a ct ce) refund refunds slots st = Inr st'"
  shows "fleet_guarantee T C L k tok e st st' \<and> settled l a st'"
proof -
  obtain r where r: "row_at (lease_key l) st = Some r" "service_settles l r"
    and st': "st' = fold (free_slot l) slots (fold (add_scan (- refund) l) refunds (put_row (lease_key l) (service_settled a ct ce r) st))"
    using txn by (rule settle_Inr)
  have lr: "lc_lease r = l" using st(2) r(1) by (auto simp: held_def)
  have "lc_execution r = None" if "ta_execution a = None"
    using st(3-5) r lr a(3) [OF that] by (auto simp: own_def service_settles_def)
  then have "fleet_step T C L st st'"
    using ServiceSettle [OF held_current [OF st(2)] a(1,2) _ refund slots txn] r(1) by auto
  moreover have "own k tok e st'"
    using own_settle [OF st(3) txn] by (simp add: settled_fields audit_terminal a(1))
  moreover have "settled l a st'"
    unfolding settled_def st' settle_rows row_put
    using lr audit_terminal [OF a(1)] by (simp add: settled_fields) (simp add: service_settled_def settle_row_def)
  ultimately show ?thesis by (simp add: guaranteeI)
qed

lemma settled_by_worker:
  assumes st: "fleet_ok T C L st" "held l st"
    and a: "terminal_audit_valid a" "ta_accounted a \<le> le_reserved l" "active status"
    and refund: "refund = le_reserved l - ta_accounted a" "refunds = (if refund = 0 then [] else query_scopes l)"
    and slots: "set slots \<subseteq> set (query_scopes l)"
    and txn: "txn_settle l (worker_settles l ct status) (worker_settled a) refund refunds slots st = Inr st'"
  shows "fleet_guarantee T C L k tok e st st' \<and> settled l a st'"
proof -
  obtain r where r: "row_at (lease_key l) st = Some r"
    and st': "st' = fold (free_slot l) slots (fold (add_scan (- refund) l) refunds (put_row (lease_key l) (worker_settled a r) st))"
    using txn by (rule settle_Inr)
  have lr: "lc_lease r = l" using st(2) r(1) by (auto simp: held_def)
  have "fleet_step T C L st st'" by (rule WorkerSettle [OF held_current [OF st(2)] a refund slots txn])
  moreover have "own k tok e st'" if "own k tok e st"
    using own_settle [OF that txn] by (simp add: settled_fields audit_terminal a(1))
  moreover have "settled l a st'"
    unfolding settled_def st' settle_rows row_put
    using lr audit_terminal [OF a(1)] by (simp add: settled_fields) (simp add: worker_settled_def settle_row_def)
  ultimately show ?thesis by (simp add: guaranteeI)
qed

lemma service_shown_settled:
  "terminal_audit_valid a \<Longrightarrow> held l st \<Longrightarrow> row_at (lease_key l) st = Some r \<Longrightarrow> service_shown l a ct r \<Longrightarrow> settled l a st"
  by (simp add: held_def settled_def service_shown_def audit_terminal)

lemma stable_fact: "stable_under F P \<Longrightarrow> stable_under F (\<lambda>st. p \<and> P st)"
  unfolding stable_under_def by blast

lemma owned_settle_triple:
  assumes P: "stable_under (fleet_follows T C L k tok e) P"
    and step: "\<And>slots st st'. set slots \<subseteq> set (query_scopes l) \<Longrightarrow> fleet_ok T C L st \<Longrightarrow> P st \<Longrightarrow> txn slots st = Inr st'
       \<Longrightarrow> fleet_guarantee T C L k tok e st st' \<and> settled l a st'"
    and shown: "\<And>st r. P st \<Longrightarrow> row_at (lease_key l) st = Some r \<Longrightarrow> shows_it r \<Longrightarrow> settled l a st"
  shows "fleet_triple T C L k tok e P (bind_io (read_owned l (query_scopes l)) (\<lambda>slots.
      bind_io (write_io (txn slots)) (\<lambda>out. settle_answer out (lease_key l) shows_it))) (\<lambda>b st. P st \<and> (b \<longrightarrow> settled l a st))"
proof (rule queries.triple_bind [where Q = "\<lambda>slots st. set slots \<subseteq> set (query_scopes l) \<and> P st", OF read_owned_triple [OF P]])
  fix slots
  let ?P = "\<lambda>st. set slots \<subseteq> set (query_scopes l) \<and> P st"
  have P': "stable_under (fleet_follows T C L k tok e) ?P" by (rule stable_fact [OF P])
  have w: "fleet_triple T C L k tok e ?P (write_io (txn slots)) (\<lambda>out st. ?P st \<and> (out = Done \<longrightarrow> settled l a st))"
    by (rule queries.triple_write [OF P' stable_settled]) (rule step, simp_all)
  show "fleet_triple T C L k tok e ?P (bind_io (write_io (txn slots)) (\<lambda>out. settle_answer out (lease_key l) shows_it))
      (\<lambda>b st. P st \<and> (b \<longrightarrow> settled l a st))"
    by (rule triple_weaken [OF settle_answer_triple [OF P' stable_settled w]]) (auto intro: shown)
qed

lemma finalize_query_triple:
  assumes l: "lease_key l = k" "le_token l = tok" and a: "ta_execution a = None \<Longrightarrow> e = None"
  shows "fleet_triple T C L k tok e (\<lambda>st. own k tok e st \<and> held l st) (finalize_query_capacity l a ct cs now)
    (\<lambda>b st. (own k tok e st \<and> held l st) \<and> (b \<longrightarrow> settled l a st))"
proof (cases "finalize_valid l a ct cs")
  case True
  then have valid: "terminal_audit_valid a" "ta_accounted a \<le> le_reserved l" by (simp_all add: finalize_valid_def)
  have P: "stable_under (fleet_follows T C L k tok e) (\<lambda>st. own k tok e st \<and> held l st)" by (rule stable_conj [OF stable_own stable_held])
  have nn: "\<not> \<not> finalize_valid l a ct cs" using True by simp
  let ?refund = "le_reserved l - ta_accounted a"
  let ?txn = "\<lambda>slots. txn_settle l (service_settles l) (service_settled a ct (now + cs)) ?refund (if ?refund = 0 then [] else query_scopes l) slots"
  have "fleet_triple T C L k tok e (\<lambda>st. own k tok e st \<and> held l st)
    (bind_io (read_owned l (query_scopes l)) (\<lambda>slots. bind_io (write_io (?txn slots)) (\<lambda>out. settle_answer out (lease_key l) (service_shown l a ct))))
    (\<lambda>b st. (own k tok e st \<and> held l st) \<and> (b \<longrightarrow> settled l a st))"
  proof (rule owned_settle_triple [OF P])
    fix slots st st'
    assume slots: "set slots \<subseteq> set (query_scopes l)" and st: "fleet_ok T C L st" "own k tok e st \<and> held l st" and txn: "?txn slots st = Inr st'"
    show "fleet_guarantee T C L k tok e st st' \<and> settled l a st'"
      by (rule settled_by_service [OF st(1) _ _ l valid a refl refl slots txn]) (use st(2) in simp_all)
  qed (use service_shown_settled [OF valid(1)] in blast)
  from false_on_error_triple [OF this P] show ?thesis unfolding finalize_query_capacity_def Let_def if_not_P [OF nn] .
qed (auto simp: finalize_query_capacity_def intro: queries.triple_fail)

lemma worker_shown_settled:
  "terminal_audit_valid a \<Longrightarrow> held (cl_lease c) st \<Longrightarrow> row_at (lease_key (cl_lease c)) st = Some r \<Longrightarrow> worker_shown c a r
     \<Longrightarrow> settled (cl_lease c) a st"
  by (simp add: held_def settled_def worker_shown_def audit_terminal)

lemma finalize_reconciliation_triple:
  assumes a: "terminal_audit_valid a"
  shows "fleet_triple T C L k tok e (held (cl_lease c)) (finalize_query_reconciliation c a)
    (\<lambda>b st. held (cl_lease c) st \<and> (b \<longrightarrow> settled (cl_lease c) a st))"
proof (cases "\<not> active (cl_status c) \<or> ta_execution a \<noteq> cl_execution c \<or> le_reserved (cl_lease c) < ta_accounted a")
  case False
  let ?l = "cl_lease c"
  let ?refund = "le_reserved ?l - ta_accounted a"
  let ?refunds = "if ?refund = 0 then [] else query_scopes ?l"
  let ?txn = "\<lambda>refunds slots. txn_settle ?l (worker_settles ?l (cl_token c) (cl_status c)) (worker_settled a) ?refund refunds slots"
  have "fleet_triple T C L k tok e (held ?l)
    (bind_io (read_counters ?l ?refunds) (\<lambda>refunds. bind_io (read_owned ?l (query_scopes ?l)) (\<lambda>slots.
       bind_io (write_io (?txn refunds slots)) (\<lambda>out. settle_answer out (lease_key ?l) (worker_shown c a)))))
    (\<lambda>b st. held ?l st \<and> (b \<longrightarrow> settled ?l a st))"
  proof (rule queries.triple_bind [where Q = "\<lambda>xs st. xs = ?refunds \<and> held ?l st"])
    show "fleet_triple T C L k tok e (held ?l) (read_counters ?l ?refunds) (\<lambda>xs st. xs = ?refunds \<and> held ?l st)"
      by (rule read_counters_triple [OF stable_held]) auto
  next
    fix refunds
    have P: "stable_under (fleet_follows T C L k tok e) (\<lambda>st. refunds = ?refunds \<and> held ?l st)"
      by (rule stable_fact [OF stable_held])
    have "fleet_triple T C L k tok e (\<lambda>st. refunds = ?refunds \<and> held ?l st)
      (bind_io (read_owned ?l (query_scopes ?l)) (\<lambda>slots.
         bind_io (write_io (?txn refunds slots)) (\<lambda>out. settle_answer out (lease_key ?l) (worker_shown c a))))
      (\<lambda>b st. (refunds = ?refunds \<and> held ?l st) \<and> (b \<longrightarrow> settled ?l a st))"
    proof (rule owned_settle_triple [OF P])
      fix slots st st'
      assume slots: "set slots \<subseteq> set (query_scopes ?l)" and st: "fleet_ok T C L st" "refunds = ?refunds \<and> held ?l st"
        and txn: "?txn refunds slots st = Inr st'"
      show "fleet_guarantee T C L k tok e st st' \<and> settled ?l a st'"
        by (rule settled_by_worker [OF st(1) conjunct2 [OF st(2)] a _ _ refl conjunct1 [OF st(2)] slots txn]) (use False in simp_all)
    qed (use worker_shown_settled [OF a] in blast)
    then show "fleet_triple T C L k tok e (\<lambda>st. refunds = ?refunds \<and> held ?l st)
      (bind_io (read_owned ?l (query_scopes ?l)) (\<lambda>slots.
         bind_io (write_io (?txn refunds slots)) (\<lambda>out. settle_answer out (lease_key ?l) (worker_shown c a))))
      (\<lambda>b st. held ?l st \<and> (b \<longrightarrow> settled ?l a st))"
      by (rule triple_weaken) auto
  qed
  from false_on_error_triple [OF this stable_held] show ?thesis
    unfolding finalize_query_reconciliation_def Let_def if_not_P [OF False] .
qed (auto simp: finalize_query_reconciliation_def Let_def intro: queries.triple_fail)


text \<open>Deferring, claiming and acknowledging.\<close>

lemma row_claim_guarantee:
  assumes "fleet_step T C L st st'" "update_query_row k0 cond f st = Inr st'" "\<And>r. lc_lease (f r) = lc_lease r"
    "\<And>r. lc_status (f r) = lc_status r" "\<And>r. lc_execution (f r) = lc_execution r"
  shows "fleet_guarantee T C L k tok e st st'"
  using assms(1)
proof (rule guaranteeI)
  assume o: "own k tok e st"
  show "own k tok e st'" by (rule own_update [OF o assms(2)]) (simp_all add: assms(3-5))
qed

lemma defer_triple:
  "fleet_triple T C L k tok e (\<lambda>_. True) (defer_query_reconciliation c) (\<lambda>_ _. True)"
proof (cases "active (cl_status c)")
  case True
  have w: "fleet_triple T C L k tok e (\<lambda>_. True) (write_io (txn_defer (cl_lease c) (cl_token c) (cl_status c))) (\<lambda>out st. True \<and> (out = Done \<longrightarrow> True))"
  proof (rule queries.triple_write [OF stable_True stable_True])
    fix st st' assume txn: "txn_defer (cl_lease c) (cl_token c) (cl_status c) st = Inr st'"
    show "fleet_guarantee T C L k tok e st st' \<and> True"
      using row_claim_guarantee [OF Defer [OF True txn] txn [unfolded txn_defer_def]] by (simp add: unclaim_def)
  qed
  have nn: "\<not> \<not> active (cl_status c)" using True by simp
  show ?thesis unfolding defer_query_reconciliation_def if_not_P [OF nn]
    using false_on_error_triple [OF settle_answer_triple [OF stable_True stable_True w] stable_True] by simp
qed (simp add: defer_query_reconciliation_def queries.triple_fail)

text \<open>A claim describes the row it was read from; a terminal row stays as it was.\<close>

definition claim_ok :: "query_claim \<Rightarrow> query_store \<Rightarrow> bool" where
  "claim_ok c st \<longleftrightarrow> held (cl_lease c) st \<and> claim_valid c \<and> (\<forall>a. cl_audit c = Some a \<longrightarrow> settled (cl_lease c) a st)"

lemma stable_claim [intro]: "stable_under (fleet_follows T C L k tok e) (claim_ok c)"
  by (rule stable_later) (auto simp: claim_ok_def intro: held_later settled_stays)

lemma stable_claims: "stable_under (fleet_follows T C L k tok e) (\<lambda>st. \<forall>c \<in> set cs. claim_ok c st)"
  using stable_claim unfolding stable_under_def by blast

lemma claim_from_row_Some:
  assumes "claim_from_row k r t = Some c"
  shows "cl_lease c = lc_lease r" "cl_token c = t" "cl_status c = lc_status r" "cl_execution c = lc_execution r"
    "cl_audit c = (if active (lc_status r) then None else lc_audit r)" "claim_valid c" "lease_key (lc_lease r) = k"
  using assms by (auto simp: claim_from_row_def Let_def split: if_splits)

lemma claim_from_row_ok:
  assumes "claim_from_row k0 r t = Some c" "row_at k0 st = Some r"
  shows "claim_ok c st"
proof -
  note c = claim_from_row_Some [OF assms(1)]
  have "settled (cl_lease c) a st" if "cl_audit c = Some a" for a
    using that c assms(2) by (auto simp: settled_def claim_valid_def split: if_splits)
  moreover have "held (cl_lease c) st" using c assms(2) by (simp add: held_def)
  ultimately show ?thesis using c(6) by (simp add: claim_ok_def)
qed

lemma claim_write_triple:
  "fleet_triple T C L k tok e (\<lambda>_. True) (write_new_io (txn_claim l status t owner now expires) (row_at k0))
     (\<lambda>out st. \<forall>c r'. out = Inr (Some r') \<longrightarrow> claim_from_row k0 r' t = Some c \<longrightarrow> claim_ok c st)"
proof (rule triple_weaken [OF queries.triple_write_new [OF stable_True stable_True]])
  fix st st' assume txn: "txn_claim l status t owner now expires st = Inr st'"
  show "fleet_guarantee T C L k tok e st st' \<and> True"
    using row_claim_guarantee [OF Claim [OF txn] txn [unfolded txn_claim_def]] by (simp add: claimed_def)
next
  fix out st assume "True \<and> (\<forall>x. out = Inr x \<longrightarrow> x = row_at k0 st \<and> True)"
  then show "\<forall>c r'. out = Inr (Some r') \<longrightarrow> claim_from_row k0 r' t = Some c \<longrightarrow> claim_ok c st"
    using claim_from_row_ok by metis
qed simp

text \<open>The audit of a settled query was acknowledged.\<close>

definition acked :: "lease \<Rightarrow> query_store \<Rightarrow> bool" where
  "acked l st \<longleftrightarrow> (\<exists>r. row_at (lease_key l) st = Some r \<and> lc_lease r = l \<and> \<not> active (lc_status r) \<and> \<not> lc_pending r)"

lemma stable_acked [intro]: "stable_under (fleet_follows T C L k tok e) (acked l)"
  by (rule stable_later) (unfold acked_def fleet_later_def row_later_def, metis)

lemma acknowledge_triple:
  assumes "claim_valid c"
  shows "fleet_triple T C L k tok e (\<lambda>st. \<forall>a. cl_audit c = Some a \<longrightarrow> told (cl_lease c) a st \<and> held (cl_lease c) st)
    (ack_query_reconciliation_audit c) (\<lambda>b st. b \<longrightarrow> acked (cl_lease c) st)"
proof (cases "cl_audit c")
  case (Some a)
  have status: "ta_status a = cl_status c" "\<not> active (cl_status c)" using assms Some by (simp_all add: claim_valid_def)
  let ?P = "\<lambda>st. told (cl_lease c) a st \<and> held (cl_lease c) st"
  have P: "stable_under (fleet_follows T C L k tok e) ?P" by (rule stable_conj [OF stable_told stable_held])
  have w: "fleet_triple T C L k tok e ?P (write_io (txn_acknowledge (cl_lease c) (cl_token c) a))
      (\<lambda>out st. ?P st \<and> (out = Done \<longrightarrow> acked (cl_lease c) st))"
  proof (rule queries.triple_write [OF P stable_acked])
    fix st st' assume st: "?P st" and txn: "txn_acknowledge (cl_lease c) (cl_token c) a st = Inr st'"
    have "fleet_step T C L st st'"
      by (rule Acknowledge [OF _ held_current _ txn]) (use status st in \<open>auto simp: told_def\<close>)
    note g = row_claim_guarantee [OF this txn [unfolded txn_acknowledge_def]]
    obtain r where r: "row_at (lease_key (cl_lease c)) st = Some r" "worker_settles (cl_lease c) (cl_token c) (ta_status a) r"
      "st' = put_row (lease_key (cl_lease c)) ((unclaim r)\<lparr>lc_pending := False, lc_acked := Some (cl_token c)\<rparr>) st"
      using txn unfolding txn_acknowledge_def by (auto elim: update_query_row_Inr)
    have "lc_lease r = cl_lease c" using st r(1) by (auto simp: held_def)
    then have "acked (cl_lease c) st'"
      using r(2) status by (simp add: acked_def r(3) row_put unclaim_def worker_settles_def)
    with g show "fleet_guarantee T C L k tok e st st' \<and> acked (cl_lease c) st'" by (simp add: unclaim_def)
  qed
  have shown: "acked (cl_lease c) st" if "?P st" "row_at (lease_key (cl_lease c)) st = Some r"
    "holds_token (cl_lease c) r \<and> lc_status r = cl_status c \<and> lc_audit r = Some a \<and> \<not> lc_pending r \<and> lc_acked r = Some (cl_token c)" for st r
    using that status by (auto simp: acked_def held_def)
  have ans: "fleet_triple T C L k tok e ?P (ack_query_reconciliation_audit c) (\<lambda>b st. ?P st \<and> (b \<longrightarrow> acked (cl_lease c) st))"
    unfolding ack_query_reconciliation_audit_def Some option.case if_not_P [OF status(2)]
    by (rule false_on_error_triple [OF settle_answer_triple [OF P stable_acked w shown] P])
  show ?thesis by (rule triple_weaken [OF ans]) (simp_all add: Some)
qed (simp add: ack_query_reconciliation_audit_def queries.triple_fail)


lemma claim_candidates_triple:
  "fleet_triple T C L k tok e (\<lambda>_. True) (claim_candidates owner now expires limit t i rows)
     (\<lambda>(cs, _) st. \<forall>c \<in> set cs. claim_ok c st)"
proof (induction rows arbitrary: i limit)
  case Nil
  show ?case by (auto intro: queries.triple_return)
next
  case (Cons row rest)
  obtain k0 r where row: "row = (k0, r)" by (cases row)
  show ?case
  proof (cases "claim_from_row k0 r (t i)")
    case None
    then show ?thesis using Cons by (simp add: row)
  next
    case (Some c)
    let ?kept = "\<lambda>out st. \<forall>c r'. out = Inr (Some r') \<longrightarrow> claim_from_row k0 r' (t i) = Some c \<longrightarrow> claim_ok c st"
    show ?thesis unfolding row claim_candidates.simps Some option.case
    proof (rule queries.triple_bind [OF claim_write_triple])
      fix out :: "nat list outcome + lifecycle option"
      show "fleet_triple T C L k tok e (?kept out)
        (case out of
           Inl (Rejected _) \<Rightarrow> claim_candidates owner now expires limit t (Suc i) rest
         | Inr (Some r') \<Rightarrow>
             (case claim_from_row k0 r' (t i) of
                None \<Rightarrow> fail_io
              | Some c' \<Rightarrow>
                  if limit \<le> 1 then return_io ([c'], if rest = [] then None else Some k0)
                  else bind_io (claim_candidates owner now expires (limit - 1) t (Suc i) rest) (\<lambda>(cs, stop).
                    return_io (c' # cs, stop)))
         | _ \<Rightarrow> fail_io) (\<lambda>(cs, _) st. \<forall>c \<in> set cs. claim_ok c st)"
      proof (cases "\<exists>r' c'. out = Inr (Some r') \<and> claim_from_row k0 r' (t i) = Some c'")
        case True
        then obtain r' c' where out: "out = Inr (Some r')" "claim_from_row k0 r' (t i) = Some c'" by blast
        have w: "fleet_triple T C L k tok e (?kept out) (return_io ()) (\<lambda>_. claim_ok c')"
          by (rule queries.triple_return) (simp add: out)
        have P: "fleet_triple T C L k tok e (claim_ok c')
            (claim_candidates owner now expires (limit - 1) t (Suc i) rest)
            (\<lambda>x st. claim_ok c' st \<and> (\<forall>c \<in> set (fst x). claim_ok c st))"
          by (rule triple_weaken [OF queries.triple_frame [OF Cons stable_claim]]) auto
        have "fleet_triple T C L k tok e (claim_ok c')
            (bind_io (claim_candidates owner now expires (limit - 1) t (Suc i) rest) (\<lambda>(cs, stop). return_io (c' # cs, stop)))
            (\<lambda>(cs, _) st. \<forall>c \<in> set cs. claim_ok c st)"
          by (rule queries.triple_bind [OF P]) (auto intro!: queries.triple_return)
        then have "fleet_triple T C L k tok e (claim_ok c')
            (if limit \<le> 1 then return_io ([c'], if rest = [] then None else Some k0)
             else bind_io (claim_candidates owner now expires (limit - 1) t (Suc i) rest) (\<lambda>(cs, stop). return_io (c' # cs, stop)))
            (\<lambda>(cs, _) st. \<forall>c \<in> set cs. claim_ok c st)"
          by (auto intro: queries.triple_return)
        from triple_weaken [OF this] show ?thesis by (simp add: out)
      next
        case False
        then show ?thesis
          by (auto intro!: queries.triple_fail triple_weaken [OF Cons] split: sum.split outcome.split option.split)
      qed
    qed
  qed
qed

lemma claim_page_triple:
  "fleet_triple T C L k tok e (\<lambda>_. True) (claim_query_reconciliation_page place page_end owner now claim_seconds limit cursor t)
     (\<lambda>(cs, _) st. \<forall>c \<in> set cs. claim_ok c st)"
proof (cases "owner = [] \<or> owner \<noteq> py_strip owner \<or> 256 < length owner \<or> \<not> (15 \<le> claim_seconds \<and> claim_seconds \<le> 900)
        \<or> \<not> (1 \<le> limit \<and> limit \<le> 100)")
  case False
  have g: "fleet_triple T C L k tok e (\<lambda>_. True) (get_io (scan_page place cursor stop keep)) (\<lambda>_ _. True)" for stop keep
    by (rule triple_weaken [OF queries.triple_get [OF stable_True]]) auto
  show ?thesis unfolding claim_query_reconciliation_page_def Let_def if_not_P [OF False]
    by (rule queries.triple_bind [OF g], rule queries.triple_bind [OF claim_candidates_triple])
      (auto intro!: queries.triple_return)
qed (auto simp: claim_query_reconciliation_page_def intro: queries.triple_fail)

end
