(* ===== verification/QueryProps.thy ===== *)
theory QueryProps
  imports QueryGuard
begin

text \<open>
  What holds of every query table that the steps of a fleet reach: the concurrency of a scope, its scan counters,
  the history of a row, the evidence in the audit log, and that no row becomes unreadable to the workers.
\<close>

definition fleet_reachable :: "int \<Rightarrow> (string \<Rightarrow> int) \<Rightarrow> (string \<Rightarrow> int) \<Rightarrow> query_store \<Rightarrow> bool" where
  "fleet_reachable T C L st \<longleftrightarrow> (fleet_step T C L)\<^sup>*\<^sup>* empty_queries st"

lemma empty_fleet_ok: "fleet_ok T C L empty_queries"
  by (simp add: fleet_ok_def rows_ok_def slots_ok_def scans_ok_def evidence_ok_def empty_queries_def row_at_def scanned_def charges_def)

lemma reachable_fleet_ok: "fleet_reachable T C L st \<Longrightarrow> fleet_ok T C L st"
  unfolding fleet_reachable_def using fleet_steps_ok empty_fleet_ok by blast

text \<open>The queries of a tenant that are running in a scope at time \<open>T\<close>.\<close>

definition running_in :: "int \<Rightarrow> string \<Rightarrow> scope \<Rightarrow> query_store \<Rightarrow> query_key set" where
  "running_in T t s st = {k. \<exists>r. row_at k st = Some r \<and> active (lc_status r) \<and> T \<le> le_expires (lc_lease r)
     \<and> le_tenant (lc_lease r) = t \<and> s \<in> set (query_scopes (lc_lease r))}"

lemma slots_distinct:
  assumes "fleet_ok T C L st" "row_at k st = Some r" "row_at k' st = Some r'" "active (lc_status r)" "active (lc_status r')"
    "T \<le> le_expires (lc_lease r)" "T \<le> le_expires (lc_lease r')" "s \<in> set (query_scopes (lc_lease r))" "s \<in> set (query_scopes (lc_lease r'))"
    "query_slot_key (lc_lease r) s = query_slot_key (lc_lease r') s"
  shows "k = k'"
proof -
  have slots: "slots_ok T C st" and rows: "rows_ok st" using assms(1) by (simp_all add: fleet_ok_def)
  have "qs_slots st (query_slot_key (lc_lease r) s) = Some (slot_row_of (lc_lease r))"
    "qs_slots st (query_slot_key (lc_lease r') s) = Some (slot_row_of (lc_lease r'))"
    using slots assms(2-9) unfolding slots_ok_def by blast+
  then have "slot_row_of (lc_lease r) = slot_row_of (lc_lease r')" using assms(10) by simp
  then have "le_token (lc_lease r) = le_token (lc_lease r')" by (simp add: slot_row_of_def)
  then show ?thesis using rows assms(2,3) unfolding rows_ok_def by blast
qed

section \<open>A fleet at work\<close>

text \<open>One query is admitted, started, settled by its service, recorded and acknowledged; a second one is running.\<close>

definition demo_request :: "string \<Rightarrow> string \<Rightarrow> int \<Rightarrow> int \<Rightarrow> capacity_request" where
  "demo_request request tok slot now = \<lparr>cq_lease = \<lparr>le_tenant = ''t'', le_project = ''p'', le_principal = ''u'', le_request = request,
     le_datasource = ''d'', le_sha = ''h'', le_token = tok, le_window = 0, le_expires = now + 60, le_project_slot = slot,
     le_principal_slot = slot, le_reserved = 100\<rparr>,
     cq_project_concurrency = 2, cq_principal_concurrency = 2, cq_project_limit = 250, cq_principal_limit = 250,
     cq_window_seconds = 60, cq_lease_seconds = 60, cq_now = now\<rparr>"

definition demo_audit :: terminal_audit where
  "demo_audit = \<lparr>ta_status = Succeeded, ta_failure = None, ta_execution = Some ''x'', ta_state = Some ''SUCCEEDED'',
     ta_observed = Some 40, ta_accounted = 40, ta_engine_ms = Some 5, ta_cancel_requested = False, ta_accounting = ''actual'',
     ta_row_count = Some 3, ta_truncated = Some False, ta_result_bytes = Some 9\<rparr>"

abbreviation "demo_lease_1 \<equiv> cq_lease (demo_request ''q1'' ''a'' 0 10)"
abbreviation "demo_lease_2 \<equiv> cq_lease (demo_request ''q2'' ''b'' 1 20)"

definition after :: "nat list + query_store \<Rightarrow> query_store" where
  "after r = (case r of Inl _ \<Rightarrow> empty_queries | Inr st \<Rightarrow> st)"

definition demo_admitted :: query_store where
  "demo_admitted = after (txn_reserve_query (demo_request ''q1'' ''a'' 0 10) empty_queries)"

definition demo_started :: query_store where
  "demo_started = after (txn_mark_started demo_lease_1 ''x'' demo_admitted)"

definition demo_two :: query_store where
  "demo_two = after (txn_reserve_query (demo_request ''q2'' ''b'' 1 20) demo_started)"

definition demo_settled :: query_store where
  "demo_settled = after (txn_settle demo_lease_1 (service_settles demo_lease_1) (service_settled demo_audit ''c'' 70) 60
     (query_scopes demo_lease_1) (query_scopes demo_lease_1) demo_two)"

definition demo_recorded :: query_store where
  "demo_recorded = append_event (QueryResult (query_entry_of demo_lease_1 demo_audit)) demo_settled"

definition demo_acknowledged :: query_store where
  "demo_acknowledged = after (txn_acknowledge demo_lease_1 ''c'' demo_audit demo_recorded)"

lemmas demo_states = demo_admitted_def demo_started_def demo_two_def demo_settled_def demo_recorded_def demo_acknowledged_def

lemma afterI: "(case r of Inl _ \<Rightarrow> False | Inr st \<Rightarrow> True) \<Longrightarrow> r = Inr (after r)"
  by (simp add: after_def split: sum.splits)

abbreviation "demo_step \<equiv> fleet_step 30 (\<lambda>_. 2) (\<lambda>_. 250)"

lemma row_of_list: "row_at k st = Some r \<Longrightarrow> (k, r) \<in> set (qs_rows st)"
  by (simp add: row_at_def map_of_SomeD)

lemma fresh_by_rows: "list_all (\<lambda>(k, r). le_token (lc_lease r) \<noteq> tok) (qs_rows st) \<Longrightarrow> fresh_token tok st"
  unfolding fresh_token_def list_all_iff using row_of_list by fastforce

lemma current_by_rows: "list_all (\<lambda>(k, r). k = lease_key l \<longrightarrow> lc_lease r = l) (qs_rows st) \<Longrightarrow> lease_current l st"
  unfolding lease_current_def list_all_iff using row_of_list by fastforce

lemma request_ok_code:
  "request_ok T C L q \<longleftrightarrow> lease_readable (cq_lease q) \<and> cq_now q \<le> T \<and> list_all (\<lambda>s. 0 \<le> slot_of (cq_lease q) (scope_kind s)
     \<and> slot_of (cq_lease q) (scope_kind s) < C (scope_kind s) \<and> le_reserved (cq_lease q) \<le> scan_limit_of q (scope_kind s)
     \<and> scan_limit_of q (scope_kind s) \<le> L (scope_kind s)) (query_scopes (cq_lease q))"
  by (simp add: request_ok_def list_all_iff)

lemma demo_steps:
  "demo_step empty_queries demo_admitted" "demo_step demo_admitted demo_started" "demo_step demo_started demo_two"
  "demo_step demo_two demo_settled" "demo_step demo_settled demo_recorded" "demo_step demo_recorded demo_acknowledged"
proof -
  show "demo_step empty_queries demo_admitted" unfolding demo_admitted_def
    by (rule Reserve [OF _ fresh_by_rows afterI, where q = "demo_request ''q1'' ''a'' 0 10"]) (unfold request_ok_code, code_simp+)
  show "demo_step demo_admitted demo_started" unfolding demo_started_def
    by (rule Start [where execution = "''x''", OF _ afterI]) (simp, code_simp)
  show "demo_step demo_started demo_two" unfolding demo_two_def
    by (rule Reserve [OF _ fresh_by_rows afterI, where q = "demo_request ''q2'' ''b'' 1 20"]) (unfold request_ok_code, code_simp+)
  show "demo_step demo_two demo_settled" unfolding demo_settled_def
    by (rule ServiceSettle [where a = demo_audit and ct = "''c''" and ce = 70, OF current_by_rows _ _ _ _ _ _ afterI])
      (code_simp, code_simp, code_simp, simp add: demo_audit_def, code_simp, code_simp, simp, code_simp)
  show "demo_step demo_settled demo_recorded" unfolding demo_recorded_def by (rule Record)
  show "demo_step demo_recorded demo_acknowledged" unfolding demo_acknowledged_def
    by (rule Acknowledge [where a = demo_audit, OF _ current_by_rows _ afterI])
      (code_simp, code_simp, simp add: demo_recorded_def append_event_def, code_simp)
qed

lemma demo_reachable:
  "fleet_reachable 30 (\<lambda>_. 2) (\<lambda>_. 250) demo_two" "fleet_reachable 30 (\<lambda>_. 2) (\<lambda>_. 250) demo_settled"
  "fleet_reachable 30 (\<lambda>_. 2) (\<lambda>_. 250) demo_acknowledged" "demo_step\<^sup>*\<^sup>* demo_settled demo_acknowledged"
  unfolding fleet_reachable_def using demo_steps by (meson rtranclp.rtrancl_refl rtranclp.rtrancl_into_rtrancl)+

section \<open>Properties\<close>

text \<open>C2: At any time no more queries of a project, and no more queries of one principal, are running in a tenant
than the concurrency limit of the deployment allows, whatever instances, workers and failed calls did before: the
queries whose lease has not run out hold different slots.\<close>

theorem concurrency_bounded:
  assumes "fleet_reachable T C L st"
  shows "card (running_in T t s st) \<le> nat (C (scope_kind s))"
proof -
  note ok = reachable_fleet_ok [OF assms]
  define slot where "slot k = (case row_at k st of None \<Rightarrow> 0 | Some r \<Rightarrow> slot_of (lc_lease r) (scope_kind s))" for k
  have "slot ` running_in T t s st \<subseteq> {0..<C (scope_kind s)}"
    using ok by (auto simp: running_in_def slot_def fleet_ok_def slots_ok_def)
  moreover have "inj_on slot (running_in T t s st)"
  proof (rule inj_onI)
    fix k k' assume "k \<in> running_in T t s st" "k' \<in> running_in T t s st" and same: "slot k = slot k'"
    then obtain r r' where r: "row_at k st = Some r" "active (lc_status r)" "T \<le> le_expires (lc_lease r)"
        "le_tenant (lc_lease r) = t" "s \<in> set (query_scopes (lc_lease r))"
      and r': "row_at k' st = Some r'" "active (lc_status r')" "T \<le> le_expires (lc_lease r')"
        "le_tenant (lc_lease r') = t" "s \<in> set (query_scopes (lc_lease r'))"
      unfolding running_in_def by blast
    show "k = k'"
      by (rule slots_distinct [OF ok r(1) r'(1) r(2) r'(2) r(3) r'(3) r(5) r'(5)])
        (use same in \<open>simp add: query_slot_key_def slot_def r r'\<close>)
  qed
  ultimately have "card (running_in T t s st) \<le> card {0..<C (scope_kind s)}" by (intro card_inj_on_le) simp_all
  then show ?thesis by simp
qed

lemma running_by_rows:
  "running_in T t s st = {k. \<exists>r. row_at k st = Some r \<and> active (lc_status r) \<and> T \<le> le_expires (lc_lease r)
     \<and> le_tenant (lc_lease r) = t \<and> list_ex ((=) s) (query_scopes (lc_lease r))}"
  unfolding running_in_def list_ex_iff by auto

lemma concurrency_bounded_witness:
  "card (running_in 30 ''t'' (Scope ''project'' ''p'') demo_two) \<le> 2
   \<and> {QueryKey ''t'' ''p'' ''q1'', QueryKey ''t'' ''p'' ''q2''} \<subseteq> running_in 30 ''t'' (Scope ''project'' ''p'') demo_two"
proof
  show "card (running_in 30 ''t'' (Scope ''project'' ''p'') demo_two) \<le> 2"
    using concurrency_bounded [OF demo_reachable(1), of "''t''" "Scope ''project'' ''p''"] by simp
  have "case row_at k demo_two of None \<Rightarrow> False | Some r \<Rightarrow> active (lc_status r) \<and> 30 \<le> le_expires (lc_lease r)
      \<and> le_tenant (lc_lease r) = ''t'' \<and> list_ex ((=) (Scope ''project'' ''p'')) (query_scopes (lc_lease r))"
    if "k = QueryKey ''t'' ''p'' ''q1'' \<or> k = QueryKey ''t'' ''p'' ''q2''" for k
    using that by (elim disjE) (simp only:, code_simp)+
  then show "{QueryKey ''t'' ''p'' ''q1'', QueryKey ''t'' ''p'' ''q2''} \<subseteq> running_in 30 ''t'' (Scope ''project'' ''p'') demo_two"
    unfolding running_by_rows by (fastforce split: option.splits)
qed

text \<open>C3: The scan counter of every project and principal in every window is exactly the sum of what its queries have
reserved or, once settled, were charged; it never exceeds the scan budget.\<close>

theorem scan_budget_exact:
  assumes "fleet_reachable T C L st"
  shows "scanned st (ScopeKey t s w) = charges st (ScopeKey t s w)
    \<and> (qs_scans st (ScopeKey t s w) \<noteq> None \<longrightarrow> charges st (ScopeKey t s w) \<le> L (scope_kind s))"
proof -
  have ok: "scans_ok L st" using reachable_fleet_ok [OF assms] by (simp add: fleet_ok_def)
  then have "scanned st key = charges st key" for key by (simp add: scans_ok_def)
  with ok show ?thesis unfolding scans_ok_def by metis
qed

lemma scan_budget_exact_witness:
  "charges demo_settled (ScopeKey ''t'' (Scope ''project'' ''p'') 0) = 140
   \<and> charges demo_settled (ScopeKey ''t'' (Scope ''project'' ''p'') 0) \<le> 250"
proof
  have "scanned demo_settled (ScopeKey ''t'' (Scope ''project'' ''p'') 0) = 140" by code_simp
  then show "charges demo_settled (ScopeKey ''t'' (Scope ''project'' ''p'') 0) = 140"
    using scan_budget_exact [OF demo_reachable(2)] by metis
  have "qs_scans demo_settled (ScopeKey ''t'' (Scope ''project'' ''p'') 0) \<noteq> None" by code_simp
  with scan_budget_exact [OF demo_reachable(2)]
  show "charges demo_settled (ScopeKey ''t'' (Scope ''project'' ''p'') 0) \<le> 250" by metis
qed

text \<open>C36: No step of any instance or worker takes back what was settled: a row keeps its lease for good; once it is
terminal its status, its charge, its execution and its evidence never change, and the audit log only grows.\<close>

theorem settled_for_good:
  assumes "(fleet_step T C L)\<^sup>*\<^sup>* st st'" "row_at k st = Some r"
  shows "\<exists>r'. row_at k st' = Some r' \<and> lc_lease r' = lc_lease r
    \<and> (\<not> active (lc_status r) \<longrightarrow> lc_status r' = lc_status r \<and> lc_actual r' = lc_actual r \<and> lc_audit r' = lc_audit r
         \<and> lc_execution r' = lc_execution r \<and> (lc_pending r' \<longrightarrow> lc_pending r))
    \<and> prefix (qs_log st) (qs_log st')"
  using fleet_steps_later [OF assms(1)] assms(2) unfolding fleet_later_def row_later_def by metis

definition demo_row :: "query_store \<Rightarrow> lifecycle" where
  "demo_row st = the (row_at (QueryKey ''t'' ''p'' ''q1'') st)"

lemma demo_row_at: "row_at (QueryKey ''t'' ''p'' ''q1'') st \<noteq> None \<Longrightarrow> row_at (QueryKey ''t'' ''p'' ''q1'') st = Some (demo_row st)"
  by (auto simp: demo_row_def)

lemma settled_for_good_witness:
  "lc_audit (demo_row demo_acknowledged) = Some demo_audit \<and> lc_actual (demo_row demo_acknowledged) = Some 40"
proof -
  have "row_at (QueryKey ''t'' ''p'' ''q1'') demo_settled \<noteq> None" by code_simp
  note r = demo_row_at [OF this]
  have "\<not> active (lc_status (demo_row demo_settled))" "lc_audit (demo_row demo_settled) = Some demo_audit"
    "lc_actual (demo_row demo_settled) = Some 40" by code_simp+
  with settled_for_good [OF demo_reachable(4) r] show ?thesis by (auto simp: demo_row_def)
qed

text \<open>C37: A query is never marked as audited before its outcome stands in the audit log of its tenant.\<close>

theorem audited_means_logged:
  assumes "fleet_reachable T C L st" "row_at k st = Some r" "\<not> active (lc_status r)" "\<not> lc_pending r"
  shows "\<exists>a. lc_audit r = Some a \<and> (\<exists>ev \<in> set (qs_log st). tells (lc_lease r) a ev)"
proof -
  note ok = reachable_fleet_ok [OF assms(1)]
  obtain a where "lc_audit r = Some a" using fleet_row [OF ok assms(2)] assms(3) by (auto simp: row_typed_def split: option.splits)
  with fleet_evidence [OF ok assms(2-4)] show ?thesis by blast
qed

lemma audited_means_logged_witness:
  "\<exists>a. lc_audit (demo_row demo_acknowledged) = Some a
     \<and> (\<exists>ev \<in> set (qs_log demo_acknowledged). tells (lc_lease (demo_row demo_acknowledged)) a ev)"
proof -
  have "row_at (QueryKey ''t'' ''p'' ''q1'') demo_acknowledged \<noteq> None" by code_simp
  note r = demo_row_at [OF this]
  have "\<not> active (lc_status (demo_row demo_acknowledged))" "\<not> lc_pending (demo_row demo_acknowledged)" by code_simp+
  from audited_means_logged [OF demo_reachable(3) r this] show ?thesis .
qed

text \<open>C38: Every row that a reconciliation worker may have to claim can be read back as a claim: no row that the fleet
writes is dropped by the workers as malformed.\<close>

theorem rows_stay_readable:
  assumes "fleet_reachable T C L st" "row_at k st = Some r" "claim_eligible now r" "tok \<noteq> []"
  shows "\<exists>c. claim_from_row k r tok = Some c \<and> cl_lease c = lc_lease r \<and> cl_status c = lc_status r"
proof -
  have "lease_key (lc_lease r) = k" and typed: "row_typed r" using fleet_row [OF reachable_fleet_ok [OF assms(1)] assms(2)] by simp_all
  moreover have "claim_valid \<lparr>cl_lease = lc_lease r, cl_token = tok, cl_status = lc_status r, cl_execution = lc_execution r,
      cl_audit = (if active (lc_status r) then None else lc_audit r)\<rparr>"
    using typed assms(4) by (auto simp: claim_valid_def row_typed_def terminal_audit_valid_def active_def split: option.splits if_splits)
  ultimately show ?thesis using assms(3)
    by (auto simp: claim_from_row_def row_typed_def claim_eligible_def split: option.splits if_splits)
qed

lemma rows_stay_readable_witness:
  "\<exists>c. claim_from_row (QueryKey ''t'' ''p'' ''q1'') (demo_row demo_settled) ''w'' = Some c \<and> cl_status c = Succeeded"
proof -
  have "row_at (QueryKey ''t'' ''p'' ''q1'') demo_settled \<noteq> None" by code_simp
  note r = demo_row_at [OF this]
  have "claim_eligible 100 (demo_row demo_settled)" "lc_status (demo_row demo_settled) = Succeeded" by code_simp+
  from rows_stay_readable [OF demo_reachable(2) r this(1), of "''w''"] this(2) show ?thesis by auto
qed

end
