(* ===== verification/AthenaProps.thy ===== *)
theory AthenaProps
  imports Athena
begin

text \<open>
  Bounds of an Athena execution: the status loops end within their deadline, the results stay within the limits and
  are counted exactly, and what was billed is reported.
\<close>

declare wait_for_query.simps [code] watch_cancel.simps [code] read_results.simps [code]

section \<open>The loops end\<close>

text \<open>\<open>asyncio.sleep\<close> does not return early: between two looks the clock advances by what the loop sleeps.\<close>

definition sleeps :: "rat \<Rightarrow> rat \<Rightarrow> (nat \<Rightarrow> look) \<Rightarrow> bool" where
  "sleeps poll deadline looks \<longleftrightarrow> (\<forall>i. lk_clock (looks i) + min poll (deadline - lk_clock (looks i)) \<le> lk_clock (looks (Suc i)))"

text \<open>What one look decides, \<open>None\<close> when the loop goes on.\<close>

definition wait_step :: "look \<Rightarrow> string \<Rightarrow> rat \<Rightarrow> json step option" where
  "wait_step lk eid deadline = (case query_execution (lk_reply lk) eid of
     Cancelled_out \<Rightarrow> Some Cancelled_out
   | Crashed \<Rightarrow> Some Crashed
   | Err e \<Rightarrow> Some (Err e)
   | Ok execution \<Rightarrow>
       (case termination_of execution eid False of
          Inl e \<Rightarrow> Some (Err e)
        | Inr t \<Rightarrow>
            if tm_terminal t then Some (Ok execution)
            else if deadline - lk_clock lk \<le> 0 then Some (Err (athena_error_of ''athena_query_timeout''))
            else if lk_cut lk then Some Cancelled_out
            else None))"

lemma wait_unfold:
  "wait_for_query c looks eid deadline i = (case wait_step (looks i) eid deadline of
     None \<Rightarrow> wait_for_query c looks eid deadline (Suc i) | Some y \<Rightarrow> Some y)"
  by (subst wait_for_query.simps) (simp add: wait_step_def split: step.split sum.split)

lemma wait_step_deadline: "wait_step lk eid deadline = None \<Longrightarrow> lk_clock lk < deadline"
  by (auto simp: wait_step_def split: step.splits sum.splits if_splits)

lemma wait_bounded:
  assumes "sleeps poll deadline looks" "0 < poll" "deadline - lk_clock (looks i) \<le> of_nat n * poll"
  shows "\<exists>y. \<forall>looks'. (\<forall>j \<le> n. looks' (i + j) = looks (i + j)) \<longrightarrow> wait_for_query c looks' eid deadline i = Some y"
  using assms(3)
proof (induction n arbitrary: i)
  case 0
  then obtain y where y: "wait_step (looks i) eid deadline = Some y"
    using wait_step_deadline [of "looks i" eid deadline] by (cases "wait_step (looks i) eid deadline") auto
  show ?case by (rule exI [of _ y]) (use y in \<open>auto simp: wait_unfold [of _ _ _ _ i]\<close>)
next
  case (Suc n)
  show ?case
  proof (cases "wait_step (looks i) eid deadline")
    case (Some y)
    show ?thesis by (rule exI [of _ y]) (use Some in \<open>auto simp: wait_unfold [of _ _ _ _ i] dest: spec [of _ 0]\<close>)
  next
    case None
    have "deadline - lk_clock (looks (Suc i)) \<le> max (deadline - lk_clock (looks i) - poll) 0"
      using assms(1) [unfolded sleeps_def, THEN spec, of i] by (simp add: min_def max_def split: if_splits)
    also have "\<dots> \<le> of_nat n * poll" using Suc.prems assms(2) by (simp add: algebra_simps)
    finally obtain y where y: "\<forall>looks'. (\<forall>j \<le> n. looks' (Suc i + j) = looks (Suc i + j)) \<longrightarrow> wait_for_query c looks' eid deadline (Suc i) = Some y"
      using Suc.IH by blast
    show ?thesis
    proof (intro exI [of _ y] allI impI)
      fix looks' :: "nat \<Rightarrow> look" assume same: "\<forall>j \<le> Suc n. looks' (i + j) = looks (i + j)"
      have "looks' i = looks i" using same by (metis add_0_right le0)
      moreover have "\<forall>j \<le> n. looks' (Suc i + j) = looks (Suc i + j)" using same by (metis Suc_le_mono add_Suc_shift)
      ultimately show "wait_for_query c looks' eid deadline i = Some y"
        using y None by (simp add: wait_unfold [of _ _ _ _ i])
    qed
  qed
qed

text \<open>C25: Waiting for a query always ends: with a clock that sleeps do not shorten it makes at most one look more than
the timeout divided by the poll interval, rounded up, and later looks cannot change its answer.\<close>

theorem wait_for_query_ends:
  assumes "athena_limits_valid c" "sleeps (al_poll c) (start + al_timeout c) looks" "start \<le> lk_clock (looks 0)"
  shows "\<exists>y. \<forall>looks'. (\<forall>j \<le> nat \<lceil>al_timeout c / al_poll c\<rceil>. looks' j = looks j)
    \<longrightarrow> wait_for_query c looks' eid (start + al_timeout c) 0 = Some y"
proof -
  have poll: "0 < al_poll c" "0 < al_timeout c" using assms(1) by (simp_all add: athena_limits_valid_def)
  have "al_timeout c / al_poll c \<le> of_nat (nat \<lceil>al_timeout c / al_poll c\<rceil>)" by (rule of_nat_ceiling)
  then have "al_timeout c \<le> of_nat (nat \<lceil>al_timeout c / al_poll c\<rceil>) * al_poll c"
    by (rule iffD1 [OF pos_divide_le_eq [OF poll(1)]])
  then have "start + al_timeout c - lk_clock (looks 0) \<le> of_nat (nat \<lceil>al_timeout c / al_poll c\<rceil>) * al_poll c"
    using assms(3) by linarith
  from wait_bounded [OF assms(2) poll(1) this] show ?thesis by simp
qed


definition demo_limits :: athena_limits where
  "demo_limits = \<lparr>al_timeout = 2, al_max_rows = 2, al_max_bytes = 1024, al_max_scanned = 100, al_poll = 1\<rparr>"

definition running_look :: "nat \<Rightarrow> look" where
  "running_look i = \<lparr>lk_reply = Got (JObj [(''QueryExecution'', JObj [(''Status'', JObj [(''State'', JStr ''RUNNING'')])])]),
     lk_clock = of_nat i, lk_cut = False\<rparr>"

lemma running_sleeps: "sleeps 1 2 running_look"
  by (simp add: sleeps_def running_look_def)

lemma wait_for_query_ends_witness:
  "wait_for_query demo_limits running_look ''x'' (0 + 2) 0 = Some (Err (athena_error_of ''athena_query_timeout''))"
proof -
  have l: "al_timeout demo_limits = 2" "al_poll demo_limits = 1" by (simp_all add: demo_limits_def)
  have "athena_limits_valid demo_limits" by (simp add: athena_limits_valid_def demo_limits_def)
  moreover have "sleeps (al_poll demo_limits) (0 + al_timeout demo_limits) running_look" using running_sleeps by (simp add: l)
  moreover have "0 \<le> lk_clock (running_look 0)" by (simp add: running_look_def)
  ultimately obtain y where "wait_for_query demo_limits running_look ''x'' (0 + 2) 0 = Some y"
    using wait_for_query_ends [of demo_limits 0 running_look "''x''"] unfolding l by blast
  have step: "wait_step (running_look i) ''x'' 2 = (if i < 2 then None else Some (Err (athena_error_of ''athena_query_timeout'')))" for i
    by (simp add: wait_step_def running_look_def query_execution_def jget_def termination_of_def state_of_def statistics_of_def
      TERMINAL_STATES_def ACTIVE_STATES_def)
  have "wait_for_query demo_limits running_look ''x'' 2 0 = Some (Err (athena_error_of ''athena_query_timeout''))"
    by (subst wait_unfold, simp add: step, subst wait_unfold, simp add: step, subst wait_unfold, simp add: step)
  then show ?thesis by simp
qed

text \<open>The same for the loop of a cancellation.\<close>

definition watch_step :: "look \<Rightarrow> string \<Rightarrow> bool \<Rightarrow> rat \<Rightarrow> termination_seen \<Rightarrow> termination_seen step + termination_seen" where
  "watch_step lk eid requested deadline t =
     (if tm_terminal t then Inl (Ok t)
      else if deadline - lk_clock lk \<le> 0 then Inl (Ok t)
      else if lk_cut lk then Inl Cancelled_out
      else (case query_execution (lk_reply lk) eid of
         Cancelled_out \<Rightarrow> Inl Cancelled_out
       | Crashed \<Rightarrow> Inl Crashed
       | Err e \<Rightarrow> Inl (Err e)
       | Ok execution \<Rightarrow> (case termination_of execution eid requested of Inl e \<Rightarrow> Inl (Err e) | Inr t' \<Rightarrow> Inr t')))"

lemma watch_unfold:
  "watch_cancel looks eid requested deadline t i = (case watch_step (looks i) eid requested deadline t of
     Inl y \<Rightarrow> Some y | Inr t' \<Rightarrow> watch_cancel looks eid requested deadline t' (Suc i))"
  by (subst watch_cancel.simps) (simp add: watch_step_def split: step.split sum.split)

lemma watch_bounded:
  assumes "sleeps poll deadline looks" "0 < poll" "deadline - lk_clock (looks i) \<le> of_nat n * poll"
  shows "\<exists>y. watch_cancel looks eid requested deadline t i = Some y"
  using assms(3)
proof (induction n arbitrary: i t)
  case 0
  then show ?case by (subst watch_unfold) (simp add: watch_step_def)
next
  case (Suc n)
  have "deadline - lk_clock (looks (Suc i)) \<le> max (deadline - lk_clock (looks i) - poll) 0"
    using assms(1) [unfolded sleeps_def, THEN spec, of i] by (simp add: min_def max_def split: if_splits)
  also have "\<dots> \<le> of_nat n * poll" using Suc.prems assms(2) by (simp add: algebra_simps)
  finally have "\<exists>y. watch_cancel looks eid requested deadline t' (Suc i) = Some y" for t' by (rule Suc.IH)
  then show ?case by (subst watch_unfold) (simp split: sum.split)
qed

text \<open>Whatever the watch of a cancellation answers is well-formed and about the query it was asked for.\<close>

lemma watch_valid:
  assumes "watch_cancel looks eid requested deadline t i = Some y"
  shows "eid \<noteq> [] \<Longrightarrow> termination_valid t \<Longrightarrow> tm_execution t = eid \<Longrightarrow> y = Ok t' \<Longrightarrow> termination_valid t' \<and> tm_execution t' = eid"
  using assms
proof (induction rule: watch_cancel.raw_induct [rotated 1, consumes 1, case_names loop])
  case (loop watch looks eid requested deadline t i y)
  have "(case watch_step (looks i) eid requested deadline t of
     Inl y \<Rightarrow> Some y | Inr t' \<Rightarrow> watch looks eid requested deadline t' (Suc i)) = Some y"
    using loop.hyps unfolding watch_step_def by (simp split: step.splits sum.splits if_splits)
  moreover have "termination_valid t0 \<and> tm_execution t0 = eid"
    if "watch_step (looks i) eid requested deadline t = Inr t0 \<or> watch_step (looks i) eid requested deadline t = Inl (Ok t0)" for t0
    using that loop.prems by (auto simp: watch_step_def termination_of_valid split: step.splits sum.splits if_splits)
  ultimately show ?case using loop.IH loop.prems by (auto split: sum.splits)
qed

section \<open>Results within their limits\<close>

definition reading_ok :: "athena_limits \<Rightarrow> int \<Rightarrow> reading \<Rightarrow> bool" where
  "reading_ok c max_rows rd \<longleftrightarrow> rd_bytes rd = compact_json_bytes (result_doc (rd_columns rd) (rd_rows rd))
     \<and> int (rd_bytes rd) \<le> al_max_bytes c \<and> int (length (rd_rows rd)) \<le> max_rows
     \<and> (\<forall>r \<in> set (rd_rows rd). length r = length (rd_columns rd))"

lemma result_doc_snoc:
  "compact_json_bytes (result_doc cols (rows @ [row])) =
     compact_json_bytes (result_doc cols rows) + compact_json_bytes (row_doc row) + (if rows = [] then 0 else 1)"
  by (cases rows) (simp_all add: result_doc_def)

lemma collect_length: "collect f xs = Some ys \<Longrightarrow> length ys = length xs"
  by (induction xs arbitrary: ys) (auto split: option.splits)

lemma collect_nonempty: "collect f xs = Some ys \<Longrightarrow> ys = [] \<longleftrightarrow> xs = []"
  using collect_length by (metis length_0_conv)

lemma row_of_width: "row_of width j = Some row \<Longrightarrow> length row = width"
  by (auto simp: row_of_def split: json.splits option.splits if_splits)

lemma page_rows_ok:
  assumes "page_rows c max_rows raws rd = Inr (b, rd')" "reading_ok c max_rows rd"
  shows "reading_ok c max_rows rd' \<and> rd_columns rd' = rd_columns rd"
  using assms
proof (induction raws arbitrary: rd)
  case (Cons raw raws)
  obtain row where row: "row_of (length (rd_columns rd)) raw = Some row"
    using Cons.prems(1) by (auto split: option.splits)
  let ?skip = "rd_first rd \<and> row = map (\<lambda>(n, _). Some n) (rd_columns rd)"
  let ?n = "compact_json_bytes (row_doc row) + (if rd_rows rd = [] then 0 else 1)"
  let ?full = "max_rows \<le> int (length (rd_rows rd)) \<or> al_max_bytes c < int (rd_bytes rd + ?n)"
  let ?rd = "rd\<lparr>rd_rows := rd_rows rd @ [row], rd_bytes := rd_bytes rd + ?n, rd_first := False\<rparr>"
  have unfold: "page_rows c max_rows (raw # raws) rd = (if ?skip then page_rows c max_rows raws (rd\<lparr>rd_first := False\<rparr>)
     else if ?full then Inr (True, rd\<lparr>rd_first := False\<rparr>) else page_rows c max_rows raws ?rd)"
    unfolding page_rows.simps row option.case Let_def by (rule refl)
  have same: "reading_ok c max_rows (rd\<lparr>rd_first := False\<rparr>)" using Cons.prems(2) by (simp add: reading_ok_def)
  consider ?skip | "\<not> ?skip" ?full | "\<not> ?skip" "\<not> ?full" by blast
  then show ?case
  proof cases
    case 1
    have "page_rows c max_rows raws (rd\<lparr>rd_first := False\<rparr>) = Inr (b, rd')" using Cons.prems(1) unfolding unfold if_P [OF 1] .
    from Cons.IH [OF this same] show ?thesis by simp
  next
    case 2
    have "Inr (True, rd\<lparr>rd_first := False\<rparr>) = (Inr (b, rd') :: unit + bool \<times> reading)"
      using Cons.prems(1) unfolding unfold if_not_P [OF 2(1)] if_P [OF 2(2)] .
    then show ?thesis using same by auto
  next
    case 3
    have next_rows: "page_rows c max_rows raws ?rd = Inr (b, rd')"
      using Cons.prems(1) unfolding unfold if_not_P [OF 3(1)] if_not_P [OF 3(2)] .
    have "reading_ok c max_rows ?rd"
      using Cons.prems(2) 3(2) row_of_width [OF row] unfolding reading_ok_def by (auto simp: result_doc_snoc)
    from Cons.IH [OF next_rows this] show ?thesis by simp
  qed
qed simp

lemma page_columns_ok:
  assumes "page_columns c result rd = Inr rd'" "rd_columns rd \<noteq> [] \<longrightarrow> reading_ok c max_rows rd" "rd_columns rd = [] \<longrightarrow> rd_rows rd = []" "0 \<le> max_rows"
  shows "reading_ok c max_rows rd' \<and> rd_columns rd' \<noteq> []"
proof (cases "rd_columns rd = []")
  case True
  then have "\<exists>cols. cols \<noteq> [] \<and> rd' = rd\<lparr>rd_columns := cols, rd_bytes := compact_json_bytes (result_doc cols [])\<rparr>
      \<and> int (compact_json_bytes (result_doc cols [])) \<le> al_max_bytes c"
    using assms(1) collect_nonempty
    by (simp add: page_columns_def Let_def not_less split: option.splits json.splits if_splits) blast
  then show ?thesis using True assms(3,4) by (auto simp: reading_ok_def)
next
  case False
  then have "rd' = rd" using assms(1) by (auto simp: page_columns_def Let_def split: option.splits json.splits if_splits)
  then show ?thesis using False assms(2) by simp
qed

lemma read_page_ok:
  assumes "0 \<le> max_rows" "rd_columns rd \<noteq> [] \<longrightarrow> reading_ok c max_rows rd" "rd_columns rd = [] \<longrightarrow> rd_rows rd = []"
    "read_page c max_rows seen r rd = Inl (Ok (b, rd')) \<or> read_page c max_rows seen r rd = Inr (token, rd')"
  shows "reading_ok c max_rows rd' \<and> rd_columns rd' \<noteq> []"
proof -
  obtain result rd1 raws b' where "page_columns c result rd = Inr rd1" "page_rows c max_rows raws rd1 = Inr (b', rd')"
    using assms(4) by (auto simp: read_page_def split: reply.splits json.splits sum.splits option.splits bool.splits if_splits)
  with page_columns_ok [OF _ assms(2,3,1)] page_rows_ok show ?thesis by metis
qed

lemma read_results_ok:
  assumes "read_results c max_rows pages i seen rd = Some y"
  shows "0 \<le> max_rows \<Longrightarrow> rd_columns rd \<noteq> [] \<longrightarrow> reading_ok c max_rows rd \<Longrightarrow> rd_columns rd = [] \<longrightarrow> rd_rows rd = []
     \<Longrightarrow> y = Ok (b, rd') \<Longrightarrow> reading_ok c max_rows rd' \<and> rd_columns rd' \<noteq> []"
  using assms
proof (induction rule: read_results.raw_induct [rotated 1, consumes 1, case_names loop])
  case (loop read c max_rows pages i seen rd y)
  show ?case
  proof (cases "read_page c max_rows seen (pages i) rd")
    case (Inl x)
    then show ?thesis using loop.hyps loop.prems read_page_ok [of max_rows rd c seen "pages i" b rd'] by simp
  next
    case (Inr p)
    obtain token rd1 where p: "p = (token, rd1)" by (cases p)
    have "reading_ok c max_rows rd1 \<and> rd_columns rd1 \<noteq> []"
      using read_page_ok [OF loop.prems(1-3)] Inr p by blast
    then show ?thesis using loop.IH [of c max_rows pages "Suc i" "token # seen" rd1] loop.hyps loop.prems Inr p by simp
  qed
qed


lemma read_results_error:
  assumes "read_results c max_rows pages i seen rd = Some y"
  shows "y = Err e \<Longrightarrow> e = results_failed"
  using assms
proof (induction rule: read_results.raw_induct [rotated 1, consumes 1, case_names loop])
  case (loop read c max_rows pages i seen rd y)
  have "read_page c max_rows seen r rd = Inl (Err e) \<Longrightarrow> e = results_failed" for r
    by (auto simp: read_page_def split: reply.splits json.splits sum.splits option.splits bool.splits if_splits)
  then show ?case using loop by (auto split: sum.splits)
qed

lemma judge_result:
  assumes "judge c max_rows pages t = Some (Ok r)" "1 \<le> max_rows" "termination_valid t"
  shows "tm_state t = ''SUCCEEDED''" "tm_scanned t = Some (ar_scanned r)" "0 \<le> ar_scanned r" "ar_scanned r \<le> al_max_scanned c"
    "ar_execution r = tm_execution t" "int (length (ar_rows r)) \<le> max_rows"
    "ar_bytes r = int (compact_json_bytes (result_doc (ar_columns r) (ar_rows r)))" "ar_bytes r \<le> al_max_bytes c"
    "\<forall>row \<in> set (ar_rows r). length row = length (ar_columns r)"
proof -
  obtain scanned ms truncated rd where d: "tm_scanned t = Some scanned" "tm_state t = ''SUCCEEDED''" "scanned \<le> al_max_scanned c"
    "read_results c max_rows pages 0 [] new_reading = Some (Ok (truncated, rd))"
    "r = \<lparr>ar_execution = tm_execution t, ar_columns = rd_columns rd, ar_rows = rd_rows rd,
       ar_truncated = truncated, ar_scanned = scanned, ar_engine_ms = ms, ar_bytes = int (rd_bytes rd)\<rparr>"
    using assms(1) by (auto simp: judge_def Let_def split: option.splits if_splits step.splits)
  have "reading_ok c max_rows rd"
    using read_results_ok [OF d(4)] assms(2) by (simp add: new_reading_def)
  then show "tm_state t = ''SUCCEEDED''" "tm_scanned t = Some (ar_scanned r)" "0 \<le> ar_scanned r" "ar_scanned r \<le> al_max_scanned c"
    "ar_execution r = tm_execution t" "int (length (ar_rows r)) \<le> max_rows"
    "ar_bytes r = int (compact_json_bytes (result_doc (ar_columns r) (ar_rows r)))" "ar_bytes r \<le> al_max_bytes c"
    "\<forall>row \<in> set (ar_rows r). length row = length (ar_columns r)"
    using d(1-3) assms(3) unfolding d(5) reading_ok_def termination_valid_def by simp_all
qed

lemma judge_error:
  assumes "judge c max_rows pages t = Some (Err e)"
  shows "ae_execution e = Some (tm_execution t)" "ae_state e = Some (tm_state t)" "ae_scanned e = tm_scanned t" "ae_may_have_started e"
proof -
  have "\<exists>code. e = attach_termination t (athena_error_of code)"
    using assms by (auto simp: judge_def Let_def results_failed_def dest!: read_results_error [OF _ refl] split: option.splits if_splits step.splits)
  then show "ae_execution e = Some (tm_execution t)" "ae_state e = Some (tm_state t)" "ae_scanned e = tm_scanned t" "ae_may_have_started e"
    by (auto simp: attach_termination_def athena_error_of_def or_else_def)
qed

text \<open>An answer comes from a started execution that was followed to its end.\<close>

lemma execute_result:
  assumes "execute_query c sc ds tenant project requested on_started w = (Some (Some (Ok r), seen), w')"
  obtains n started eid execution t where "row_limit c requested = Some n" "as_start sc = Got started" "execution_id_of started = Some eid"
    "wait_for_query c (as_looks sc) eid (as_clock sc + al_timeout c) 0 = Some (Ok execution)"
    "termination_of execution eid False = Inr t" "judge c n (as_pages sc) t = Some (Ok r)"
    "validate_workgroup c (as_workgroup sc) = Ok ()" "ds_tenant ds = tenant" "ds_project ds = project"
proof -
  obtain tr w1 where b: "execute_bounded c sc ds tenant project requested on_started w = (Some (Some (Ok r), tr), w1)"
    using assms by (auto simp: execute_query_def bind_io_def return_io_def split: prod.splits option.splits if_splits)
  then obtain n where n: "row_limit c requested = Some n" "validate_workgroup c (as_workgroup sc) = Ok ()" "ds_tenant ds = tenant" "ds_project ds = project"
    and s: "execute_started c n sc on_started w = (Some (Some (Ok r), tr), w1)"
    by (auto simp: execute_bounded_def Let_def return_io_def split: if_splits option.splits reply.splits step.splits)
  obtain started eid where st: "as_start sc = Got started" "execution_id_of started = Some eid"
    using s by (auto simp: execute_started_def Let_def return_io_def bind_io_def split: reply.splits option.splits prod.splits)
  have "fst (follow c n sc eid) = Some (Ok r)"
    using s unfolding execute_started_def Let_def st reply.case option.case
    by (auto simp: return_io_def bind_io_def split: option.splits prod.splits if_splits)
  then obtain execution t where "wait_for_query c (as_looks sc) eid (as_clock sc + al_timeout c) 0 = Some (Ok execution)"
    "termination_of execution eid False = Inr t" "judge c n (as_pages sc) t = Some (Ok r)"
    by (auto simp: follow_def split: option.splits step.splits sum.splits)
  with n st show thesis by (intro that)
qed

lemma execution_id_nonempty: "execution_id_of j = Some eid \<Longrightarrow> eid \<noteq> []"
  by (auto simp: execution_id_of_def split: json.splits if_splits)

text \<open>C23: An answer stays within every limit of the deployment: it comes from the execution that was started, in a workgroup that
enforces its configuration, after it was seen to have succeeded; it scanned no more than allowed, has no more rows than asked
for, every row has the width of the header, and the reported size is exactly that of the answer as compact JSON.\<close>

theorem athena_answer_within_limits:
  assumes "execute_query c sc ds tenant project requested on_started w = (Some (Some (Ok r), seen), w')"
  shows "validate_workgroup c (as_workgroup sc) = Ok () \<and> ds_tenant ds = tenant \<and> ds_project ds = project
    \<and> (\<exists>started. as_start sc = Got started \<and> execution_id_of started = Some (ar_execution r))
    \<and> 0 \<le> ar_scanned r \<and> ar_scanned r \<le> al_max_scanned c
    \<and> int (length (ar_rows r)) \<le> (case requested of None \<Rightarrow> al_max_rows c | Some n \<Rightarrow> min n (al_max_rows c))
    \<and> (\<forall>row \<in> set (ar_rows r). length row = length (ar_columns r))
    \<and> ar_bytes r = int (compact_json_bytes (result_doc (ar_columns r) (ar_rows r))) \<and> ar_bytes r \<le> al_max_bytes c"
proof -
  obtain n started eid execution t where d: "row_limit c requested = Some n" "as_start sc = Got started" "execution_id_of started = Some eid"
    "termination_of execution eid False = Inr t" "judge c n (as_pages sc) t = Some (Ok r)"
    "validate_workgroup c (as_workgroup sc) = Ok ()" "ds_tenant ds = tenant" "ds_project ds = project"
    using execute_result [OF assms] by metis
  have n: "1 \<le> n" "n = (case requested of None \<Rightarrow> al_max_rows c | Some n \<Rightarrow> min n (al_max_rows c))"
    using d(1) by (auto simp: row_limit_def Let_def split: option.splits if_splits)
  note t = termination_of_valid [OF d(4) execution_id_nonempty [OF d(3)]]
  from judge_result [OF d(5) n(1) t(1)] show ?thesis using d(2,3,6-8) t(2) n(2) by simp
qed


text \<open>A workgroup and an execution of two rows.\<close>

definition demo_workgroup :: json where
  "demo_workgroup = JObj [(''WorkGroup'', JObj [(''State'', JStr ''ENABLED''), (''Configuration'', JObj [
     (''EnforceWorkGroupConfiguration'', JBool True), (''PublishCloudWatchMetricsEnabled'', JBool True),
     (''BytesScannedCutoffPerQuery'', JInt 100),
     (''ResultConfiguration'', JObj [(''OutputLocation'', JStr ''s3://bucket/results''),
        (''EncryptionConfiguration'', JObj [(''EncryptionOption'', JStr ''SSE_KMS''), (''KmsKey'', JStr ''k'')])])])])]"

definition cell :: "string \<Rightarrow> json" where
  "cell s = JObj [(''Data'', JList [JObj [(''VarCharValue'', JStr s)]])]"

definition demo_script :: athena_script where
  "demo_script = \<lparr>as_factory = Got (), as_workgroup = Got demo_workgroup, as_start = Got (JObj [(''QueryExecutionId'', JStr ''x'')]),
     as_late = None, as_callback_cut = False, as_clock = 0,
     as_looks = (\<lambda>i. \<lparr>lk_reply = Got (JObj [(''QueryExecution'', JObj [(''Status'', JObj [(''State'', JStr (if i = 0 then ''RUNNING'' else ''SUCCEEDED''))]),
        (''Statistics'', JObj [(''DataScannedInBytes'', JInt 40), (''EngineExecutionTimeInMillis'', JInt 5)])])]),
        lk_clock = of_nat i, lk_cut = False\<rparr>),
     as_pages = (\<lambda>_. Got (JObj [(''ResultSet'', JObj [
        (''ResultSetMetadata'', JObj [(''ColumnInfo'', JList [JObj [(''Name'', JStr ''n''), (''Type'', JStr ''varchar'')]])]),
        (''Rows'', JList [cell ''n'', cell ''a'', cell ''b'', cell ''c''])])])),
     as_stop = True, as_deadline = False\<rparr>"

definition demo_datasource :: datasource where
  "demo_datasource = \<lparr>ds_tenant = ''t'', ds_project = ''p'', ds_role = ''r'', ds_enabled = True\<rparr>"

definition no_world :: "unit service_world" where
  "no_world = \<lparr>wd_store = (), wd_env = []\<rparr>"

lemma demo_execution:
  "case execute_query demo_limits demo_script demo_datasource ''t'' ''p'' None (\<lambda>_. return_io ()) no_world of
     (Some (Some (Ok r), _), _) \<Rightarrow> ar_rows r = [[Some ''a''], [Some ''b'']] \<and> ar_truncated r | _ \<Rightarrow> False"
  by code_simp

lemma athena_answer_within_limits_witness:
  "\<exists>r seen w'. execute_query demo_limits demo_script demo_datasource ''t'' ''p'' None (\<lambda>_. return_io ()) no_world = (Some (Some (Ok r), seen), w')
     \<and> int (length (ar_rows r)) \<le> 2 \<and> ar_bytes r \<le> 1024 \<and> ar_scanned r \<le> 100"
proof -
  obtain p w' where p: "execute_query demo_limits demo_script demo_datasource ''t'' ''p'' None (\<lambda>_. return_io ()) no_world = (p, w')"
    by (cases "execute_query demo_limits demo_script demo_datasource ''t'' ''p'' None (\<lambda>_. return_io ()) no_world")
  then obtain q seen where q: "p = Some (q, seen)" using demo_execution by (cases p) auto
  then obtain s where "q = Some s" using demo_execution p by (cases q) auto
  then obtain r where "q = Some (Ok r)" using demo_execution p q by (cases s) auto
  with p q have r: "execute_query demo_limits demo_script demo_datasource ''t'' ''p'' None (\<lambda>_. return_io ()) no_world = (Some (Some (Ok r), seen), w')"
    by simp
  from athena_answer_within_limits [OF r] r show ?thesis by (auto simp: demo_limits_def)
qed

end
