(* ===== verification/QueryServiceProps.thy ===== *)
theory QueryServiceProps
  imports QueryService QueryProps AthenaProps
begin

text \<open>
  The query service on top of the guarantees of the query table: every call, whatever it answers, is a sequence of
  fleet steps, and an answer with rows stands for a settled and audited query.
\<close>

section \<open>Building blocks\<close>

lemma then_do_triple:
  assumes "fleet_triple T C L k tok e P m Q" "\<And>x. fleet_triple T C L k tok e (Q (Inr x)) (f x) R" "\<And>d st. Q (Inl d) st \<Longrightarrow> R (Inl d) st"
  shows "fleet_triple T C L k tok e P (then_do m f) R"
  unfolding then_do_def
proof (rule queries.triple_bind [OF assms(1)])
  fix r
  show "fleet_triple T C L k tok e (Q r) (case r of Inl d \<Rightarrow> return_io (Inl d) | Inr x \<Rightarrow> f x) R"
    by (cases r) (simp_all add: assms(2,3) queries.triple_return)
qed

definition logged :: "query_event \<Rightarrow> query_store \<Rightarrow> bool" where
  "logged ev st \<longleftrightarrow> ev \<in> set (qs_log st)"

lemma stable_logged [intro]: "stable_under (fleet_follows T C L k tok e) (logged ev)"
  by (rule stable_later) (auto simp: logged_def fleet_later_def prefix_def)

lemma logged_told: "logged ev st \<Longrightarrow> tells l a ev \<Longrightarrow> told l a st"
  by (auto simp: logged_def told_def)

lemma record_query_triple:
  assumes P: "stable_under (fleet_follows T C L k tok e) P"
  shows "fleet_triple T C L k tok e P (record_query x ev) (\<lambda>r st. P st \<and> (r = Inr () \<longrightarrow> qx_audit_durable x \<longrightarrow> logged ev st))"
proof (cases "qx_audit_durable x")
  case True
  let ?txn = "\<lambda>st. Inr (append_event ev st) :: unit + query_store"
  have w: "fleet_triple T C L k tok e P (write_io ?txn) (\<lambda>out st. P st \<and> (out = Done \<longrightarrow> logged ev st))"
  proof (rule queries.triple_write [OF P stable_logged])
    fix st st' assume "fleet_ok T C L st" "P st" "?txn st = Inr st'"
    then have st': "st' = append_event ev st" by simp
    then show "fleet_guarantee T C L k tok e st st' \<and> logged ev st'"
      using Record [of T C L st ev] by (simp add: guaranteeI own_log) (simp add: logged_def append_event_def)
  qed
  show ?thesis using True unfolding record_query_def
    by (simp add: queries.triple_bind [OF queries.triple_try [OF w P]] queries.triple_return)
next
  case False
  then show ?thesis by (simp add: record_query_def queries.triple_return)
qed

lemma confirmed_triple:
  assumes "fleet_triple T C L k tok e P m (\<lambda>b st. P st \<and> (b \<longrightarrow> Q st))" "stable_under (fleet_follows T C L k tok e) P"
  shows "fleet_triple T C L k tok e P (confirmed m) (\<lambda>r st. P st \<and> (r = Inr () \<longrightarrow> Q st))"
  unfolding confirmed_def
  by (rule queries.triple_bind [OF queries.triple_try [OF assms]]) (auto intro!: queries.triple_return)

text \<open>A controller whose limits are those of the deployment.\<close>

definition controller_within :: "(string \<Rightarrow> int) \<Rightarrow> (string \<Rightarrow> int) \<Rightarrow> controller \<Rightarrow> bool" where
  "controller_within C L c \<longleftrightarrow> ql_project_concurrency (qc_limits c) \<le> C ''project'' \<and> ql_principal_concurrency (qc_limits c) \<le> C ''principal''
     \<and> ql_project_scan (qc_limits c) \<le> L ''project'' \<and> ql_principal_scan (qc_limits c) \<le> L ''principal''"

definition subject_short :: "query_subject \<Rightarrow> bool" where
  "subject_short j \<longleftrightarrow> list_all (\<lambda>s. length s \<le> 2048) [qj_tenant j, qj_project j, qj_request j, qj_principal j, qj_datasource j, qj_sha j]"

definition subject_key :: "query_subject \<Rightarrow> query_key" where
  "subject_key j = QueryKey (qj_tenant j) (qj_project j) (qj_request j)"

definition lease_of :: "query_subject \<Rightarrow> lease \<Rightarrow> bool" where
  "lease_of j l \<longleftrightarrow> le_tenant l = qj_tenant j \<and> le_project l = qj_project j \<and> le_principal l = qj_principal j
     \<and> le_request l = qj_request j \<and> le_datasource l = qj_datasource j \<and> le_sha l = qj_sha j"

lemma lease_of_key: "lease_of j l \<Longrightarrow> lease_key l = subject_key j"
  by (simp add: lease_of_def lease_key_def subject_key_def)

lemma acquire_triple:
  assumes "controller_within C L c" "subject_short j" "short_string tok" "0 \<le> now" "now div 1000000 \<le> T" "subject_key j = k"
  shows "fleet_triple T C L k tok e (own k tok e) (acquire c backend now tok j)
    (\<lambda>r st. own k tok e st \<and> (\<forall>l. r = Inr l \<longrightarrow> held l st \<and> lease_of j l \<and> le_token l = tok \<and> le_reserved l = qc_max_scan c))"
proof -
  let ?q = "capacity_request_of c j (now div 1000000)"
  have q: "request_within T C L ?q" "lease_key (cq_lease ?q) = k"
    using assms by (auto simp: request_within_def capacity_request_of_def Let_def controller_within_def subject_short_def
      lease_key_def subject_key_def)
  note r = queries.triple_try [OF reserve_query_triple [OF q(1) assms(3) q(2), of e] stable_own]
  have granted: "held l st \<and> lease_of j l \<and> le_token l = tok \<and> le_reserved l = qc_max_scan c"
    if "admission_answer c (now div 1000000) a = Inr l" "own k tok e st \<and> (\<forall>b. a = Some b \<longrightarrow> own k tok e st
        \<and> (\<forall>x. b = Some x \<longrightarrow> granted_ok (stamp_lease ?q tok) x st))" for a l st
    using that by (auto simp: admission_answer_def with_slots_def stamp_lease_def capacity_request_of_def Let_def lease_of_def
      split: option.splits capacity_answer.splits if_splits)
  have ask: "fleet_triple T C L k tok e (own k tok e) (bind_io (try_io (reserve_query_capacity ?q tok)) (\<lambda>r.
      return_io (admission_answer c (now div 1000000) r)))
    (\<lambda>r st. own k tok e st \<and> (\<forall>l. r = Inr l \<longrightarrow> held l st \<and> lease_of j l \<and> le_token l = tok \<and> le_reserved l = qc_max_scan c))"
    by (rule queries.triple_bind [OF r], rule queries.triple_return) (use granted in blast)
  then show ?thesis unfolding acquire_def by (auto intro: queries.triple_return split: sum.split)
qed

lemma mark_started_triple:
  assumes "lease_key l = k" "le_token l = tok"
  shows "fleet_triple T C L k tok (Some eid) (\<lambda>st. own k tok (Some eid) st \<and> held l st) (mark_started l eid)
    (\<lambda>_ st. own k tok (Some eid) st \<and> held l st)"
proof (cases "eid = []")
  case False
  have P: "stable_under (fleet_follows T C L k tok (Some eid)) (\<lambda>st. own k tok (Some eid) st \<and> held l st)"
    by (rule stable_conj [OF stable_own stable_held])
  show ?thesis unfolding mark_started_def if_not_P [OF False]
  proof (rule queries.triple_bind [OF confirmed_triple [OF mark_query_triple [OF assms] P]])
    fix r :: "failure + unit"
    show "fleet_triple T C L k tok (Some eid) (\<lambda>st. (own k tok (Some eid) st \<and> held l st) \<and> (r = Inr () \<longrightarrow> begun l st))
      (case r of Inl _ \<Rightarrow> fail_io | Inr _ \<Rightarrow> return_io ()) (\<lambda>_ st. own k tok (Some eid) st \<and> held l st)"
      by (cases r) (auto intro!: queries.triple_fail queries.triple_return)
  qed
qed (simp add: mark_started_def queries.triple_fail)

lemma finalize_triple:
  assumes l: "lease_key l = k" "le_token l = tok" and a: "ta_execution a = None \<Longrightarrow> e = None" "terminal_audit_valid a"
  shows "fleet_triple T C L k tok e (\<lambda>st. own k tok e st \<and> held l st) (finalize l a hex now)
    (\<lambda>r st. (own k tok e st \<and> held l st) \<and> (\<forall>c. r = Inr c \<longrightarrow> settled l a st \<and> cl_lease c = l \<and> cl_audit c = Some a \<and> claim_valid c
       \<and> ta_accounted a \<le> le_reserved l))"
proof (cases "\<not> (0 \<le> ta_accounted a \<and> ta_accounted a \<le> le_reserved l) \<or> active (ta_status a)")
  case True
  then show ?thesis by (auto simp: finalize_def Let_def intro: queries.triple_return)
next
  case False
  have P: "stable_under (fleet_follows T C L k tok e) (\<lambda>st. own k tok e st \<and> held l st)"
    by (rule stable_conj [OF stable_own stable_held])
  let ?c = "\<lparr>cl_lease = l, cl_token = ''query-service-'' @ hex, cl_status = ta_status a, cl_execution = ta_execution a, cl_audit = Some a\<rparr>"
  have c: "claim_valid ?c" using a(2) False
    by (auto simp: claim_valid_def terminal_audit_valid_def active_def optional_def split: option.splits)
  show ?thesis unfolding finalize_def Let_def if_not_P [OF False]
    by (rule then_do_triple [OF confirmed_triple [OF finalize_query_triple [OF l a(1)] P]])
      (use c False in \<open>auto intro!: queries.triple_return\<close>)
qed

lemma ack_terminal_triple:
  assumes P: "stable_under (fleet_follows T C L k tok e) P"
    and c: "\<And>c st a. claim = Some c \<Longrightarrow> P st \<Longrightarrow> cl_audit c = Some a \<Longrightarrow> told (cl_lease c) a st \<and> held (cl_lease c) st"
      "\<And>c. claim = Some c \<Longrightarrow> claim_valid c"
  shows "fleet_triple T C L k tok e P (ack_terminal claim) (\<lambda>_. P)"
proof (cases claim)
  case None
  then show ?thesis by (simp add: ack_terminal_def queries.triple_return)
next
  case (Some c)
  have "fleet_triple T C L k tok e P (ack_query_reconciliation_audit c) (\<lambda>_ st. P st \<and> True)"
    by (rule triple_weaken [OF queries.triple_frame [OF acknowledge_triple [OF assms(3) [OF Some]] P]]) (use c(1) Some in auto)
  then have "fleet_triple T C L k tok e P (ack_query_reconciliation_audit c) (\<lambda>b st. P st \<and> (b \<longrightarrow> True))" by simp
  note a = queries.triple_try [OF confirmed_triple [OF this P] P]
  show ?thesis unfolding ack_terminal_def Some option.case ack_audit_def
    by (rule queries.triple_bind [OF a]) (auto intro!: queries.triple_return)
qed


section \<open>The executor\<close>

text \<open>The id of the execution that the callback is given, if any: it depends on the answers of the client only.\<close>

definition announced :: "athena_limits \<Rightarrow> athena_script \<Rightarrow> datasource \<Rightarrow> string \<Rightarrow> string \<Rightarrow> int option \<Rightarrow> string option" where
  "announced c sc ds tenant project requested =
     (if ds_tenant ds \<noteq> tenant \<or> ds_project ds \<noteq> project \<or> row_limit c requested = None \<or> as_factory sc \<noteq> Got ()
        \<or> validate_workgroup c (as_workgroup sc) \<noteq> Ok () then None
      else (case as_start sc of
          Threw \<Rightarrow> None
        | Cut \<Rightarrow> Option.bind (as_late sc) execution_id_of
        | Got started \<Rightarrow> execution_id_of started))"

text \<open>What an execution answers is about the execution that was announced.\<close>

definition about :: "string option \<Rightarrow> athena_result step option \<Rightarrow> bool" where
  "about eid r \<longleftrightarrow> (case r of
     Some (Ok x) \<Rightarrow> eid = Some (ar_execution x)
   | Some (Err e) \<Rightarrow> ae_execution e = None \<or> ae_execution e = eid
   | _ \<Rightarrow> True)"

lemma about_simps [simp]:
  "about eid None" "about eid (Some Cancelled_out)" "about eid (Some Crashed)" "about eid (Some (Ok x)) \<longleftrightarrow> eid = Some (ar_execution x)"
  "about eid (Some (Err e)) \<longleftrightarrow> ae_execution e = None \<or> ae_execution e = eid"
  by (simp_all add: about_def)

lemma code_only [simp]: "ae_execution (athena_error_of c) = None"
  by (simp add: athena_error_of_def)

lemma termination_error: "termination_of execution eid cancel = Inl e \<Longrightarrow> ae_execution e = Some eid"
  by (auto simp: termination_of_def status_failed_def split: json.splits option.splits sum.splits)

lemma query_execution_error: "query_execution r eid = Err e \<Longrightarrow> ae_execution e = Some eid"
  by (auto simp: query_execution_def status_failed_def split: reply.splits json.splits)

lemma workgroup_error: "validate_workgroup c r = Err e \<Longrightarrow> ae_execution e = None"
  by (auto simp: validate_workgroup_def Let_def split: reply.splits option.splits if_splits json.splits)

lemma wait_error:
  assumes "wait_for_query c looks eid deadline i = Some y"
  shows "y = Err e \<Longrightarrow> ae_execution e = None \<or> ae_execution e = Some eid"
  using assms
proof (induction rule: wait_for_query.raw_induct [rotated 1, consumes 1, case_names loop])
  case (loop wait c looks eid deadline i y)
  then show ?case
    by (auto dest: query_execution_error termination_error split: step.splits sum.splits if_splits)
qed

lemma follow_about:
  assumes "follow c n sc eid = (r, ended)" "1 \<le> n" "eid \<noteq> []"
  shows "about (Some eid) r"
proof (cases "wait_for_query c (as_looks sc) eid (as_clock sc + al_timeout c) 0")
  case (Some y)
  show ?thesis
  proof (cases y)
    case (Ok execution)
    show ?thesis
    proof (cases "termination_of execution eid False")
      case (Inr t)
      note t = termination_of_valid [OF Inr assms(3)]
      have "r = judge c n (as_pages sc) t" using assms(1) Some Ok Inr by (simp add: follow_def)
      moreover have "about (Some eid) (judge c n (as_pages sc) t)"
        using judge_result(5) [OF _ assms(2) t(1)] judge_error(1) t(2) by (auto simp: about_def split: option.split step.split)
      ultimately show ?thesis by simp
    next
      case (Inl e)
      then show ?thesis using assms(1) Some Ok termination_error [OF Inl] by (auto simp: follow_def)
    qed
  next
    case (Err e)
    then show ?thesis using assms(1) Some wait_error [OF Some Err] by (auto simp: follow_def)
  qed (use assms(1) Some in \<open>auto simp: follow_def\<close>)
qed (use assms(1) in \<open>simp add: follow_def\<close>)

lemma notified_triple:
  assumes "fleet_triple T C L k tok e P m (\<lambda>_. P)" "stable_under (fleet_follows T C L k tok e) P"
  shows "fleet_triple T C L k tok e P (notified m) (\<lambda>_. P)"
  unfolding notified_def by (rule queries.triple_bind [OF queries.triple_try [OF assms]]) (auto intro: queries.triple_return)

lemma execute_started_triple:
  assumes P: "stable_under (fleet_follows T C L k tok e) P" and n: "1 \<le> n"
    and eid: "eid = (case as_start sc of Threw \<Rightarrow> None | Cut \<Rightarrow> Option.bind (as_late sc) execution_id_of | Got started \<Rightarrow> execution_id_of started)"
    and cb: "\<And>i. eid = Some i \<Longrightarrow> fleet_triple T C L k tok e P (callback i) (\<lambda>_. P)"
  shows "fleet_triple T C L k tok e P (execute_started c n sc callback)
    (\<lambda>(r, tr) st. P st \<and> tr_execution tr = eid \<and> about eid r)"
proof (cases eid)
  case None
  then show ?thesis using eid
    by (auto simp: execute_started_def Let_def new_tracking_def start_failed_def stop_query_def intro!: queries.triple_return split: reply.splits)
next
  case (Some i)
  note called = notified_triple [OF cb [OF Some] P]
  have stopped: "tr_execution (stop_query sc tr) = tr_execution tr" for tr by (simp add: stop_query_def)
  show ?thesis
  proof (cases "as_start sc")
    case (Got started)
    have i: "execution_id_of started = Some i" using eid Some Got by simp
    obtain r ended where f: "follow c n sc i = (r, ended)" by (cases "follow c n sc i")
    note a = follow_about [OF f n execution_id_nonempty [OF i]]
    show ?thesis unfolding execute_started_def Let_def Got reply.case i option.case f prod.case
    proof (rule queries.triple_bind [OF called])
      fix ok
      show "fleet_triple T C L k tok e P
         (if as_callback_cut sc then return_io (Some Cancelled_out, stop_query sc (new_tracking\<lparr>tr_attempted := True, tr_execution := Some i\<rparr>))
          else if \<not> ok then return_io (Some Crashed, stop_query sc (new_tracking\<lparr>tr_attempted := True, tr_execution := Some i\<rparr>))
          else return_io (r, if ended then new_tracking\<lparr>tr_attempted := True, tr_execution := Some i\<rparr>
             else stop_query sc (new_tracking\<lparr>tr_attempted := True, tr_execution := Some i\<rparr>)))
         (\<lambda>(r, tr) st. P st \<and> tr_execution tr = eid \<and> about eid r)"
        by (cases "as_callback_cut sc"; cases ok) (simp_all add: queries.triple_return stopped Some a)
    qed
  next
    case Cut
    have i: "Option.bind (as_late sc) execution_id_of = Some i" using eid Some Cut by simp
    show ?thesis unfolding execute_started_def Let_def Cut reply.case i option.case
      by (rule queries.triple_bind [OF called]) (auto simp: stopped Some intro!: queries.triple_return)
  qed (use eid Some in simp)
qed

lemma execute_query_triple:
  assumes P: "stable_under (fleet_follows T C L k tok e) P"
    and cb: "\<And>i. announced c sc ds tenant project requested = Some i \<Longrightarrow> fleet_triple T C L k tok e P (callback i) (\<lambda>_. P)"
  shows "fleet_triple T C L k tok e P (execute_query c sc ds tenant project requested callback)
    (\<lambda>(r, seen) st. P st \<and> seen = announced c sc ds tenant project requested \<and> about seen r)"
proof -
  let ?eid = "announced c sc ds tenant project requested"
  have "fleet_triple T C L k tok e P (execute_bounded c sc ds tenant project requested callback)
    (\<lambda>(r, tr) st. P st \<and> tr_execution tr = ?eid \<and> about ?eid r)"
  proof (cases "ds_tenant ds \<noteq> tenant \<or> ds_project ds \<noteq> project \<or> row_limit c requested = None \<or> as_factory sc \<noteq> Got ()
        \<or> validate_workgroup c (as_workgroup sc) \<noteq> Ok ()")
    case True
    then have "?eid = None" by (simp add: announced_def)
    then show ?thesis using True
      by (auto simp: execute_bounded_def Let_def new_tracking_def intro!: queries.triple_return dest: workgroup_error
        split: option.split reply.split step.split)
  next
    case False
    obtain n where n: "row_limit c requested = Some n" using False by (cases "row_limit c requested") simp_all
    have "1 \<le> n" using n by (auto simp: row_limit_def Let_def split: if_splits)
    moreover have "?eid = (case as_start sc of Threw \<Rightarrow> None | Cut \<Rightarrow> Option.bind (as_late sc) execution_id_of | Got started \<Rightarrow> execution_id_of started)"
      using False by (auto simp: announced_def n)
    ultimately show ?thesis using execute_started_triple [OF P _ _ cb] False n by (simp add: execute_bounded_def Let_def)
  qed
  then show ?thesis unfolding execute_query_def
    by (rule queries.triple_bind) (auto simp: timed_out_def intro!: queries.triple_return)
qed


section \<open>Settling and recording\<close>

text \<open>What the service of a query knows throughout: the token is its own, and the table holds its lease.\<close>

definition mine :: "query_key \<Rightarrow> string \<Rightarrow> string option \<Rightarrow> lease option \<Rightarrow> query_store \<Rightarrow> bool" where
  "mine k tok e l st \<longleftrightarrow> own k tok e st \<and> (\<forall>y. l = Some y \<longrightarrow> held y st)"

definition leased :: "query_key \<Rightarrow> string \<Rightarrow> query_subject \<Rightarrow> lease option \<Rightarrow> bool" where
  "leased k tok j l \<longleftrightarrow> (\<forall>y. l = Some y \<longrightarrow> lease_key y = k \<and> le_token y = tok \<and> lease_of j y)"

lemma stable_mine [intro]: "stable_under (fleet_follows T C L k tok e) (mine k tok e l)"
proof -
  have "stable_under (fleet_follows T C L k tok e) (\<lambda>st. \<forall>y. l = Some y \<longrightarrow> held y st)"
    using stable_held unfolding stable_under_def by blast
  from stable_conj [OF stable_own this] show ?thesis by (simp add: mine_def [abs_def])
qed

text \<open>What a settlement, when it is called for, leaves: \<open>a\<close> is the evidence that it would store.\<close>

definition settled_with :: "lease option \<Rightarrow> bool \<Rightarrow> (lease \<Rightarrow> terminal_audit) \<Rightarrow> query_store \<Rightarrow> bool" where
  "settled_with l done_with a st \<longleftrightarrow> (\<forall>y. l = Some y \<longrightarrow> done_with \<longrightarrow> settled y (a y) st \<and> ta_accounted (a y) \<le> le_reserved y)"

lemma stable_settled_with [intro]: "stable_under (fleet_follows T C L k tok e) (settled_with l b a)"
  using stable_settled unfolding stable_under_def settled_with_def by blast

definition claim_for :: "lease option \<Rightarrow> bool \<Rightarrow> (lease \<Rightarrow> terminal_audit) \<Rightarrow> query_claim option \<Rightarrow> bool" where
  "claim_for l b a claim \<longleftrightarrow> (case claim of
     None \<Rightarrow> \<not> b \<or> l = None
   | Some c \<Rightarrow> b \<and> l = Some (cl_lease c) \<and> cl_audit c = Some (a (cl_lease c)) \<and> claim_valid c)"

lemma settle_step_triple:
  assumes l: "leased k tok j l" and a: "\<And>y. b \<Longrightarrow> ta_execution (a y) = None \<Longrightarrow> e = None"
  shows "fleet_triple T C L k tok e (mine k tok e l) (settle_step l b a hex now)
    (\<lambda>r st. mine k tok e l st \<and> (\<forall>c. r = Inr c \<longrightarrow> settled_with l b a st \<and> claim_for l b a c))"
proof (cases "\<exists>y. l = Some y \<and> b \<and> terminal_audit_valid (a y)")
  case True
  then obtain y where y: "l = Some y" "b" "terminal_audit_valid (a y)" by blast
  have key: "lease_key y = k" "le_token y = tok" using l y by (simp_all add: leased_def)
  have f: "fleet_triple T C L k tok e (mine k tok e l) (finalize y (a y) hex now)
    (\<lambda>r st. mine k tok e l st \<and> (\<forall>c. r = Inr c \<longrightarrow> settled_with l b a st \<and> claim_for l b a (Some c)))"
  proof (rule triple_weaken [OF finalize_triple [OF key a [OF y(2)] y(3)]])
    fix st assume "mine k tok e l st"
    then show "own k tok e st \<and> held y st" by (simp add: mine_def y(1))
  next
    fix r st
    assume f: "(own k tok e st \<and> held y st) \<and> (\<forall>c. r = Inr c \<longrightarrow> settled y (a y) st \<and> cl_lease c = y
      \<and> cl_audit c = Some (a y) \<and> claim_valid c \<and> ta_accounted (a y) \<le> le_reserved y)"
    show "mine k tok e l st \<and> (\<forall>c. r = Inr c \<longrightarrow> settled_with l b a st \<and> claim_for l b a (Some c))"
    proof (intro conjI allI impI)
      show "mine k tok e l st" using f by (simp add: mine_def y(1))
      fix c assume "r = Inr c"
      with f show "settled_with l b a st" "claim_for l b a (Some c)" using y(2) by (simp_all add: settled_with_def claim_for_def y(1))
    qed
  qed
  have "\<not> \<not> b" "\<not> \<not> terminal_audit_valid (a y)" using y by simp_all
  note step = settle_step_def [of l b a hex now, unfolded y(1) option.case if_not_P [OF this(1)] if_not_P [OF this(2)]]
  show ?thesis unfolding y(1) step
    by (rule then_do_triple [OF f [unfolded y(1)]]) (auto intro: queries.triple_return)
next
  case False
  then show ?thesis
    by (auto simp: settle_step_def settled_with_def claim_for_def intro!: queries.triple_return split: option.split)
qed

lemma record_step_triple:
  assumes x: "qx_audit_durable x" and P: "stable_under (fleet_follows T C L k tok e) P" "\<And>st. P st \<Longrightarrow> mine k tok e l st"
    and c: "claim_for l b a claim" "\<And>y. l = Some y \<Longrightarrow> b \<Longrightarrow> tells y (a y) ev"
  shows "fleet_triple T C L k tok e P (record_step x ev claim) (\<lambda>r st. P st \<and> (r = Inr () \<longrightarrow> logged ev st))"
proof -
  let ?P = "\<lambda>st. P st \<and> logged ev st"
  have P': "stable_under (fleet_follows T C L k tok e) ?P" by (rule stable_conj [OF P(1) stable_logged])
  have ack: "fleet_triple T C L k tok e ?P (ack_terminal claim) (\<lambda>_. ?P)"
  proof (rule ack_terminal_triple [OF P'])
    fix c' st a' assume c': "claim = Some c'" "P st \<and> logged ev st" "cl_audit c' = Some a'"
    then have l: "b" "l = Some (cl_lease c')" "a' = a (cl_lease c')" using c(1) by (auto simp: claim_for_def)
    show "told (cl_lease c') a' st \<and> held (cl_lease c') st"
      using logged_told [OF conjunct2 [OF c'(2)] c(2) [OF l(2,1)]] P(2) [OF conjunct1 [OF c'(2)]] by (simp add: mine_def l)
  qed (use c(1) in \<open>auto simp: claim_for_def split: option.splits\<close>)
  have cont: "fleet_triple T C L k tok e (\<lambda>st. P st \<and> (Inr u = Inr () \<longrightarrow> qx_audit_durable x \<longrightarrow> logged ev st))
      (bind_io (ack_terminal claim) (\<lambda>_. return_io (Inr ()))) (\<lambda>r st. P st \<and> (r = Inr () \<longrightarrow> logged ev st))" for u
    by (rule queries.triple_bind [where Q = "\<lambda>_. ?P"], rule triple_weaken [OF ack])
      (use x in \<open>auto intro!: queries.triple_return\<close>)
  show ?thesis unfolding record_step_def
    by (rule then_do_triple [OF record_query_triple [OF P(1)] cont]) simp
qed


section \<open>The ways out\<close>

lemma failure_event_tells:
  assumes "leased k tok j l" "l = Some y" "terminal_observed eid term"
  shows "tells y (failure_audit status code (le_reserved y) eid term started) (failure_event j l status code eid term started finalized)"
  using assms by (simp add: leased_def lease_of_def entry_tells_def failure_event_def failure_audit_def)

lemma success_event_tells: "leased k tok j l \<Longrightarrow> l = Some y \<Longrightarrow> tells y (success_audit r) (success_event j r)"
  by (simp add: leased_def lease_of_def entry_tells_def success_event_def success_audit_def)

text \<open>What a failure that answers with the code of the execution leaves in the store.\<close>

definition failure_settled ::
  "query_subject \<Rightarrow> lease option \<Rightarrow> string \<Rightarrow> string option \<Rightarrow> query_status \<Rightarrow> termination_seen option \<Rightarrow> bool \<Rightarrow> query_store \<Rightarrow> bool" where
  "failure_settled j l code eid status term started st \<longleftrightarrow>
     logged (failure_event j l status code eid term started (l = None \<or> terminal_observed eid term)) st
     \<and> settled_with l (terminal_observed eid term) (\<lambda>y. failure_audit status code (le_reserved y) eid term started) st"

text \<open>What a function can answer at all, whatever the store does.\<close>

definition answers :: "('s, 'a) service \<Rightarrow> ('a \<Rightarrow> bool) \<Rightarrow> bool" where
  "answers m A \<longleftrightarrow> (\<forall>w r w'. m w = (Some r, w') \<longrightarrow> A r)"

lemma answers_return: "A x \<Longrightarrow> answers (return_io x) A"
  by (simp add: answers_def return_io_def)

lemma answers_bind: "answers m B \<Longrightarrow> (\<And>x. B x \<Longrightarrow> answers (f x) A) \<Longrightarrow> answers (bind_io m f) A"
  unfolding answers_def bind_io_def by (auto split: prod.splits option.splits) blast

lemma answers_any: "answers m (\<lambda>_. True)"
  by (simp add: answers_def)

lemma triple_answers:
  assumes "service_triple ok G P m Q" "answers m A"
  shows "service_triple ok G P m (\<lambda>r st. Q r st \<and> A r)"
  using assms unfolding service_triple_def answers_def by blast

text \<open>The failures of the settlement and of the record.\<close>

definition store_failure :: "failure + 'a \<Rightarrow> bool" where
  "store_failure r \<longleftrightarrow> (\<forall>f. r = Inl f \<longrightarrow> f \<in> {lifecycle_down, audit_down, Uncaught})"

lemma store_failure_simps [simp]: "store_failure (Inr x)" "store_failure (Inl f) \<longleftrightarrow> f \<in> {lifecycle_down, audit_down, Uncaught}"
  by (simp_all add: store_failure_def)

lemma record_query_answers: "answers (record_query x ev) store_failure"
  unfolding record_query_def by (auto intro!: answers_return answers_bind [OF answers_any])

lemma confirmed_answers: "answers (confirmed m) store_failure"
  unfolding confirmed_def by (rule answers_bind [OF answers_any]) (auto intro!: answers_return)

lemma then_do_answers: "answers m store_failure \<Longrightarrow> (\<And>x. answers (f x) store_failure) \<Longrightarrow> answers (then_do m f) store_failure"
  unfolding then_do_def by (erule answers_bind) (auto simp: store_failure_def intro!: answers_return split: sum.split)

lemma finalize_answers: "answers (finalize l a hex now) store_failure"
  unfolding finalize_def Let_def by (auto intro!: answers_return then_do_answers confirmed_answers)

lemma settle_step_answers: "answers (settle_step l b a hex now) store_failure"
  unfolding settle_step_def by (auto intro!: answers_return then_do_answers finalize_answers split: option.split)

lemma record_step_answers: "answers (record_step x ev claim) store_failure"
  unfolding record_step_def
  by (rule then_do_answers [OF record_query_answers], rule answers_bind [OF answers_any]) (simp add: answers_return)

lemma finalize_and_record_answers: "answers (finalize_and_record x j l status code eid term started hex now) store_failure"
  unfolding finalize_and_record_def
proof (rule answers_bind [OF settle_step_answers])
  fix r :: "failure + query_claim option"
  assume "store_failure r"
  then show "answers (case r of
           Inl Uncaught \<Rightarrow> return_io (Inl Uncaught)
         | Inl (Http s c) \<Rightarrow>
             then_do (record_step x (failure_event j l status code eid term started (l = None)) None) (\<lambda>_. return_io (Inl (Http s c)))
         | Inr claim \<Rightarrow> record_step x (failure_event j l status code eid term started (l = None \<or> claim \<noteq> None)) claim) store_failure"
    by (auto intro!: answers_return then_do_answers record_step_answers split: sum.split failure.split)
qed

lemma finalize_and_record_triple:
  assumes x: "qx_audit_durable x" and l: "leased k tok j l"
  shows "fleet_triple T C L k tok e (mine k tok e l) (finalize_and_record x j l status code e term started hex now)
    (\<lambda>r st. mine k tok e l st \<and> (r = Inr () \<longrightarrow> failure_settled j l code e status term started st))"
  unfolding finalize_and_record_def
proof (rule queries.triple_bind [OF settle_step_triple [OF l]])
  let ?b = "terminal_observed e term" and ?a = "\<lambda>y. failure_audit status code (le_reserved y) e term started"
  let ?ev = "\<lambda>finalized. failure_event j l status code e term started finalized"
  let ?R = "\<lambda>r st. mine k tok e l st \<and> (r = Inr () \<longrightarrow> failure_settled j l code e status term started st)"
  fix r :: "failure + query_claim option"
  note own_record = record_step_triple [OF x stable_mine [where l = l]]
  show "fleet_triple T C L k tok e (\<lambda>st. mine k tok e l st \<and> (\<forall>c. r = Inr c \<longrightarrow> settled_with l ?b ?a st \<and> claim_for l ?b ?a c))
      (case r of
           Inl Uncaught \<Rightarrow> return_io (Inl Uncaught)
         | Inl (Http s c) \<Rightarrow> then_do (record_step x (?ev (l = None)) None) (\<lambda>_. return_io (Inl (Http s c)))
         | Inr claim \<Rightarrow> record_step x (?ev (l = None \<or> claim \<noteq> None)) claim) ?R"
  proof (cases r)
    case (Inr claim)
    show ?thesis
    proof (cases "claim_for l ?b ?a claim")
      case True
      have flag: "(l = None \<or> claim \<noteq> None) = (l = None \<or> ?b)" using True by (auto simp: claim_for_def split: option.splits)
      have P: "stable_under (fleet_follows T C L k tok e) (\<lambda>st. mine k tok e l st \<and> settled_with l ?b ?a st)"
        by (rule stable_conj [OF stable_mine stable_settled_with])
      show ?thesis unfolding Inr sum.case flag
        by (rule triple_weaken [OF record_step_triple [OF x P _ True failure_event_tells [OF l]]]) (auto simp: failure_settled_def)
    qed (simp add: Inr service_triple_def)
  next
    case (Inl f)
    have c: "claim_for l False ?a None" by (simp add: claim_for_def)
    have rec: "fleet_triple T C L k tok e (mine k tok e l) (record_step x (?ev (l = None)) None) (\<lambda>_. mine k tok e l)"
      by (rule triple_weaken [OF own_record [OF _ c]]) (simp_all)
    show ?thesis
    proof (cases f)
      case (Http s c)
      have "fleet_triple T C L k tok e (mine k tok e l) (then_do (record_step x (?ev (l = None)) None) (\<lambda>_. return_io (Inl (Http s c)))) ?R"
        by (rule then_do_triple [OF rec]) (auto intro: queries.triple_return)
      then show ?thesis by (simp add: Inl Http)
    qed (auto simp: Inl intro!: queries.triple_return)
  qed
qed (simp add: failure_audit_def)


section \<open>A whole query\<close>

text \<open>The codes of an execution that failed; the checks before it and the failures of the store have others.\<close>

definition EXECUTION_CODES :: "string list" where
  "EXECUTION_CODES = [''invalid_query_limit'', ''datasource_identity_mismatch'', ''athena_role_unavailable'',
     ''athena_workgroup_unavailable'', ''athena_workgroup_invalid'', ''athena_workgroup_unsafe'', ''athena_start_failed'',
     ''athena_status_failed'', ''athena_query_timeout'', ''athena_query_failed'', ''athena_query_cancelled'',
     ''athena_scan_limit_exceeded'', ''athena_results_failed'', ''query_execution_unavailable'']"

definition failure_accounted :: "query_subject \<Rightarrow> lease option \<Rightarrow> string \<Rightarrow> string option \<Rightarrow> query_store \<Rightarrow> bool" where
  "failure_accounted j l code eid st \<longleftrightarrow> (\<exists>status term started. failure_settled j l code eid status term started st)"

definition accounted :: "query_subject \<Rightarrow> lease option \<Rightarrow> string option \<Rightarrow> query_answer \<Rightarrow> query_store \<Rightarrow> bool" where
  "accounted j l eid ans st \<longleftrightarrow> (case ans of
     Answer_rows r \<Rightarrow> eid = Some (ar_execution r) \<and> logged (success_event j r) st \<and> settled_with l True (\<lambda>_. success_audit r) st
   | Refuse (Http _ code) \<Rightarrow> code \<in> set EXECUTION_CODES \<longrightarrow> failure_accounted j l code eid st
   | _ \<Rightarrow> True)"

lemma accounted_simps [simp]:
  "accounted j l eid (Answer_rows r) st \<longleftrightarrow>
     eid = Some (ar_execution r) \<and> logged (success_event j r) st \<and> settled_with l True (\<lambda>_. success_audit r) st"
  "accounted j l eid Task_cancelled st" "accounted j l eid No_return st" "accounted j l eid (Refuse Uncaught) st"
  "accounted j l eid (Refuse (Http n code)) st \<longleftrightarrow> (code \<in> set EXECUTION_CODES \<longrightarrow> failure_accounted j l code eid st)"
  by (simp_all add: accounted_def)

lemma store_failures_other: "f \<in> {lifecycle_down, audit_down, Uncaught} \<Longrightarrow> accounted j l eid (Refuse f) st"
  by (auto simp: lifecycle_down_def audit_down_def EXECUTION_CODES_def)

lemma finish_failure_triple:
  assumes x: "qx_audit_durable x" and l: "leased k tok j l" and f: "f = Uncaught \<or> (\<exists>n. f = Http n code)"
  shows "fleet_triple T C L k tok e (mine k tok e l) (finish_failure x j i l status code e term started f)
    (\<lambda>ans st. mine k tok e l st \<and> accounted j l e ans st)"
  unfolding finish_failure_def
proof (rule queries.triple_bind [OF triple_answers [OF finalize_and_record_triple [OF x l] finalize_and_record_answers]])
  fix r :: "failure + unit"
  show "fleet_triple T C L k tok e
      (\<lambda>st. (mine k tok e l st \<and> (r = Inr () \<longrightarrow> failure_settled j l code e status term started st)) \<and> store_failure r)
      (return_io (Refuse (case r of Inl d \<Rightarrow> d | Inr _ \<Rightarrow> f))) (\<lambda>ans st. mine k tok e l st \<and> accounted j l e ans st)"
  proof (rule queries.triple_return)
    fix st assume st: "(mine k tok e l st \<and> (r = Inr () \<longrightarrow> failure_settled j l code e status term started st)) \<and> store_failure r"
    show "mine k tok e l st \<and> accounted j l e (Refuse (case r of Inl d \<Rightarrow> d | Inr _ \<Rightarrow> f)) st"
    proof (cases r)
      case (Inl d)
      then show ?thesis using st store_failures_other [of d] by simp
    next
      case (Inr u)
      have "failure_settled j l code e status term started st" using st Inr by simp
      then have "failure_accounted j l code e st" unfolding failure_accounted_def by blast
      then show ?thesis using st f Inr by auto
    qed
  qed
qed

lemma after_error_triple:
  assumes x: "qx_audit_durable x" and l: "leased k tok j l" and err: "ae_execution err = None \<or> ae_execution err = e"
  shows "fleet_triple T C L k tok e (mine k tok e l) (after_error x c j i ds l e err) (\<lambda>ans st. mine k tok e l st \<and> accounted j l e ans st)"
proof -
  have r: "or_else (ae_execution err) e = e" using err by (cases e) (auto simp: or_else_def split: option.split)
  show ?thesis unfolding after_error_def Let_def r
    by (auto intro!: queries.triple_return finish_failure_triple [OF x l] split: option.split sum.split)
qed

lemma after_crash_triple:
  assumes "qx_audit_durable x" "leased k tok j l"
  shows "fleet_triple T C L k tok e (mine k tok e l) (after_crash x c j i ds l e) (\<lambda>ans st. mine k tok e l st \<and> accounted j l e ans st)"
  unfolding after_crash_def
  by (auto intro!: queries.triple_return finish_failure_triple [OF assms] split: option.split sum.split)

lemma after_cancellation_triple:
  assumes "qx_audit_durable x" "leased k tok j l"
  shows "fleet_triple T C L k tok e (mine k tok e l) (after_cancellation x c j i ds l e) (\<lambda>ans st. mine k tok e l st \<and> accounted j l e ans st)"
  unfolding after_cancellation_def
  by (auto intro!: queries.triple_return queries.triple_bind [OF finish_failure_triple [OF assms]] split: option.split sum.split)

lemma after_success_triple:
  assumes x: "qx_audit_durable x" and l: "leased k tok j l" and e: "e = Some (ar_execution r)"
  shows "fleet_triple T C L k tok e (mine k tok e l) (after_success x j i l r) (\<lambda>ans st. mine k tok e l st \<and> accounted j l e ans st)"
proof -
  let ?a = "\<lambda>_ :: lease. success_audit r" and ?ev = "success_event j r"
  let ?R = "\<lambda>s st. (mine k tok e l st \<and> (s = Inr () \<longrightarrow> logged ?ev st \<and> settled_with l True ?a st))"
  have rec: "fleet_triple T C L k tok e
      (\<lambda>st. mine k tok e l st \<and> (\<forall>c. Inr claim = Inr c \<longrightarrow> settled_with l True ?a st \<and> claim_for l True ?a c))
      (record_step x ?ev claim) ?R" for claim
  proof (cases "claim_for l True ?a claim")
    case True
    have P: "stable_under (fleet_follows T C L k tok e) (\<lambda>st. mine k tok e l st \<and> settled_with l True ?a st)"
      by (rule stable_conj [OF stable_mine stable_settled_with])
    show ?thesis
      by (rule triple_weaken [OF record_step_triple [OF x P _ True success_event_tells [OF l]]]) auto
  qed (simp add: service_triple_def)
  have both: "fleet_triple T C L k tok e (mine k tok e l) (then_do (settle_step l True ?a (qi_hex i) (qi_later i)) (record_step x ?ev)) ?R"
    by (rule then_do_triple [OF settle_step_triple [OF l] rec]) (auto simp: success_audit_def)
  have ans: "answers (then_do (settle_step l True ?a (qi_hex i) (qi_later i)) (record_step x ?ev)) store_failure"
    by (rule then_do_answers [OF settle_step_answers record_step_answers])
  show ?thesis unfolding after_success_def
    by (rule queries.triple_bind [OF triple_answers [OF both ans]])
      (auto intro!: queries.triple_return simp: e store_failures_other [unfolded e] split: sum.split)
qed

lemma run_query_triple:
  assumes x: "qx_audit_durable x" and l: "leased k tok j l"
    and e: "e = announced (qx_athena x) (qi_athena i) ds (qk_tenant c) (qk_project c) (qk_max_rows c)"
  shows "fleet_triple T C L k tok e (mine k tok e l) (run_query x c i ds j l) (\<lambda>ans st. mine k tok e l st \<and> accounted j l e ans st)"
proof -
  let ?cb = "\<lambda>eid. case l of None \<Rightarrow> return_io () | Some y \<Rightarrow> mark_started y eid"
  have cb: "fleet_triple T C L k tok e (mine k tok e l) (?cb eid) (\<lambda>_. mine k tok e l)"
    if "announced (qx_athena x) (qi_athena i) ds (qk_tenant c) (qk_project c) (qk_max_rows c) = Some eid" for eid
  proof (cases l)
    case (Some y)
    have key: "lease_key y = k" "le_token y = tok" "e = Some eid" using l that Some e by (simp_all add: leased_def)
    show ?thesis unfolding Some option.case key(3)
      by (rule triple_weaken [OF mark_started_triple [OF key(1,2)]]) (simp_all add: mine_def)
  qed (auto intro: queries.triple_return)
  have ex: "fleet_triple T C L k tok e (mine k tok e l)
      (execute_query (qx_athena x) (qi_athena i) ds (qk_tenant c) (qk_project c) (qk_max_rows c) ?cb)
      (\<lambda>(r, seen) st. mine k tok e l st \<and> seen = e \<and> about seen r)"
    unfolding e by (rule execute_query_triple [OF stable_mine]) (use cb e in simp)
  show ?thesis unfolding run_query_def
  proof (rule queries.triple_bind [OF ex])
    fix y :: "athena_result step option \<times> string option"
    obtain r seen where y: "y = (r, seen)" by (cases y)
    show "fleet_triple T C L k tok e (case y of (r, seen) \<Rightarrow> \<lambda>st. mine k tok e l st \<and> seen = e \<and> about seen r)
       (case y of (r, eid) \<Rightarrow> (case r of
           None \<Rightarrow> return_io No_return
         | Some (Ok result) \<Rightarrow> after_success x j i l result
         | Some (Err d) \<Rightarrow> after_error x c j i ds l eid d
         | Some Crashed \<Rightarrow> after_crash x c j i ds l eid
         | Some Cancelled_out \<Rightarrow> after_cancellation x c j i ds l eid))
       (\<lambda>ans st. mine k tok e l st \<and> accounted j l e ans st)"
    proof (cases "seen = e \<and> about e r")
      case True
      then show ?thesis unfolding y prod.case
        by (auto intro!: queries.triple_return after_success_triple [OF x l] after_error_triple [OF x l]
          after_crash_triple [OF x l] after_cancellation_triple [OF x l] split: option.split step.split)
    qed (auto simp: y service_triple_def)
  qed
qed


section \<open>The service\<close>

text \<open>The subject of a call, and what a deployment and its callers keep to: limits of the fleet, short texts, a clock.\<close>

definition call_subject :: "query_call \<Rightarrow> string \<Rightarrow> string \<Rightarrow> query_subject" where
  "call_subject c = subject_of c (pr_tenant (qk_principal c))"

definition call_within :: "int \<Rightarrow> (string \<Rightarrow> int) \<Rightarrow> (string \<Rightarrow> int) \<Rightarrow> query_config \<Rightarrow> query_call \<Rightarrow> query_inputs \<Rightarrow> bool" where
  "call_within T C L x c i \<longleftrightarrow> qx_audit_durable x \<and> (case qx_admission x of None \<Rightarrow> True | Some a \<Rightarrow> controller_within C L a)
     \<and> short_string (qi_token i) \<and> 0 \<le> qi_now i \<and> qi_now i div 1000000 \<le> T \<and> length (pr_id (qk_principal c)) \<le> 2048
     \<and> length (qi_hex i) \<le> 1024 \<and> (case qi_validated i of None \<Rightarrow> True | Some (sha, _) \<Rightarrow> length sha \<le> 2048)"

lemma query_gate_Inr:
  assumes "query_gate x c i = Inr (request, ds)"
  shows "pr_tenant (qk_principal c) = qk_tenant c" "request_id_of c i = Some request" "qi_lookup i = Datasource ds" "ds_enabled ds"
    "(qk_tenant c, qk_project c, ds_role ds) \<in> set (qx_bindings x)" "list_all identity_ok [qk_tenant c, qk_project c, qk_datasource c]"
    "ad_allowed (authorize (qk_principal c) (Act QUERY_SELECT) (query_resource c) None)"
proof -
  have a: "ad_allowed (authorize (qk_principal c) (Act QUERY_SELECT) (query_resource c) None)" and
    rest: "request_id_of c i = Some request" "qi_lookup i = Datasource ds" "ds_enabled ds"
    "(qk_tenant c, qk_project c, ds_role ds) \<in> set (qx_bindings x)" "list_all identity_ok [qk_tenant c, qk_project c, qk_datasource c]"
    using assms by (auto simp: query_gate_def require_authorized_def Let_def split: if_splits option.splits sum.splits lookup.splits)
  have "QUERY_SELECT \<notin> PLATFORM_ACTIONS" by (simp add: PLATFORM_ACTIONS_def)
  with a show "pr_tenant (qk_principal c) = qk_tenant c"
    by (auto simp: authorize_def decided_def query_resource_def split: if_splits option.splits)
  show "request_id_of c i = Some request" "qi_lookup i = Datasource ds" "ds_enabled ds"
    "(qk_tenant c, qk_project c, ds_role ds) \<in> set (qx_bindings x)" "list_all identity_ok [qk_tenant c, qk_project c, qk_datasource c]"
    "ad_allowed (authorize (qk_principal c) (Act QUERY_SELECT) (query_resource c) None)" by fact+
qed

definition other_failure :: "failure \<Rightarrow> bool" where
  "other_failure f \<longleftrightarrow> (case f of Http _ code \<Rightarrow> code \<notin> set EXECUTION_CODES | Uncaught \<Rightarrow> True)"

lemma query_gate_Inl: "query_gate x c i = Inl f \<Longrightarrow> other_failure f"
  by (auto simp: query_gate_def other_failure_def EXECUTION_CODES_def split: if_splits option.splits sum.splits lookup.splits)

lemma store_failure_other: "f \<in> {lifecycle_down, audit_down, Uncaught} \<Longrightarrow> other_failure f"
  by (auto simp: other_failure_def lifecycle_down_def audit_down_def EXECUTION_CODES_def)

lemma admission_answer_other: "admission_answer a now r = Inl f \<Longrightarrow> other_failure f"
  by (auto simp: admission_answer_def other_failure_def unavailable_def EXECUTION_CODES_def split: option.splits capacity_answer.splits if_splits)

lemma acquire_answers: "answers (acquire a backend now tok j) (\<lambda>r. \<forall>f. r = Inl f \<longrightarrow> other_failure f)"
  unfolding acquire_def
  by (auto intro!: answers_return answers_bind [OF answers_any] dest: admission_answer_other
    simp: other_failure_def EXECUTION_CODES_def split: sum.split)

lemma admit_query_answers: "answers (admit_query x c i request sha) (\<lambda>r. \<forall>f. r = Inl f \<longrightarrow> other_failure f)"
proof (cases "qx_admission x")
  case None
  then show ?thesis by (auto simp: admit_query_def other_failure_def unavailable_def EXECUTION_CODES_def intro!: answers_return)
next
  case (Some a)
  show ?thesis unfolding admit_query_def Some option.case
  proof (rule answers_bind [OF acquire_answers])
    fix r :: "failure + lease"
    assume r: "\<forall>f. r = Inl f \<longrightarrow> other_failure f"
    have "answers (then_do (record_query x ev) (\<lambda>_. return_io (Inl f))) (\<lambda>r. \<forall>f. r = Inl f \<longrightarrow> other_failure f)"
      if "other_failure f" for ev f
      unfolding then_do_def by (rule answers_bind [OF record_query_answers])
        (use that in \<open>auto simp: store_failure_other intro!: answers_return split: sum.splits\<close>)
    then show "answers (case r of
         Inr l \<Rightarrow> return_io (Inr (Some l))
       | Inl Uncaught \<Rightarrow> return_io (Inl Uncaught)
       | Inl (Http status code) \<Rightarrow>
           then_do (record_query x (QueryRejected (subject_of c (pr_tenant (qk_principal c)) request sha) code)) (\<lambda>_.
             return_io (Inl (Http status code)))) (\<lambda>r. \<forall>f. r = Inl f \<longrightarrow> other_failure f)"
      using r by (auto intro!: answers_return split: sum.split failure.split)
  qed
qed

lemma or_refuse_triple:
  assumes "fleet_triple T C L k tok e P m Q" "\<And>y. fleet_triple T C L k tok e (Q (Inr y)) (f y) R" "\<And>d st. Q (Inl d) st \<Longrightarrow> R (Refuse d) st"
  shows "fleet_triple T C L k tok e P (or_refuse m f) R"
  unfolding or_refuse_def
proof (rule queries.triple_bind [OF assms(1)])
  fix r
  show "fleet_triple T C L k tok e (Q r) (case r of Inl d \<Rightarrow> return_io (Refuse d) | Inr y \<Rightarrow> f y) R"
    by (cases r) (simp_all add: assms(2,3) queries.triple_return)
qed

lemma admit_query_triple:
  assumes w: "call_within T C L x c i" and g: "query_gate x c i = Inr (request, ds)" and v: "qi_validated i = Some (sha, tables)"
    and k: "k = QueryKey (qk_tenant c) (qk_project c) request" "tok = qi_token i"
  shows "fleet_triple T C L k tok e (own k tok e) (admit_query x c i request sha)
    (\<lambda>r st. own k tok e st \<and> (\<forall>l. r = Inr l \<longrightarrow> mine k tok e l st \<and> leased k tok (call_subject c request sha) l \<and> (qx_admission x \<noteq> None \<longrightarrow> l \<noteq> None)))"
proof (cases "qx_admission x")
  case None
  then show ?thesis by (auto simp: admit_query_def mine_def leased_def intro!: queries.triple_return)
next
  case (Some a)
  note gate = query_gate_Inr [OF g]
  let ?j = "subject_of c (qk_tenant c) request sha"
  have j: "?j = call_subject c request sha" by (simp add: call_subject_def gate(1))
  have short: "subject_short ?j"
    using w gate(2,6) v by (auto simp: subject_short_def subject_of_def call_within_def identity_ok_def request_id_of_def split: option.splits if_splits)
  have key: "subject_key ?j = k" by (simp add: subject_key_def subject_of_def k(1))
  have within: "controller_within C L a" "short_string tok" "0 \<le> qi_now i" "qi_now i div 1000000 \<le> T"
    using w Some k(2) by (simp_all add: call_within_def)
  let ?R = "\<lambda>r st. own k tok e st \<and> (\<forall>l. r = Inr l \<longrightarrow> mine k tok e l st \<and> leased k tok (call_subject c request sha) l \<and> l \<noteq> None)"
  have acq: "fleet_triple T C L k tok e (own k tok e) (acquire a (qi_backend i) (qi_now i) (qi_token i) ?j)
    (\<lambda>r st. own k tok e st \<and> (\<forall>l. r = Inr l \<longrightarrow> held l st \<and> lease_of ?j l \<and> le_token l = tok \<and> le_reserved l = qc_max_scan a))"
    using acquire_triple [OF within(1) short within(2-4) key] by (simp add: k(2))
  have "fleet_triple T C L k tok e (own k tok e) (admit_query x c i request sha) ?R"
    unfolding admit_query_def Some option.case
  proof (rule queries.triple_bind [OF acq])
    fix r :: "failure + lease"
    let ?Q = "\<lambda>st. own k tok e st \<and> (\<forall>l. r = Inr l \<longrightarrow> held l st \<and> lease_of ?j l \<and> le_token l = tok \<and> le_reserved l = qc_max_scan a)"
    have rec: "fleet_triple T C L k tok e (own k tok e)
        (then_do (record_query x ev) (\<lambda>_. return_io (Inl f :: failure + lease option))) ?R" for ev f
      by (rule then_do_triple [OF record_query_triple [OF stable_own]]) (auto intro: queries.triple_return)
    show "fleet_triple T C L k tok e ?Q
        (case r of
         Inr l \<Rightarrow> return_io (Inr (Some l))
       | Inl Uncaught \<Rightarrow> return_io (Inl Uncaught)
       | Inl (Http status code) \<Rightarrow>
           then_do (record_query x (QueryRejected (subject_of c (pr_tenant (qk_principal c)) request sha) code)) (\<lambda>_.
             return_io (Inl (Http status code)))) ?R"
    proof (cases r)
      case (Inr l)
      then show ?thesis using lease_of_key key j
        by (auto simp: mine_def leased_def intro!: queries.triple_return)
    next
      case (Inl f)
      show ?thesis
      proof (cases f)
        case (Http s d)
        show ?thesis using rec by (simp add: Inl Http)
      qed (auto simp: Inl intro!: queries.triple_return)
    qed
  qed
  then show ?thesis by (rule triple_weaken) auto
qed

end
