(* ===== verification/QuerySelect.thy ===== *)
theory QuerySelect
  imports QueryServiceProps
begin

text \<open>
  A whole call of the query service, from its checks to its answer: what it leaves in the query table and the audit
  log, whatever the other instances and workers do meanwhile and whichever store calls fail.
\<close>

section \<open>The call as a triple\<close>

text \<open>Answers that stand for an execution that was begun, and what each of them comes with.\<close>

definition executed :: "query_answer \<Rightarrow> bool" where
  "executed ans \<longleftrightarrow> (case ans of Answer_rows _ \<Rightarrow> True | Refuse (Http _ code) \<Rightarrow> code \<in> set EXECUTION_CODES | _ \<Rightarrow> False)"

lemma executed_simps [simp]:
  "executed (Answer_rows r)" "\<not> executed Task_cancelled" "\<not> executed No_return"
  "executed (Refuse (Http n code)) \<longleftrightarrow> code \<in> set EXECUTION_CODES" "\<not> executed (Refuse Uncaught)"
  by (simp_all add: executed_def)

lemma other_not_executed: "other_failure f \<Longrightarrow> \<not> executed (Refuse f)"
  by (cases f) (simp_all add: other_failure_def)

lemma store_failure_not_executed [simp]: "\<not> executed (Refuse lifecycle_down)" "\<not> executed (Refuse audit_down)"
  by (simp_all add: store_failure_other other_not_executed)

definition call_accounted ::
  "query_config \<Rightarrow> query_call \<Rightarrow> query_inputs \<Rightarrow> query_key \<Rightarrow> string \<Rightarrow> string option \<Rightarrow> string \<Rightarrow> query_answer \<Rightarrow> query_store \<Rightarrow> bool" where
  "call_accounted x c i k tok e request ans st \<longleftrightarrow> (\<exists>sha tables l. qi_validated i = Some (sha, tables)
     \<and> logged (QueryRequest (call_subject c request sha) tables (qk_max_rows c)) st
     \<and> leased k tok (call_subject c request sha) l \<and> mine k tok e l st \<and> (qx_admission x \<noteq> None \<longrightarrow> l \<noteq> None)
     \<and> accounted (call_subject c request sha) l e ans st)"

lemma execute_select_triple:
  assumes w: "call_within T C L x c i" and g: "query_gate x c i = Inr (request, ds)"
    and k: "k = QueryKey (qk_tenant c) (qk_project c) request" "tok = qi_token i"
    and e: "e = announced (qx_athena x) (qi_athena i) ds (qk_tenant c) (qk_project c) (qk_max_rows c)"
  shows "fleet_triple T C L k tok e (own k tok e) (execute_select x c i)
    (\<lambda>ans st. own k tok e st \<and> (executed ans \<longrightarrow> call_accounted x c i k tok e request ans st))"
proof (cases "qi_validated i")
  case None
  have durable: "qx_audit_durable x" using w by (simp add: call_within_def)
  show ?thesis unfolding execute_select_def g sum.case prod.case Let_def None option.case
    by (rule or_refuse_triple [OF triple_answers [OF record_query_triple [OF stable_own] record_query_answers]])
      (auto intro!: queries.triple_return dest!: store_failure_other other_not_executed simp: EXECUTION_CODES_def)
next
  case (Some p)
  obtain sha tables where p: "p = (sha, tables)" by (cases p)
  have v: "qi_validated i = Some (sha, tables)" using Some p by simp
  have durable: "qx_audit_durable x" using w by (simp add: call_within_def)
  let ?j = "call_subject c request sha"
  let ?ev = "QueryRequest ?j tables (qk_max_rows c)"
  let ?R = "\<lambda>ans st. own k tok e st \<and> (executed ans \<longrightarrow> call_accounted x c i k tok e request ans st)"
  let ?admitted = "\<lambda>l. leased k tok ?j l \<and> (qx_admission x \<noteq> None \<longrightarrow> l \<noteq> None)"
  have run: "fleet_triple T C L k tok e (\<lambda>st. logged ?ev st \<and> mine k tok e l st) (run_query x c i ds ?j l) ?R" if l: "?admitted l" for l
  proof (rule triple_weaken [OF queries.triple_frame [OF run_query_triple [OF durable conjunct1 [OF l] e] stable_logged [of _ _ _ _ _ _ ?ev]]])
    fix ans st assume "logged ?ev st \<and> mine k tok e l st \<and> accounted ?j l e ans st"
    then show "?R ans st" using l v unfolding call_accounted_def mine_def by blast
  qed simp
  have adm: "fleet_triple T C L k tok e (\<lambda>st. logged ?ev st \<and> own k tok e st)
      (or_refuse (admit_query x c i request sha) (run_query x c i ds ?j)) ?R"
  proof (rule or_refuse_triple [OF triple_answers [OF queries.triple_frame [OF admit_query_triple [OF w g v k] stable_logged [of _ _ _ _ _ _ ?ev]] admit_query_answers]])
    fix l :: "lease option"
    show "fleet_triple T C L k tok e (\<lambda>st. (logged ?ev st \<and> own k tok e st \<and> (\<forall>l'. Inr l = Inr l' \<longrightarrow> mine k tok e l' st
        \<and> leased k tok ?j l' \<and> (qx_admission x \<noteq> None \<longrightarrow> l' \<noteq> None))) \<and> (\<forall>f. Inr l = Inl f \<longrightarrow> other_failure f)) (run_query x c i ds ?j l) ?R"
    proof (cases "?admitted l")
      case True
      show ?thesis by (rule triple_weaken [OF run [OF True]]) auto
    next
      case False
      then show ?thesis by (auto simp: service_triple_def)
    qed
  qed (auto dest: other_not_executed)
  show ?thesis unfolding execute_select_def g sum.case prod.case Let_def v option.case call_subject_def [symmetric]
  proof (rule or_refuse_triple [OF triple_answers [OF record_query_triple [OF stable_own] record_query_answers]])
    fix u :: unit
    show "fleet_triple T C L k tok e (\<lambda>st. (own k tok e st \<and> (Inr u = Inr () \<longrightarrow> qx_audit_durable x \<longrightarrow> logged ?ev st)) \<and> store_failure (Inr u))
       (or_refuse (admit_query x c i request sha) (run_query x c i ds ?j)) ?R"
      by (rule triple_weaken [OF adm]) (simp_all add: durable)
  qed (auto dest!: store_failure_other other_not_executed)
qed


section \<open>Calls in a fleet\<close>

text \<open>The row of a call, and the execution that it starts if it comes that far.\<close>

definition call_key :: "query_call \<Rightarrow> query_inputs \<Rightarrow> query_key" where
  "call_key c i = QueryKey (qk_tenant c) (qk_project c) (case request_id_of c i of None \<Rightarrow> [] | Some r \<Rightarrow> r)"

definition call_execution :: "query_config \<Rightarrow> query_call \<Rightarrow> query_inputs \<Rightarrow> string option" where
  "call_execution x c i = (case qi_lookup i of
     Datasource ds \<Rightarrow> announced (qx_athena x) (qi_athena i) ds (qk_tenant c) (qk_project c) (qk_max_rows c)
   | _ \<Rightarrow> None)"

text \<open>
  The other instances and workers, and the failures of the store, around one call: every one of them takes fleet steps,
  with other tokens than the call's.
\<close>

definition fleet_around :: "int \<Rightarrow> (string \<Rightarrow> int) \<Rightarrow> (string \<Rightarrow> int) \<Rightarrow> query_config \<Rightarrow> query_call \<Rightarrow> query_inputs
    \<Rightarrow> query_store service_world \<Rightarrow> bool" where
  "fleet_around T C L x c i w \<longleftrightarrow> fleet_reachable T C L (wd_store w) \<and> fresh_token (qi_token i) (wd_store w)
     \<and> good_env (fleet_ok T C L) (fleet_guarantee T C L (call_key c i) (qi_token i) (call_execution x c i)) (wd_env w)"

lemma fresh_own: "fresh_token tok st \<Longrightarrow> own k tok e st"
  by (auto simp: fresh_token_def own_def)

lemma fleet_around_good:
  assumes "fleet_around T C L x c i w"
  shows "good_service (fleet_ok T C L) (fleet_guarantee T C L (call_key c i) (qi_token i) (call_execution x c i)) w"
    "own (call_key c i) (qi_token i) (call_execution x c i) (wd_store w)"
  using assms reachable_fleet_ok fresh_own by (auto simp: fleet_around_def good_service_def)

lemma execute_select_outcome:
  assumes w: "call_within T C L x c i" "fleet_around T C L x c i w" and ans: "execute_select x c i w = (r, w')"
  shows "(fleet_step T C L)\<^sup>*\<^sup>* (wd_store w) (wd_store w')"
    "r = Some a \<Longrightarrow> executed a \<Longrightarrow> \<exists>request ds. query_gate x c i = Inr (request, ds)
       \<and> call_accounted x c i (call_key c i) (qi_token i) (call_execution x c i) request a (wd_store w')"
proof -
  note good = fleet_around_good [OF w(2)]
  have both: "(fleet_step T C L)\<^sup>*\<^sup>* (wd_store w) (wd_store w') \<and> (r = Some a \<longrightarrow> executed a \<longrightarrow>
      (\<exists>request ds. query_gate x c i = Inr (request, ds)
         \<and> call_accounted x c i (call_key c i) (qi_token i) (call_execution x c i) request a (wd_store w')))"
  proof (cases "query_gate x c i")
    case (Inl f)
    then have "r = Some (Refuse f)" "w' = w" using ans by (simp_all add: execute_select_def return_io_def)
    then show ?thesis using other_not_executed [OF query_gate_Inl [OF Inl]] by auto
  next
    case (Inr p)
    obtain request ds where p: "p = (request, ds)" by (cases p)
    note gate = query_gate_Inr [OF Inr [unfolded p]]
    have k: "call_key c i = QueryKey (qk_tenant c) (qk_project c) request" by (simp add: call_key_def gate(2))
    have e: "call_execution x c i = announced (qx_athena x) (qi_athena i) ds (qk_tenant c) (qk_project c) (qk_max_rows c)"
      by (simp add: call_execution_def gate(3))
    note t = tripleD [OF execute_select_triple [OF w(1) Inr [unfolded p] k refl e] good ans]
    from t(2) t(3) [of a] Inr p show ?thesis by (auto simp: fleet_guarantee_def)
  qed
  then show "(fleet_step T C L)\<^sup>*\<^sup>* (wd_store w) (wd_store w')"
    "r = Some a \<Longrightarrow> executed a \<Longrightarrow> \<exists>request ds. query_gate x c i = Inr (request, ds)
       \<and> call_accounted x c i (call_key c i) (qi_token i) (call_execution x c i) request a (wd_store w')" by blast+
qed

section \<open>A call\<close>

text \<open>One call on an empty table without other instances: it answers two rows, or fails when Athena refuses the start.\<close>

definition demo_member :: principal where
  "demo_member = \<lparr>pr_id = ''u'', pr_tenant = ''t'', pr_subject = ''s'', pr_issuer = ''i'', pr_roles = {TenantMember},
     pr_auth_method = OidcJwt, pr_status = Active, pr_projects = {''p''}, pr_scopes = {}, pr_version = 1\<rparr>"

definition demo_call :: query_call where
  "demo_call = \<lparr>qk_principal = demo_member, qk_tenant = ''t'', qk_project = ''p'', qk_datasource = ''d'', qk_max_rows = None,
     qk_request = Some ''q1''\<rparr>"

definition demo_config :: query_config where
  "demo_config = \<lparr>qx_admission = Some \<lparr>qc_limits = \<lparr>ql_project_rpm = 10, ql_principal_rpm = 10, ql_project_concurrency = 2,
        ql_principal_concurrency = 2, ql_project_scan = 250, ql_principal_scan = 250, ql_window = 60, ql_lease = 60\<rparr>, qc_max_scan = 100\<rparr>,
     qx_require_admission = True, qx_require_audit = True, qx_audit_durable = True, qx_bindings = [(''t'', ''p'', ''r'')],
     qx_athena = demo_limits\<rparr>"

definition demo_inputs :: "athena_script \<Rightarrow> query_inputs" where
  "demo_inputs sc = \<lparr>qi_lookup = Datasource demo_datasource, qi_validated = Some (''h'', 1), qi_raw_sha = ''h'',
     qi_backend = Output \<lparr>so_allowed = JBool True, so_limit = JInt 10, so_remaining = JInt 9, so_reset = Some (60000000, True), so_retry = JNull\<rparr>,
     qi_now = 10000000, qi_later = 12, qi_token = ''a'', qi_hex = ''f'', qi_athena = sc,
     qi_cancel = \<lparr>cs_factory = Got (), cs_first = Threw, cs_stop = Got (), cs_clock = 0, cs_looks = running_look\<rparr>\<rparr>"

definition demo_refused :: athena_script where
  "demo_refused = demo_script\<lparr>as_start := Threw\<rparr>"

lemma demo_within: "call_within 30 (\<lambda>_. 2) (\<lambda>_. 250) demo_config demo_call (demo_inputs sc)"
  by (simp add: call_within_def demo_config_def demo_call_def demo_member_def demo_inputs_def controller_within_def short_string_def)

lemma demo_around: "fleet_around 30 (\<lambda>_. 2) (\<lambda>_. 250) demo_config demo_call (demo_inputs sc) (quiet empty_queries)"
  by (simp add: fleet_around_def quiet_def fleet_reachable_def fresh_token_def row_at_def empty_queries_def good_env_def)

lemma demo_answers:
  "case execute_select demo_config demo_call (demo_inputs demo_script) (quiet empty_queries) of
     (Some (Answer_rows r), w') \<Rightarrow> ar_scanned r = 40 \<and> length (qs_log (wd_store w')) = 2 | _ \<Rightarrow> False"
  by code_simp

lemma demo_fails:
  "case execute_select demo_config demo_call (demo_inputs demo_refused) (quiet empty_queries) of
     (Some (Refuse (Http n code)), w') \<Rightarrow> code = ''athena_start_failed'' \<and> n = 502 | _ \<Rightarrow> False"
  by code_simp

text \<open>C20: Every call of the query service, whatever it answers, whichever of its store calls fail and whatever runs in
between, is a sequence of the steps of the fleet: admission, start, settlement, record and acknowledgement in no other
way than the concurrency and budget invariants allow.\<close>

theorem calls_follow_the_fleet:
  assumes "call_within T C L x c i" "fleet_around T C L x c i w" "execute_select x c i w = (r, w')"
  shows "(fleet_step T C L)\<^sup>*\<^sup>* (wd_store w) (wd_store w') \<and> fleet_reachable T C L (wd_store w')"
proof -
  have "(fleet_step T C L)\<^sup>*\<^sup>* (wd_store w) (wd_store w')" by (rule execute_select_outcome(1) [OF assms])
  moreover have "(fleet_step T C L)\<^sup>*\<^sup>* empty_queries (wd_store w)" using assms(2) by (simp add: fleet_around_def fleet_reachable_def)
  ultimately show ?thesis unfolding fleet_reachable_def by (metis rtranclp_trans)
qed

lemma calls_follow_the_fleet_witness:
  "\<exists>r w'. execute_select demo_config demo_call (demo_inputs demo_refused) (quiet empty_queries) = (r, w')
     \<and> fleet_reachable 30 (\<lambda>_. 2) (\<lambda>_. 250) (wd_store w')"
proof -
  obtain r w' where ans: "execute_select demo_config demo_call (demo_inputs demo_refused) (quiet empty_queries) = (r, w')" by fastforce
  from calls_follow_the_fleet [OF demo_within demo_around ans] ans show ?thesis by blast
qed

text \<open>C18: Rows are only ever answered for an authorized caller on an enabled datasource whose role binding the deployment
approved; the request and the outcome stand in the audit log, and with admission control the lease of exactly this query
is settled with what the execution scanned.\<close>

theorem answered_query_accounted:
  assumes "call_within T C L x c i" "fleet_around T C L x c i w" "execute_select x c i w = (Some (Answer_rows r), w')"
  shows "ad_allowed (authorize (qk_principal c) (Act QUERY_SELECT) (query_resource c) None)
    \<and> (\<exists>request ds sha tables. query_gate x c i = Inr (request, ds) \<and> ds_enabled ds
        \<and> (qk_tenant c, qk_project c, ds_role ds) \<in> set (qx_bindings x)
        \<and> qi_validated i = Some (sha, tables)
        \<and> {QueryRequest (call_subject c request sha) tables (qk_max_rows c), success_event (call_subject c request sha) r}
            \<subseteq> set (qs_log (wd_store w'))
        \<and> (qx_admission x \<noteq> None \<longrightarrow> (\<exists>l. lease_of (call_subject c request sha) l \<and> ar_scanned r \<le> le_reserved l
              \<and> settled l (success_audit r) (wd_store w'))))"
proof -
  obtain request ds sha tables l where o: "query_gate x c i = Inr (request, ds)" "qi_validated i = Some (sha, tables)"
    "logged (QueryRequest (call_subject c request sha) tables (qk_max_rows c)) (wd_store w')"
    "leased (call_key c i) (qi_token i) (call_subject c request sha) l" "qx_admission x \<noteq> None \<longrightarrow> l \<noteq> None"
    "logged (success_event (call_subject c request sha) r) (wd_store w')" "settled_with l True (\<lambda>_. success_audit r) (wd_store w')"
    using execute_select_outcome(2) [OF assms refl] by (auto simp: call_accounted_def)
  note gate = query_gate_Inr [OF o(1)]
  have "\<exists>l. lease_of (call_subject c request sha) l \<and> ar_scanned r \<le> le_reserved l \<and> settled l (success_audit r) (wd_store w')"
    if "qx_admission x \<noteq> None"
  proof -
    from that o(5) obtain y where y: "l = Some y" by blast
    then show ?thesis using o(4,7) by (intro exI [of _ y]) (auto simp: leased_def settled_with_def success_audit_def)
  qed
  with o(1,2,3,6) gate(4,5,7) show ?thesis unfolding logged_def by blast
qed

lemma answered_query_accounted_witness:
  "\<exists>r w'. execute_select demo_config demo_call (demo_inputs demo_script) (quiet empty_queries) = (Some (Answer_rows r), w')
     \<and> success_event (call_subject demo_call ''q1'' ''h'') r \<in> set (qs_log (wd_store w'))
     \<and> (\<exists>l. settled l (success_audit r) (wd_store w') \<and> ar_scanned r = 40 \<and> 40 \<le> le_reserved l)"
proof -
  obtain r w' where ans: "execute_select demo_config demo_call (demo_inputs demo_script) (quiet empty_queries) = (Some (Answer_rows r), w')"
    and scanned: "ar_scanned r = 40"
    using demo_answers by (auto split: prod.splits option.splits query_answer.splits)
  have "query_gate demo_config demo_call (demo_inputs demo_script) = Inr (''q1'', demo_datasource)" by code_simp
  moreover have "qi_validated (demo_inputs demo_script) = Some (''h'', 1)" "qx_admission demo_config \<noteq> None"
    by (simp_all add: demo_inputs_def demo_config_def)
  ultimately show ?thesis using answered_query_accounted [OF demo_within demo_around ans] ans scanned by auto
qed

lemma failed_lease_accounted:
  assumes f: "failure_settled j (Some l) code e status term started st" and l: "lease_of j l" "held l st"
  shows "\<exists>ev charge. QueryResult ev \<in> set (qs_log st) \<and> qe_request ev = qj_request j \<and> qe_failure ev = Some code \<and> qe_execution ev = e
    \<and> qe_accounted ev = Some charge
    \<and> (if qe_finalized ev = Some True
       then charge \<le> le_reserved l \<and> (\<exists>a. settled l a st \<and> ta_accounted a = charge \<and> tells l a (QueryResult ev))
       else qe_status ev = ''reconciliation_pending'' \<and> e \<noteq> None \<and> held l st)"
proof -
  let ?over = "terminal_observed e term"
  obtain ev where ev: "failure_event j (Some l) status code e term started ?over = QueryResult ev"
    and fields: "qe_request ev = qj_request j" "qe_failure ev = Some code" "qe_execution ev = e" "qe_finalized ev = Some ?over"
      "qe_accounted ev = Some (ta_accounted (failure_audit status code (le_reserved l) e term started))"
      "\<not> ?over \<Longrightarrow> qe_status ev = ''reconciliation_pending''"
    by (simp add: failure_event_def failure_audit_def)
  have logged: "QueryResult ev \<in> set (qs_log st)" using f by (simp add: failure_settled_def logged_def ev)
  show ?thesis
  proof (cases ?over)
    case True
    let ?a = "failure_audit status code (le_reserved l) e term started"
    have "settled l ?a st \<and> ta_accounted ?a \<le> le_reserved l" using f True by (simp add: failure_settled_def settled_with_def)
    moreover have "tells l ?a (QueryResult ev)"
      unfolding ev [symmetric] by (rule failure_event_tells [where k = "lease_key l" and tok = "le_token l"]) (simp_all add: leased_def l(1) True)
    ultimately show ?thesis using logged fields True by (intro exI [of _ ev] exI [of _ "ta_accounted ?a"]) auto
  next
    case False
    then have "e \<noteq> None" by (simp add: terminal_observed_def)
    with False logged fields l(2) show ?thesis by auto
  qed
qed

text \<open>C19: A query that failed in its execution leaves an outcome in the audit log with the code that the caller is
answered, and its lease is either settled with the charge that the log states, when the execution was seen to end or none
was started, or the log says that reconciliation is pending.\<close>

theorem failed_query_accounted:
  assumes "call_within T C L x c i" "fleet_around T C L x c i w" "execute_select x c i w = (Some (Refuse (Http n code)), w')"
    "code \<in> set EXECUTION_CODES" "qx_admission x \<noteq> None"
  shows "\<exists>request sha l ev charge. lease_of (call_subject c request sha) l \<and> QueryResult ev \<in> set (qs_log (wd_store w'))
    \<and> qe_request ev = request \<and> qe_failure ev = Some code \<and> qe_execution ev = call_execution x c i \<and> qe_accounted ev = Some charge
    \<and> (if qe_finalized ev = Some True
       then charge \<le> le_reserved l \<and> (\<exists>a. settled l a (wd_store w') \<and> ta_accounted a = charge \<and> tells l a (QueryResult ev))
       else qe_status ev = ''reconciliation_pending'' \<and> call_execution x c i \<noteq> None \<and> held l (wd_store w'))"
proof -
  have exec: "executed (Refuse (Http n code))" using assms(4) by simp
  obtain request sha l status obs started where o: "leased (call_key c i) (qi_token i) (call_subject c request sha) l"
    "mine (call_key c i) (qi_token i) (call_execution x c i) l (wd_store w')" "l \<noteq> None"
    "failure_settled (call_subject c request sha) l code (call_execution x c i) status obs started (wd_store w')"
    using execute_select_outcome(2) [OF assms(1-3) refl exec] assms(4,5) by (auto simp: call_accounted_def failure_accounted_def)
  then obtain y where y: "l = Some y" by blast
  have l: "lease_of (call_subject c request sha) y" "held y (wd_store w')" using o(1,2) by (simp_all add: y leased_def mine_def)
  have "qj_request (call_subject c request sha) = request" by (simp add: call_subject_def subject_of_def)
  with failed_lease_accounted [OF o(4) [unfolded y] l] l(1) show ?thesis by metis
qed

lemma failed_query_accounted_witness:
  "\<exists>w' ev. execute_select demo_config demo_call (demo_inputs demo_refused) (quiet empty_queries)
       = (Some (Refuse (Http 502 ''athena_start_failed'')), w')
     \<and> QueryResult ev \<in> set (qs_log (wd_store w')) \<and> qe_failure ev = Some ''athena_start_failed''"
proof -
  obtain w' where ans: "execute_select demo_config demo_call (demo_inputs demo_refused) (quiet empty_queries)
      = (Some (Refuse (Http 502 ''athena_start_failed'')), w')"
    using demo_fails by (auto split: prod.splits option.splits query_answer.splits failure.splits)
  have "''athena_start_failed'' \<in> set EXECUTION_CODES" "qx_admission demo_config \<noteq> None"
    by (simp_all add: EXECUTION_CODES_def demo_config_def)
  from failed_query_accounted [OF demo_within demo_around ans this] ans show ?thesis by blast
qed

end
