(* ===== verification/QueryReconcile.thy ===== *)
theory QueryReconcile
  imports QueryService
begin

text \<open>
  The recovery of interrupted queries (\<open>query/reconciliation.py\<close>): what a worker makes of one claimed row, a bounded pass
  over the pages of the table with its counters, and the cursor that a worker carries from pass to pass. What the
  repository and Athena answer is an argument, per claim; so are the clock and the claim tokens, per page. The store is
  enabled and the audit trail durable; a pass without them is refused before it does anything.
\<close>

section \<open>One claim\<close>

text \<open>\<open>_terminal_audit\<close>: the evidence of a query that was interrupted after its start, and of one before.\<close>

definition terminal_audit_of :: "lease \<Rightarrow> termination_seen \<Rightarrow> terminal_audit" where
  "terminal_audit_of l t =
     \<lparr>ta_status = (if tm_state t = ''SUCCEEDED'' then Succeeded else if tm_state t = ''CANCELLED'' then Cancelled else Failed),
      ta_failure = (if tm_state t = ''SUCCEEDED'' then None
        else if tm_state t = ''CANCELLED'' then Some ''query_cancelled_after_interruption'' else Some ''athena_query_failed''),
      ta_execution = Some (tm_execution t), ta_state = Some (tm_state t), ta_observed = tm_scanned t,
      ta_accounted = (case tm_scanned t of None \<Rightarrow> le_reserved l | Some n \<Rightarrow> min n (le_reserved l)),
      ta_engine_ms = tm_engine_ms t, ta_cancel_requested = tm_cancel_requested t,
      ta_accounting = (case tm_scanned t of None \<Rightarrow> ''reserved_fallback''
        | Some n \<Rightarrow> if n \<le> le_reserved l then ''actual'' else ''reservation_ceiling''),
      ta_row_count = None, ta_truncated = None, ta_result_bytes = None\<rparr>"

definition never_started :: "lease \<Rightarrow> terminal_audit" where
  "never_started l = \<lparr>ta_status = Failed, ta_failure = Some ''query_interrupted_before_execution_id'', ta_execution = None,
     ta_state = None, ta_observed = None, ta_accounted = le_reserved l, ta_engine_ms = None, ta_cancel_requested = False,
     ta_accounting = ''reserved_fallback'', ta_row_count = None, ta_truncated = None, ta_result_bytes = None\<rparr>"

text \<open>
  What a pass is told about a claim. \<open>Interrupted\<close> is a pass that is cancelled while it waits for Athena, or that
  never comes back from there.
\<close>

record reconciler =
  rc_bindings :: "(string \<times> string \<times> string) list"
  rc_lookup :: "query_claim \<Rightarrow> lookup"
  rc_cancel :: "query_claim \<Rightarrow> cancel_script"
  rc_claim_seconds :: int
  rc_page_size :: nat

definition reconciler_valid :: "reconciler \<Rightarrow> bool" where
  "reconciler_valid rc \<longleftrightarrow> 15 \<le> rc_claim_seconds rc \<and> rc_claim_seconds rc \<le> 900 \<and> 1 \<le> rc_page_size rc \<and> rc_page_size rc \<le> 100"

datatype 'a attempt = Knows 'a | Interrupted

definition terminal_state :: "reconciler \<Rightarrow> query_claim \<Rightarrow> terminal_audit option attempt" where
  "terminal_state rc c = (let l = cl_lease c in
     if cl_status c = Accepted then Knows (Some (never_started l))
     else (case rc_lookup rc c of
         Datasource ds \<Rightarrow>
           if (le_tenant l, le_project l, ds_role ds) \<notin> set (rc_bindings rc) then Knows None
           else (case cancel_query (rc_cancel rc c) ds (le_tenant l) (le_project l) (case cl_execution c of None \<Rightarrow> [] | Some e \<Rightarrow> e) of
               Some (Ok t) \<Rightarrow> Knows (if tm_terminal t then Some (terminal_audit_of l t) else None)
             | Some (Err _) \<Rightarrow> Knows None
             | Some Crashed \<Rightarrow> Knows None
             | _ \<Rightarrow> Interrupted)
       | _ \<Rightarrow> Knows None))"

definition audit_and_ack :: "query_claim \<Rightarrow> (query_store, unit) service" where
  "audit_and_ack c = (case cl_audit c of
     None \<Rightarrow> fail_io
   | Some a \<Rightarrow> bind_io (write_io (\<lambda>st. Inr (append_event (QueryResult (query_entry_of (cl_lease c) a)) st) :: unit + query_store)) (\<lambda>out.
       if out \<noteq> Done then fail_io
       else bind_io (ack_query_reconciliation_audit c) (\<lambda>b. if b then return_io () else fail_io)))"

datatype reconcile_outcome = Was_finalized | Was_audited | Was_deferred | Was_lost

definition settled_claim :: "query_claim \<Rightarrow> terminal_audit \<Rightarrow> query_claim" where
  "settled_claim c a = c\<lparr>cl_status := ta_status a, cl_execution := ta_execution a, cl_audit := Some a\<rparr>"

definition reconcile_claim :: "reconciler \<Rightarrow> query_claim \<Rightarrow> (query_store, reconcile_outcome attempt) service" where
  "reconcile_claim rc c =
     (if \<not> active (cl_status c) then bind_io (audit_and_ack c) (\<lambda>_. return_io (Knows Was_audited))
      else (case terminal_state rc c of
          Interrupted \<Rightarrow> return_io Interrupted
        | Knows None \<Rightarrow> bind_io (defer_query_reconciliation c) (\<lambda>b. return_io (Knows (if b then Was_deferred else Was_lost)))
        | Knows (Some a) \<Rightarrow>
            if \<not> terminal_audit_valid a then fail_io
            else bind_io (finalize_query_reconciliation c a) (\<lambda>b.
              if \<not> b then return_io (Knows Was_lost)
              else if \<not> claim_valid (settled_claim c a) then fail_io
              else bind_io (audit_and_ack (settled_claim c a)) (\<lambda>_. return_io (Knows Was_finalized)))))"

section \<open>A pass\<close>

record run_result =
  rn_claimed :: nat
  rn_finalized :: nat
  rn_audited :: nat
  rn_deferred :: nat
  rn_lost :: nat
  rn_failed :: nat
  rn_pages :: nat
  rn_next :: "nat option"

definition count_outcome :: "reconcile_outcome \<Rightarrow> run_result \<Rightarrow> run_result" where
  "count_outcome x r = (case x of
     Was_finalized \<Rightarrow> r\<lparr>rn_finalized := rn_finalized r + 1, rn_audited := rn_audited r + 1\<rparr>
   | Was_audited \<Rightarrow> r\<lparr>rn_audited := rn_audited r + 1\<rparr>
   | Was_deferred \<Rightarrow> r\<lparr>rn_deferred := rn_deferred r + 1\<rparr>
   | Was_lost \<Rightarrow> r\<lparr>rn_lost := rn_lost r + 1\<rparr>)"

text \<open>The claims of a page: an exception counts and leaves the row to its claim's expiry.\<close>

fun reconcile_claims :: "reconciler \<Rightarrow> query_claim list \<Rightarrow> run_result \<Rightarrow> (query_store, run_result attempt) service" where
  "reconcile_claims rc [] r = return_io (Knows r)"
| "reconcile_claims rc (c # cs) r = bind_io (try_io (reconcile_claim rc c)) (\<lambda>x. (case x of
     None \<Rightarrow> reconcile_claims rc cs (r\<lparr>rn_failed := rn_failed r + 1\<rparr>)
   | Some Interrupted \<Rightarrow> return_io Interrupted
   | Some (Knows y) \<Rightarrow> reconcile_claims rc cs (count_outcome y r)))"

text \<open>What depends on the page: the clock and the claim tokens; \<open>place\<close> and \<open>page_end\<close> are as for a page of the scan.\<close>

record page_inputs =
  pg_place :: "query_key \<Rightarrow> nat"
  pg_end :: "nat \<Rightarrow> nat option \<Rightarrow> nat option"
  pg_owner :: string
  pg_now :: "nat \<Rightarrow> int"
  pg_tokens :: "nat \<Rightarrow> nat \<Rightarrow> string"

datatype run_error = Bad_max_pages | Cursor_repeated | Scan_failed | Page_too_long

fun run_pages :: "reconciler \<Rightarrow> page_inputs \<Rightarrow> nat \<Rightarrow> nat \<Rightarrow> nat list \<Rightarrow> nat option \<Rightarrow> run_result
    \<Rightarrow> (query_store, (run_error + run_result) attempt) service" where
  "run_pages rc pg 0 p seen cursor r = return_io (Knows (Inr (r\<lparr>rn_next := cursor\<rparr>)))"
| "run_pages rc pg (Suc n) p seen cursor r =
     (if (case cursor of None \<Rightarrow> False | Some k \<Rightarrow> k \<in> set seen) then return_io (Knows (Inl Cursor_repeated))
      else bind_io (try_io (claim_query_reconciliation_page (pg_place pg) (pg_end pg) (pg_owner pg) (pg_now pg p)
          (rc_claim_seconds rc) (rc_page_size rc) cursor (pg_tokens pg p))) (\<lambda>page. (case page of
        None \<Rightarrow> return_io (Knows (Inl Scan_failed))
      | Some (cs, next_cursor) \<Rightarrow>
          if rc_page_size rc < length cs then return_io (Knows (Inl Page_too_long))
          else bind_io (reconcile_claims rc cs (r\<lparr>rn_pages := rn_pages r + 1, rn_claimed := rn_claimed r + length cs\<rparr>)) (\<lambda>x. (case x of
              Interrupted \<Rightarrow> return_io Interrupted
            | Knows r' \<Rightarrow> (case next_cursor of
                None \<Rightarrow> return_io (Knows (Inr (r'\<lparr>rn_next := None\<rparr>)))
              | Some _ \<Rightarrow> run_pages rc pg n (Suc p) ((case cursor of None \<Rightarrow> [] | Some k \<Rightarrow> [k]) @ seen) next_cursor r'))))))"

definition no_result :: run_result where
  "no_result = \<lparr>rn_claimed = 0, rn_finalized = 0, rn_audited = 0, rn_deferred = 0, rn_lost = 0, rn_failed = 0, rn_pages = 0, rn_next = None\<rparr>"

definition reconcile_run :: "reconciler \<Rightarrow> page_inputs \<Rightarrow> nat option \<Rightarrow> nat \<Rightarrow> (query_store, (run_error + run_result) attempt) service" where
  "reconcile_run rc pg cursor max_pages =
     (if \<not> (1 \<le> max_pages \<and> max_pages \<le> 100) then return_io (Knows (Inl Bad_max_pages))
      else run_pages rc pg max_pages 0 [] cursor no_result)"

text \<open>
  One round of the worker's loop: the cursor that the next pass starts from. An error keeps it; \<open>Interrupted\<close> is that
  the worker is cancelled.
\<close>

definition worker_pass :: "reconciler \<Rightarrow> page_inputs \<Rightarrow> nat \<Rightarrow> nat option \<Rightarrow> (query_store, nat option attempt) service" where
  "worker_pass rc pg max_pages cursor = bind_io (reconcile_run rc pg cursor max_pages) (\<lambda>x. return_io (case x of
     Interrupted \<Rightarrow> Interrupted
   | Knows (Inr r) \<Rightarrow> Knows (rn_next r)
   | Knows (Inl _) \<Rightarrow> Knows cursor))"

end
