(* ===== verification/QueryReconcileProps.thy ===== *)
theory QueryReconcileProps
  imports QueryReconcile QueryServiceProps
begin

text \<open>
  Passes of the reconciliation worker: they keep the fleet's rules whatever fails, what their counters promise is so,
  their cursors never repeat, and in quiet times a pass leaves nothing behind.
\<close>

section \<open>One claim\<close>

lemma terminal_audit_of_valid:
  assumes "termination_valid t" "tm_terminal t" "1 \<le> le_reserved l"
  shows "terminal_audit_valid (terminal_audit_of l t)" "ta_accounted (terminal_audit_of l t) \<le> le_reserved l"
  using assms by (auto simp: terminal_audit_of_def terminal_audit_valid_def termination_valid_def active_def optional_def
    TERMINAL_STATES_def ACTIVE_STATES_def SCAN_ACCOUNTING_def ATHENA_STATES_def split: option.splits)

lemma never_started_valid: "1 \<le> le_reserved l \<Longrightarrow> terminal_audit_valid (never_started l) \<and> ta_accounted (never_started l) \<le> le_reserved l"
  by (simp add: never_started_def terminal_audit_valid_def active_def optional_def SCAN_ACCOUNTING_def)

text \<open>A query that is dealt with: settled, recorded and acknowledged.\<close>

definition dealt_with :: "lease \<Rightarrow> query_store \<Rightarrow> bool" where
  "dealt_with l st \<longleftrightarrow> (\<exists>a. settled l a st \<and> told l a st \<and> acked l st)"

lemma stable_closed [intro]: "stable_under (fleet_follows T C L k tok e) (dealt_with l)"
  using stable_settled [of T C L k tok e l] stable_told [of T C L k tok e l] stable_acked [of T C L k tok e l]
  unfolding stable_under_def dealt_with_def by blast

lemma audit_and_ack_triple:
  "fleet_triple T C L k tok e (claim_ok c) (audit_and_ack c)
     (\<lambda>_. dealt_with (cl_lease c))"
proof (cases "cl_audit c")
  case (Some a)
  let ?ev = "QueryResult (query_entry_of (cl_lease c) a)"
  let ?txn = "\<lambda>st. Inr (append_event ?ev st) :: unit + query_store"
  have w: "fleet_triple T C L k tok e (claim_ok c) (write_io ?txn) (\<lambda>out st. claim_ok c st \<and> (out = Done \<longrightarrow> logged ?ev st))"
  proof (rule queries.triple_write [OF stable_claim stable_logged])
    fix st st' assume "?txn st = Inr st'"
    then show "fleet_guarantee T C L k tok e st st' \<and> logged ?ev st'"
      using Record [of T C L st ?ev] by (auto simp: guaranteeI own_log) (simp add: logged_def append_event_def)
  qed
  let ?P = "\<lambda>st. claim_ok c st \<and> told (cl_lease c) a st"
  have P: "stable_under (fleet_follows T C L k tok e) ?P" by (rule stable_conj [OF stable_claim stable_told])
  have ack: "fleet_triple T C L k tok e ?P (ack_query_reconciliation_audit c) (\<lambda>b st. ?P st \<and> (b \<longrightarrow> acked (cl_lease c) st))"
    if "claim_valid c"
    by (rule triple_weaken [OF queries.triple_frame [OF acknowledge_triple [OF that] P]]) (auto simp: Some claim_ok_def)
  show ?thesis
  proof (cases "claim_valid c")
    case True
    show ?thesis unfolding audit_and_ack_def Some option.case
    proof (rule queries.triple_bind [OF w])
      fix out :: "unit outcome"
      show "fleet_triple T C L k tok e (\<lambda>st. claim_ok c st \<and> (out = Done \<longrightarrow> logged ?ev st))
        (if out \<noteq> Done then fail_io else bind_io (ack_query_reconciliation_audit c) (\<lambda>b. if b then return_io () else fail_io))
        (\<lambda>_. dealt_with (cl_lease c))"
      proof (cases "out = Done")
        case True
        then have done_cond: "\<not> out \<noteq> Done" by simp
        have "fleet_triple T C L k tok e ?P (bind_io (ack_query_reconciliation_audit c) (\<lambda>b. if b then return_io () else fail_io))
          (\<lambda>_. dealt_with (cl_lease c))"
          by (rule queries.triple_bind [OF ack [OF \<open>claim_valid c\<close>]])
            (auto intro!: queries.triple_return queries.triple_fail simp: claim_ok_def dealt_with_def Some)
        then show ?thesis unfolding if_not_P [OF done_cond]
          by (rule triple_weaken) (auto simp: True intro: logged_told)
      qed (simp add: queries.triple_fail)
    qed
  qed (simp add: service_triple_def claim_ok_def)
qed (simp add: audit_and_ack_def queries.triple_fail)

lemma finalize_claim_triple:
  assumes a: "terminal_audit_valid a"
  shows "fleet_triple T C L k tok e (claim_ok c) (finalize_query_reconciliation c a)
    (\<lambda>b st. claim_ok c st \<and> (b \<longrightarrow> claim_valid (settled_claim c a) \<longrightarrow> claim_ok (settled_claim c a) st))"
  by (rule triple_weaken [OF queries.triple_frame [OF finalize_reconciliation_triple [OF a] stable_claim [of _ _ _ _ _ _ c]]])
    (auto simp: claim_ok_def settled_claim_def)

definition outcome_closes :: "query_claim \<Rightarrow> reconcile_outcome attempt \<Rightarrow> query_store \<Rightarrow> bool" where
  "outcome_closes c x st \<longleftrightarrow> (x \<in> {Knows Was_finalized, Knows Was_audited} \<longrightarrow> dealt_with (cl_lease c) st)"

lemma reconcile_claim_triple:
  "fleet_triple T C L k tok e (claim_ok c) (reconcile_claim rc c) (outcome_closes c)"
proof (cases "active (cl_status c)")
  case False
  then show ?thesis unfolding reconcile_claim_def if_P [OF False]
    by (intro queries.triple_bind [OF audit_and_ack_triple] queries.triple_return) (simp add: outcome_closes_def)
next
  case True
  then have nn: "\<not> \<not> active (cl_status c)" by simp
  have other: "outcome_closes c (Knows (if b then Was_deferred else Was_lost)) st" "outcome_closes c Interrupted st" for b st
    by (simp_all add: outcome_closes_def)
  have put_off: "fleet_triple T C L k tok e (claim_ok c) (bind_io (defer_query_reconciliation c)
      (\<lambda>b. return_io (Knows (if b then Was_deferred else Was_lost)))) (outcome_closes c)"
  proof (rule queries.triple_bind)
    show "fleet_triple T C L k tok e (claim_ok c) (defer_query_reconciliation c) (\<lambda>_ _. True)"
      by (rule triple_weaken [OF defer_triple]) simp_all
  qed (rule queries.triple_return, rule other)
  have finish: "fleet_triple T C L k tok e (claim_ok c) (bind_io (finalize_query_reconciliation c a) (\<lambda>b.
      if \<not> b then return_io (Knows Was_lost)
      else if \<not> claim_valid (settled_claim c a) then fail_io
      else bind_io (audit_and_ack (settled_claim c a)) (\<lambda>_. return_io (Knows Was_finalized)))) (outcome_closes c)"
    if "terminal_audit_valid a" for a
  proof (rule queries.triple_bind [OF finalize_claim_triple [OF that]])
    fix b :: bool
    have l: "cl_lease (settled_claim c a) = cl_lease c" by (simp add: settled_claim_def)
    have ack: "fleet_triple T C L k tok e (claim_ok (settled_claim c a))
        (bind_io (audit_and_ack (settled_claim c a)) (\<lambda>_. return_io (Knows Was_finalized))) (outcome_closes c)"
      by (intro queries.triple_bind [OF audit_and_ack_triple] queries.triple_return) (simp add: outcome_closes_def l)
    show "fleet_triple T C L k tok e (\<lambda>st. claim_ok c st \<and> (b \<longrightarrow> claim_valid (settled_claim c a) \<longrightarrow> claim_ok (settled_claim c a) st))
      (if \<not> b then return_io (Knows Was_lost)
      else if \<not> claim_valid (settled_claim c a) then fail_io
      else bind_io (audit_and_ack (settled_claim c a)) (\<lambda>_. return_io (Knows Was_finalized))) (outcome_closes c)"
    proof (cases "b \<and> claim_valid (settled_claim c a)")
      case True
      then have "\<not> \<not> b" "\<not> \<not> claim_valid (settled_claim c a)" by simp_all
      show ?thesis unfolding if_not_P [OF \<open>\<not> \<not> b\<close>] if_not_P [OF \<open>\<not> \<not> claim_valid (settled_claim c a)\<close>]
        by (rule triple_weaken [OF ack]) (use True in simp_all)
    qed (auto intro!: queries.triple_return queries.triple_fail simp: outcome_closes_def)
  qed
  show ?thesis unfolding reconcile_claim_def if_not_P [OF nn]
    using put_off finish
    by (auto intro!: queries.triple_return queries.triple_fail other split: attempt.split option.split)
qed

section \<open>A pass\<close>

lemma reconcile_claims_triple:
  "fleet_triple T C L k tok e (\<lambda>st. \<forall>c \<in> set cs. claim_ok c st) (reconcile_claims rc cs r) (\<lambda>_ _. True)"
proof (induction cs arbitrary: r)
  case Nil
  show ?case by (simp add: queries.triple_return)
next
  case (Cons c cs)
  let ?P = "\<lambda>st. \<forall>c \<in> set cs. claim_ok c st"
  have one: "fleet_triple T C L k tok e (\<lambda>st. ?P st \<and> claim_ok c st) (try_io (reconcile_claim rc c)) (\<lambda>_. ?P)"
    by (rule triple_weaken [OF queries.triple_frame [OF queries.triple_try [OF reconcile_claim_triple stable_claim] stable_claims [of _ _ _ _ _ _ cs]]]) auto
  have "fleet_triple T C L k tok e (\<lambda>st. ?P st \<and> claim_ok c st) (reconcile_claims rc (c # cs) r) (\<lambda>_ _. True)"
    unfolding reconcile_claims.simps
    by (rule queries.triple_bind [OF one]) (auto intro!: queries.triple_return Cons.IH split: option.split attempt.split)
  then show ?case by (rule triple_weaken) auto
qed

lemma run_pages_triple:
  "fleet_triple T C L k tok e (\<lambda>_. True) (run_pages rc pg n p seen cursor r) (\<lambda>_ _. True)"
proof (induction n arbitrary: p seen cursor r)
  case 0
  show ?case by (simp add: queries.triple_return)
next
  case (Suc n)
  let ?m = "claim_query_reconciliation_page (pg_place pg) (pg_end pg) (pg_owner pg) (pg_now pg p) (rc_claim_seconds rc) (rc_page_size rc) cursor (pg_tokens pg p)"
  have page: "fleet_triple T C L k tok e (\<lambda>_. True) (try_io ?m) (\<lambda>x st. \<forall>cs n. x = Some (cs, n) \<longrightarrow> (\<forall>c \<in> set cs. claim_ok c st))"
    by (rule triple_weaken [OF queries.triple_try [OF claim_page_triple stable_True]]) auto
  show ?case
  proof (cases "case cursor of None \<Rightarrow> False | Some k \<Rightarrow> k \<in> set seen")
    case True
    then show ?thesis by (simp add: queries.triple_return)
  next
    case False
    show ?thesis unfolding run_pages.simps if_not_P [OF False]
      by (rule queries.triple_bind [OF page])
        (auto intro!: queries.triple_return queries.triple_bind [OF reconcile_claims_triple] Suc.IH split: option.split attempt.split)
  qed
qed

section \<open>Cursors and counters\<close>

text \<open>A function that always answers, and with what.\<close>

definition ends :: "('s, 'a) service \<Rightarrow> ('a \<Rightarrow> bool) \<Rightarrow> bool" where
  "ends m A \<longleftrightarrow> (\<forall>w. \<exists>r w'. m w = (Some r, w') \<and> A r)"

lemma ends_return: "A x \<Longrightarrow> ends (return_io x) A"
  by (simp add: ends_def return_io_def)

lemma ends_bind: "ends m B \<Longrightarrow> (\<And>x. B x \<Longrightarrow> ends (f x) A) \<Longrightarrow> ends (bind_io m f) A"
  unfolding ends_def bind_io_def by (metis (mono_tags, lifting) option.simps(5) prod.case)

lemma ends_try: "answers m A \<Longrightarrow> ends (try_io m) (\<lambda>r. \<forall>x. r = Some x \<longrightarrow> A x)"
  unfolding ends_def answers_def try_io_def by (auto split: prod.splits)

lemma ends_weaken: "ends m A \<Longrightarrow> (\<And>x. A x \<Longrightarrow> B x) \<Longrightarrow> ends m B"
  unfolding ends_def by metis

lemma claim_candidates_answers:
  "1 \<le> limit \<Longrightarrow> answers (claim_candidates owner now expires limit tok i rows)
     (\<lambda>(cs, stop). length cs \<le> limit \<and> (\<forall>k. stop = Some k \<longrightarrow> k \<in> fst ` set rows))"
proof (induction rows arbitrary: i limit)
  case Nil
  show ?case by (simp add: answers_return)
next
  case (Cons row rest)
  obtain k r where row: "row = (k, r)" by (cases row)
  let ?A = "\<lambda>limit rows (cs :: query_claim list, stop). length cs \<le> limit \<and> (\<forall>k. stop = Some k \<longrightarrow> k \<in> fst ` set rows)"
  have skip: "answers (claim_candidates owner now expires limit tok (Suc i) rest) (?A limit (row # rest))"
    using Cons.IH [OF Cons.prems, of "Suc i"] unfolding answers_def by fastforce
  have more: "answers (bind_io (claim_candidates owner now expires (limit - 1) tok (Suc i) rest) (\<lambda>(cs, stop). return_io (c # cs, stop)))
      (?A limit (row # rest))" if "\<not> limit \<le> 1" for c
    by (rule answers_bind [OF Cons.IH]) (use that in \<open>auto intro!: answers_return\<close>)
  have stop: "answers (return_io ([c], if rest = [] then None else Some k)) (?A limit (row # rest))" for c
    by (rule answers_return) (use Cons.prems row in auto)
  have failed: "answers fail_io (?A limit (row # rest))" by (simp add: answers_def fail_io_def)
  show ?case unfolding row claim_candidates.simps
    using skip more stop failed unfolding row
    by (auto intro!: answers_bind [OF answers_any] split: option.split sum.split outcome.split)
qed

text \<open>A page of the scan ends after it began.\<close>

definition pages_advance :: "page_inputs \<Rightarrow> bool" where
  "pages_advance pg \<longleftrightarrow> (\<forall>limit start e. pg_end pg limit start = Some e \<longrightarrow> past_place start e)"

lemma claim_page_answers:
  assumes "pages_advance pg"
  shows "answers (claim_query_reconciliation_page (pg_place pg) (pg_end pg) owner now secs limit cursor tok)
    (\<lambda>(cs, n). length cs \<le> limit \<and> (\<forall>e. n = Some e \<longrightarrow> past_place cursor e))"
proof (cases "owner = [] \<or> owner \<noteq> py_strip owner \<or> 256 < length owner \<or> \<not> (15 \<le> secs \<and> secs \<le> 900) \<or> \<not> (1 \<le> limit \<and> limit \<le> 100)")
  case True
  show ?thesis unfolding claim_query_reconciliation_page_def if_P [OF True] by (simp add: answers_def fail_io_def)
next
  case False
  let ?stop = "pg_end pg (min 1000 (max limit (limit * 20))) cursor"
  let ?page = "scan_page (pg_place pg) cursor ?stop (\<lambda>r. claim_eligible now r \<and> unclaimed now r)"
  have g: "answers (get_io ?page) (\<lambda>rows. \<forall>k \<in> fst ` set rows. past_place cursor (pg_place pg k))"
    by (auto simp: answers_def get_io_def scan_page_def split: prod.splits if_splits)
  have limit: "1 \<le> limit" using False by simp
  show ?thesis unfolding claim_query_reconciliation_page_def if_not_P [OF False] Let_def
  proof (rule answers_bind [OF g])
    fix rows :: "(query_key \<times> lifecycle) list"
    assume rows: "\<forall>k \<in> fst ` set rows. past_place cursor (pg_place pg k)"
    show "answers (bind_io (claim_candidates owner now (now + secs) limit tok 0 rows) (\<lambda>(cs, early).
        return_io (cs, case early of None \<Rightarrow> ?stop | Some k \<Rightarrow> Some (pg_place pg k))))
      (\<lambda>(cs, n). length cs \<le> limit \<and> (\<forall>e. n = Some e \<longrightarrow> past_place cursor e))"
      by (rule answers_bind [OF claim_candidates_answers [OF limit]])
        (use rows assms in \<open>auto intro!: answers_return simp: pages_advance_def split: option.splits\<close>)
  qed
qed

definition counts_ok :: "nat \<Rightarrow> run_result \<Rightarrow> bool" where
  "counts_ok rest r \<longleftrightarrow> rn_claimed r = rn_audited r + rn_deferred r + rn_lost r + rn_failed r + rest \<and> rn_finalized r \<le> rn_audited r"

lemma reconcile_claims_counts:
  "counts_ok (length cs + rest) r \<Longrightarrow> ends (reconcile_claims rc cs r)
     (\<lambda>x. \<forall>r'. x = Knows r' \<longrightarrow> counts_ok rest r' \<and> rn_pages r' = rn_pages r \<and> rn_claimed r' = rn_claimed r)"
proof (induction cs arbitrary: r)
  case Nil
  then show ?case by (simp add: ends_return)
next
  case (Cons c cs)
  have y: "counts_ok (length cs + rest) (count_outcome y r)" "rn_pages (count_outcome y r) = rn_pages r"
    "rn_claimed (count_outcome y r) = rn_claimed r" for y
    using Cons.prems by (cases y; simp add: counts_ok_def count_outcome_def)+
  have f: "counts_ok (length cs + rest) (r\<lparr>rn_failed := rn_failed r + 1\<rparr>)" using Cons.prems by (simp add: counts_ok_def)
  show ?case unfolding reconcile_claims.simps
  proof (rule ends_bind [OF ends_try [OF answers_any]])
    fix x
    show "ends (case x of None \<Rightarrow> reconcile_claims rc cs (r\<lparr>rn_failed := rn_failed r + 1\<rparr>)
        | Some Interrupted \<Rightarrow> return_io Interrupted
        | Some (Knows y) \<Rightarrow> reconcile_claims rc cs (count_outcome y r))
      (\<lambda>x. \<forall>r'. x = Knows r' \<longrightarrow> counts_ok rest r' \<and> rn_pages r' = rn_pages r \<and> rn_claimed r' = rn_claimed r)"
      using Cons.IH [OF f] Cons.IH [OF y(1)] y(2,3)
      by (auto intro: ends_return ends_weaken split: option.split attempt.split)
  qed
qed

text \<open>What a run answers: \<open>n\<close> pages are left, those before were within their size.\<close>

definition run_sound :: "nat \<Rightarrow> nat \<Rightarrow> nat option \<Rightarrow> (run_error + run_result) attempt \<Rightarrow> bool" where
  "run_sound psize pages cursor x \<longleftrightarrow> (case x of
     Interrupted \<Rightarrow> True
   | Knows (Inl err) \<Rightarrow> err = Scan_failed
   | Knows (Inr r) \<Rightarrow> counts_ok 0 r \<and> rn_pages r \<le> pages \<and> rn_claimed r \<le> rn_pages r * psize
       \<and> (\<forall>e. rn_next r = Some e \<longrightarrow> past_place cursor e))"

lemma run_sound_simps [simp]:
  "run_sound psize pages cursor Interrupted" "run_sound psize pages cursor (Knows (Inl err)) \<longleftrightarrow> err = Scan_failed"
  "run_sound psize pages cursor (Knows (Inr r)) \<longleftrightarrow> counts_ok 0 r \<and> rn_pages r \<le> pages \<and> rn_claimed r \<le> rn_pages r * psize
     \<and> (\<forall>e. rn_next r = Some e \<longrightarrow> past_place cursor e)"
  by (simp_all add: run_sound_def)

lemma run_sound_from: "past_place cursor e \<Longrightarrow> run_sound psize pages (Some e) x \<Longrightarrow> run_sound psize pages cursor x"
  by (auto simp: run_sound_def past_place_def split: attempt.splits sum.splits option.splits)

lemma run_pages_sound:
  assumes pg: "pages_advance pg"
    and r: "counts_ok 0 r" "rn_claimed r \<le> rn_pages r * rc_page_size rc" "\<And>k e. cursor = Some e \<Longrightarrow> k \<in> set seen \<Longrightarrow> k < e"
      "0 < n \<or> (\<forall>e. cursor = Some e \<longrightarrow> past_place start e)" "\<And>e. past_place cursor e \<Longrightarrow> past_place start e" "cursor = None \<Longrightarrow> seen = []"
  shows "ends (run_pages rc pg n p seen cursor r) (run_sound (rc_page_size rc) (rn_pages r + n) start)"
  using r
proof (induction n arbitrary: p seen cursor r)
  case 0
  then show ?case by (auto intro!: ends_return simp: counts_ok_def)
next
  case (Suc n)
  let ?page = "claim_query_reconciliation_page (pg_place pg) (pg_end pg) (pg_owner pg) (pg_now pg p) (rc_claim_seconds rc) (rc_page_size rc)
    cursor (pg_tokens pg p)"
  let ?S = "run_sound (rc_page_size rc) (rn_pages r + Suc n) start"
  have fresh: "\<not> (case cursor of None \<Rightarrow> False | Some k \<Rightarrow> k \<in> set seen)" using Suc.prems(3) by (auto split: option.split)
  show ?case unfolding run_pages.simps if_not_P [OF fresh]
  proof (rule ends_bind [OF ends_try [OF claim_page_answers [OF pg]]])
    fix x :: "(query_claim list \<times> nat option) option"
    assume x: "\<forall>y. x = Some y \<longrightarrow> (case y of (cs, m) \<Rightarrow> length cs \<le> rc_page_size rc \<and> (\<forall>e. m = Some e \<longrightarrow> past_place cursor e))"
    show "ends (case x of None \<Rightarrow> return_io (Knows (Inl Scan_failed))
      | Some (cs, next_cursor) \<Rightarrow>
          if rc_page_size rc < length cs then return_io (Knows (Inl Page_too_long))
          else bind_io (reconcile_claims rc cs (r\<lparr>rn_pages := rn_pages r + 1, rn_claimed := rn_claimed r + length cs\<rparr>)) (\<lambda>x. (case x of
              Interrupted \<Rightarrow> return_io Interrupted
            | Knows r' \<Rightarrow> (case next_cursor of
                None \<Rightarrow> return_io (Knows (Inr (r'\<lparr>rn_next := None\<rparr>)))
              | Some _ \<Rightarrow> run_pages rc pg n (Suc p) ((case cursor of None \<Rightarrow> [] | Some k \<Rightarrow> [k]) @ seen) next_cursor r')))) ?S"
    proof (cases x)
      case None
      then show ?thesis by (simp add: ends_return)
    next
      case (Some y)
      obtain cs m where y: "y = (cs, m)" by (cases y)
      have cs: "\<not> rc_page_size rc < length cs" and m: "\<And>e. m = Some e \<Longrightarrow> past_place cursor e" using x Some y by auto
      let ?r = "r\<lparr>rn_pages := rn_pages r + 1, rn_claimed := rn_claimed r + length cs\<rparr>"
      have counts: "counts_ok (length cs + 0) ?r" using Suc.prems(1) by (simp add: counts_ok_def)
      show ?thesis unfolding Some y option.case prod.case if_not_P [OF cs]
      proof (rule ends_bind [OF reconcile_claims_counts [OF counts]])
        fix z :: "run_result attempt"
        assume z: "\<forall>r'. z = Knows r' \<longrightarrow> counts_ok 0 r' \<and> rn_pages r' = rn_pages ?r \<and> rn_claimed r' = rn_claimed ?r"
        show "ends (case z of Interrupted \<Rightarrow> return_io Interrupted
            | Knows r' \<Rightarrow> (case m of None \<Rightarrow> return_io (Knows (Inr (r'\<lparr>rn_next := None\<rparr>)))
              | Some _ \<Rightarrow> run_pages rc pg n (Suc p) ((case cursor of None \<Rightarrow> [] | Some k \<Rightarrow> [k]) @ seen) m r')) ?S"
        proof (cases z)
          case (Knows r')
          have r': "counts_ok 0 r'" "rn_pages r' = rn_pages r + 1" "rn_claimed r' \<le> rn_pages r' * rc_page_size rc"
            using z Knows Suc.prems(2) cs by auto
          show ?thesis
          proof (cases m)
            case None
            then show ?thesis using r' by (auto simp: Knows counts_ok_def intro!: ends_return)
          next
            case e: (Some e)
            let ?seen = "(case cursor of None \<Rightarrow> [] | Some k \<Rightarrow> [k]) @ seen"
            have beyond: "past_place start e'" if "past_place (Some e) e'" for e'
              using Suc.prems(5) that m [OF e] by (auto simp: past_place_def split: option.splits)
            have "ends (run_pages rc pg n (Suc p) ?seen m r') (run_sound (rc_page_size rc) (rn_pages r' + n) start)"
              by (rule Suc.IH [OF r'(1,3)])
                (use Suc.prems(3,6) Suc.prems(5) m e beyond in \<open>fastforce simp: past_place_def split: option.splits\<close>)+
            then show ?thesis by (simp add: Knows e r'(2))
          qed
        qed (simp add: ends_return)
      qed
    qed
  qed
qed

section \<open>Passes\<close>

text \<open>Around a pass the other instances, workers and failures take fleet steps.\<close>

definition fleet_beside :: "int \<Rightarrow> (string \<Rightarrow> int) \<Rightarrow> (string \<Rightarrow> int) \<Rightarrow> query_store service_world \<Rightarrow> bool" where
  "fleet_beside T C L w \<longleftrightarrow> fleet_reachable T C L (wd_store w) \<and> good_env (fleet_ok T C L) ((fleet_step T C L)\<^sup>*\<^sup>*) (wd_env w)"

lemma no_empty_token: "fleet_ok T C L st \<Longrightarrow> own k [] e st"
  by (auto simp: own_def lease_readable_def short_string_def row_typed_def dest!: fleet_row)

lemma fleet_beside_good:
  assumes "fleet_beside T C L w"
  shows "good_service (fleet_ok T C L) (fleet_guarantee T C L k [] e) w"
proof -
  have "fleet_guarantee T C L k [] e st st'" if "fleet_ok T C L st" "(fleet_step T C L)\<^sup>*\<^sup>* st st'" for st st'
    using that no_empty_token [OF fleet_steps_ok [OF that(2,1)]] by (simp add: fleet_guarantee_def)
  then show ?thesis using assms reachable_fleet_ok by (auto simp: fleet_beside_def good_service_def good_env_def)
qed

text \<open>C22: A pass of a reconciliation worker, whatever fails and whatever runs beside it, is a sequence of the steps of the
fleet: it never breaks a concurrency or budget limit, never changes what was settled, and acknowledges only what the audit
log tells.\<close>

theorem passes_follow_the_fleet:
  assumes "fleet_beside T C L w" "reconcile_run rc pg cursor max_pages w = (x, w')"
  shows "(fleet_step T C L)\<^sup>*\<^sup>* (wd_store w) (wd_store w') \<and> fleet_reachable T C L (wd_store w')"
proof -
  have "fleet_triple T C L (QueryKey [] [] []) [] None (\<lambda>_. True) (reconcile_run rc pg cursor max_pages) (\<lambda>_ _. True)"
    unfolding reconcile_run_def by (simp add: run_pages_triple queries.triple_return)
  from tripleD(2) [OF this fleet_beside_good [OF assms(1)] TrueI assms(2)]
  have "(fleet_step T C L)\<^sup>*\<^sup>* (wd_store w) (wd_store w')" by (simp add: fleet_guarantee_def)
  moreover have "(fleet_step T C L)\<^sup>*\<^sup>* empty_queries (wd_store w)" using assms(1) by (simp add: fleet_beside_def fleet_reachable_def)
  ultimately show ?thesis unfolding fleet_reachable_def by (metis rtranclp_trans)
qed

text \<open>C24: Every pass comes to an answer within its page limit: if pages of the scan advance, no cursor repeats and no page is
too long, so that only a failed scan can make a pass fail; every claim is counted exactly once, and the cursor it hands on
lies beyond the one it began with.\<close>

theorem passes_are_bounded:
  assumes "pages_advance pg" "1 \<le> max_pages" "max_pages \<le> 100"
  shows "\<exists>x w'. reconcile_run rc pg cursor max_pages w = (Some x, w')
    \<and> (\<forall>err. x = Knows (Inl err) \<longrightarrow> err = Scan_failed)
    \<and> (\<forall>r. x = Knows (Inr r) \<longrightarrow> rn_pages r \<le> max_pages \<and> rn_claimed r \<le> rn_pages r * rc_page_size rc
        \<and> rn_claimed r = rn_audited r + rn_deferred r + rn_lost r + rn_failed r \<and> rn_finalized r \<le> rn_audited r
        \<and> (\<forall>e. rn_next r = Some e \<longrightarrow> past_place cursor e))"
proof -
  have "ends (run_pages rc pg max_pages 0 [] cursor no_result) (run_sound (rc_page_size rc) (rn_pages no_result + max_pages) cursor)"
    by (rule run_pages_sound [OF assms(1)]) (use assms(2) in \<open>simp_all add: no_result_def counts_ok_def\<close>)
  then obtain x w' where x: "run_pages rc pg max_pages 0 [] cursor no_result w = (Some x, w')"
    "run_sound (rc_page_size rc) (rn_pages no_result + max_pages) cursor x" unfolding ends_def by metis
  show ?thesis
    by (intro exI [of _ x] exI [of _ w']) (use x assms(2,3) in \<open>auto simp: reconcile_run_def no_result_def counts_ok_def\<close>)
qed

section \<open>A pass over the demonstration fleet\<close>

definition demo_reconciler :: reconciler where
  "demo_reconciler = \<lparr>rc_bindings = [(''t'', ''p'', ''r'')], rc_lookup = (\<lambda>_. Datasource demo_datasource),
     rc_cancel = (\<lambda>_. \<lparr>cs_factory = Got (), cs_first = lk_reply (as_looks demo_script 1), cs_stop = Got (), cs_clock = 0, cs_looks = running_look\<rparr>),
     rc_claim_seconds = 60, rc_page_size = 2\<rparr>"

text \<open>Keys in the order of the last character of the request id; a scan has two pages.\<close>

definition demo_place :: "query_key \<Rightarrow> nat" where
  "demo_place k = (case k of QueryKey _ _ q \<Rightarrow> (if q = [] then 0 else of_char (hd (rev q))))"

definition demo_pages :: page_inputs where
  "demo_pages = \<lparr>pg_place = demo_place, pg_end = (\<lambda>_ start. case start of None \<Rightarrow> Some 49 | Some _ \<Rightarrow> None),
     pg_owner = ''worker'', pg_now = (\<lambda>_. 100), pg_tokens = (\<lambda>p i. [char_of p, char_of i])\<rparr>"

lemma demo_pages_advance: "pages_advance demo_pages"
  by (auto simp: pages_advance_def demo_pages_def past_place_def split: option.splits if_splits)

lemma demo_beside: "fleet_beside 30 (\<lambda>_. 2) (\<lambda>_. 250) (quiet demo_two)"
  using demo_reachable(1) by (simp add: fleet_beside_def quiet_def good_env_def)

lemma passes_follow_the_fleet_witness:
  "\<exists>x w'. reconcile_run demo_reconciler demo_pages None 3 (quiet demo_two) = (x, w') \<and> fleet_reachable 30 (\<lambda>_. 2) (\<lambda>_. 250) (wd_store w')"
proof -
  obtain x w' where "reconcile_run demo_reconciler demo_pages None 3 (quiet demo_two) = (x, w')" by fastforce
  with passes_follow_the_fleet [OF demo_beside this] show ?thesis by blast
qed

lemma passes_are_bounded_witness:
  "\<exists>x w'. reconcile_run demo_reconciler demo_pages None 3 (quiet demo_two) = (Some x, w')
     \<and> (\<forall>r. x = Knows (Inr r) \<longrightarrow> rn_pages r \<le> 3 \<and> rn_claimed r \<le> rn_pages r * 2)"
  using passes_are_bounded [OF demo_pages_advance, of 3 demo_reconciler None "quiet demo_two"] by (auto simp: demo_reconciler_def)

lemma demo_pass:
  "case reconcile_run demo_reconciler demo_pages None 3 (quiet demo_two) of
     (Some (Knows (Inr r)), _) \<Rightarrow> rn_claimed r = 2 \<and> rn_finalized r = 2 \<and> rn_pages r = 2 \<and> rn_next r = None | _ \<Rightarrow> False"
  by code_simp

end
