(* ===== verification/QueryQuiet.thy ===== *)
theory QueryQuiet
  imports QueryReconcileProps
begin

text \<open>
  Recovery in quiet times: with no failures and nobody else at work, a pass over the whole table settles, records and
  acknowledges every query that it finds.
\<close>

section \<open>Settling a claim\<close>

lemma false_on_error_known: "m w = (Some b, w') \<Longrightarrow> false_on_error m w = (Some b, w')"
  by (simp add: false_on_error_def bind_io_def try_io_def return_io_def)

text \<open>The row of a claim, as the claim left it.\<close>

definition claimed_row :: "query_claim \<Rightarrow> query_store \<Rightarrow> bool" where
  "claimed_row c st \<longleftrightarrow> claim_ok c st \<and> (\<exists>r. row_at (lease_key (cl_lease c)) st = Some r \<and> lc_lease r = cl_lease c
     \<and> lc_claim r = Some (cl_token c) \<and> lc_status r = cl_status c \<and> lc_execution r = cl_execution c
     \<and> (\<not> active (cl_status c) \<longrightarrow> lc_pending r))"

lemma quiet_read_owned: "read_owned l ss (quiet st) = (Some (filter (\<lambda>s. slot_owned l (qs_slots st (query_slot_key l s))) ss), quiet st)"
  by (induction ss) (simp_all add: return_io_def bind_io_def quiet_get)

lemma quiet_read_counters:
  "(\<And>s. s \<in> set ss \<Longrightarrow> qs_scans st (scan_counter_key l s) \<noteq> None) \<Longrightarrow> read_counters l ss (quiet st) = (Some ss, quiet st)"
  by (induction ss) (auto simp add: return_io_def bind_io_def quiet_get)

text \<open>An active row is counted in full, so that any refund of it fits.\<close>

lemma charges_at_least:
  assumes ok: "fleet_ok T C L st" and r: "row_at k st = Some r" "counts_at key r"
  shows "charge r \<le> charges st key"
proof -
  have pos: "0 \<le> charge_at key x" if "(k', x) \<in> set (qs_rows st)" for k' x
  proof -
    have "distinct (map fst (qs_rows st))" using ok by (simp add: fleet_ok_def rows_ok_def)
    then have "row_at k' st = Some x" using that by (simp add: row_at_def)
    from fleet_row [OF ok this] show ?thesis
      by (auto simp: charge_at_def charge_def row_typed_def lease_readable_def terminal_audit_valid_def split: option.splits if_splits)
  qed
  have "charge_at key r \<in> set (map (\<lambda>(_, x). charge_at key x) (qs_rows st))" using row_of_list [OF r(1)] by force
  moreover have "\<And>y. y \<in> set (map (\<lambda>(_, x). charge_at key x) (qs_rows st)) \<Longrightarrow> 0 \<le> y" using pos by auto
  ultimately have "charge_at key r \<le> charges st key" unfolding charges_def by (rule member_le_sum_list)
  then show ?thesis using r(2) by (simp add: charge_at_def)
qed

lemma cancel_query_valid:
  assumes "cancel_query cs ds tenant project eid = Some (Ok t)"
  shows "termination_valid t \<and> tm_execution t = eid"
proof -
  have eid: "eid \<noteq> []" using assms by (auto simp: cancel_query_def split: if_splits)
  obtain execution t0 where t0: "termination_of execution eid False = Inr t0"
    and rest: "t = t0 \<or> (\<exists>requested. watch_cancel (cs_looks cs) eid requested (cs_clock cs + 5) (t0\<lparr>tm_cancel_requested := requested\<rparr>) 0 = Some (Ok t))"
    using assms by (auto simp: cancel_query_def Let_def split: if_splits reply.splits step.splits sum.splits)
  note v = termination_of_valid [OF t0 eid]
  have "termination_valid (t0\<lparr>tm_cancel_requested := b\<rparr>)" for b using v(1) by (simp add: termination_valid_def)
  with rest v watch_valid [OF _ eid] show ?thesis by auto
qed

lemma terminal_state_sound:
  assumes "terminal_state rc c = Knows (Some a)" "claim_valid c" "1 \<le> le_reserved (cl_lease c)" "active (cl_status c)"
  shows "terminal_audit_valid a" "ta_accounted a \<le> le_reserved (cl_lease c)" "ta_execution a = cl_execution c" "claim_valid (settled_claim c a)"
proof -
  have all: "terminal_audit_valid a \<and> ta_accounted a \<le> le_reserved (cl_lease c) \<and> ta_execution a = cl_execution c"
  proof (cases "cl_status c = Accepted")
    case True
    then have "a = never_started (cl_lease c)" using assms(1) by (simp add: terminal_state_def Let_def)
    moreover have "cl_execution c = None" using True assms(2) by (simp add: claim_valid_def)
    ultimately show ?thesis using never_started_valid [OF assms(3)] by (simp add: never_started_def)
  next
    case False
    then obtain e where e: "cl_execution c = Some e" using assms(2,4) by (auto simp: claim_valid_def active_def)
    obtain ds t where t: "cancel_query (rc_cancel rc c) ds (le_tenant (cl_lease c)) (le_project (cl_lease c)) e = Some (Ok t)"
      "tm_terminal t" "a = terminal_audit_of (cl_lease c) t"
      using assms(1) False by (auto simp: terminal_state_def Let_def e split: lookup.splits if_splits option.splits step.splits)
    note v = cancel_query_valid [OF t(1)]
    show ?thesis using terminal_audit_of_valid [OF conjunct1 [OF v] t(2) assms(3)] v
      by (simp add: t(3) e) (simp add: terminal_audit_of_def)
  qed
  then show "terminal_audit_valid a" "ta_accounted a \<le> le_reserved (cl_lease c)" "ta_execution a = cl_execution c" by blast+
  with all assms(2) show "claim_valid (settled_claim c a)"
    by (auto simp: claim_valid_def settled_claim_def terminal_audit_valid_def active_def)
qed

text \<open>A row that is not the claim's is left alone.\<close>

definition only_row :: "query_key \<Rightarrow> query_store \<Rightarrow> query_store \<Rightarrow> bool" where
  "only_row k st st' \<longleftrightarrow> (\<forall>k'. k' \<noteq> k \<longrightarrow> row_at k' st' = row_at k' st)"

lemma finalize_quiet:
  assumes ok: "fleet_ok T C L st" and c: "row_at (lease_key (cl_lease c)) st = Some r" "lc_lease r = cl_lease c"
      "lc_claim r = Some (cl_token c)" "lc_status r = cl_status c" "active (cl_status c)"
    and a: "terminal_audit_valid a" "ta_accounted a \<le> le_reserved (cl_lease c)" "ta_execution a = cl_execution c"
  obtains st' where "finalize_query_reconciliation c a (quiet st) = (Some True, quiet st')"
    "row_at (lease_key (cl_lease c)) st' = Some (worker_settled a r)" "only_row (lease_key (cl_lease c)) st st'"
proof -
  let ?l = "cl_lease c"
  let ?refund = "le_reserved ?l - ta_accounted a"
  let ?refunds = "if ?refund = 0 then [] else query_scopes ?l"
  let ?slots = "filter (\<lambda>s. slot_owned ?l (qs_slots st (query_slot_key ?l s))) (query_scopes ?l)"
  let ?txn = "txn_settle ?l (worker_settles ?l (cl_token c) (cl_status c)) (worker_settled a) ?refund ?refunds ?slots"
  let ?st' = "apply_settle ?l (worker_settled a) ?refund ?refunds ?slots st"
  have "held ?l st" using c(1,2) by (simp add: held_def)
  have counted: "qs_scans st (scan_counter_key ?l s) \<noteq> None" if "s \<in> set ?refunds" for s
    using held_counted [OF ok \<open>held ?l st\<close>] that by (auto split: if_splits)
  have fits: "can_refund ?refund (qs_scans st (scan_counter_key ?l s))" if "s \<in> set ?refunds" for s
  proof -
    have s: "s \<in> set (query_scopes ?l)" using that by (auto split: if_splits)
    have typed: "row_typed r" using fleet_row [OF ok c(1)] by simp
    have "counts_at (scan_counter_key ?l s) r" using s c(2) by (auto simp: counts_at_def)
    from charges_at_least [OF ok c(1) this] have "le_reserved ?l \<le> charges st (scan_counter_key ?l s)"
      using typed c(2,4,5) by (simp add: charge_def row_typed_def)
    moreover have "0 \<le> ta_accounted a" using a(1) by (simp add: terminal_audit_valid_def)
    moreover have "scanned st (scan_counter_key ?l s) = charges st (scan_counter_key ?l s)" using ok by (simp add: fleet_ok_def scans_ok_def)
    ultimately show ?thesis using counted [OF that] by (auto simp: can_refund_def scanned_def split: option.splits)
  qed
  have "list_all id (settle_conditions ?l (worker_settles ?l (cl_token c) (cl_status c)) ?refund ?refunds ?slots st)"
    using fits by (auto simp: settle_conditions_def list_all_iff c worker_settles_def holds_token_def)
  then have txn: "?txn st = Inr ?st'" unfolding txn_settle_def by (simp add: when_all_Inr)
  have valid: "\<not> (\<not> active (cl_status c) \<or> ta_execution a \<noteq> cl_execution c \<or> le_reserved ?l < ta_accounted a)" using c(5) a by simp
  have counters: "read_counters ?l ?refunds (quiet st) = (Some ?refunds, quiet st)" by (rule quiet_read_counters) (rule counted)
  have settle: "write_io ?txn (quiet st) = (Some Done, quiet ?st')" by (rule quiet_write(1)) (rule txn)
  have run: "bind_io (read_counters ?l ?refunds) (\<lambda>refunds. bind_io (read_owned ?l (query_scopes ?l)) (\<lambda>slots.
      bind_io (write_io (txn_settle ?l (worker_settles ?l (cl_token c) (cl_status c)) (worker_settled a) ?refund refunds slots))
        (\<lambda>out. settle_answer out (lease_key ?l) (worker_shown c a)))) (quiet st) = (Some True, quiet ?st')"
    by (simp only: bind_io_def counters quiet_read_owned settle prod.case option.case) (simp add: settle_answer_def return_io_def)
  have "finalize_query_reconciliation c a (quiet st) = (Some True, quiet ?st')"
    unfolding finalize_query_reconciliation_def Let_def if_not_P [OF valid] by (rule false_on_error_known) (rule run)
  moreover have "row_at (lease_key ?l) ?st' = Some (worker_settled a r)" "only_row (lease_key ?l) st ?st'"
    by (simp_all add: apply_settle_def only_row_def settle_rows c(1) row_put)
  ultimately show thesis by (rule that)
qed

lemma audit_and_ack_quiet:
  assumes r: "row_at (lease_key (cl_lease c)) st = Some r" "lc_lease r = cl_lease c" "lc_claim r = Some (cl_token c)"
    "lc_status r = cl_status c" "lc_pending r" "lc_audit r = Some a" and c: "cl_audit c = Some a" "claim_valid c"
  obtains st' where "audit_and_ack c (quiet st) = (Some (), quiet st')" "only_row (lease_key (cl_lease c)) st st'"
proof -
  let ?l = "cl_lease c" and ?st = "append_event (QueryResult (query_entry_of (cl_lease c) a)) st"
  let ?row = "(unclaim r)\<lparr>lc_pending := False, lc_acked := Some (cl_token c)\<rparr>"
  let ?st' = "put_row (lease_key ?l) ?row ?st"
  have same: "row_at k ?st = row_at k st" for k by (simp add: append_event_def row_at_def)
  have status: "ta_status a = cl_status c" "\<not> active (cl_status c)" using c by (simp_all add: claim_valid_def)
  have txn: "txn_acknowledge ?l (cl_token c) a ?st = Inr ?st'"
    using r status by (simp add: txn_acknowledge_def update_query_row_def same worker_settles_def holds_token_def)
  have w: "write_io (txn_acknowledge ?l (cl_token c) a) (quiet ?st) = (Some Done, quiet ?st')" by (rule quiet_write(1)) (rule txn)
  have answer: "bind_io (write_io (txn_acknowledge ?l (cl_token c) a)) (\<lambda>out. settle_answer out (lease_key ?l) (\<lambda>r. holds_token ?l r
      \<and> lc_status r = cl_status c \<and> lc_audit r = Some a \<and> \<not> lc_pending r \<and> lc_acked r = Some (cl_token c))) (quiet ?st) = (Some True, quiet ?st')"
    by (simp only: bind_io_def w prod.case option.case) (simp add: settle_answer_def return_io_def)
  have ack: "ack_query_reconciliation_audit c (quiet ?st) = (Some True, quiet ?st')"
    unfolding ack_query_reconciliation_audit_def c(1) option.case if_not_P [OF status(2)]
    by (rule false_on_error_known) (rule answer)
  have wrote: "write_io (\<lambda>st. Inr (append_event (QueryResult (query_entry_of ?l a)) st) :: unit + query_store) (quiet st) = (Some Done, quiet ?st)"
    by (rule quiet_write(1)) simp
  have "audit_and_ack c (quiet st) = (Some (), quiet ?st')"
    unfolding audit_and_ack_def c(1) option.case by (simp add: bind_io_def wrote ack return_io_def)
  moreover have "only_row (lease_key ?l) st ?st'" by (simp add: only_row_def row_put same)
  ultimately show thesis by (rule that)
qed

section \<open>A claim from end to end\<close>

lemma quiet_run:
  assumes "\<And>k e. fleet_triple T C L k [] e P m Q" "fleet_ok T C L st" "P st" "m (quiet st) = (r, quiet st')"
  shows "fleet_ok T C L st'" "fleet_later st st'" "r = Some x \<Longrightarrow> Q x st'"
proof -
  have good: "good_service (fleet_ok T C L) (fleet_guarantee T C L (QueryKey [] [] []) [] None) (quiet st)"
    using assms(2) by (simp add: good_service_def good_env_def quiet_def)
  note t = tripleD [OF assms(1) good _ assms(4), unfolded quiet_store, OF assms(3)]
  show "fleet_ok T C L st'" using t(1) by (simp add: good_service_def)
  show "fleet_later st st'" using t(2) fleet_steps_later by (simp add: fleet_guarantee_def) blast
  show "r = Some x \<Longrightarrow> Q x st'" by (rule t(3))
qed

lemma later_stable: "(\<And>k e. stable_under (fleet_follows T C L k [] e) P) \<Longrightarrow> fleet_ok T C L st' \<Longrightarrow> fleet_later st st' \<Longrightarrow> P st \<Longrightarrow> P st'"
  unfolding stable_under_def fleet_follows_def using no_empty_token by blast

text \<open>What a pass needs of Athena: for every running query of these leases that it claims it learns the end.\<close>

definition all_ended :: "reconciler \<Rightarrow> lease set \<Rightarrow> bool" where
  "all_ended rc ls \<longleftrightarrow> (\<forall>c. cl_lease c \<in> ls \<longrightarrow> cl_status c = Running \<longrightarrow> claim_valid c \<longrightarrow> (\<exists>a. terminal_state rc c = Knows (Some a)))"

lemma all_ended_active: "all_ended rc ls \<Longrightarrow> cl_lease c \<in> ls \<Longrightarrow> active (cl_status c) \<Longrightarrow> claim_valid c \<Longrightarrow> \<exists>a. terminal_state rc c = Knows (Some a)"
  by (cases "cl_status c") (auto simp: all_ended_def terminal_state_def Let_def active_def)

definition leases_in :: "lease set \<Rightarrow> query_store \<Rightarrow> bool" where
  "leases_in ls st \<longleftrightarrow> (\<forall>k r. row_at k st = Some r \<longrightarrow> lc_lease r \<in> ls)"

definition no_new_row :: "query_store \<Rightarrow> query_store \<Rightarrow> bool" where
  "no_new_row st st' \<longleftrightarrow> (\<forall>k. row_at k st = None \<longrightarrow> row_at k st' = None)"

lemma leases_kept:
  assumes "leases_in ls st" "fleet_later st st'" "no_new_row st st'"
  shows "leases_in ls st'"
  unfolding leases_in_def
proof (intro allI impI)
  fix k r' assume r': "row_at k st' = Some r'"
  then obtain r where r: "row_at k st = Some r" using assms(3) by (cases "row_at k st") (auto simp: no_new_row_def)
  obtain r'' where "row_at k st' = Some r''" "row_later r r''" by (rule fleet_laterD [OF assms(2) r])
  then show "lc_lease r' \<in> ls" using assms(1) r r' by (auto simp: leases_in_def row_later_def)
qed

lemma reconcile_quiet:
  assumes ok: "fleet_ok T C L st" and c: "claimed_row c st" and rc: "all_ended rc ls" "cl_lease c \<in> ls"
  obtains y st' where "reconcile_claim rc c (quiet st) = (Some (Knows y), quiet st')" "y \<in> {Was_finalized, Was_audited}"
    "only_row (lease_key (cl_lease c)) st st'"
proof -
  obtain r where r: "row_at (lease_key (cl_lease c)) st = Some r" "lc_lease r = cl_lease c" "lc_claim r = Some (cl_token c)"
    "lc_status r = cl_status c" "lc_execution r = cl_execution c" "\<not> active (cl_status c) \<longrightarrow> lc_pending r"
    and valid: "claim_valid c" and settled: "\<And>a. cl_audit c = Some a \<Longrightarrow> settled (cl_lease c) a st"
    using c by (auto simp: claimed_row_def claim_ok_def)
  show thesis
  proof (cases "active (cl_status c)")
    case False
    then obtain a where a: "cl_audit c = Some a" using valid by (auto simp: claim_valid_def split: option.splits)
    have "lc_audit r = Some a" using settled [OF a] r(1) by (auto simp: settled_def)
    then obtain st' where st': "audit_and_ack c (quiet st) = (Some (), quiet st')" "only_row (lease_key (cl_lease c)) st st'"
      using audit_and_ack_quiet [OF r(1-4) _ _ a valid] r(6) False by blast
    have "reconcile_claim rc c (quiet st) = (Some (Knows Was_audited), quiet st')"
      unfolding reconcile_claim_def if_P [OF False] by (simp add: bind_io_def st'(1) return_io_def)
    with st'(2) show thesis by (intro that) auto
  next
    case True
    have reserved: "1 \<le> le_reserved (cl_lease c)" using fleet_row [OF ok r(1)] r(2) by (auto simp: row_typed_def lease_readable_def)
    obtain a where a: "terminal_state rc c = Knows (Some a)" using all_ended_active [OF rc True valid] by blast
    note sound = terminal_state_sound [OF a valid reserved True]
    obtain st1 where st1: "finalize_query_reconciliation c a (quiet st) = (Some True, quiet st1)"
      "row_at (lease_key (cl_lease c)) st1 = Some (worker_settled a r)" "only_row (lease_key (cl_lease c)) st st1"
      using finalize_quiet [OF ok r(1-4) True sound(1-3)] by blast
    let ?c = "settled_claim c a"
    have same: "cl_lease ?c = cl_lease c" by (simp add: settled_claim_def)
    obtain st2 where st2: "audit_and_ack ?c (quiet st1) = (Some (), quiet st2)" "only_row (lease_key (cl_lease c)) st1 st2"
    proof (rule audit_and_ack_quiet [of ?c st1 "worker_settled a r" a, unfolded same])
      show "row_at (lease_key (cl_lease c)) st1 = Some (worker_settled a r)" by (rule st1(2))
    qed (use r(2,3) sound(4) in \<open>simp_all add: worker_settled_def settle_row_def settled_claim_def\<close>)
    have nn: "\<not> \<not> active (cl_status c)" using True by simp
    have "reconcile_claim rc c (quiet st) = (Some (Knows Was_finalized), quiet st2)"
      unfolding reconcile_claim_def if_not_P [OF nn] a attempt.case option.case
      by (simp add: sound(1,4) bind_io_def st1(1) st2(1) return_io_def)
    moreover have "only_row (lease_key (cl_lease c)) st st2" using st1(3) st2(2) by (simp add: only_row_def)
    ultimately show thesis by (intro that) auto
  qed
qed

lemma claimed_row_later:
  assumes "claimed_row c st" "only_row k st st'" "lease_key (cl_lease c) \<noteq> k" "fleet_ok T C L st'" "fleet_later st st'"
  shows "claimed_row c st'"
proof -
  have "claim_ok c st'" by (rule later_stable [OF stable_claim assms(4,5)]) (use assms(1) in \<open>simp add: claimed_row_def\<close>)
  then show ?thesis using assms(1-3) by (simp add: claimed_row_def only_row_def)
qed

text \<open>A result that tells of no failure.\<close>

definition clean :: "run_result \<Rightarrow> bool" where
  "clean r \<longleftrightarrow> rn_failed r = 0 \<and> rn_lost r = 0 \<and> rn_deferred r = 0"

lemma claims_quiet:
  assumes "fleet_ok T C L st" "\<forall>c \<in> set cs. claimed_row c st" "distinct (map (\<lambda>c. lease_key (cl_lease c)) cs)" "all_ended rc ls" "clean r" "cl_lease ` set cs \<subseteq> ls"
  shows "\<exists>r' st'. reconcile_claims rc cs r (quiet st) = (Some (Knows r'), quiet st') \<and> clean r' \<and> fleet_ok T C L st' \<and> fleet_later st st'
    \<and> (\<forall>c \<in> set cs. dealt_with (cl_lease c) st') \<and> (\<forall>k. k \<notin> (\<lambda>c. lease_key (cl_lease c)) ` set cs \<longrightarrow> row_at k st' = row_at k st)"
  using assms
proof (induction cs arbitrary: st r)
  case Nil
  then show ?case by (auto simp: return_io_def fleet_later_refl)
next
  case (Cons c cs)
  obtain y st1 where y: "reconcile_claim rc c (quiet st) = (Some (Knows y), quiet st1)" "y \<in> {Was_finalized, Was_audited}"
    "only_row (lease_key (cl_lease c)) st st1"
  proof (rule reconcile_quiet [OF Cons.prems(1) _ Cons.prems(4)])
    show "claimed_row c st" "cl_lease c \<in> ls" using Cons.prems(2,6) by simp_all
  qed (rule that)
  have "claim_ok c st" using Cons.prems(2) by (simp add: claimed_row_def)
  note run = quiet_run [OF reconcile_claim_triple Cons.prems(1) this y(1)]
  have closed: "dealt_with (cl_lease c) st1" using run(3) [OF refl] y(2) by (auto simp: outcome_closes_def)
  have others: "claimed_row c' st1" if "c' \<in> set cs" for c'
  proof (rule claimed_row_later [OF _ y(3) _ run(1,2)])
    show "claimed_row c' st" using Cons.prems(2) that by simp
    have "lease_key (cl_lease c') \<in> set (map (\<lambda>c. lease_key (cl_lease c)) cs)" using that by simp
    then show "lease_key (cl_lease c') \<noteq> lease_key (cl_lease c)" using Cons.prems(3) by (metis distinct.simps(2) list.map(2))
  qed
  have counted: "clean (count_outcome y r)" using y(2) Cons.prems(5) by (auto simp: clean_def count_outcome_def)
  have apart: "distinct (map (\<lambda>c. lease_key (cl_lease c)) cs)" using Cons.prems(3) by simp
  have within: "cl_lease ` set cs \<subseteq> ls" using Cons.prems(6) by simp
  from Cons.IH [OF run(1) ballI [OF others] apart Cons.prems(4) counted within] obtain r' st' where rest: "reconcile_claims rc cs (count_outcome y r) (quiet st1) = (Some (Knows r'), quiet st')" "clean r'"
    "fleet_ok T C L st'" "fleet_later st1 st'" "\<forall>c \<in> set cs. dealt_with (cl_lease c) st'"
    "\<forall>k. k \<notin> (\<lambda>c. lease_key (cl_lease c)) ` set cs \<longrightarrow> row_at k st' = row_at k st1"
    by blast
  have "reconcile_claims rc (c # cs) r (quiet st) = (Some (Knows r'), quiet st')"
    by (simp add: bind_io_def try_io_def y(1) rest(1))
  moreover have "dealt_with (cl_lease c) st'" by (rule later_stable [OF stable_closed rest(3,4) closed])
  ultimately show ?case using rest(2-6) y(3) fleet_later_trans [OF run(2) rest(4)] by (auto simp: only_row_def)
qed

section \<open>A page\<close>

text \<open>A row that a worker may claim.\<close>

definition awaiting :: "int \<Rightarrow> lifecycle \<Rightarrow> bool" where
  "awaiting now r \<longleftrightarrow> claim_eligible now r \<and> unclaimed now r"

lemma awaiting_mono: "awaiting t r \<Longrightarrow> t \<le> now \<Longrightarrow> awaiting now r"
  by (auto simp: awaiting_def claim_eligible_def unclaimed_def split: option.splits if_splits)

lemma readable_claim:
  assumes "fleet_ok T C L st" "row_at k st = Some r" "tok \<noteq> []" "\<not> active (lc_status r) \<Longrightarrow> lc_pending r"
  obtains c where "claim_from_row k r tok = Some c"
proof -
  have "lease_key (lc_lease r) = k" "row_typed r" using fleet_row [OF assms(1,2)] by simp_all
  moreover have "claim_valid \<lparr>cl_lease = lc_lease r, cl_token = tok, cl_status = lc_status r, cl_execution = lc_execution r,
      cl_audit = (if active (lc_status r) then None else lc_audit r)\<rparr>"
    using \<open>row_typed r\<close> assms(3) by (auto simp: claim_valid_def row_typed_def terminal_audit_valid_def active_def split: option.splits if_splits)
  ultimately have "claim_from_row k r tok \<noteq> None" using assms(4) by (auto simp: claim_from_row_def row_typed_def Let_def split: option.splits if_splits)
  with that show thesis by blast
qed

lemma claim_quiet:
  assumes ok: "fleet_ok T C L st" and r: "row_at k st = Some r" "awaiting now r" and c: "claim_from_row k r tok = Some c"
  obtains st' where "write_new_io (txn_claim (cl_lease c) (cl_status c) tok owner now expires) (row_at k) (quiet st)
      = (Some (Inr (Some (claimed tok owner expires r))), quiet st')"
    "only_row k st st'" "fleet_ok T C L st'" "fleet_later st st'"
    "claim_from_row k (claimed tok owner expires r) tok = Some c" "claimed_row c st'" "lease_key (cl_lease c) = k"
proof -
  note f = claim_from_row_Some [OF c]
  let ?st' = "put_row k (claimed tok owner expires r) st"
  have key: "lease_key (cl_lease c) = k" using f(1,7) by simp
  have txn: "txn_claim (cl_lease c) (cl_status c) tok owner now expires st = Inr ?st'"
    using r f by (simp add: txn_claim_def update_query_row_def key holds_token_def awaiting_def)
  have row: "row_at k ?st' = Some (claimed tok owner expires r)" by (simp add: row_put)
  have again: "claim_from_row k (claimed tok owner expires r) tok = Some c"
    unfolding c [symmetric] by (simp add: claim_from_row_def claimed_def Let_def)
  have step: "fleet_step T C L st ?st'" by (rule Claim [OF txn])
  have "claimed_row c ?st'" unfolding claimed_row_def
    using claim_from_row_ok [OF again row] row f c
    by (auto simp: key claimed_def claim_from_row_def Let_def split: if_splits)
  moreover have "write_new_io (txn_claim (cl_lease c) (cl_status c) tok owner now expires) (row_at k) (quiet st)
      = (Some (Inr (Some (claimed tok owner expires r))), quiet ?st')"
    using quiet_write_new [where txn = "txn_claim (cl_lease c) (cl_status c) tok owner now expires", OF txn, of "row_at k"] row by simp
  moreover have "only_row k st ?st'" by (simp add: only_row_def row_put)
  ultimately show thesis using that fleet_step_ok [OF step ok] fleet_step_later [OF step] again key by blast
qed

text \<open>Claiming takes a page in order, up to the limit.\<close>

lemma candidates_quiet:
  assumes "fleet_ok T C L st" "distinct (map fst rows)" "\<forall>x \<in> set rows. row_at (fst x) st = Some (snd x) \<and> awaiting now (snd x)"
    "\<And>i. tok i \<noteq> []" "1 \<le> limit"
  shows "\<exists>cs stop taken rest st'. claim_candidates owner now expires limit tok i rows (quiet st) = (Some (cs, stop), quiet st')
    \<and> rows = taken @ rest \<and> map (\<lambda>c. lease_key (cl_lease c)) cs = map fst taken \<and> (\<forall>c \<in> set cs. claimed_row c st')
    \<and> (case stop of None \<Rightarrow> rest = [] | Some k \<Rightarrow> taken \<noteq> [] \<and> k = fst (last taken))
    \<and> fleet_ok T C L st' \<and> fleet_later st st' \<and> (\<forall>k. k \<notin> fst ` set taken \<longrightarrow> row_at k st' = row_at k st)"
  using assms
proof (induction rows arbitrary: i limit st)
  case Nil
  then show ?case by (auto simp: return_io_def fleet_later_refl)
next
  case (Cons x rows)
  obtain k r where x: "x = (k, r)" by (cases x)
  have r: "row_at k st = Some r" "awaiting now r" using Cons.prems(3) x by auto
  obtain c where c: "claim_from_row k r (tok i) = Some c"
    using readable_claim [OF Cons.prems(1) r(1) Cons.prems(4)] r(2) by (metis awaiting_def claim_eligible_def)
  obtain st1 where st1: "write_new_io (txn_claim (cl_lease c) (cl_status c) (tok i) owner now expires) (row_at k) (quiet st)
      = (Some (Inr (Some (claimed (tok i) owner expires r))), quiet st1)"
    "only_row k st st1" "fleet_ok T C L st1" "fleet_later st st1"
    "claim_from_row k (claimed (tok i) owner expires r) (tok i) = Some c" "claimed_row c st1" "lease_key (cl_lease c) = k"
    by (rule claim_quiet [OF Cons.prems(1) r c])
  have step: "claim_candidates owner now expires limit tok i (x # rows) (quiet st) =
    (if limit \<le> 1 then return_io ([c], if rows = [] then None else Some k)
     else bind_io (claim_candidates owner now expires (limit - 1) tok (Suc i) rows) (\<lambda>(cs, stop). return_io (c # cs, stop))) (quiet st1)"
    unfolding x claim_candidates.simps c option.case by (simp add: bind_io_def [of "write_new_io _ _"] st1(1,5))
  show ?case
  proof (cases "limit \<le> 1")
    case True
    show ?thesis
      by (rule exI [of _ "[c]"], rule exI [of _ "if rows = [] then None else Some k"], rule exI [of _ "[x]"], rule exI [of _ rows],
          rule exI [of _ st1]) (use st1 x step [unfolded if_P [OF True] return_io_def] in \<open>auto simp: only_row_def simp del: claim_candidates.simps\<close>)
  next
    case False
    have keys: "k \<notin> fst ` set rows" using Cons.prems(2) x by simp
    have rest: "\<forall>x \<in> set rows. row_at (fst x) st1 = Some (snd x) \<and> awaiting now (snd x)"
    proof
      fix y assume y: "y \<in> set rows"
      then have "fst y \<noteq> k" using keys by force
      then show "row_at (fst y) st1 = Some (snd y) \<and> awaiting now (snd y)" using Cons.prems(3) y st1(2) by (simp add: only_row_def)
    qed
    have apart: "distinct (map fst rows)" and more: "1 \<le> limit - 1" using Cons.prems(2) False by simp_all
    from Cons.IH [OF st1(3) apart rest Cons.prems(4) more, of "Suc i"]
    obtain cs stop taken rest st' where IH: "claim_candidates owner now expires (limit - 1) tok (Suc i) rows (quiet st1) = (Some (cs, stop), quiet st')"
      "rows = taken @ rest" "map (\<lambda>c. lease_key (cl_lease c)) cs = map fst taken" "\<forall>c \<in> set cs. claimed_row c st'"
      "case stop of None \<Rightarrow> rest = [] | Some k \<Rightarrow> taken \<noteq> [] \<and> k = fst (last taken)"
      "fleet_ok T C L st'" "fleet_later st1 st'" "\<forall>k. k \<notin> fst ` set taken \<longrightarrow> row_at k st' = row_at k st1"
      by blast
    have row: "row_at k st' = row_at k st1" using IH(2,8) keys by auto
    have "claim_ok c st'" by (rule later_stable [OF stable_claim IH(6,7)]) (use st1(6) in \<open>simp add: claimed_row_def\<close>)
    then have "claimed_row c st'" using st1(6) row by (simp add: claimed_row_def st1(7))
    moreover have "claim_candidates owner now expires limit tok i (x # rows) (quiet st) = (Some (c # cs, stop), quiet st')"
      unfolding step if_not_P [OF False] by (simp add: bind_io_def IH(1) [simplified] return_io_def del: claim_candidates.simps)
    moreover have "\<forall>k'. k' \<notin> fst ` set (x # taken) \<longrightarrow> row_at k' st' = row_at k' st" using IH(8) st1(2) x by (auto simp: only_row_def)
    ultimately show ?thesis
      by (intro exI [of _ "c # cs"] exI [of _ stop] exI [of _ "x # taken"] exI [of _ rest] exI [of _ st'])
        (use IH(2-6) st1(7) x fleet_later_trans [OF st1(4) IH(7)] in \<open>auto simp del: claim_candidates.simps split: option.splits\<close>)
  qed
qed

section \<open>A whole pass\<close>

definition pass_inputs_ok :: "reconciler \<Rightarrow> page_inputs \<Rightarrow> bool" where
  "pass_inputs_ok rc pg \<longleftrightarrow> reconciler_valid rc \<and> pages_advance pg \<and> (\<forall>p i. pg_tokens pg p i \<noteq> [])
     \<and> pg_owner pg \<noteq> [] \<and> pg_owner pg = py_strip (pg_owner pg) \<and> length (pg_owner pg) \<le> 256"

lemma scan_page_rows:
  assumes "fleet_ok T C L st"
  shows "distinct (map fst (scan_page place start stop keep st))" "sorted (map (\<lambda>x. place (fst x)) (scan_page place start stop keep st))"
    "(k, r) \<in> set (scan_page place start stop keep st) \<longleftrightarrow>
       row_at k st = Some r \<and> past_place start (place k) \<and> until_place stop (place k) \<and> keep r"
proof -
  have d: "distinct (map fst (qs_rows st))" using assms(1) by (simp add: fleet_ok_def rows_ok_def)
  have "distinct (map fst (sort_key (\<lambda>x. place (fst x)) (qs_rows st)))"
    using d by (simp add: distinct_map distinct_sort)
  then show "distinct (map fst (scan_page place start stop keep st))" unfolding scan_page_def by (rule distinct_map_filter)
  show "sorted (map (\<lambda>x. place (fst x)) (scan_page place start stop keep st))"
    unfolding scan_page_def by (rule sorted_filter) (rule sorted_sort_key)
  show "(k, r) \<in> set (scan_page place start stop keep st) \<longleftrightarrow>
       row_at k st = Some r \<and> past_place start (place k) \<and> until_place stop (place k) \<and> keep r"
    using d by (auto simp: scan_page_def row_at_def)
qed

lemma rest_beyond:
  assumes "sorted (map place (taken @ rest))" "distinct (taken @ rest)" "inj_on place (set (taken @ rest))" "taken \<noteq> []" "k \<in> set rest"
  shows "place (last taken) < (place k :: nat)"
proof -
  have "place (last taken) \<le> place k" using assms(1,4,5) by (simp add: sorted_append)
  moreover have "last taken \<noteq> k" using last_in_set [OF assms(4)] assms(2,5) by auto
  ultimately show ?thesis using inj_onD [OF assms(3), of "last taken" k] last_in_set [OF assms(4)] assms(5) by fastforce
qed

text \<open>The rows of the table have different places.\<close>

definition places_apart :: "page_inputs \<Rightarrow> query_store \<Rightarrow> bool" where
  "places_apart pg st \<longleftrightarrow> inj_on (pg_place pg) {k. row_at k st \<noteq> None}"

lemma places_kept: "places_apart pg st \<Longrightarrow> no_new_row st st' \<Longrightarrow> places_apart pg st'"
  unfolding places_apart_def no_new_row_def by (erule inj_on_subset) auto

text \<open>Where a row stands during a pass: dealt with, or still ahead.\<close>

definition ahead :: "page_inputs \<Rightarrow> nat option \<Rightarrow> query_key \<Rightarrow> lifecycle \<Rightarrow> query_store \<Rightarrow> bool" where
  "ahead pg cursor k r st \<longleftrightarrow> dealt_with (lc_lease r) st \<or> past_place cursor (pg_place pg k) \<and> row_at k st = Some r"

lemma page_quiet:
  assumes ok: "fleet_ok T C L st" and pg: "pass_inputs_ok rc pg" and apart: "places_apart pg st"
  shows "\<exists>cs next_cursor st'. claim_query_reconciliation_page (pg_place pg) (pg_end pg) (pg_owner pg) (pg_now pg p) (rc_claim_seconds rc)
        (rc_page_size rc) cursor (pg_tokens pg p) (quiet st) = (Some (cs, next_cursor), quiet st')
    \<and> fleet_ok T C L st' \<and> fleet_later st st' \<and> no_new_row st st' \<and> (\<forall>c \<in> set cs. claimed_row c st') \<and> distinct (map (\<lambda>c. lease_key (cl_lease c)) cs)
    \<and> (\<forall>k row. row_at k st = Some row \<longrightarrow> past_place cursor (pg_place pg k) \<longrightarrow> awaiting (pg_now pg p) row \<longrightarrow>
       (\<exists>c \<in> set cs. cl_lease c = lc_lease row)
       \<or> (\<exists>e. next_cursor = Some e \<and> e < pg_place pg k) \<and> k \<notin> (\<lambda>c. lease_key (cl_lease c)) ` set cs \<and> row_at k st' = Some row)"
proof -
  let ?limit = "rc_page_size rc"
  let ?stop = "pg_end pg (min 1000 (max ?limit (?limit * 20))) cursor"
  let ?now = "pg_now pg p" and ?place = "pg_place pg"
  let ?rows = "scan_page ?place cursor ?stop (\<lambda>r. claim_eligible ?now r \<and> unclaimed ?now r) st"
  have limit: "1 \<le> ?limit" and tok: "\<And>i. pg_tokens pg p i \<noteq> []" using pg by (auto simp: pass_inputs_ok_def reconciler_valid_def)
  have valid: "\<not> (pg_owner pg = [] \<or> pg_owner pg \<noteq> py_strip (pg_owner pg) \<or> 256 < length (pg_owner pg)
      \<or> \<not> (15 \<le> rc_claim_seconds rc \<and> rc_claim_seconds rc \<le> 900) \<or> \<not> (1 \<le> ?limit \<and> ?limit \<le> 100))"
    using pg by (auto simp: pass_inputs_ok_def reconciler_valid_def)
  note rows = scan_page_rows [OF ok, where place = ?place and start = cursor and stop = ?stop and keep = "\<lambda>r. claim_eligible ?now r \<and> unclaimed ?now r"]
  have waiting: "\<forall>x \<in> set ?rows. row_at (fst x) st = Some (snd x) \<and> awaiting ?now (snd x)"
    using rows(3) by (auto simp: awaiting_def)
  from candidates_quiet [where owner = "pg_owner pg" and expires = "?now + rc_claim_seconds rc" and i = 0 and tok = "pg_tokens pg p", OF ok rows(1) waiting tok limit]
  obtain cs stop taken rest st' where c:
    "claim_candidates (pg_owner pg) ?now (?now + rc_claim_seconds rc) ?limit (pg_tokens pg p) 0 ?rows (quiet st) = (Some (cs, stop), quiet st')"
    "?rows = taken @ rest" "map (\<lambda>c. lease_key (cl_lease c)) cs = map fst taken" "\<forall>c \<in> set cs. claimed_row c st'"
    "case stop of None \<Rightarrow> rest = [] | Some k \<Rightarrow> taken \<noteq> [] \<and> k = fst (last taken)"
    "fleet_ok T C L st'" "fleet_later st st'" "\<forall>k. k \<notin> fst ` set taken \<longrightarrow> row_at k st' = row_at k st"
    by blast
  have "set (map fst taken @ map fst rest) \<subseteq> {k. row_at k st \<noteq> None}" using waiting unfolding c(2) by fastforce
  then have inj: "inj_on ?place (set (map fst taken @ map fst rest))" using apart unfolding places_apart_def by (rule inj_on_subset [rotated])
  let ?next = "case stop of None \<Rightarrow> ?stop | Some k \<Rightarrow> Some (?place k)"
  have taken: "(\<lambda>c. lease_key (cl_lease c)) ` set cs = fst ` set taken" using arg_cong [OF c(3), of set] by simp
  have run: "claim_query_reconciliation_page ?place (pg_end pg) (pg_owner pg) ?now (rc_claim_seconds rc) ?limit cursor (pg_tokens pg p) (quiet st)
      = (Some (cs, ?next), quiet st')"
    unfolding claim_query_reconciliation_page_def if_not_P [OF valid] Let_def
    by (simp only: bind_io_def quiet_get c(1) prod.case option.case return_io_def)
  have cover: "(\<exists>c \<in> set cs. cl_lease c = lc_lease row)
      \<or> (\<exists>e. ?next = Some e \<and> e < ?place k) \<and> k \<notin> (\<lambda>c. lease_key (cl_lease c)) ` set cs \<and> row_at k st' = Some row"
    if row: "row_at k st = Some row" "past_place cursor (?place k)" "awaiting ?now row" for k row
  proof (cases "k \<in> fst ` set taken")
    case True
    then obtain d where d: "d \<in> set cs" "lease_key (cl_lease d) = k" using taken by (metis imageE)
    then obtain r' where "row_at k st' = Some r'" "lc_lease r' = cl_lease d" using c(4) by (auto simp: claimed_row_def)
    moreover obtain r'' where "row_at k st' = Some r''" "row_later row r''" using fleet_laterD [OF c(7) row(1)] .
    ultimately show ?thesis using d(1) by (auto simp: row_later_def)
  next
    case False
    have same: "row_at k st' = Some row" "k \<notin> (\<lambda>c. lease_key (cl_lease c)) ` set cs" using c(8) False row(1) taken by auto
    have "\<exists>e. ?next = Some e \<and> e < ?place k"
    proof (cases "until_place ?stop (?place k)")
      case True
      then have "(k, row) \<in> set (taken @ rest)" unfolding c(2) [symmetric] rows(3) using row by (simp add: awaiting_def)
      then have "(k, row) \<in> set rest" using False by force
      then obtain k' where k': "stop = Some k'" "taken \<noteq> []" "k' = fst (last taken)" using c(5) by (cases stop) auto
      have "?place (last (map fst taken)) < ?place k"
        by (rule rest_beyond [where rest = "map fst rest"])
          (use rows(1,2) c(2) inj k'(2) \<open>(k, row) \<in> set rest\<close> in \<open>force simp: comp_def\<close>)+
      then show ?thesis using k' by (simp add: last_map)
    next
      case False
      then obtain e where e: "?stop = Some e" "e < ?place k" by (auto simp: until_place_def split: option.splits)
      show ?thesis
      proof (cases stop)
        case (Some k')
        then have "k' \<in> fst ` set ?rows" using c(2,5) by auto
        then have "?place k' \<le> e" using rows(3) e(1) by (auto simp: until_place_def)
        then show ?thesis using Some e(2) by simp
      qed (use e in simp)
    qed
    with same show ?thesis by blast
  qed
  have "distinct (map (\<lambda>c. lease_key (cl_lease c)) cs)" using rows(1) unfolding c(2) c(3) by simp
  moreover have "no_new_row st st'" unfolding no_new_row_def
  proof (intro allI impI)
    fix k assume none: "row_at k st = None"
    have "row_at (fst x) st = Some (snd x)" if "x \<in> set taken" for x using waiting that unfolding c(2) by simp
    then have "k \<notin> fst ` set taken" using none by force
    then show "row_at k st' = None" using c(8) none by simp
  qed
  ultimately have "claim_query_reconciliation_page ?place (pg_end pg) (pg_owner pg) ?now (rc_claim_seconds rc) ?limit cursor (pg_tokens pg p) (quiet st)
      = (Some (cs, ?next), quiet st') \<and> fleet_ok T C L st' \<and> fleet_later st st' \<and> no_new_row st st' \<and> (\<forall>c \<in> set cs. claimed_row c st')
    \<and> distinct (map (\<lambda>c. lease_key (cl_lease c)) cs)
    \<and> (\<forall>k row. row_at k st = Some row \<longrightarrow> past_place cursor (?place k) \<longrightarrow> awaiting ?now row \<longrightarrow>
       (\<exists>c \<in> set cs. cl_lease c = lc_lease row)
       \<or> (\<exists>e. ?next = Some e \<and> e < ?place k) \<and> k \<notin> (\<lambda>c. lease_key (cl_lease c)) ` set cs \<and> row_at k st' = Some row)"
    using run c(4,6,7) cover by (intro conjI allI impI)
  then show ?thesis by (intro exI)
qed

lemma pass_quiet:
  assumes pg: "pass_inputs_ok rc pg" and rc: "all_ended rc ls"
    and apart: "places_apart pg st" and st: "fleet_ok T C L st" "leases_in ls st" "clean r" "\<And>e k. cursor = Some e \<Longrightarrow> k \<in> set seen \<Longrightarrow> k < e" "0 < n \<or> cursor \<noteq> None" "cursor = None \<Longrightarrow> seen = []"
    and now: "\<And>k row q. (k, row) \<in> R \<Longrightarrow> awaiting (pg_now pg q) row" "\<And>k row. (k, row) \<in> R \<Longrightarrow> ahead pg cursor k row st"
  shows "\<exists>r' st'. run_pages rc pg n p seen cursor r (quiet st) = (Some (Knows (Inr r')), quiet st') \<and> clean r'
    \<and> (rn_next r' = None \<longrightarrow> (\<forall>(k, row) \<in> R. dealt_with (lc_lease row) st'))"
  using st now(2) apart
proof (induction n arbitrary: p seen cursor r st)
  case 0
  then show ?case by (auto simp: return_io_def clean_def)
next
  case (Suc n)
  have fresh: "\<not> (case cursor of None \<Rightarrow> False | Some k \<Rightarrow> k \<in> set seen)" using Suc.prems(4) by (auto split: option.split)
  from page_quiet [OF Suc.prems(1) pg Suc.prems(8), of p cursor]
  obtain cs m st1 where page: "claim_query_reconciliation_page (pg_place pg) (pg_end pg) (pg_owner pg) (pg_now pg p) (rc_claim_seconds rc)
        (rc_page_size rc) cursor (pg_tokens pg p) (quiet st) = (Some (cs, m), quiet st1)"
    "fleet_ok T C L st1" "fleet_later st st1" "no_new_row st st1" "\<forall>c \<in> set cs. claimed_row c st1" "distinct (map (\<lambda>c. lease_key (cl_lease c)) cs)"
    "\<forall>k row. row_at k st = Some row \<longrightarrow> past_place cursor (pg_place pg k) \<longrightarrow> awaiting (pg_now pg p) row \<longrightarrow>
       (\<exists>c \<in> set cs. cl_lease c = lc_lease row)
       \<or> (\<exists>e. m = Some e \<and> e < pg_place pg k) \<and> k \<notin> (\<lambda>c. lease_key (cl_lease c)) ` set cs \<and> row_at k st1 = Some row"
    by (elim exE conjE) (rule that)
  have short: "length cs \<le> rc_page_size rc" and beyond: "\<And>e. m = Some e \<Longrightarrow> past_place cursor e"
    using claim_page_answers [of pg] pg page(1) unfolding answers_def pass_inputs_ok_def by blast+
  let ?r = "r\<lparr>rn_pages := rn_pages r + 1, rn_claimed := rn_claimed r + length cs\<rparr>"
  have counted: "clean ?r" using Suc.prems(3) by (simp add: clean_def)
  have leases: "leases_in ls st1" by (rule leases_kept [OF Suc.prems(2) page(3,4)])
  then have within: "cl_lease ` set cs \<subseteq> ls" using page(5) by (fastforce simp: claimed_row_def leases_in_def)
  obtain r' st2 where claims: "reconcile_claims rc cs ?r (quiet st1) = (Some (Knows r'), quiet st2)" "clean r'" "fleet_ok T C L st2"
    "fleet_later st1 st2" "\<forall>c \<in> set cs. dealt_with (cl_lease c) st2"
    "\<forall>k. k \<notin> (\<lambda>c. lease_key (cl_lease c)) ` set cs \<longrightarrow> row_at k st2 = row_at k st1"
    using claims_quiet [OF page(2,5,6) rc counted within] by blast
  have "no_new_row st1 st2" unfolding no_new_row_def
  proof (intro allI impI)
    fix k assume none: "row_at k st1 = None"
    have "k \<notin> (\<lambda>c. lease_key (cl_lease c)) ` set cs" using page(5) none by (auto simp: claimed_row_def)
    then show "row_at k st2 = None" using claims(6) none by simp
  qed
  note none_new = this
  with leases claims(4) have leases2: "leases_in ls st2" by (rule leases_kept)
  let ?seen = "(case cursor of None \<Rightarrow> [] | Some k \<Rightarrow> [k]) @ seen"
  have step: "run_pages rc pg (Suc n) p seen cursor r (quiet st) = (case m of
      None \<Rightarrow> return_io (Knows (Inr (r'\<lparr>rn_next := None\<rparr>)))
    | Some _ \<Rightarrow> run_pages rc pg n (Suc p) ?seen m r') (quiet st2)"
    unfolding run_pages.simps if_not_P [OF fresh] using short
    by (simp add: bind_io_def try_io_def page(1) claims(1) [simplified] del: run_pages.simps)
  have go: "dealt_with (lc_lease row) st2 \<or> (\<exists>e. m = Some e \<and> ahead pg m k row st2)" if R: "(k, row) \<in> R" for k row
  proof (cases "dealt_with (lc_lease row) st")
    case True
    have "dealt_with (lc_lease row) st2"
      by (rule later_stable [OF stable_closed claims(3) fleet_later_trans [OF page(3) claims(4)] True])
    then show ?thesis ..
  next
    case False
    then have "past_place cursor (pg_place pg k)" "row_at k st = Some row" using Suc.prems(7) [OF R] by (auto simp: ahead_def)
    with page(7) now(1) [OF R] have "(\<exists>c \<in> set cs. cl_lease c = lc_lease row)
       \<or> (\<exists>e. m = Some e \<and> e < pg_place pg k) \<and> k \<notin> (\<lambda>c. lease_key (cl_lease c)) ` set cs \<and> row_at k st1 = Some row" by blast
    then show ?thesis using claims(5,6) by (auto simp: ahead_def past_place_def)
  qed
  show ?case
  proof (cases m)
    case None
    then have "\<forall>(k, row) \<in> R. dealt_with (lc_lease row) st2" using go by auto
    then show ?thesis unfolding step None option.case return_io_def using claims(2) by (auto simp: clean_def)
  next
    case (Some e)
    have "\<exists>r'' st'. run_pages rc pg n (Suc p) ?seen m r' (quiet st2) = (Some (Knows (Inr r'')), quiet st') \<and> clean r''
      \<and> (rn_next r'' = None \<longrightarrow> (\<forall>(k, row) \<in> R. dealt_with (lc_lease row) st'))"
    proof (rule Suc.IH [OF claims(3) leases2 claims(2)])
      fix e' k assume "m = Some e'" "k \<in> set ?seen"
      with beyond [of e'] Suc.prems(4,6) show "k < e'" by (fastforce simp: past_place_def split: option.splits)
    next
      show "ahead pg m k row st2" if "(k, row) \<in> R" for k row using go [OF that] by (auto simp: ahead_def)
    next
      show "places_apart pg st2" by (rule places_kept [OF places_kept [OF Suc.prems(8) page(4)] none_new])
    qed (simp_all add: Some)
    then show ?thesis unfolding step Some by simp
  qed
qed

text \<open>C21: In quiet times a pass misses nothing: when no store call fails and nobody else is at work, and Athena reports the end
of every running query that is asked about, a pass has no failed, lost or deferred claim, and once it comes to the end of the
table every query that waited for it - an interrupted one whose lease ran out, or a settled one whose record was not
acknowledged - is settled, recorded in the audit log and acknowledged.\<close>

theorem quiet_pass_closes:
  assumes "fleet_reachable T C L st" "pass_inputs_ok rc pg" "places_apart pg st" "all_ended rc {lc_lease row | k row. row_at k st = Some row}" "1 \<le> max_pages" "max_pages \<le> 100" "\<And>p. t \<le> pg_now pg p"
  shows "\<exists>r st'. reconcile_run rc pg None max_pages (quiet st) = (Some (Knows (Inr r)), quiet st') \<and> clean r
    \<and> (rn_next r = None \<longrightarrow> (\<forall>k row. row_at k st = Some row \<longrightarrow> awaiting t row \<longrightarrow> dealt_with (lc_lease row) st'))"
proof -
  let ?R = "{(k, row). row_at k st = Some row \<and> awaiting t row}"
  have "\<exists>r' st'. run_pages rc pg max_pages 0 [] None no_result (quiet st) = (Some (Knows (Inr r')), quiet st') \<and> clean r'
    \<and> (rn_next r' = None \<longrightarrow> (\<forall>(k, row) \<in> ?R. dealt_with (lc_lease row) st'))"
    by (rule pass_quiet [OF assms(2,4,3) reachable_fleet_ok [OF assms(1)]])
      (use assms(5) awaiting_mono [OF _ assms(7)] in \<open>auto simp: clean_def no_result_def ahead_def past_place_def leases_in_def\<close>)
  then show ?thesis using assms(5,6) by (auto simp: reconcile_run_def)
qed

text \<open>The demonstration fleet has one query that runs and one that never started; both leases have run out at 100.\<close>

lemma demo_cancel:
  assumes "e \<noteq> []"
  shows "cancel_query (rc_cancel demo_reconciler c) demo_datasource ''t'' ''p'' e
    = Some (Ok \<lparr>tm_execution = e, tm_state = ''SUCCEEDED'', tm_terminal = True, tm_scanned = Some 40, tm_engine_ms = Some 5, tm_cancel_requested = False\<rparr>)"
  using assms by (simp add: cancel_query_def demo_reconciler_def demo_datasource_def demo_script_def query_execution_def jget_def
    termination_of_def state_of_def statistics_of_def statistic_def TERMINAL_STATES_def ACTIVE_STATES_def)

lemma demo_ended: "all_ended demo_reconciler {lc_lease row | k row. row_at k demo_two = Some row}"
  unfolding all_ended_def
proof (intro allI impI)
  fix c assume c: "cl_lease c \<in> {lc_lease row | k row. row_at k demo_two = Some row}" "cl_status c = Running" "claim_valid c"
  have "list_all (\<lambda>(k, row). le_tenant (lc_lease row) = ''t'' \<and> le_project (lc_lease row) = ''p'') (qs_rows demo_two)" by code_simp
  then have tp: "le_tenant (cl_lease c) = ''t''" "le_project (cl_lease c) = ''p''"
    using c(1) row_of_list unfolding list_all_iff by fastforce+
  obtain e where e: "cl_execution c = Some e" "e \<noteq> []" using c(2,3) by (auto simp: claim_valid_def optional_def)
  have look: "rc_lookup demo_reconciler c = Datasource demo_datasource" "(''t'', ''p'', ds_role demo_datasource) \<in> set (rc_bindings demo_reconciler)"
    by (simp_all add: demo_reconciler_def demo_datasource_def)
  show "\<exists>a. terminal_state demo_reconciler c = Knows (Some a)"
    by (simp add: terminal_state_def Let_def c(2) tp e(1) look demo_cancel [OF e(2)])
qed

lemma demo_places: "places_apart demo_pages demo_two"
proof -
  have "{k. row_at k demo_two \<noteq> None} \<subseteq> {QueryKey ''t'' ''p'' ''q1'', QueryKey ''t'' ''p'' ''q2''}"
  proof
    fix k assume "k \<in> {k. row_at k demo_two \<noteq> None}"
    then have "k \<in> set (map fst (qs_rows demo_two))" using row_of_list by force
    moreover have "map fst (qs_rows demo_two) = [QueryKey ''t'' ''p'' ''q1'', QueryKey ''t'' ''p'' ''q2'']" by code_simp
    ultimately show "k \<in> {QueryKey ''t'' ''p'' ''q1'', QueryKey ''t'' ''p'' ''q2''}" by simp
  qed
  moreover have "inj_on demo_place {QueryKey ''t'' ''p'' ''q1'', QueryKey ''t'' ''p'' ''q2''}" by (simp add: demo_place_def)
  ultimately have "inj_on demo_place {k. row_at k demo_two \<noteq> None}" by (rule inj_on_subset [rotated])
  then show ?thesis by (simp add: places_apart_def demo_pages_def)
qed

lemma quiet_pass_closes_witness:
  "\<exists>r st'. reconcile_run demo_reconciler demo_pages None 3 (quiet demo_two) = (Some (Knows (Inr r)), quiet st')
     \<and> rn_next r = None \<and> dealt_with demo_lease_1 st' \<and> dealt_with demo_lease_2 st'"
proof -
  have ok: "pass_inputs_ok demo_reconciler demo_pages"
    using demo_pages_advance by (simp add: pass_inputs_ok_def reconciler_valid_def) (simp add: demo_reconciler_def demo_pages_def py_strip_def py_space_def)
  have now: "100 \<le> pg_now demo_pages p" for p by (simp add: demo_pages_def)
  have max_pages: "1 \<le> (3 :: nat)" "3 \<le> (100 :: nat)" by simp_all
  from quiet_pass_closes [OF demo_reachable(1) ok demo_places demo_ended max_pages now]
  obtain r st' where run: "reconcile_run demo_reconciler demo_pages None 3 (quiet demo_two) = (Some (Knows (Inr r)), quiet st')"
    and all: "rn_next r = None \<longrightarrow> (\<forall>k row. row_at k demo_two = Some row \<longrightarrow> awaiting 100 row \<longrightarrow> dealt_with (lc_lease row) st')"
    by (elim exE conjE) (rule that)
  have last_page: "rn_next r = None" using demo_pass run by simp
  have closed: "dealt_with l st'" if l: "l = demo_lease_1 \<or> l = demo_lease_2" for l
  proof -
    have "case row_at (lease_key l) demo_two of None \<Rightarrow> False | Some row \<Rightarrow> awaiting 100 row \<and> lc_lease row = l"
      using l by (elim disjE) (simp only:, code_simp)+
    then obtain row where row: "row_at (lease_key l) demo_two = Some row" "awaiting 100 row" "lc_lease row = l" by (cases "row_at (lease_key l) demo_two") auto
    show ?thesis using all last_page row(1,2) unfolding row(3) [symmetric] by blast
  qed
  show ?thesis
    by (rule exI [of _ r], rule exI [of _ st']) (intro conjI run last_page closed disjI1 disjI2 refl)
qed

end
