(* ===== verification/CostTracker.thy ===== *)
theory CostTracker
  imports SpendStoreProps Strategies
begin

text \<open>
  The cost tracker, \<open>src/gateway/cost_tracker.py\<close>: what a call costs, the usage records and running spend totals of one
  process, the adoption of the fleet's totals from the budget store, budget checks, and the usage report.

  The dictionaries that exist once for projects and once for users are one map whose key also names the kind. A
  timestamp is microseconds of UTC (naive ones are read as UTC). The writing of the history row and the scan of that
  table are arguments, since they touch no spend counter; the persistence layer is the one of \<open>SpendStore\<close>, so the
  paths for stores without \<open>add_spend_state\<close> and \<open>get_spend_state\<close> are left out, and so is the sharing of one scan by
  concurrent readers. Operations that raise answer \<open>False\<close> or \<open>None\<close> beside the state they leave.
\<close>

section \<open>Cost of a call\<close>

record token_counts =
  tk_prompt :: int
  tk_completion :: int
  tk_cached :: int
  tk_image :: int
  tk_reasoning :: int
  tk_creation :: int

definition per_thousand :: "int \<Rightarrow> rate \<Rightarrow> rat" where
  "per_thousand n r = of_int n / 1000 * rate_value r"

text \<open>The charge of a kind of tokens that is only looked at when there are some.\<close>

definition extra_charge :: "int \<Rightarrow> rate option \<Rightarrow> rat" where
  "extra_charge n r = (case r of None \<Rightarrow> 0 | Some q \<Rightarrow> if 0 < n then per_thousand n q else 0)"

definition calculate_cost :: "pricing_config \<Rightarrow> string \<Rightarrow> string \<Rightarrow> token_counts \<Rightarrow> rat" where
  "calculate_cost cfg prov model k = (case get_or cfg prov Map.empty model of
     None \<Rightarrow> 0
   | Some p \<Rightarrow>
       if \<not> is_billable p then 0
       else (let cached_rate = (case cached_token_cost p of None \<Rightarrow> prompt_token_cost p | Some r \<Rightarrow> r);
                 creation_rate = (case cache_creation_token_cost p of None \<Rightarrow> prompt_token_cost p | Some r \<Rightarrow> r);
                 billable_prompt = max 0 (tk_prompt k - tk_cached k - tk_creation k) in
         per_thousand billable_prompt (prompt_token_cost p) + per_thousand (tk_completion k) (completion_token_cost p)
         + extra_charge (tk_cached k) (Some cached_rate) + extra_charge (tk_creation k) (Some creation_rate)
         + extra_charge (tk_image k) (image_token_cost p) + extra_charge (tk_reasoning k) (reasoning_token_cost p)
         + rate_value (per_request_cost p)))"

section \<open>Records and state\<close>

text \<open>The fields of a usage record that are read here.\<close>

record usage =
  ug_tenant :: "string option"
  ug_request :: string
  ug_project :: string
  ug_user :: string
  ug_provider :: string
  ug_model :: string
  ug_tokens :: int
  ug_cost :: rat
  ug_time :: "int option"

definition usage_key :: "usage \<Rightarrow> string option \<times> string" where
  "usage_key u = (ug_tenant u, ug_request u)"

record cost_tracker =
  kt_pricing :: pricing_config
  kt_records :: "usage list"
  kt_spend :: "counter_id \<rightharpoonup> rat"
  kt_epochs :: "counter_id \<rightharpoonup> int"
  kt_budgets :: "counter_id \<rightharpoonup> rat option \<times> rat option"
  kt_durable :: bool
  kt_synced_at :: "rat option"

definition new_cost_tracker :: "pricing_config \<Rightarrow> (counter_id \<rightharpoonup> rat option \<times> rat option) \<Rightarrow> bool \<Rightarrow> cost_tracker" where
  "new_cost_tracker cfg budgets durable = \<lparr>kt_pricing = cfg, kt_records = [], kt_spend = Map.empty, kt_epochs = Map.empty,
     kt_budgets = budgets, kt_durable = durable, kt_synced_at = None\<rparr>"

definition MAX_RECORDS :: int where "MAX_RECORDS = 100000"

definition USAGE_SYNC_TTL_SECONDS :: rat where "USAGE_SYNC_TTL_SECONDS = 10"

definition PROJECT :: string where "PROJECT = ''project''"

definition USER :: string where "USER = ''user''"

text \<open>\<open>None\<close> is the \<open>ValueError\<close>.\<close>

definition cost_scope_id :: "string option \<Rightarrow> string \<Rightarrow> string \<Rightarrow> string option" where
  "cost_scope_id tenant kind rid =
     (if blank rid then None
      else (case tenant of
          None \<Rightarrow> Some rid
        | Some t \<Rightarrow> if blank t then None else Some (tenant_scoped_id tenant kind rid)))"

definition tracker_has_pricing :: "cost_tracker \<Rightarrow> string \<Rightarrow> string \<Rightarrow> bool" where
  "tracker_has_pricing t prov model = (case get_or (kt_pricing t) prov Map.empty model of None \<Rightarrow> False | Some p \<Rightarrow> is_billable p)"

definition spend_at :: "cost_tracker \<Rightarrow> counter_id \<Rightarrow> rat" where
  "spend_at t k = get_or (kt_spend t) k 0"

definition put_spend :: "counter_id \<Rightarrow> rat \<Rightarrow> cost_tracker \<Rightarrow> cost_tracker" where
  "put_spend k v t = t\<lparr>kt_spend := (kt_spend t)(k \<mapsto> v)\<rparr>"

text \<open>An answer of the store: an older epoch is ignored, a newer one replaces the total, the same one can only raise it.\<close>

definition adopt_state :: "counter_id \<Rightarrow> rat \<times> int \<Rightarrow> cost_tracker \<Rightarrow> cost_tracker" where
  "adopt_state k state t = (case state of (amount, epoch) \<Rightarrow>
     (let current_epoch = get_or (kt_epochs t) k 0 in
      if epoch < current_epoch then t
      else if current_epoch < epoch then put_spend k amount (t\<lparr>kt_epochs := (kt_epochs t)(k \<mapsto> epoch)\<rparr>)
      else put_spend k (max amount (spend_at t k)) t))"

section \<open>Registration and budget checks\<close>

definition register_scope :: "string \<Rightarrow> string option \<Rightarrow> string \<Rightarrow> rat option \<Rightarrow> rat option \<Rightarrow> cost_tracker \<Rightarrow> cost_tracker option" where
  "register_scope kind tenant ident limit threshold t = (case cost_scope_id tenant kind ident of
     None \<Rightarrow> None
   | Some sid \<Rightarrow> Some (t\<lparr>kt_budgets := (kt_budgets t)((kind, sid) \<mapsto> (limit, threshold))\<rparr>))"

definition register_project :: "string option \<Rightarrow> string \<Rightarrow> rat option \<Rightarrow> rat option \<Rightarrow> cost_tracker \<Rightarrow> cost_tracker option" where
  "register_project = register_scope PROJECT"

definition register_user :: "string option \<Rightarrow> string \<Rightarrow> rat option \<Rightarrow> rat option \<Rightarrow> cost_tracker \<Rightarrow> cost_tracker option" where
  "register_user = register_scope USER"

definition budget_of :: "counter_id \<Rightarrow> cost_tracker \<Rightarrow> rat option \<times> rat option" where
  "budget_of k t = get_or (kt_budgets t) k (None, None)"

definition get_user_budget :: "string option \<Rightarrow> string \<Rightarrow> cost_tracker \<Rightarrow> (rat option \<times> rat option) option" where
  "get_user_budget tenant user t = map_option (\<lambda>sid. budget_of (USER, sid) t) (cost_scope_id tenant USER user)"

definition clear_project_spend :: "string option \<Rightarrow> string \<Rightarrow> cost_tracker \<Rightarrow> cost_tracker option" where
  "clear_project_spend tenant project t = (case cost_scope_id tenant PROJECT project of
     None \<Rightarrow> None
   | Some sid \<Rightarrow> Some (t\<lparr>kt_spend := (kt_spend t)((PROJECT, sid) := None), kt_epochs := (kt_epochs t)((PROJECT, sid) := None)\<rparr>))"

record budget_status =
  bs_ident :: string
  bs_spend :: rat
  bs_limit :: "rat option"
  bs_threshold :: "rat option"
  bs_over :: bool
  bs_alert :: bool

definition reached :: "rat option \<Rightarrow> rat \<Rightarrow> bool" where
  "reached bound spend = (case bound of None \<Rightarrow> False | Some b \<Rightarrow> b \<le> spend)"

text \<open>Code of the store that raises \<open>ValueError\<close> is never reached: the key of a scope is not blank.\<close>

definition refresh_spend_state :: "counter_id \<Rightarrow> cost_tracker \<Rightarrow> world \<Rightarrow> cost_tracker \<times> world" where
  "refresh_spend_state k t w =
     (if \<not> kt_durable t then (t, w)
      else (case get_spend_state (fst k) (snd k) w of
          Inl _ \<Rightarrow> (t, w)
        | Inr (None, w') \<Rightarrow> (t, w')
        | Inr (Some state, w') \<Rightarrow> (adopt_state k state t, w')))"

definition budget_status_of :: "string \<Rightarrow> counter_id \<Rightarrow> cost_tracker \<Rightarrow> budget_status" where
  "budget_status_of ident k t = (let (limit, threshold) = budget_of k t; spend = spend_at t k in
     \<lparr>bs_ident = ident, bs_spend = spend, bs_limit = limit, bs_threshold = threshold,
      bs_over = reached limit spend, bs_alert = reached threshold spend\<rparr>)"

definition check_scope :: "string \<Rightarrow> string option \<Rightarrow> string \<Rightarrow> cost_tracker \<Rightarrow> world \<Rightarrow> budget_status option \<times> cost_tracker \<times> world" where
  "check_scope kind tenant ident t w = (case cost_scope_id tenant kind ident of
     None \<Rightarrow> (None, t, w)
   | Some sid \<Rightarrow>
       (let k = (kind, sid);
            (t', w') = (if budget_of k t = (None, None) then (t, w) else refresh_spend_state k t w) in
        (Some (budget_status_of ident k t'), t', w')))"

definition check_budget :: "string option \<Rightarrow> string \<Rightarrow> cost_tracker \<Rightarrow> world \<Rightarrow> budget_status option \<times> cost_tracker \<times> world" where
  "check_budget = check_scope PROJECT"

definition check_user_budget :: "string option \<Rightarrow> string \<Rightarrow> cost_tracker \<Rightarrow> world \<Rightarrow> budget_status option \<times> cost_tracker \<times> world" where
  "check_user_budget = check_scope USER"

section \<open>Recording usage\<close>

text \<open>The scopes of a record, in the order in which they are charged; an empty id names no scope.\<close>

definition usage_scopes :: "usage \<Rightarrow> (string \<times> string) list" where
  "usage_scopes u = filter (\<lambda>(_, ident). ident \<noteq> []) [(PROJECT, ug_project u), (USER, ug_user u)]"

fun bump_scopes :: "(string \<times> string) list \<Rightarrow> usage \<Rightarrow> cost_tracker \<Rightarrow> bool \<times> cost_tracker" where
  "bump_scopes [] u t = (True, t)"
| "bump_scopes ((kind, ident) # rest) u t = (case cost_scope_id (ug_tenant u) kind ident of
     None \<Rightarrow> (False, t)
   | Some sid \<Rightarrow> bump_scopes rest u (put_spend (kind, sid) (spend_at t (kind, sid) + ug_cost u) t))"

definition bump_spend :: "usage \<Rightarrow> cost_tracker \<Rightarrow> bool \<times> cost_tracker" where
  "bump_spend u t = bump_scopes (usage_scopes u) u t"

fun share_scopes :: "(string \<times> string) list \<Rightarrow> string list \<Rightarrow> usage \<Rightarrow> cost_tracker \<Rightarrow> world \<Rightarrow> bool \<times> cost_tracker \<times> world" where
  "share_scopes [] skip u t w = (True, t, w)"
| "share_scopes ((kind, ident) # rest) skip u t w =
     (if kind \<in> set skip then share_scopes rest skip u t w
      else (case cost_scope_id (ug_tenant u) kind ident of
          None \<Rightarrow> (False, t, w)
        | Some sid \<Rightarrow> (case add_spend_state kind sid (ug_cost u) w of
              Inl _ \<Rightarrow> (False, t, w)
            | Inr (None, w') \<Rightarrow> share_scopes rest skip u t w'
            | Inr (Some state, w') \<Rightarrow> share_scopes rest skip u (adopt_state (kind, sid) state t) w')))"

definition bump_spend_fleet_wide :: "string list \<Rightarrow> usage \<Rightarrow> cost_tracker \<Rightarrow> world \<Rightarrow> bool \<times> cost_tracker \<times> world" where
  "bump_spend_fleet_wide skip u t w =
     (if \<not> kt_durable t then (True, t, w) else share_scopes (usage_scopes u) skip u t w)"

definition trim_records :: "cost_tracker \<Rightarrow> cost_tracker" where
  "trim_records t = (if MAX_RECORDS < int (length (kt_records t))
     then t\<lparr>kt_records := slice_last (MAX_RECORDS div 2) (kt_records t)\<rparr> else t)"

record usage_options =
  uo_persist :: bool
  uo_required :: bool
  uo_share :: bool
  uo_skip :: "string list"

text \<open>\<open>saved\<close>: that the history row was written.\<close>

definition record_usage :: "usage_options \<Rightarrow> usage \<Rightarrow> bool \<Rightarrow> cost_tracker \<Rightarrow> world \<Rightarrow> bool \<times> cost_tracker \<times> world" where
  "record_usage opts u saved t w =
     (if uo_required opts \<and> \<not> uo_persist opts then (False, t, w)
      else (case bump_spend u (t\<lparr>kt_records := kt_records t @ [u]\<rparr>) of
          (False, t1) \<Rightarrow> (False, t1, w)
        | (True, t1) \<Rightarrow>
            (let t2 = trim_records t1 in
             if uo_persist opts \<and> kt_durable t \<and> \<not> saved \<and> uo_required opts then (False, t2, w)
             else if uo_share opts then bump_spend_fleet_wide (uo_skip opts) u t2 w
             else (True, t2, w))))"

text \<open>Totals that an atomic finalization answered.\<close>

definition raise_spend :: "string \<Rightarrow> string option \<Rightarrow> string \<Rightarrow> rat \<Rightarrow> cost_tracker \<Rightarrow> cost_tracker option" where
  "raise_spend kind tenant ident amount t = (case cost_scope_id tenant kind ident of
     None \<Rightarrow> None
   | Some sid \<Rightarrow> Some (put_spend (kind, sid) (max amount (spend_at t (kind, sid))) t))"

definition adopt_user_spend :: "string option \<Rightarrow> string \<Rightarrow> rat \<Rightarrow> cost_tracker \<Rightarrow> cost_tracker option" where
  "adopt_user_spend tenant user amount t = raise_spend USER tenant user amount t"

fun adopt_scopes :: "(string \<times> string) list \<Rightarrow> string option \<Rightarrow> (string \<rightharpoonup> rat) \<Rightarrow> cost_tracker \<Rightarrow> bool \<times> cost_tracker" where
  "adopt_scopes [] tenant totals t = (True, t)"
| "adopt_scopes ((kind, ident) # rest) tenant totals t = (case totals kind of
     None \<Rightarrow> adopt_scopes rest tenant totals t
   | Some amount \<Rightarrow> (case raise_spend kind tenant ident amount t of
         None \<Rightarrow> (False, t)
       | Some t' \<Rightarrow> adopt_scopes rest tenant totals t'))"

definition adopt_reserved_spend :: "usage \<Rightarrow> (string \<rightharpoonup> rat) \<Rightarrow> cost_tracker \<Rightarrow> bool \<times> cost_tracker" where
  "adopt_reserved_spend u totals t = adopt_scopes (usage_scopes u) (ug_tenant u) totals t"

section \<open>History and fleet totals\<close>

text \<open>\<open>load_records\<close>: the counters follow, so that budgets survive a restart.\<close>

fun load_records :: "usage list \<Rightarrow> cost_tracker \<Rightarrow> bool \<times> cost_tracker" where
  "load_records [] t = (True, t)"
| "load_records (u # us) t =
     (if usage_key u \<in> usage_key ` set (kt_records t) then load_records us t
      else (case bump_spend u (t\<lparr>kt_records := kt_records t @ [u]\<rparr>) of
          (False, t') \<Rightarrow> (False, t')
        | (True, t') \<Rightarrow> load_records us t'))"

definition fleet_spend :: "string \<Rightarrow> string option \<Rightarrow> string \<Rightarrow> cost_tracker \<Rightarrow> world \<Rightarrow> value_error + rat option \<times> world" where
  "fleet_spend scope tenant ident t w =
     (if \<not> kt_durable t then Inr (None, w)
      else if scope \<notin> {PROJECT, USER} then Inl value_error.ValueError
      else (case cost_scope_id tenant scope ident of
          None \<Rightarrow> Inl value_error.ValueError
        | Some sid \<Rightarrow> (case get_spend_state scope sid w of
              Inl _ \<Rightarrow> Inr (None, w)
            | Inr (r, w') \<Rightarrow> Inr (map_option fst r, w'))))"

fun merge_records :: "usage list \<Rightarrow> usage list \<Rightarrow> usage list" where
  "merge_records [] rs = rs"
| "merge_records (u # us) rs = merge_records us (if usage_key u \<in> usage_key ` set rs then rs else rs @ [u])"

definition record_age_key :: "usage \<Rightarrow> int" where
  "record_age_key u = (case ug_time u of None \<Rightarrow> 0 | Some t \<Rightarrow> t)"

text \<open>\<open>stored\<close>: the scanned history, \<open>None\<close> when the scan failed.\<close>

definition sync_records_from_store :: "usage list option \<Rightarrow> cost_tracker \<Rightarrow> bool \<times> cost_tracker" where
  "sync_records_from_store stored t =
     (if \<not> kt_durable t then (False, t)
      else (case stored of
          None \<Rightarrow> (False, t)
        | Some records \<Rightarrow>
            (let room = max (MAX_RECORDS - int (length (kt_records t))) 0;
                 newest = (if int (length records) \<le> room then records
                   else if room = 0 then [] else slice_last room (sort_key record_age_key records)) in
             (True, t\<lparr>kt_records := merge_records newest (kt_records t)\<rparr>))))"

definition synced_records :: "rat \<Rightarrow> usage list option \<Rightarrow> cost_tracker \<Rightarrow> usage list \<times> cost_tracker" where
  "synced_records now stored t =
     (if (case kt_synced_at t of None \<Rightarrow> False | Some s \<Rightarrow> now - s < USAGE_SYNC_TTL_SECONDS) then (kt_records t, t)
      else (case sync_records_from_store stored t of
          (synced, t1) \<Rightarrow> (let t2 = (if synced then t1\<lparr>kt_synced_at := Some now\<rparr> else t1) in (kt_records t2, t2))))"

fun adopt_each :: "string \<Rightarrow> string option \<Rightarrow> string list \<Rightarrow> cost_tracker \<Rightarrow> world \<Rightarrow> bool \<times> cost_tracker \<times> world" where
  "adopt_each kind tenant [] t w = (True, t, w)"
| "adopt_each kind tenant (ident # rest) t w = (case cost_scope_id tenant kind ident of
     None \<Rightarrow> (False, t, w)
   | Some sid \<Rightarrow> (case get_spend_state kind sid w of
         Inl _ \<Rightarrow> (False, t, w)
       | Inr (None, w') \<Rightarrow> adopt_each kind tenant rest t w'
       | Inr (Some (amount, epoch), w') \<Rightarrow>
           adopt_each kind tenant rest
             (put_spend (kind, sid) amount (t\<lparr>kt_epochs := (kt_epochs t)((kind, sid) \<mapsto> epoch)\<rparr>)) w'))"

definition adopt_fleet_spend :: "string option \<Rightarrow> string list \<Rightarrow> string list \<Rightarrow> cost_tracker \<Rightarrow> world \<Rightarrow> bool \<times> cost_tracker \<times> world" where
  "adopt_fleet_spend tenant projects users t w =
     (if \<not> kt_durable t then (True, t, w)
      else (case adopt_each PROJECT tenant projects t w of
          (False, t1, w1) \<Rightarrow> (False, t1, w1)
        | (True, t1, w1) \<Rightarrow> adopt_each USER tenant users t1 w1))"

section \<open>The usage report\<close>

record usage_filters =
  uf_start :: "int option"
  uf_end :: "int option"
  uf_provider :: "string option"
  uf_model :: "string option"
  uf_project :: "string option"
  uf_user :: "string option"
  uf_tenant :: "string option"

definition keep_if :: "'b option \<Rightarrow> ('a \<Rightarrow> 'b \<Rightarrow> bool) \<Rightarrow> 'a list \<Rightarrow> 'a list" where
  "keep_if bound f rs = (case bound of None \<Rightarrow> rs | Some b \<Rightarrow> filter (\<lambda>r. f r b) rs)"

text \<open>A bound on the time of a record that has none raises.\<close>

definition keep_timed :: "int option \<Rightarrow> (int \<Rightarrow> int \<Rightarrow> bool) \<Rightarrow> usage list \<Rightarrow> usage list option" where
  "keep_timed bound f rs = (case bound of
     None \<Rightarrow> Some rs
   | Some b \<Rightarrow> if list_ex (\<lambda>r. ug_time r = None) rs then None
       else Some (filter (\<lambda>r. case ug_time r of None \<Rightarrow> False | Some x \<Rightarrow> f x b) rs))"

definition apply_filters :: "usage_filters \<Rightarrow> usage list \<Rightarrow> usage list option" where
  "apply_filters f rs = (case keep_timed (uf_start f) (\<ge>) rs of
     None \<Rightarrow> None
   | Some rs1 \<Rightarrow> (case keep_timed (uf_end f) (\<le>) rs1 of
       None \<Rightarrow> None
     | Some rs2 \<Rightarrow> Some
         (keep_if (uf_tenant f) (\<lambda>r b. ug_tenant r = Some b)
         (keep_if (uf_user f) (\<lambda>r b. ug_user r = b)
         (keep_if (uf_project f) (\<lambda>r b. ug_project r = b)
         (keep_if (uf_model f) (\<lambda>r b. ug_model r = b)
         (keep_if (uf_provider f) (\<lambda>r b. ug_provider r = b) rs2)))))))"

record usage_breakdown =
  ub_key :: string
  ub_by :: string
  ub_requests :: int
  ub_tokens :: int
  ub_cost :: rat

record usage_report =
  up_requests :: int
  up_tokens :: int
  up_cost :: rat
  up_breakdown :: "usage_breakdown list"

text \<open>The keys of a dictionary that is filled in the order of the list.\<close>

definition first_seen :: "'a list \<Rightarrow> 'a list" where
  "first_seen xs = rev (remdups (rev xs))"

definition usage_group :: "string \<Rightarrow> (usage \<Rightarrow> string) \<Rightarrow> usage list \<Rightarrow> string \<Rightarrow> usage_breakdown" where
  "usage_group by key rs g = (let members = filter (\<lambda>r. key r = g) rs in
     \<lparr>ub_key = g, ub_by = by, ub_requests = int (length members), ub_tokens = sum_list (map ug_tokens members),
      ub_cost = sum_list (map ug_cost members)\<rparr>)"

definition breakdown_by :: "string \<Rightarrow> (usage \<Rightarrow> string) \<Rightarrow> usage list \<Rightarrow> usage_breakdown list" where
  "breakdown_by by key rs = map (usage_group by key rs) (first_seen (map key rs))"

definition build_breakdown :: "usage list \<Rightarrow> usage_breakdown list" where
  "build_breakdown rs = breakdown_by ''provider'' ug_provider rs @ breakdown_by ''model'' ug_model rs
     @ breakdown_by PROJECT ug_project rs @ breakdown_by USER ug_user rs"

definition get_aggregated_usage :: "usage_filters \<Rightarrow> cost_tracker \<Rightarrow> usage_report option" where
  "get_aggregated_usage f t = map_option (\<lambda>rs.
     \<lparr>up_requests = int (length rs), up_tokens = sum_list (map ug_tokens rs), up_cost = sum_list (map ug_cost rs),
      up_breakdown = build_breakdown rs\<rparr>) (apply_filters f (kt_records t))"

end
