(* ===== verification/CostTrackerProps.thy ===== *)
theory CostTrackerProps
  imports CostTracker
begin

text \<open>
  What the cost tracker guarantees: a call is charged every token once; a budget gate that closed stays closed while the
  billing epoch lasts; instances that share a store decide on the fleet's total; the totals of a process without a
  store are the sums of what it recorded, also after the history was trimmed and after a restart; a report splits its
  totals along every dimension.
\<close>

section \<open>Charges\<close>
















section \<open>Totals only rise within an epoch\<close>

definition epoch_at :: "cost_tracker \<Rightarrow> counter_id \<Rightarrow> int" where
  "epoch_at t k = get_or (kt_epochs t) k 0"

lemma spend_put [simp]: "spend_at (put_spend k v t) k' = (if k' = k then v else spend_at t k')"
  by (simp add: spend_at_def put_spend_def get_or_def)

lemma put_spend_fields [simp]:
  "kt_epochs (put_spend k v t) = kt_epochs t" "kt_budgets (put_spend k v t) = kt_budgets t" "kt_durable (put_spend k v t) = kt_durable t"
  "kt_records (put_spend k v t) = kt_records t" "epoch_at (put_spend k v t) k' = epoch_at t k'"
  by (simp_all add: put_spend_def epoch_at_def)

lemma spend_other [simp]:
  "spend_at (t\<lparr>kt_records := rs\<rparr>) k = spend_at t k" "spend_at (t\<lparr>kt_synced_at := s\<rparr>) k = spend_at t k" "spend_at (t\<lparr>kt_epochs := es\<rparr>) k = spend_at t k"
  "epoch_at (t\<lparr>kt_records := rs\<rparr>) k = epoch_at t k" "epoch_at (t\<lparr>kt_synced_at := s\<rparr>) k = epoch_at t k"
  by (simp_all add: spend_at_def epoch_at_def)

text \<open>The budgets stay, and every total is at least what it was unless a later epoch began.\<close>

definition rises :: "cost_tracker \<Rightarrow> cost_tracker \<Rightarrow> bool" where
  "rises t t' \<longleftrightarrow> kt_budgets t' = kt_budgets t \<and> kt_durable t' = kt_durable t
     \<and> (\<forall>k. epoch_at t k < epoch_at t' k \<or> epoch_at t' k = epoch_at t k \<and> spend_at t k \<le> spend_at t' k)"

lemma rises_refl [simp]: "rises t t" by (simp add: rises_def)

lemma rises_trans [trans]: "rises a b \<Longrightarrow> rises b c \<Longrightarrow> rises a c"
proof -
  assume ab: "rises a b" and bc: "rises b c"
  have "epoch_at a k < epoch_at c k \<or> epoch_at c k = epoch_at a k \<and> spend_at a k \<le> spend_at c k" for k
  proof -
    have "epoch_at a k < epoch_at b k \<or> epoch_at b k = epoch_at a k \<and> spend_at a k \<le> spend_at b k"
      "epoch_at b k < epoch_at c k \<or> epoch_at c k = epoch_at b k \<and> spend_at b k \<le> spend_at c k"
      using ab bc unfolding rises_def by blast+
    then show ?thesis by (elim disjE conjE) auto
  qed
  with ab bc show "rises a c" by (simp add: rises_def)
qed

lemma rises_put: "spend_at t k \<le> v \<Longrightarrow> rises t (put_spend k v t)"
  by (simp add: rises_def)

lemma rises_records [simp]: "rises t (t\<lparr>kt_records := rs\<rparr>)" "rises t (t\<lparr>kt_synced_at := s\<rparr>)"
  by (simp_all add: rises_def)

lemma adopt_state_cases:
  "adopt_state k (amount, epoch) t = (if epoch < epoch_at t k then t
     else if epoch_at t k < epoch then put_spend k amount (t\<lparr>kt_epochs := (kt_epochs t)(k \<mapsto> epoch)\<rparr>)
     else put_spend k (max amount (spend_at t k)) t)"
  by (simp add: adopt_state_def epoch_at_def Let_def)

lemma epoch_set [simp]: "epoch_at (t\<lparr>kt_epochs := (kt_epochs t)(k \<mapsto> e)\<rparr>) k' = (if k' = k then e else epoch_at t k')"
  by (simp add: epoch_at_def get_or_def)

lemma rises_adopt: "rises t (adopt_state k state t)"
  by (cases state) (simp add: adopt_state_cases rises_def)

lemma rises_bump_scopes: "bump_scopes ss u t = (b, t') \<Longrightarrow> 0 \<le> ug_cost u \<Longrightarrow> rises t t'"
proof (induction ss u t arbitrary: b t' rule: bump_scopes.induct)
  case (2 kind ident rest u t)
  show ?case
  proof (cases "cost_scope_id (ug_tenant u) kind ident")
    case (Some sid)
    have "rises t (put_spend (kind, sid) (spend_at t (kind, sid) + ug_cost u) t)" using 2(3) by (simp add: rises_put)
    also have "rises (put_spend (kind, sid) (spend_at t (kind, sid) + ug_cost u) t) t'" using 2 Some by simp
    finally show ?thesis .
  qed (use 2(2) in simp)
qed simp

lemma rises_share_scopes: "share_scopes ss skip u t w = (b, t', w') \<Longrightarrow> rises t t'"
proof (induction ss skip u t w arbitrary: b t' w' rule: share_scopes.induct)
  case (2 kind ident rest skip u t w)
  show ?case
  proof (cases "kind \<in> set skip \<or> cost_scope_id (ug_tenant u) kind ident = None")
    case False
    then obtain sid where sid: "kind \<notin> set skip" "cost_scope_id (ug_tenant u) kind ident = Some sid" by auto
    show ?thesis
    proof (cases "add_spend_state kind sid (ug_cost u) w")
      case (Inr x)
      obtain r w1 where x: "x = (r, w1)" by fastforce
      show ?thesis
      proof (cases r)
        case None
        then show ?thesis using 2(2,4) sid Inr x by simp
      next
        case (Some state)
        have "rises (adopt_state (kind, sid) state t) t'" using 2(3,4) sid Inr x Some by (cases state) simp
        then show ?thesis by (rule rises_trans [OF rises_adopt])
      qed
    qed (use 2(4) sid in simp)
  qed (use 2(1,4) in \<open>auto split: if_splits option.splits\<close>)
qed simp

lemma rises_trim: "rises t (trim_records t)"
  by (simp add: trim_records_def)

lemma rises_record:
  assumes "record_usage opts u saved t w = (b, t', w')" "0 \<le> ug_cost u"
  shows "rises t t'"
proof -
  obtain ok t1 where t1: "bump_spend u (t\<lparr>kt_records := kt_records t @ [u]\<rparr>) = (ok, t1)" by fastforce
  have "rises t t1" using rises_bump_scopes [OF t1 [unfolded bump_spend_def] assms(2)] rises_records(1) by (rule rises_trans [rotated])
  then have r: "rises t (trim_records t1)" using rises_trim by (rule rises_trans)
  show ?thesis using assms(1) t1 \<open>rises t t1\<close> r
    by (auto simp: record_usage_def Let_def bump_spend_fleet_wide_def split: if_splits bool.splits dest: rises_share_scopes intro: rises_trans)
qed

lemma rises_refresh: "refresh_spend_state k t w = (t', w') \<Longrightarrow> rises t t'"
  by (auto simp: refresh_spend_state_def rises_adopt split: if_splits sum.splits option.splits prod.splits)

lemma rises_check: "check_scope kind tenant ident t w = (s, t', w') \<Longrightarrow> rises t t'"
  by (auto simp: check_scope_def Let_def dest: rises_refresh split: option.splits if_splits prod.splits)

lemma rises_raise: "raise_spend kind tenant ident amount t = Some t' \<Longrightarrow> rises t t'"
  by (auto simp: raise_spend_def rises_put split: option.splits)

lemma rises_adopt_scopes: "adopt_scopes ss tenant totals t = (b, t') \<Longrightarrow> rises t t'"
proof (induction ss tenant totals t arbitrary: b t' rule: adopt_scopes.induct)
  case (2 kind ident rest tenant totals t)
  then show ?case by (auto split: option.splits dest: rises_raise intro: rises_trans)
qed simp

lemma rises_load: "load_records us t = (b, t') \<Longrightarrow> list_all (\<lambda>u. 0 \<le> ug_cost u) us \<Longrightarrow> rises t t'"
proof (induction us t arbitrary: b t' rule: load_records.induct)
  case (2 u us t)
  obtain ok t1 where t1: "bump_spend u (t\<lparr>kt_records := kt_records t @ [u]\<rparr>) = (ok, t1)" by fastforce
  have "rises t t1" if "0 \<le> ug_cost u"
    using rises_bump_scopes [OF t1 [unfolded bump_spend_def] that] rises_records(1) by (rule rises_trans [rotated])
  then show ?case using 2 t1 by (auto split: if_splits bool.splits intro: rises_trans)
qed simp

lemma rises_synced: "synced_records now stored t = (rs, t') \<Longrightarrow> rises t t'"
  by (auto simp: synced_records_def sync_records_from_store_def Let_def rises_def split: if_splits option.splits prod.splits)

text \<open>
  What runs in a process between two checks, in any world: other instances may do anything to the store and any call may
  fail. (Registering a budget, clearing a total after a reset and the start-up adoption are left out.)
\<close>

datatype tracker_op =
    Record_op usage_options usage bool world
  | Check_op string "string option" string world
  | Reserved_op usage "string \<rightharpoonup> rat"
  | User_op "string option" string rat
  | Load_op "usage list"
  | Synced_op rat "usage list option"

primrec tracker_run :: "tracker_op \<Rightarrow> cost_tracker \<Rightarrow> cost_tracker" where
  "tracker_run (Record_op opts u saved w) t = fst (snd (record_usage opts u saved t w))"
| "tracker_run (Check_op kind tenant ident w) t = fst (snd (check_scope kind tenant ident t w))"
| "tracker_run (Reserved_op u totals) t = snd (adopt_reserved_spend u totals t)"
| "tracker_run (User_op tenant user amount) t = (case adopt_user_spend tenant user amount t of None \<Rightarrow> t | Some t' \<Rightarrow> t')"
| "tracker_run (Load_op us) t = snd (load_records us t)"
| "tracker_run (Synced_op now stored) t = snd (synced_records now stored t)"

primrec op_costs :: "tracker_op \<Rightarrow> rat list" where
  "op_costs (Record_op opts u saved w) = [ug_cost u]"
| "op_costs (Check_op kind tenant ident w) = []"
| "op_costs (Reserved_op u totals) = []"
| "op_costs (User_op tenant user amount) = []"
| "op_costs (Load_op us) = map ug_cost us"
| "op_costs (Synced_op now stored) = []"

lemma rises_run: "\<forall>c \<in> set (op_costs a). 0 \<le> c \<Longrightarrow> rises t (tracker_run a t)"
proof (cases a)
  case (Record_op opts u saved w)
  obtain b t' w' where "record_usage opts u saved t w = (b, t', w')" by (metis prod_cases3)
  moreover assume "\<forall>c \<in> set (op_costs a). 0 \<le> c"
  ultimately show ?thesis using Record_op rises_record by fastforce
next
  case (Check_op kind tenant ident w)
  obtain s t' w' where "check_scope kind tenant ident t w = (s, t', w')" by (metis prod_cases3)
  then show ?thesis using Check_op rises_check by fastforce
next
  case (Reserved_op u totals)
  then show ?thesis using rises_adopt_scopes by (simp add: adopt_reserved_spend_def) (metis prod.collapse)
next
  case (User_op tenant user amount)
  then show ?thesis using rises_raise by (auto simp: adopt_user_spend_def split: option.splits)
next
  case (Load_op us)
  moreover assume "\<forall>c \<in> set (op_costs a). 0 \<le> c"
  ultimately show ?thesis using rises_load [of us t "fst (load_records us t)" "snd (load_records us t)"] by (auto simp: list_all_iff)
next
  case (Synced_op now stored)
  then show ?thesis using rises_synced [of now stored t "fst (synced_records now stored t)"] by simp
qed

lemma rises_runs: "list_all (\<lambda>a. \<forall>c \<in> set (op_costs a). 0 \<le> c) as \<Longrightarrow> rises t (fold tracker_run as t)"
proof (induction as arbitrary: t)
  case (Cons a as)
  then have "rises t (tracker_run a t)" "rises (tracker_run a t) (fold tracker_run as (tracker_run a t))" by (simp_all add: rises_run)
  then show ?case by (simp add: rises_trans [of t "tracker_run a t"])
qed simp

lemma check_scope_Some:
  assumes "check_scope kind tenant ident t w = (Some s, t', w')"
  obtains sid where "cost_scope_id tenant kind ident = Some sid" "s = budget_status_of ident (kind, sid) t'" "rises t t'"
  using assms rises_check [OF assms] by (auto simp: check_scope_def Let_def split: option.splits prod.splits)

text \<open>C26: A budget gate that closed stays closed until the billing epoch advances: after a check refused, whatever the process
records, reads or adopts, whatever other instances do and whichever calls fail, the next check under the same limit refuses
too, or it has seen a later epoch.\<close>

theorem closed_gate_stays_closed:
  assumes "check_scope kind tenant ident t w = (Some s, t1, w1)" "bs_over s" "cost_scope_id tenant kind ident = Some sid"
    "list_all (\<lambda>a. \<forall>c \<in> set (op_costs a). 0 \<le> c) as"
    "check_scope kind tenant ident (fold tracker_run as t1) w2 = (Some s', t3, w3)"
  shows "bs_over s' \<or> epoch_at t1 (kind, sid) < epoch_at t3 (kind, sid)"
proof -
  have s: "s = budget_status_of ident (kind, sid) t1" using assms(1,3) by (metis check_scope_Some option.inject)
  obtain s': "s' = budget_status_of ident (kind, sid) t3" and "rises (fold tracker_run as t1) t3"
    using assms(3,5) by (metis check_scope_Some option.inject)
  then have "rises t1 t3" using rises_trans [OF rises_runs [OF assms(4)]] by blast
  then have "budget_of (kind, sid) t3 = budget_of (kind, sid) t1"
    and "epoch_at t1 (kind, sid) < epoch_at t3 (kind, sid) \<or> spend_at t1 (kind, sid) \<le> spend_at t3 (kind, sid)"
    by (auto simp: rises_def budget_of_def)
  then show ?thesis using assms(2) unfolding s s' by (auto simp: budget_status_of_def reached_def Let_def split: prod.splits option.splits)
qed

definition demo_usage :: "string \<Rightarrow> rat \<Rightarrow> usage" where
  "demo_usage request cost = \<lparr>ug_tenant = None, ug_request = request, ug_project = ''p'', ug_user = ''u'', ug_provider = ''a'',
     ug_model = ''m'', ug_tokens = 10, ug_cost = cost, ug_time = Some 5\<rparr>"

definition demo_options :: usage_options where
  "demo_options = \<lparr>uo_persist = True, uo_required = False, uo_share = True, uo_skip = []\<rparr>"

definition demo_cost_tracker :: cost_tracker where
  "demo_cost_tracker = new_cost_tracker Map.empty [(PROJECT, ''p'') \<mapsto> (Some 100, None)] True"

definition demo_spent :: cost_tracker where
  "demo_spent = fst (snd (record_usage demo_options (demo_usage ''1'' 120) True demo_cost_tracker (quiet empty_store)))"

lemma demo_gate: "case check_scope PROJECT None ''p'' demo_spent (quiet empty_store) of (Some s, _) \<Rightarrow> bs_over s | _ \<Rightarrow> False"
  by code_simp

lemma closed_gate_stays_closed_witness:
  "\<exists>s t1 w1 s' t3 w3. check_scope PROJECT None ''p'' demo_spent (quiet empty_store) = (Some s, t1, w1)
     \<and> check_scope PROJECT None ''p'' (fold tracker_run [Synced_op 3 (Some [])] t1) (quiet empty_store) = (Some s', t3, w3)
     \<and> (bs_over s' \<or> epoch_at t1 (PROJECT, ''p'') < epoch_at t3 (PROJECT, ''p''))"
proof -
  have sid: "cost_scope_id None PROJECT ''p'' = Some ''p''" by code_simp
  have some: "\<exists>s t' w'. check_scope PROJECT None ''p'' t w = (Some s, t', w')" for t w
    using sid by (simp add: check_scope_def Let_def split: prod.splits)
  obtain s t1 w1 where c1: "check_scope PROJECT None ''p'' demo_spent (quiet empty_store) = (Some s, t1, w1)" using some by blast
  obtain s' t3 w3 where c2: "check_scope PROJECT None ''p'' (fold tracker_run [Synced_op 3 (Some [])] t1) (quiet empty_store) = (Some s', t3, w3)"
    using some by blast
  have "bs_over s" using demo_gate c1 by simp
  from closed_gate_stays_closed [OF c1 this sid _ c2] c1 c2 show ?thesis by auto
qed

section \<open>A process without a store\<close>

definition charged_to :: "counter_id \<Rightarrow> usage \<Rightarrow> bool" where
  "charged_to k u \<longleftrightarrow> (\<exists>ident. (fst k, ident) \<in> set (usage_scopes u) \<and> cost_scope_id (ug_tenant u) (fst k) ident = Some (snd k))"

definition cost_for :: "counter_id \<Rightarrow> usage \<Rightarrow> rat" where
  "cost_for k u = (if charged_to k u then ug_cost u else 0)"

text \<open>Every id of the record names a scope.\<close>

definition well_named :: "usage \<Rightarrow> bool" where
  "well_named u \<longleftrightarrow> list_all (\<lambda>(kind, ident). cost_scope_id (ug_tenant u) kind ident \<noteq> None) (usage_scopes u)"

lemma usage_scopes_distinct: "distinct (map fst (usage_scopes u))"
  by (simp add: usage_scopes_def PROJECT_def USER_def)

lemma bump_scopes_spend:
  assumes "list_all (\<lambda>(kind, ident). cost_scope_id (ug_tenant u) kind ident \<noteq> None) ss" "distinct (map fst ss)"
  shows "\<exists>t'. bump_scopes ss u t = (True, t') \<and> kt_records t' = kt_records t \<and> kt_durable t' = kt_durable t \<and> kt_budgets t' = kt_budgets t
    \<and> kt_epochs t' = kt_epochs t
    \<and> (\<forall>k. spend_at t' k = spend_at t k
         + (if \<exists>ident. (fst k, ident) \<in> set ss \<and> cost_scope_id (ug_tenant u) (fst k) ident = Some (snd k) then ug_cost u else 0))"
  using assms
proof (induction ss arbitrary: t)
  case (Cons s ss)
  obtain kind ident sid where s: "s = (kind, ident)" "cost_scope_id (ug_tenant u) kind ident = Some sid"
    using Cons.prems(1) by (cases s) auto
  obtain t' where t': "bump_scopes ss u (put_spend (kind, sid) (spend_at t (kind, sid) + ug_cost u) t) = (True, t')"
    "kt_records t' = kt_records t" "kt_durable t' = kt_durable t" "kt_budgets t' = kt_budgets t" "kt_epochs t' = kt_epochs t"
    "\<And>k. spend_at t' k = spend_at (put_spend (kind, sid) (spend_at t (kind, sid) + ug_cost u) t) k
         + (if \<exists>ident. (fst k, ident) \<in> set ss \<and> cost_scope_id (ug_tenant u) (fst k) ident = Some (snd k) then ug_cost u else 0)"
    using Cons.IH [of "put_spend (kind, sid) (spend_at t (kind, sid) + ug_cost u) t"] Cons.prems by auto
  have fresh: "(kind, i) \<notin> set ss" for i using Cons.prems(2) s(1) by force
  have "spend_at t' k = spend_at t k
         + (if \<exists>ident. (fst k, ident) \<in> set (s # ss) \<and> cost_scope_id (ug_tenant u) (fst k) ident = Some (snd k) then ug_cost u else 0)" for k
    unfolding t'(6) using fresh s by (cases k) auto
  with t' s show ?case by (intro exI [of _ t']) simp
qed simp

lemma bump_spend_total:
  assumes "well_named u"
  shows "\<exists>t'. bump_spend u t = (True, t') \<and> kt_records t' = kt_records t \<and> kt_durable t' = kt_durable t \<and> kt_budgets t' = kt_budgets t
    \<and> kt_epochs t' = kt_epochs t \<and> (\<forall>k. spend_at t' k = spend_at t k + cost_for k u)"
  using bump_scopes_spend [OF assms [unfolded well_named_def] usage_scopes_distinct, of t]
  unfolding bump_spend_def cost_for_def charged_to_def by blast

text \<open>Recording the usages of a process, with any options; the history rows may fail to be written.\<close>

definition record_all :: "(usage_options \<times> usage \<times> bool \<times> world) list \<Rightarrow> cost_tracker \<Rightarrow> cost_tracker" where
  "record_all as t = fold tracker_run (map (\<lambda>(opts, u, saved, w). Record_op opts u saved w) as) t"

lemma record_usage_alone:
  assumes "\<not> kt_durable t" "well_named u" "\<not> (uo_required opts \<and> \<not> uo_persist opts)" "int (length (kt_records t)) \<le> MAX_RECORDS"
  shows "\<exists>t'. record_usage opts u saved t w = (True, t', w) \<and> \<not> kt_durable t' \<and> int (length (kt_records t')) \<le> MAX_RECORDS
    \<and> (\<forall>k. spend_at t' k = spend_at t k + cost_for k u)"
proof -
  obtain t1 where t1: "bump_spend u (t\<lparr>kt_records := kt_records t @ [u]\<rparr>) = (True, t1)" "kt_records t1 = kt_records t @ [u]"
    "kt_durable t1 = kt_durable t" "\<forall>k. spend_at t1 k = spend_at t k + cost_for k u"
    using bump_spend_total [OF assms(2), of "t\<lparr>kt_records := kt_records t @ [u]\<rparr>"] by auto
  have run: "record_usage opts u saved t w = (True, trim_records t1, w)"
    using assms t1 by (auto simp: record_usage_def Let_def bump_spend_fleet_wide_def trim_records_def)
  have "int (length (kt_records (trim_records t1))) \<le> MAX_RECORDS"
    using assms(4) t1(2) by (simp add: trim_records_def length_slice_last MAX_RECORDS_def)
  moreover have "spend_at (trim_records t1) k = spend_at t1 k" for k by (simp add: trim_records_def)
  moreover have "\<not> kt_durable (trim_records t1)" using assms(1) t1(3) by (simp add: trim_records_def)
  ultimately show ?thesis using run t1(4) by simp
qed

text \<open>Without a shared store every total is the sum of what the process recorded under it, however long it runs: trimming the
bounded history loses no spend.\<close>

theorem totals_survive_trimming:
  assumes "\<not> kt_durable t" "int (length (kt_records t)) \<le> MAX_RECORDS"
    "list_all (\<lambda>(opts, u, saved, w). well_named u \<and> \<not> (uo_required opts \<and> \<not> uo_persist opts)) as"
  shows "spend_at (record_all as t) k = spend_at t k + sum_list (map (\<lambda>(opts, u, saved, w). cost_for k u) as)
    \<and> int (length (kt_records (record_all as t))) \<le> MAX_RECORDS"
  using assms
proof (induction as arbitrary: t)
  case (Cons a as)
  obtain opts u saved w where a: "a = (opts, u, saved, w)" by (metis prod_cases4)
  obtain t' where t': "record_usage opts u saved t w = (True, t', w)" "\<not> kt_durable t'" "int (length (kt_records t')) \<le> MAX_RECORDS"
    "\<forall>k. spend_at t' k = spend_at t k + cost_for k u"
    using record_usage_alone [of t u opts saved w] Cons.prems a by auto
  have "record_all (a # as) t = record_all as t'" by (simp add: record_all_def a t'(1))
  with Cons.IH [OF t'(2,3)] Cons.prems(3) t'(4) show ?case by (simp add: a)
qed (simp add: record_all_def)

lemma totals_survive_trimming_witness:
  "spend_at (record_all [(demo_options, demo_usage ''1'' 2, False, quiet empty_store), (demo_options, demo_usage ''2'' 3, True, quiet empty_store)]
     (new_cost_tracker Map.empty Map.empty False)) (PROJECT, ''p'') = 5"
proof -
  have named: "well_named (demo_usage r c)" for r c
    by (simp add: well_named_def usage_scopes_def demo_usage_def cost_scope_id_def blank_def py_space_def)
  have "charged_to (PROJECT, ''p'') (demo_usage r c)" for r c
    unfolding charged_to_def
    by (rule exI [of _ "''p''"]) (simp add: usage_scopes_def demo_usage_def cost_scope_id_def blank_def py_space_def)
  then have cost: "cost_for (PROJECT, ''p'') (demo_usage r c) = c" for r c by (simp add: cost_for_def demo_usage_def)
  show ?thesis
    using totals_survive_trimming [of "new_cost_tracker Map.empty Map.empty False"
        "[(demo_options, demo_usage ''1'' 2, False, quiet empty_store), (demo_options, demo_usage ''2'' 3, True, quiet empty_store)]" "(PROJECT, ''p'')"]
    by (simp add: named cost new_cost_tracker_def demo_options_def MAX_RECORDS_def spend_at_def get_or_def)
qed





section \<open>Instances that share a store\<close>


lemma kinds_nonblank [simp]: "\<not> blank PROJECT" "\<not> blank USER"
  by (simp_all add: PROJECT_def USER_def blank_def py_space_def)





lemma adopt_fields [simp]: "kt_budgets (adopt_state k s t) = kt_budgets t" "kt_durable (adopt_state k s t) = kt_durable t"
  by (cases s; simp add: adopt_state_cases)+















end
