(* ===== verification/Spec2Isabelle.thy ===== *)
theory Spec2Isabelle
  imports Fallback SharedWindow PolicyResolver SpendClaims ControlPlaneProps RegionProps RedactionProps ApiKeysLife QuerySelect QueryQuiet CostReport
begin

text \<open>
  A verification development for AxonLLM, a multi-tenant gateway in front of language-model providers
  (Python, \<open>src/gateway\<close>). A request is authenticated, authorized, checked against the effective policy of its
  project, its rate limits and its budget, redacted, routed to a region and a provider, retried on others when
  one fails, settled against the budget, and recorded in the audit log of its tenant. The development models
  the components that carry these decisions and proves for each what the rest of the gateway relies on.

  \<^bold>\<open>Conventions.\<close> \<open>Prelude\<close> fixes them: Python \<open>int\<close> is \<open>int\<close>, \<open>float\<close> is \<open>rat\<close> (exact, no rounding), \<open>Decimal\<close> is \<open>rat\<close>,
  a datetime is its microseconds or its ISO text, a \<open>dict\<close> is a map or an association list where order counts,
  an object is a record, and a method is a function from the record to the record. An exception is a value:
  \<open>Inl\<close> of an error type, or \<open>None\<close> where only its being raised matters. Time, randomness, digests, regular
  expressions, provider calls and the entity detector are arguments of the definitions; what a property needs
  of them is a named hypothesis (\<open>fair_source\<close>, \<open>proper_matches\<close>, \<open>collision_free\<close>, \<open>dependable\<close>, \<open>readable\<close>).

  \<^bold>\<open>Concurrency.\<close> Calls to the DynamoDB table go through \<open>Service\<close>: a \<open>service_world\<close> is the table with the list of
  what happens around each call, namely arbitrary steps of the other gateway instances before it, and whether
  the call succeeds, is lost, or takes effect and reports an error. The locale \<open>service_guarantee\<close> turns laws about
  single transactions into triples about whole operations under any interference that obeys the same laws; the
  budget store (\<open>store_guarantee\<close>) and the audit log (\<open>audit_guarantee\<close>) extend it and are interpreted twice each,
  for two guarantees; the key rows interpret it directly (\<open>keys\<close>). What needs the calls of an instance to succeed
  is stated over \<open>calm\<close> worlds, where only the other instances are arbitrary. Within an instance, the await points of the policy resolver are the steps of a state
  machine (\<open>PolicyResolver\<close>); other operations run under a lock or without an await and are one step, or, in the
  key service, are taken one after the other (\<open>interleaved\<close> shows what two at once can do).

  \<^bold>\<open>Components.\<close>
  \<^item> \<open>Health\<close> (\<open>health_tracker.py\<close>): cooldowns and latency windows of providers.
  \<^item> \<open>Strategies\<close> (\<open>routing.py\<close>, the selection step of \<open>smart_routing.py\<close>): the five strategies, each an interpretation
    of the locale \<open>routing_strategy\<close> that the router relies on.
  \<^item> \<open>Messages\<close>, \<open>Fallback\<close> (\<open>models.py\<close>, \<open>router.py\<close>, the lookups of \<open>model_registry.py\<close> and \<open>cost_tracker.py\<close>):
    \<open>execute_with_fallback\<close> with availability, retries and backoff, health marking and response relabelling.
  \<^item> \<open>RateLimit\<close> (\<open>rate_limiter.py\<close>), \<open>SharedWindow\<close> (\<open>consume_rate_limit_window\<close> of \<open>persistence.py\<close>): the sliding
    window of one process (locale \<open>sliding_window\<close>, interpreted for users and projects), the client of the shared
    fixed window, and that window across the fleet (locale \<open>window_counter\<close>).
  \<^item> \<open>PolicyTree\<close>, \<open>PolicyResolver\<close> (\<open>auth/policy_hierarchy.py\<close>): ancestry and merge of limits, validation, and the
    snapshots, refreshes, cache and conditional writes of the resolver per tenant.
  \<^item> \<open>Quota\<close>, \<open>QuotaProps\<close>, \<open>QuotaLedger\<close> (\<open>quota_enforcer.py\<close>): enforcement of a policy, local and shared
    reservations, alerts, and the ledger of a single node.
  \<^item> \<open>SpendStore\<close>, \<open>SpendStoreProps\<close>, \<open>SpendClaims\<close> (the spend counters of \<open>persistence.py\<close>): reservation, settlement,
    release, lease cleanup and resets as conditional transactions.
  \<^item> \<open>Region\<close>, \<open>RegionProps\<close> (\<open>multi_region/\<close>): the topology, the choice of a region, and the health monitor.
  \<^item> \<open>Redaction\<close>, \<open>RedactionProps\<close> (\<open>security/pii_redactor.py\<close>): spans, tokens, redaction of messages, re-injection.
  \<^item> \<open>AuditTrail\<close>, \<open>AuditProps\<close> (\<open>security/audit_trail.py\<close> and the audit tables of \<open>persistence.py\<close>): the hash chain per
    tenant, its durable append, hydration and verification.
  \<^item> \<open>Authorization\<close>, \<open>ControlPlane\<close>, \<open>ControlPlaneProps\<close> (\<open>auth/authorization.py\<close>, \<open>middleware/tenant_authorization.py\<close>,
    \<open>middleware/admin_rbac.py\<close>, the grant guard of \<open>admin/key_routes.py\<close>): roles, scopes and break-glass access.
  \<^item> \<open>ApiKeys\<close>, \<open>ApiKeysProps\<close>, \<open>ApiKeysLife\<close> (\<open>auth/api_key_service.py\<close> and the key rows of \<open>persistence.py\<close>): the cache of an
    instance with the epochs it polls, and issuing, revoking and rotating as transactions on rows, principals and epochs.
  \<^item> \<open>CostTracker\<close>, \<open>CostTrackerProps\<close>, \<open>CostReport\<close> (\<open>cost_tracker.py\<close>): the charge of a call, the usage history and
    running totals of a process over the budget store, budget checks and the usage report.
  \<^item> \<open>QueryTable\<close>, \<open>QueryStore\<close>, \<open>QueryFleet\<close>, \<open>QueryGuard\<close>, \<open>QueryProps\<close> (the query rows, counters and slots of
    \<open>persistence.py\<close>): reserving, starting, settling, claiming, deferring and acknowledging a query as conditional transactions,
    the steps a fleet can take on the table, and the guarantee \<open>queries\<close> that every store call keeps to them.
  \<^item> \<open>Athena\<close>, \<open>AthenaProps\<close> (\<open>query/athena.py\<close>): the bounded execution of one query, its cancellation, the reading of results.
  \<^item> \<open>QueryService\<close>, \<open>QueryServiceProps\<close>, \<open>QuerySelect\<close> (\<open>query/admission.py\<close>, \<open>query/service.py\<close>): a call of the service from
    the identity checks through admission and execution to settlement and record, on every way out.
  \<^item> \<open>QueryReconcile\<close>, \<open>QueryReconcileProps\<close>, \<open>QueryQuiet\<close> (\<open>query/reconciliation.py\<close>): the passes of the worker that
    closes interrupted queries.

  \<^bold>\<open>How they meet.\<close> The router uses the health tracker and a strategy through \<open>routing_strategy\<close>; the quota enforcer and the
  redactor read the policy the resolver produces; the enforcer's shared reservations are the calls of the budget
  store; the control plane records a break-glass access through the audit trail before it rebinds a request,
  and its property rests on the triple of \<open>record_event\<close>. The query service authorizes with \<open>require_authorized\<close>, is
  limited by the shared fixed window, and its calls and the worker's passes are both shown to be sequences of the steps
  of \<open>QueryFleet\<close>, so the invariants of the query table hold whatever runs at once.

  \<^bold>\<open>What is shown.\<close> Availability and boundedness of the fallback (it answers whenever one healthy mapping does, from permitted
  mappings only, within its bound on calls); narrowing and currency of policies; window bounds of both limiters;
  conservation of spend: every counter is the sum of what its requests were charged, once each, under interference
  and lost replies; residency, cooldown and failure counting of regions; the round trip of redaction; refinement
  of an append-only log by the audit trail and the impossibility of forging a chain behind a known head; isolation
  of tenants and non-escalation of issued keys; the time within which a revoked key is refused everywhere and the
  atomicity of rotation; for governed queries the concurrency and scan budgets under interference, the limits of every answer,
  the settlement and record of every answered or failed query, and the closing of interrupted ones by the worker;
  budget checks that agree across instances, survive restarts and trimming, and do not reopen within an epoch. Negative results are stated as what the code does
  (\<open>int_limit_reservations_stay\<close>, \<open>late_commit_goes_back\<close>, \<open>drained_region_returns\<close>, \<open>longer_overlap_dropped\<close>,
  \<open>clock_skew_reads_tampered\<close>, \<open>legacy_outage_starts_at_genesis\<close>, \<open>buffer_verifies_until_overflow\<close>,
  \<open>failed_first_poll_keeps_revoked_key\<close>, \<open>interleaved_validations_keep_revoked_key\<close>).

  \<^bold>\<open>Bounds.\<close> Loops with a bound in the code keep it: five attempts of a reservation, three of a settlement, five of an audit
  append, \<open>max_retries\<close> of the router; the recursion is on what is left of the bound, so all definitions are total and
  running out is the code's own error. The walk of the policy tree stops at a node seen before; its measure is
  the set of nodes not yet visited. Waiting for Athena and reading its pages are \<open>partial_function\<close>s; waiting is shown to end
  (\<open>wait_for_query_ends\<close>), reading ends when the client stops handing out new page tokens, and a pass of the worker is
  bounded by its pages.

  \<^bold>\<open>Not modelled.\<close> HTTP handlers, identity federation and token validation, provider adapters, the SQL policy of governed queries,
  export jobs, configuration and bootstrap are input and output around these decisions or left to later work;
  ensemble routing and the task classifier call models to decide; what a regular expression matches is a
  parameter; deployment, operations and benchmark code is outside the gateway. IEEE rounding, the size limits of
  DynamoDB items and the expiry of its rows are abstracted from.
\<close>

end
